(* ===== verification/Js_Prelude.thy ===== *)
theory Js_Prelude
  imports Main "HOL-Library.AList"
begin

text \<open>
  What the JavaScript library functions used by the SIP stack do, for the strings, numbers
  and objects the stack gives them.  A JavaScript string is a \<^typ>\<open>string\<close> whose characters
  stand for code units below 256 (header names, tokens, URIs and tags are ASCII); the one
  component that looks at wider code units, the MD5 routine, has its own model of them.
  An object used as a dictionary is an association list in insertion order: assignment to a
  present key keeps its place and a new key goes last, which is \<open>AList.update\<close>, and
  \<open>delete\<close> is \<open>AList.delete\<close>.  (Keys that spell array indices are ordered differently in
  JavaScript; header and parameter names are not of that form.)
\<close>

named_theorems obj_simps \<open>laws of JavaScript objects used as dictionaries\<close>
named_theorems str_simps \<open>laws of the string functions\<close>

section \<open>Objects as dictionaries\<close>

type_synonym 'v js_object = "(string \<times> 'v) list"

abbreviation obj_get :: "'v js_object \<Rightarrow> string \<Rightarrow> 'v option" where
  "obj_get ob k \<equiv> map_of ob k"

definition obj_has :: "'v js_object \<Rightarrow> string \<Rightarrow> bool" where
  "obj_has ob k = (obj_get ob k \<noteq> None)"

definition obj_put :: "string \<Rightarrow> 'v \<Rightarrow> 'v js_object \<Rightarrow> 'v js_object" where
  "obj_put k v ob = AList.update k v ob"

definition obj_del :: "string \<Rightarrow> 'v js_object \<Rightarrow> 'v js_object" where
  "obj_del k ob = AList.delete k ob"

definition obj_wf :: "'v js_object \<Rightarrow> bool" where
  "obj_wf ob = distinct (map fst ob)"

lemma obj_get_put [simp, obj_simps]:
  "obj_get (obj_put k v ob) k' = (if k' = k then Some v else obj_get ob k')"
  by (simp add: obj_put_def update_conv')

lemma obj_get_del [simp, obj_simps]:
  "obj_get (obj_del k ob) k' = (if k' = k then None else obj_get ob k')"
  by (simp add: obj_del_def delete_conv')

lemma obj_has_put [simp, obj_simps]: "obj_has (obj_put k v ob) k' \<longleftrightarrow> k' = k \<or> obj_has ob k'"
  by (simp add: obj_has_def)

lemma obj_has_del [simp, obj_simps]: "obj_has (obj_del k ob) k' \<longleftrightarrow> k' \<noteq> k \<and> obj_has ob k'"
  by (simp add: obj_has_def)

lemma obj_has_Nil [simp, obj_simps]: "\<not> obj_has [] k"
  by (simp add: obj_has_def)

lemma obj_wf_Nil [simp, obj_simps]: "obj_wf []"
  by (simp add: obj_wf_def)

lemma obj_wf_put [simp, intro, obj_simps]: "obj_wf ob \<Longrightarrow> obj_wf (obj_put k v ob)"
  by (simp add: obj_wf_def obj_put_def distinct_update)

lemma obj_wf_del [simp, intro, obj_simps]: "obj_wf ob \<Longrightarrow> obj_wf (obj_del k ob)"
  by (simp add: obj_wf_def obj_del_def distinct_delete)

lemma obj_keys_put: "fst ` set (obj_put k v ob) = insert k (fst ` set ob)"
  by (simp add: obj_put_def dom_update)

lemma obj_has_iff: "obj_has ob k \<longleftrightarrow> k \<in> fst ` set ob"
  by (metis obj_has_def map_of_eq_None_iff)

lemma obj_put_fresh: "\<not> obj_has ob k \<Longrightarrow> obj_put k v ob = ob @ [(k, v)]"
  by (induction ob) (auto simp: obj_put_def obj_has_def split: if_splits)

lemma obj_put_same: "obj_get ob k = Some v \<Longrightarrow> obj_wf ob \<Longrightarrow> obj_put k v ob = ob"
  by (induction ob) (auto simp: obj_put_def obj_wf_def split: if_splits)

lemma obj_put_twice: "obj_put k v (obj_put k w ob) = obj_put k v ob"
  by (induction ob) (auto simp: obj_put_def)

lemma obj_wf_append_fresh: "obj_wf (ob @ [(k, v)]) \<longleftrightarrow> obj_wf ob \<and> \<not> obj_has ob k"
  by (auto simp: obj_wf_def obj_has_iff)

section \<open>Characters and strings\<close>

definition char_code :: "char \<Rightarrow> nat" where
  "char_code c = of_char c"

lemma char_code_less [simp]: "char_code c < 256"
  by (simp add: char_code_def)

lemma char_code_not_ge [simp]: "\<not> 256 \<le> char_code c"
  by (simp add: not_le)

lemma char_code_of [simp]: "n < 256 \<Longrightarrow> char_code (char_of n) = n"
  by (simp add: char_code_def)

lemma char_code_inj [simp]: "char_code c = char_code d \<longleftrightarrow> c = d"
  by (simp add: char_code_def)

definition lower_char :: "char \<Rightarrow> char" where
  "lower_char c = (if 65 \<le> char_code c \<and> char_code c \<le> 90 then char_of (char_code c + 32) else c)"

definition upper_char :: "char \<Rightarrow> char" where
  "upper_char c = (if 97 \<le> char_code c \<and> char_code c \<le> 122 then char_of (char_code c - 32) else c)"

definition to_lower :: "string \<Rightarrow> string" where
  "to_lower s = map lower_char s"

definition to_upper :: "string \<Rightarrow> string" where
  "to_upper s = map upper_char s"

lemma lower_char_idem [simp]: "lower_char (lower_char c) = lower_char c"
  by (auto simp: lower_char_def)

lemma upper_char_idem [simp]: "upper_char (upper_char c) = upper_char c"
  by (auto simp: upper_char_def)

lemma lower_upper_char [simp]: "lower_char (upper_char c) = lower_char c"
proof (cases "97 \<le> char_code c \<and> char_code c \<le> 122")
  case True
  have "char_of (char_code c - 32 + 32) = c"
    using True by (simp add: char_code_def)
  with True show ?thesis by (auto simp: lower_char_def upper_char_def)
next
  case False
  then show ?thesis by (auto simp: upper_char_def)
qed

lemma to_lower_idem [simp, str_simps]: "to_lower (to_lower s) = to_lower s"
  by (induction s) (auto simp: to_lower_def)

lemma to_lower_append [simp, str_simps]: "to_lower (s @ t) = to_lower s @ to_lower t"
  by (simp add: to_lower_def)

lemma to_lower_Nil [simp, str_simps]: "to_lower [] = []"
  by (simp add: to_lower_def)

lemma to_lower_eq_Nil [simp, str_simps]: "to_lower s = [] \<longleftrightarrow> s = []"
  by (simp add: to_lower_def)

lemma length_to_lower [simp, str_simps]: "length (to_lower s) = length s"
  by (simp add: to_lower_def)

text \<open>The characters \<open>\s\<close> and \<open>trim\<close> take as white space, below 256.\<close>

definition is_space :: "char \<Rightarrow> bool" where
  "is_space c = (char_code c \<in> {9, 10, 11, 12, 13, 32, 160})"

definition js_trim :: "string \<Rightarrow> string" where
  "js_trim s = rev (dropWhile is_space (rev (dropWhile is_space s)))"

definition js_substring :: "string \<Rightarrow> nat \<Rightarrow> nat \<Rightarrow> string" where
  "js_substring s i j = take (max i j - min i j) (drop (min i j) s)"

fun starts_with :: "string \<Rightarrow> string \<Rightarrow> bool" where
  "starts_with [] s = True"
| "starts_with (p # ps) [] = False"
| "starts_with (p # ps) (c # cs) = (p = c \<and> starts_with ps cs)"

lemma starts_with_append [simp, str_simps]: "starts_with p (p @ s)"
  by (induction p) auto

lemma starts_with_iff: "starts_with p s \<longleftrightarrow> (\<exists>t. s = p @ t)"
  by (induction p s rule: starts_with.induct) auto

text \<open>\<open>s.indexOf(p, from)\<close>: the least position at or after \<open>from\<close>, \<open>None\<close> for -1.\<close>

fun index_from :: "string \<Rightarrow> nat \<Rightarrow> string \<Rightarrow> nat option" where
  "index_from p i [] = (if p = [] then Some i else None)"
| "index_from p i (c # cs) = (if starts_with p (c # cs) then Some i else index_from p (Suc i) cs)"

definition index_of :: "string \<Rightarrow> string \<Rightarrow> nat \<Rightarrow> nat option" where
  "index_of s p from = index_from p from (drop from s)"

lemma index_from_ge: "index_from p i s = Some k \<Longrightarrow> i \<le> k \<and> k \<le> i + length s"
  by (induction p i s rule: index_from.induct) (fastforce split: if_splits)+

lemma index_of_ge: "index_of s p from = Some k \<Longrightarrow> from \<le> k"
  by (auto simp: index_of_def dest: index_from_ge)

text \<open>\<open>split\<close> at a one-character separator, and \<open>join\<close>.\<close>

fun js_split :: "char \<Rightarrow> string \<Rightarrow> string list" where
  "js_split c [] = [[]]"
| "js_split c (x # xs) =
     (if x = c then [] # js_split c xs
      else (case js_split c xs of [] \<Rightarrow> [[x]] | w # ws \<Rightarrow> (x # w) # ws))"

fun js_join :: "string \<Rightarrow> string list \<Rightarrow> string" where
  "js_join sep [] = []"
| "js_join sep [w] = w"
| "js_join sep (w # v # ws) = w @ sep @ js_join sep (v # ws)"

lemma js_split_not_Nil [simp, str_simps]: "js_split c s \<noteq> []"
  by (induction s) (auto split: list.splits)

lemma js_join_Cons_hd: "js_join sep ((x # w) # ws) = x # js_join sep (w # ws)"
  by (cases ws) auto

lemma js_join_Nil_Cons: "ws \<noteq> [] \<Longrightarrow> js_join sep ([] # ws) = sep @ js_join sep ws"
  by (cases ws) auto

lemma js_join_split [simp, str_simps]: "js_join [c] (js_split c s) = s"
proof (induction s)
  case Nil
  then show ?case by simp
next
  case (Cons x xs)
  then show ?case
    by (cases "js_split c xs") (auto simp: js_join_Nil_Cons js_join_Cons_hd)
qed

lemma js_split_no_sep: "w \<in> set (js_split c s) \<Longrightarrow> c \<notin> set w"
  by (induction s arbitrary: w) (force split: if_splits list.splits)+

lemma js_split_id: "c \<notin> set s \<Longrightarrow> js_split c s = [s]"
  by (induction s) auto

lemma length_js_split: "length (js_split c s) = Suc (count_list s c)"
  by (induction s) (auto split: list.splits)

section \<open>Numbers as strings\<close>

definition digit_char :: "nat \<Rightarrow> char" where
  "digit_char d = char_of (if d < 10 then 48 + d else 87 + d)"

text \<open>\<open>n.toString(base)\<close> for a natural number, and the number a digit string denotes.\<close>

fun digits_in :: "nat \<Rightarrow> nat \<Rightarrow> string" where
  "digits_in b n =
     (if b < 2 \<or> n < b then [digit_char n] else digits_in b (n div b) @ [digit_char (n mod b)])"

declare digits_in.simps [simp del]

definition num_str :: "nat \<Rightarrow> string" where
  "num_str n = digits_in 10 n"

definition digit_val :: "char \<Rightarrow> nat" where
  "digit_val c =
     (let n = char_code c in
      if 48 \<le> n \<and> n \<le> 57 then n - 48 else if 97 \<le> n \<and> n \<le> 122 then n - 87 else 36)"

definition value_in :: "nat \<Rightarrow> string \<Rightarrow> nat" where
  "value_in b s = foldl (\<lambda>v c. v * b + digit_val c) 0 s"

lemma digit_val_char: "d < 36 \<Longrightarrow> digit_val (digit_char d) = d"
  by (simp add: digit_val_def digit_char_def Let_def)

lemma value_in_append: "value_in b (s @ [c]) = value_in b s * b + digit_val c"
  by (simp add: value_in_def)

lemma digits_in_not_Nil [simp]: "digits_in b n \<noteq> []"
  by (subst digits_in.simps) simp

lemma value_digits_in: "2 \<le> b \<Longrightarrow> b \<le> 36 \<Longrightarrow> value_in b (digits_in b n) = n"
proof (induction b n rule: digits_in.induct)
  case (1 b n)
  show ?case
  proof (cases "n < b")
    case True
    with 1 show ?thesis
      by (subst digits_in.simps) (simp add: value_in_def digit_val_char)
  next
    case False
    with 1 have "value_in b (digits_in b (n div b)) = n div b" by simp
    with False 1 show ?thesis
      by (subst digits_in.simps)
        (simp add: value_in_append digit_val_char less_le_trans [OF mod_less_divisor])
  qed
qed

lemma digits_in_inj: "2 \<le> b \<Longrightarrow> b \<le> 36 \<Longrightarrow> digits_in b m = digits_in b n \<longleftrightarrow> m = n"
  by (metis value_digits_in)

lemma num_str_inj [simp]: "num_str m = num_str n \<longleftrightarrow> m = n"
  by (simp add: num_str_def digits_in_inj)

lemma num_str_not_Nil [simp]: "num_str n \<noteq> []"
  by (simp add: num_str_def)

lemma length_digits_in: "2 \<le> b \<Longrightarrow> 0 < k \<Longrightarrow> n < b ^ k \<Longrightarrow> length (digits_in b n) \<le> k"
proof (induction k arbitrary: n)
  case 0
  then show ?case by simp
next
  case (Suc k)
  show ?case
  proof (cases "n < b")
    case True
    then show ?thesis by (subst digits_in.simps) simp
  next
    case False
    with Suc.prems have "0 < k" by (cases k) auto
    moreover have "n div b < b ^ k"
      using Suc.prems by (metis less_mult_imp_div_less power_Suc2)
    ultimately have "length (digits_in b (n div b)) \<le> k"
      using Suc by simp
    with False Suc.prems show ?thesis by (subst digits_in.simps) simp
  qed
qed

lemma length_digits_in_ge: "2 \<le> b \<Longrightarrow> b ^ k \<le> n \<Longrightarrow> k < length (digits_in b n)"
proof (induction k arbitrary: n)
  case 0
  then show ?case by simp
next
  case (Suc k)
  have "b * 1 \<le> b * b ^ k" using Suc.prems by (intro mult_le_mono) auto
  also have "\<dots> \<le> n" using Suc.prems by simp
  finally have "b \<le> n" by simp
  moreover have "b ^ k \<le> n div b"
    using Suc.prems by (simp add: less_eq_div_iff_mult_less_eq mult.commute)
  ultimately have "k < length (digits_in b (n div b))"
    using Suc by simp
  with \<open>b \<le> n\<close> Suc.prems show ?case by (subst digits_in.simps) simp
qed

lemma digits_in_chars: "2 \<le> b \<Longrightarrow> c \<in> set (digits_in b n) \<Longrightarrow> \<exists>d < b. c = digit_char d"
proof (induction b n rule: digits_in.induct)
  case (1 b n)
  have "n mod b < b" using 1(2) by simp
  then have "\<exists>d < b. digit_char (n mod b) = digit_char d" by blast
  with 1 show ?case
    by (auto simp: digits_in.simps [of b n] split: if_splits)
qed

section \<open>Results\<close>

text \<open>A thrown exception is \<open>Inl\<close>, a returned value \<open>Inr\<close>.\<close>

fun bind_result :: "'e + 'a \<Rightarrow> ('a \<Rightarrow> 'e + 'b) \<Rightarrow> 'e + 'b" where
  "bind_result (Inl e) f = Inl e"
| "bind_result (Inr a) f = f a"

lemma bind_result_Inr: "bind_result r f = Inr b \<longleftrightarrow> (\<exists>a. r = Inr a \<and> f a = Inr b)"
  by (cases r) auto

end
