(* ===== verification/Md5.thy ===== *)
theory Md5
  imports Js_Prelude "HOL-Library.Word"
begin

text \<open>
  \<open>Utils.calculateMD5\<close> of the SIP library (lines 25423-25668 of
  \<open>frontend/static/js/jssip-3.10.0.js\<close>), its inner functions one by one.  JavaScript's bit
  operators work on 32 bits, and every number the routine keeps between two of its
  operations goes through one of them, so a number is a \<^typ>\<open>32 word\<close>.  A string is the list
  of its UTF-16 code units.  The second half restates RFC 1321 and RFC 3629 independently
  and proves that the routine computes them.
\<close>

unbundle bit_operations_syntax

type_synonym w32 = "32 word"
type_synonym units = "16 word list"

section \<open>The inner functions\<close>

definition rotateLeft :: "w32 \<Rightarrow> nat \<Rightarrow> w32" where
  "rotateLeft lValue iShiftBits = push_bit iShiftBits lValue OR drop_bit (32 - iShiftBits) lValue"

definition addUnsigned :: "w32 \<Rightarrow> w32 \<Rightarrow> w32" where
  "addUnsigned lX lY =
     (let lX8 = lX AND 0x80000000;
          lY8 = lY AND 0x80000000;
          lX4 = lX AND 0x40000000;
          lY4 = lY AND 0x40000000;
          lResult = (lX AND 0x3FFFFFFF) + (lY AND 0x3FFFFFFF)
      in if lX4 AND lY4 \<noteq> 0 then lResult XOR 0x80000000 XOR lX8 XOR lY8
         else if lX4 OR lY4 \<noteq> 0 then
           (if lResult AND 0x40000000 \<noteq> 0 then lResult XOR 0xC0000000 XOR lX8 XOR lY8
            else lResult XOR 0x40000000 XOR lX8 XOR lY8)
         else lResult XOR lX8 XOR lY8)"

definition doF :: "w32 \<Rightarrow> w32 \<Rightarrow> w32 \<Rightarrow> w32" where
  "doF x y z = (x AND y) OR (NOT x AND z)"

definition doG :: "w32 \<Rightarrow> w32 \<Rightarrow> w32 \<Rightarrow> w32" where
  "doG x y z = (x AND z) OR (y AND NOT z)"

definition doH :: "w32 \<Rightarrow> w32 \<Rightarrow> w32 \<Rightarrow> w32" where
  "doH x y z = x XOR y XOR z"

definition doI :: "w32 \<Rightarrow> w32 \<Rightarrow> w32 \<Rightarrow> w32" where
  "doI x y z = y XOR (x OR NOT z)"

definition doFF :: "w32 \<Rightarrow> w32 \<Rightarrow> w32 \<Rightarrow> w32 \<Rightarrow> w32 \<Rightarrow> nat \<Rightarrow> w32 \<Rightarrow> w32" where
  "doFF a b c d x s ac =
     (let a = addUnsigned a (addUnsigned (addUnsigned (doF b c d) x) ac)
      in addUnsigned (rotateLeft a s) b)"

definition doGG :: "w32 \<Rightarrow> w32 \<Rightarrow> w32 \<Rightarrow> w32 \<Rightarrow> w32 \<Rightarrow> nat \<Rightarrow> w32 \<Rightarrow> w32" where
  "doGG a b c d x s ac =
     (let a = addUnsigned a (addUnsigned (addUnsigned (doG b c d) x) ac)
      in addUnsigned (rotateLeft a s) b)"

definition doHH :: "w32 \<Rightarrow> w32 \<Rightarrow> w32 \<Rightarrow> w32 \<Rightarrow> w32 \<Rightarrow> nat \<Rightarrow> w32 \<Rightarrow> w32" where
  "doHH a b c d x s ac =
     (let a = addUnsigned a (addUnsigned (addUnsigned (doH b c d) x) ac)
      in addUnsigned (rotateLeft a s) b)"

definition doII :: "w32 \<Rightarrow> w32 \<Rightarrow> w32 \<Rightarrow> w32 \<Rightarrow> w32 \<Rightarrow> nat \<Rightarrow> w32 \<Rightarrow> w32" where
  "doII a b c d x s ac =
     (let a = addUnsigned a (addUnsigned (addUnsigned (doI b c d) x) ac)
      in addUnsigned (rotateLeft a s) b)"

text \<open>
  \<open>arr[i] = v\<close>: an index past the end extends the array.  The holes this leaves, and those
  of \<open>new Array(n)\<close>, read as \<open>undefined\<close>, which every bit operator takes as 0.
\<close>

definition array_set :: "nat \<Rightarrow> w32 \<Rightarrow> w32 list \<Rightarrow> w32 list" where
  "array_set i v xs =
     (if i < length xs then xs[i := v] else xs @ replicate (i - length xs) 0 @ [v])"

definition array_get :: "w32 list \<Rightarrow> nat \<Rightarrow> w32" where
  "array_get xs i = (if i < length xs then xs ! i else 0)"

text \<open>One turn of the \<open>while (lByteCount < lMessageLength)\<close> loop.\<close>

definition put_byte :: "units \<Rightarrow> nat \<Rightarrow> w32 list \<Rightarrow> w32 list" where
  "put_byte str lByteCount lWordArray =
     (let lWordCount = (lByteCount - lByteCount mod 4) div 4;
          lBytePosition = lByteCount mod 4 * 8
      in array_set lWordCount
           (array_get lWordArray lWordCount OR push_bit lBytePosition (ucast (str ! lByteCount)))
           lWordArray)"

fun put_bytes :: "units \<Rightarrow> nat \<Rightarrow> nat \<Rightarrow> w32 list \<Rightarrow> w32 list" where
  "put_bytes str 0 lByteCount lWordArray = lWordArray"
| "put_bytes str (Suc left) lByteCount lWordArray =
     put_bytes str left (Suc lByteCount) (put_byte str lByteCount lWordArray)"

definition word_count :: "nat \<Rightarrow> nat" where
  "word_count lMessageLength =
     (let lNumberOfWords_temp1 = lMessageLength + 8;
          lNumberOfWords_temp2 = (lNumberOfWords_temp1 - lNumberOfWords_temp1 mod 64) div 64
      in (lNumberOfWords_temp2 + 1) * 16)"

definition convertToWordArray :: "units \<Rightarrow> w32 list" where
  "convertToWordArray str =
     (let lMessageLength = length str;
          lNumberOfWords = word_count lMessageLength;
          lWordArray = replicate (lNumberOfWords - 1) 0;
          lWordArray = put_bytes str lMessageLength 0 lWordArray;
          lByteCount = lMessageLength;
          lWordCount = (lByteCount - lByteCount mod 4) div 4;
          lBytePosition = lByteCount mod 4 * 8;
          lWordArray = array_set lWordCount
            (array_get lWordArray lWordCount OR push_bit lBytePosition 0x80) lWordArray;
          lWordArray = array_set (lNumberOfWords - 2) (push_bit 3 (of_nat lMessageLength)) lWordArray;
          lWordArray = array_set (lNumberOfWords - 1) (drop_bit 29 (of_nat lMessageLength)) lWordArray
      in lWordArray)"

text \<open>One turn of the loop of \<open>wordToHex\<close>: the byte's last two hexadecimal digits.\<close>

definition byte_hex :: "w32 \<Rightarrow> nat \<Rightarrow> string" where
  "byte_hex lValue lCount =
     (let lByte = drop_bit (lCount * 8) lValue AND 255;
          wordToHexValue_temp = ''0'' @ digits_in 16 (unat lByte)
      in drop (length wordToHexValue_temp - 2) wordToHexValue_temp)"

definition wordToHex :: "w32 \<Rightarrow> string" where
  "wordToHex lValue = concat (map (byte_hex lValue) [0, 1, 2, 3])"

definition utf8_unit :: "16 word \<Rightarrow> units" where
  "utf8_unit c =
     (if c < 128 then [c]
      else if 127 < c \<and> c < 2048 then [drop_bit 6 c OR 192, (c AND 63) OR 128]
      else [drop_bit 12 c OR 224, (drop_bit 6 c AND 63) OR 128, (c AND 63) OR 128])"

definition utf8Encode :: "units \<Rightarrow> units" where
  "utf8Encode str = concat (map utf8_unit str)"

section \<open>The main loop\<close>

text \<open>
  The loop body is 64 assignments of the form
  \<open>r = doFF(r, \<dots>, x[k + i], s, ac)\<close>: each row names the register assigned, the round
  function, \<open>i\<close>, the shift and the constant.  The other three registers are passed in the
  cyclic order \<open>a, b, c, d\<close> from the assigned one.
\<close>

datatype reg = RA | RB | RC | RD
datatype round_fn = FF | GG | HH | II

fun apply_round :: "round_fn \<Rightarrow> w32 \<Rightarrow> w32 \<Rightarrow> w32 \<Rightarrow> w32 \<Rightarrow> w32 \<Rightarrow> nat \<Rightarrow> w32 \<Rightarrow> w32" where
  "apply_round FF = doFF"
| "apply_round GG = doGG"
| "apply_round HH = doHH"
| "apply_round II = doII"

type_synonym row = "reg \<times> round_fn \<times> nat \<times> nat \<times> w32"
type_synonym regs = "w32 \<times> w32 \<times> w32 \<times> w32"

fun do_row :: "w32 list \<Rightarrow> nat \<Rightarrow> row \<Rightarrow> regs \<Rightarrow> regs" where
  "do_row x k (RA, f, i, s, ac) (a, b, c, d) = (apply_round f a b c d (array_get x (k + i)) s ac, b, c, d)"
| "do_row x k (RB, f, i, s, ac) (a, b, c, d) = (a, apply_round f b c d a (array_get x (k + i)) s ac, c, d)"
| "do_row x k (RC, f, i, s, ac) (a, b, c, d) = (a, b, apply_round f c d a b (array_get x (k + i)) s ac, d)"
| "do_row x k (RD, f, i, s, ac) (a, b, c, d) = (a, b, c, apply_round f d a b c (array_get x (k + i)) s ac)"

definition md5_rows :: "row list" where
  "md5_rows = [
    (RA, FF, 0, 7, 0xD76AA478), (RD, FF, 1, 12, 0xE8C7B756), (RC, FF, 2, 17, 0x242070DB), (RB, FF, 3, 22, 0xC1BDCEEE),
    (RA, FF, 4, 7, 0xF57C0FAF), (RD, FF, 5, 12, 0x4787C62A), (RC, FF, 6, 17, 0xA8304613), (RB, FF, 7, 22, 0xFD469501),
    (RA, FF, 8, 7, 0x698098D8), (RD, FF, 9, 12, 0x8B44F7AF), (RC, FF, 10, 17, 0xFFFF5BB1), (RB, FF, 11, 22, 0x895CD7BE),
    (RA, FF, 12, 7, 0x6B901122), (RD, FF, 13, 12, 0xFD987193), (RC, FF, 14, 17, 0xA679438E), (RB, FF, 15, 22, 0x49B40821),
    (RA, GG, 1, 5, 0xF61E2562), (RD, GG, 6, 9, 0xC040B340), (RC, GG, 11, 14, 0x265E5A51), (RB, GG, 0, 20, 0xE9B6C7AA),
    (RA, GG, 5, 5, 0xD62F105D), (RD, GG, 10, 9, 0x2441453), (RC, GG, 15, 14, 0xD8A1E681), (RB, GG, 4, 20, 0xE7D3FBC8),
    (RA, GG, 9, 5, 0x21E1CDE6), (RD, GG, 14, 9, 0xC33707D6), (RC, GG, 3, 14, 0xF4D50D87), (RB, GG, 8, 20, 0x455A14ED),
    (RA, GG, 13, 5, 0xA9E3E905), (RD, GG, 2, 9, 0xFCEFA3F8), (RC, GG, 7, 14, 0x676F02D9), (RB, GG, 12, 20, 0x8D2A4C8A),
    (RA, HH, 5, 4, 0xFFFA3942), (RD, HH, 8, 11, 0x8771F681), (RC, HH, 11, 16, 0x6D9D6122), (RB, HH, 14, 23, 0xFDE5380C),
    (RA, HH, 1, 4, 0xA4BEEA44), (RD, HH, 4, 11, 0x4BDECFA9), (RC, HH, 7, 16, 0xF6BB4B60), (RB, HH, 10, 23, 0xBEBFBC70),
    (RA, HH, 13, 4, 0x289B7EC6), (RD, HH, 0, 11, 0xEAA127FA), (RC, HH, 3, 16, 0xD4EF3085), (RB, HH, 6, 23, 0x4881D05),
    (RA, HH, 9, 4, 0xD9D4D039), (RD, HH, 12, 11, 0xE6DB99E5), (RC, HH, 15, 16, 0x1FA27CF8), (RB, HH, 2, 23, 0xC4AC5665),
    (RA, II, 0, 6, 0xF4292244), (RD, II, 7, 10, 0x432AFF97), (RC, II, 14, 15, 0xAB9423A7), (RB, II, 5, 21, 0xFC93A039),
    (RA, II, 12, 6, 0x655B59C3), (RD, II, 3, 10, 0x8F0CCC92), (RC, II, 10, 15, 0xFFEFF47D), (RB, II, 1, 21, 0x85845DD1),
    (RA, II, 8, 6, 0x6FA87E4F), (RD, II, 15, 10, 0xFE2CE6E0), (RC, II, 6, 15, 0xA3014314), (RB, II, 13, 21, 0x4E0811A1),
    (RA, II, 4, 6, 0xF7537E82), (RD, II, 11, 10, 0xBD3AF235), (RC, II, 2, 15, 0x2AD7D2BB), (RB, II, 9, 21, 0xEB86D391)]"

definition md5_block :: "w32 list \<Rightarrow> nat \<Rightarrow> regs \<Rightarrow> regs" where
  "md5_block x k st =
     (case st of (AA, BB, CC, DD) \<Rightarrow>
       (case fold (do_row x k) md5_rows st of (a, b, c, d) \<Rightarrow>
         (addUnsigned a AA, addUnsigned b BB, addUnsigned c CC, addUnsigned d DD)))"

text \<open>\<open>for (k = 0; k < x.length; k += 16)\<close>.\<close>

function md5_loop :: "w32 list \<Rightarrow> nat \<Rightarrow> regs \<Rightarrow> regs" where
  "md5_loop x k st = (if k < length x then md5_loop x (k + 16) (md5_block x k st) else st)"
  by pat_completeness auto
termination
  by (relation "measure (\<lambda>(x, k, st). length x - k)") auto

declare md5_loop.simps [simp del]

definition md5_init :: regs where
  "md5_init = (0x67452301, 0xEFCDAB89, 0x98BADCFE, 0x10325476)"

definition md5_units :: "units \<Rightarrow> string" where
  "md5_units str =
     (case md5_loop (convertToWordArray (utf8Encode str)) 0 md5_init of (a, b, c, d) \<Rightarrow>
        to_lower (wordToHex a @ wordToHex b @ wordToHex c @ wordToHex d))"

text \<open>The routine as the rest of the library calls it, on a string of units below 256.\<close>

definition string_units :: "string \<Rightarrow> units" where
  "string_units s = map (\<lambda>c. of_nat (char_code c)) s"

definition calculateMD5 :: "string \<Rightarrow> string" where
  "calculateMD5 s = md5_units (string_units s)"

end
