(* ===== verification/Md5_Rfc.thy ===== *)
theory Md5_Rfc
  imports Md5
begin

text \<open>
  RFC 1321 (MD5) and RFC 3629 (UTF-8) restated over bytes, and the proof that
  \<^theory_text>\<open>calculateMD5\<close> computes them: the 30-bit addition is addition modulo \<open>2^32\<close>, the 64
  unrolled assignments are the 64 rounds, the word array is the padded message, and the
  printed registers are the digest.  The encoder is not UTF-8 on surrogate pairs, which is
  shown by evaluation.
\<close>

unbundle bit_operations_syntax

section \<open>Addition and rotation\<close>

definition pb :: "nat \<Rightarrow> w32" where "pb n = push_bit n 1"

lemma bit_pb [bit_simps]: "bit (pb m) n \<longleftrightarrow> n = m \<and> m < 32"
  by (auto simp: pb_def bit_simps)

lemma pb_numerals:
  "0x80000000 = pb 31" "0x40000000 = pb 30" "0xC0000000 = pb 30 XOR pb 31" "0x3FFFFFFF = (mask 30 :: w32)"
  by (simp_all add: pb_def mask_eq_exp_minus_1)

lemma pb_twice: "pb 31 + pb 31 = 0" "pb 30 + pb 30 = pb 31"
  by (simp_all add: pb_def)

lemma and_pb: "w AND pb n = (if bit w n then pb n else 0)"
  by (intro bit_word_eqI) (auto simp: bit_simps)

lemma xor_pb_clear: "\<not> bit w n \<Longrightarrow> w XOR pb n = w + pb n"
  by (rule disjunctive_add_eq_xor [symmetric]) (simp add: and_pb)

lemma xor_pb_set: "n < 32 \<Longrightarrow> bit w n \<Longrightarrow> (w XOR pb n) + pb n = w"
  by (subst xor_pb_clear [symmetric]) (simp_all add: bit_simps xor.assoc)

lemma xor_pb_set_add: "n < 32 \<Longrightarrow> bit w n \<Longrightarrow> w + pb n = (w XOR pb n) + (pb n + pb n)"
  by (metis add.assoc xor_pb_set)

lemma xor_pb31: "w XOR pb 31 = w + pb 31"
  by (cases "bit w 31") (simp_all add: xor_pb_clear xor_pb_set_add pb_twice)

lemma xor_pb30_set: "bit w 30 \<Longrightarrow> (w XOR pb 30) + pb 31 = w + pb 30"
  by (simp add: xor_pb_set_add pb_twice)

lemma split_top: "w = (w AND mask 30) + (w AND pb 30) + (w AND pb 31)"
proof -
  have 1: "(w AND mask 30) + (w AND pb 30) = (w AND mask 30) OR (w AND pb 30)"
    by (rule disjunctive_add_eq_or) (intro bit_word_eqI, auto simp: bit_simps)
  have 2: "\<dots> + (w AND pb 31) = \<dots> OR (w AND pb 31)"
    by (rule disjunctive_add_eq_or) (intro bit_word_eqI, auto simp: bit_simps)
  show ?thesis
    unfolding 1 2 by (intro bit_word_eqI) (auto simp: bit_simps)
qed

lemma xor_masked31: "u XOR (w AND pb 31) = u + (w AND pb 31)"
  by (simp add: and_pb xor_pb31)

lemma addUnsigned_eq [simp]: "addUnsigned x y = x + y"
proof -
  define r where "r = (x AND mask 30) + (y AND mask 30)"
  have xy: "x + y = r + ((x AND pb 30) + (y AND pb 30)) + (x AND pb 31) + (y AND pb 31)"
    by (subst split_top [of x], subst split_top [of y]) (simp add: r_def algebra_simps)
  have n: "pb 30 \<noteq> 0" "bit (pb 30) 30" by (simp_all add: pb_def bit_simps)
  show ?thesis
    unfolding xy addUnsigned_def Let_def pb_numerals r_def [symmetric] xor.assoc [symmetric]
       xor_masked31
    using n by (simp add: and_pb [of _ 30] xor_pb31 pb_twice xor_pb30_set xor_pb_clear add.assoc)
qed

lemma rotateLeft_eq: "0 < s \<Longrightarrow> s < 32 \<Longrightarrow> rotateLeft w s = word_rotl s w"
proof (rule bit_word_eqI)
  fix n assume s: "0 < s" "s < 32" and "n < LENGTH(32)"
  then have n: "n < 32" by simp
  show "bit (rotateLeft w s) n = bit (word_rotl s w) n"
  proof (cases "n < s")
    case True
    then have "(n + (32 - s)) mod 32 = 32 - s + n" using s by simp
    with True s n show ?thesis
      by (simp only: rotateLeft_def bit_simps bit_word_rotl_iff) simp
  next
    case False
    then have "(n + (32 - s)) mod 32 = n - s"
      using s n by (simp add: le_mod_geq)
    moreover have "\<not> bit w (32 - s + n)"
      using s n False by (auto dest: bit_imp_le_length)
    ultimately show ?thesis
      using False s n by (simp only: rotateLeft_def bit_simps bit_word_rotl_iff) simp
  qed
qed

section \<open>RFC 1321\<close>

text \<open>The constants, round functions, message indices and shifts of section 3.4 of the RFC.\<close>

definition rfc_K :: "w32 list" where
  "rfc_K = [
    0xd76aa478, 0xe8c7b756, 0x242070db, 0xc1bdceee, 0xf57c0faf, 0x4787c62a, 0xa8304613, 0xfd469501,
    0x698098d8, 0x8b44f7af, 0xffff5bb1, 0x895cd7be, 0x6b901122, 0xfd987193, 0xa679438e, 0x49b40821,
    0xf61e2562, 0xc040b340, 0x265e5a51, 0xe9b6c7aa, 0xd62f105d, 0x02441453, 0xd8a1e681, 0xe7d3fbc8,
    0x21e1cde6, 0xc33707d6, 0xf4d50d87, 0x455a14ed, 0xa9e3e905, 0xfcefa3f8, 0x676f02d9, 0x8d2a4c8a,
    0xfffa3942, 0x8771f681, 0x6d9d6122, 0xfde5380c, 0xa4beea44, 0x4bdecfa9, 0xf6bb4b60, 0xbebfbc70,
    0x289b7ec6, 0xeaa127fa, 0xd4ef3085, 0x04881d05, 0xd9d4d039, 0xe6db99e5, 0x1fa27cf8, 0xc4ac5665,
    0xf4292244, 0x432aff97, 0xab9423a7, 0xfc93a039, 0x655b59c3, 0x8f0ccc92, 0xffeff47d, 0x85845dd1,
    0x6fa87e4f, 0xfe2ce6e0, 0xa3014314, 0x4e0811a1, 0xf7537e82, 0xbd3af235, 0x2ad7d2bb, 0xeb86d391]"

definition rfc_fn :: "nat \<Rightarrow> round_fn" where
  "rfc_fn i = (if i < 16 then FF else if i < 32 then GG else if i < 48 then HH else II)"

fun rfc_f :: "round_fn \<Rightarrow> w32 \<Rightarrow> w32 \<Rightarrow> w32 \<Rightarrow> w32" where
  "rfc_f FF x y z = (x AND y) OR (NOT x AND z)"
| "rfc_f GG x y z = (x AND z) OR (y AND NOT z)"
| "rfc_f HH x y z = x XOR y XOR z"
| "rfc_f II x y z = y XOR (x OR NOT z)"

definition rfc_index :: "nat \<Rightarrow> nat" where
  "rfc_index i =
     (if i < 16 then i else if i < 32 then (5 * i + 1) mod 16
      else if i < 48 then (3 * i + 5) mod 16 else (7 * i) mod 16)"

definition rfc_shift :: "nat \<Rightarrow> nat" where
  "rfc_shift i = [7, 12, 17, 22, 5, 9, 14, 20, 4, 11, 16, 23, 6, 10, 15, 21] ! (4 * (i div 16) + i mod 4)"

definition rfc_round :: "(nat \<Rightarrow> w32) \<Rightarrow> nat \<Rightarrow> regs \<Rightarrow> regs" where
  "rfc_round M i = (\<lambda>(a, b, c, d).
     (d, b + word_rotl (rfc_shift i) (a + rfc_f (rfc_fn i) b c d + M (rfc_index i) + rfc_K ! i), b, c))"

definition rfc_block :: "(nat \<Rightarrow> w32) \<Rightarrow> regs \<Rightarrow> regs" where
  "rfc_block M = (\<lambda>(AA, BB, CC, DD).
     case fold (rfc_round M) [0..<64] (AA, BB, CC, DD) of (a, b, c, d) \<Rightarrow>
       (a + AA, b + BB, c + CC, d + DD))"

section \<open>The unrolled rounds\<close>

fun quads :: "row list \<Rightarrow> bool" where
  "quads [] = True"
| "quads ((RA, r1) # (RD, r2) # (RC, r3) # (RB, r4) # rs) = quads rs"
| "quads _ = False"

definition turn :: "(nat \<Rightarrow> w32) \<Rightarrow> round_fn \<times> nat \<times> nat \<times> w32 \<Rightarrow> regs \<Rightarrow> regs" where
  "turn M = (\<lambda>(f, i, s, ac) (a, b, c, d). (d, apply_round f a b c d (M i) s ac, b, c))"

lemma fold_quads:
  "quads rs \<Longrightarrow> fold (do_row x k) rs st = fold (turn (\<lambda>i. array_get x (k + i))) (map snd rs) st"
proof (induction rs arbitrary: st rule: quads.induct)
  case (2 r1 r2 r3 r4 rs)
  then show ?case by (cases st; cases r1; cases r2; cases r3; cases r4) (simp add: turn_def)
qed simp_all

lemma quads_rows: "quads md5_rows"
  by (simp add: md5_rows_def)

lemma rows_rfc: "map snd md5_rows = map (\<lambda>i. (rfc_fn i, rfc_index i, rfc_shift i, rfc_K ! i)) [0..<64]"
  by code_simp

lemma rfc_shift_range: "i < 64 \<Longrightarrow> 0 < rfc_shift i \<and> rfc_shift i < 32"
proof -
  have "\<forall>i \<in> set [0..<64]. 0 < rfc_shift i \<and> rfc_shift i < 32"
    by code_simp
  then show "i < 64 \<Longrightarrow> ?thesis" by simp
qed

lemma apply_round_eq:
  "0 < s \<Longrightarrow> s < 32 \<Longrightarrow> apply_round f a b c d x s ac = b + word_rotl s (a + rfc_f f b c d + x + ac)"
  by (cases f) (simp_all add: doFF_def doGG_def doHH_def doII_def doF_def doG_def doH_def doI_def
      rotateLeft_eq algebra_simps)

lemma turn_rfc: "i < 64 \<Longrightarrow> turn M (rfc_fn i, rfc_index i, rfc_shift i, rfc_K ! i) st = rfc_round M i st"
  by (cases st) (simp add: turn_def rfc_round_def apply_round_eq rfc_shift_range)

lemma md5_block_rfc: "md5_block x k st = rfc_block (\<lambda>i. array_get x (k + i)) st"
proof -
  have "fold (do_row x k) md5_rows st =
     fold (\<lambda>i. turn (\<lambda>i. array_get x (k + i)) (rfc_fn i, rfc_index i, rfc_shift i, rfc_K ! i)) [0..<64] st"
    by (simp add: fold_quads quads_rows rows_rfc fold_map comp_def)
  also have "\<dots> = fold (rfc_round (\<lambda>i. array_get x (k + i))) [0..<64] st"
    by (rule fold_cong) (auto simp: turn_rfc)
  finally show ?thesis
    by (simp add: md5_block_def rfc_block_def split: prod.split)
qed


section \<open>The word array\<close>

definition byte_at :: "units \<Rightarrow> nat \<Rightarrow> w32" where
  "byte_at bs i = (if i < length bs then ucast (bs ! i) else 0)"

definition le_word :: "units \<Rightarrow> nat \<Rightarrow> w32" where
  "le_word bs j = byte_at bs (4 * j) OR push_bit 8 (byte_at bs (4 * j + 1))
     OR push_bit 16 (byte_at bs (4 * j + 2)) OR push_bit 24 (byte_at bs (4 * j + 3))"

lemma byte_at_snoc:
  "byte_at (bs @ [b]) i = (if i = length bs then ucast b else byte_at bs i)"
  by (auto simp: byte_at_def nth_append)

lemma byte_at_beyond: "length bs \<le> i \<Longrightarrow> byte_at bs i = 0"
  by (simp add: byte_at_def)

lemma le_word_snoc:
  "le_word (bs @ [b]) j =
     (if j = length bs div 4 then le_word bs j OR push_bit (length bs mod 4 * 8) (ucast b)
      else le_word bs j)"
proof -
  define q r where "q = length bs div 4" and "r = length bs mod 4"
  have l: "length bs = 4 * q + r" and r: "r < 4" by (simp_all add: q_def r_def)
  consider "r = 0" | "r = 1" | "r = 2" | "r = 3" using r by linarith
  then show ?thesis
    unfolding q_def [symmetric] r_def [symmetric]
    by cases (auto simp: le_word_def byte_at_snoc byte_at_beyond l or.assoc)
qed

lemma array_set_map: "i < n \<Longrightarrow> array_set i v (map f [0..<n]) = map (f(i := v)) [0..<n]"
  by (auto simp: array_set_def intro: nth_equalityI)

lemma array_get_map: "array_get (map f [0..<n]) i = (if i < n then f i else 0)"
  by (simp add: array_get_def)

lemma put_byte_map:
  assumes "i < length str" and "i < 4 * n"
  shows "put_byte str i (map (le_word (take i str)) [0..<n]) = map (le_word (take (Suc i) str)) [0..<n]"
proof -
  have d: "(i - i mod 4) div 4 = i div 4" by (simp add: minus_mod_eq_mult_div)
  have n: "i div 4 < n" using assms by linarith
  have "le_word (take (Suc i) str) = (le_word (take i str))(i div 4 :=
     le_word (take i str) (i div 4) OR push_bit (i mod 4 * 8) (ucast (str ! i)))"
    using assms by (intro ext) (simp add: take_Suc_conv_app_nth le_word_snoc)
  then show ?thesis
    using n by (simp add: put_byte_def Let_def d array_get_map array_set_map)
qed

lemma put_bytes_map:
  "i + k = length str \<Longrightarrow> length str \<le> 4 * n \<Longrightarrow>
   put_bytes str k i (map (le_word (take i str)) [0..<n]) = map (le_word str) [0..<n]"
  by (induction k arbitrary: i) (simp_all add: put_byte_map)

lemma word_count_bounds:
  "length str + 9 \<le> 4 * word_count (length str)" "16 dvd word_count (length str)" "16 \<le> word_count (length str)"
  by (simp_all add: word_count_def Let_def minus_mod_eq_mult_div) 

lemma convert_map:
  fixes str :: units
  defines "n \<equiv> word_count (length str)"
  shows "convertToWordArray str =
    map (le_word (str @ [0x80])) [0..<n - 2] @
    [push_bit 3 (of_nat (length str)), drop_bit 29 (of_nat (length str))]"
proof -
  let ?l = "length str"
  have n: "?l + 9 \<le> 4 * n" "16 \<le> n" using word_count_bounds [of str] by (simp_all add: n_def)
  have z: "replicate (n - 1) 0 = map (le_word (take 0 str)) [0..<n - 1]"
    by (rule nth_equalityI) (simp_all add: le_word_def byte_at_def)
  have p: "put_bytes str ?l 0 (replicate (n - 1) 0) = map (le_word str) [0..<n - 1]"
    unfolding z using n by (intro put_bytes_map) auto
  have d: "(?l - ?l mod 4) div 4 = ?l div 4" by (simp add: minus_mod_eq_mult_div)
  have k: "?l div 4 < n - 1" using n by linarith
  have q: "array_set (?l div 4) (array_get (map (le_word str) [0..<n - 1]) (?l div 4) OR
       push_bit (?l mod 4 * 8) 0x80) (map (le_word str) [0..<n - 1]) =
     map (le_word (str @ [0x80])) [0..<n - 1]"
    using k by (simp add: array_get_map array_set_map) (auto simp: le_word_snoc)
  obtain k where "n = 16 + k" using n by (metis le_iff_add)
  then obtain m where m: "n = Suc (Suc m)" by simp
  show ?thesis
    unfolding convertToWordArray_def Let_def n_def [symmetric] p d q
    unfolding m by (simp add: array_set_def list_update_append)
qed

text \<open>The padded message, its little-endian words and the digest, as the RFC gives them.\<close>

definition rfc_pad :: "8 word list \<Rightarrow> 8 word list" where
  "rfc_pad m = m @ [0x80] @ replicate ((119 - length m mod 64) mod 64) 0 @
     map (\<lambda>k. of_nat (8 * length m div 256 ^ k)) [0..<8]"

definition rfc_byte :: "8 word list \<Rightarrow> nat \<Rightarrow> w32" where
  "rfc_byte bs i = (if i < length bs then ucast (bs ! i) else 0)"

definition rfc_word :: "8 word list \<Rightarrow> nat \<Rightarrow> w32" where
  "rfc_word bs j = rfc_byte bs (4 * j) OR push_bit 8 (rfc_byte bs (4 * j + 1))
     OR push_bit 16 (rfc_byte bs (4 * j + 2)) OR push_bit 24 (rfc_byte bs (4 * j + 3))"

definition rfc_hex :: "w32 \<Rightarrow> string" where
  "rfc_hex w = concat (map (\<lambda>k. let v = unat w div 256 ^ k mod 256 in
     [digit_char (v div 16), digit_char (v mod 16)]) [0, 1, 2, 3])"

definition rfc_md5 :: "8 word list \<Rightarrow> string" where
  "rfc_md5 m =
     (let p = rfc_pad m in
      case fold (\<lambda>j. rfc_block (\<lambda>i. rfc_word p (16 * j + i))) [0..<length p div 64] md5_init of
        (a, b, c, d) \<Rightarrow> rfc_hex a @ rfc_hex b @ rfc_hex c @ rfc_hex d)"

lemma length_rfc_pad: "length (rfc_pad m) = 4 * word_count (length m)"
proof -
  define q r where "q = length m div 64" and "r = length m mod 64"
  have l: "length m = 64 * q + r" and r: "r < 64" by (simp_all add: q_def r_def)
  have "(119 - r) mod 64 = (if r \<le> 55 then 55 - r else 119 - r)"
    using r by (auto simp: le_mod_geq)
  moreover have "(length m + 8) div 64 = (if r \<le> 55 then q else Suc q)"
    using r by (auto simp: l)
  ultimately show ?thesis
    using r by (auto simp: rfc_pad_def word_count_def Let_def minus_mod_eq_mult_div l)
qed

lemma of_nat_bytes:
  "ucast (of_nat n :: 8 word) OR push_bit 8 (ucast (of_nat (n div 256) :: 8 word)) OR
   push_bit 16 (ucast (of_nat (n div 256 ^ 2) :: 8 word)) OR
   push_bit 24 (ucast (of_nat (n div 256 ^ 3) :: 8 word)) = (of_nat n :: w32)"
proof -
  have d: "n div 256 = drop_bit 8 n" "n div 256 ^ 2 = drop_bit 16 n" "n div 256 ^ 3 = drop_bit 24 n"
    by (simp_all add: drop_bit_eq_div)
  show ?thesis unfolding d
  proof (rule bit_word_eqI)
    fix i :: nat
    consider "i < 8" | "8 \<le> i" "i < 16" | "16 \<le> i" "i < 24" | "24 \<le> i"
      by linarith
    then show "bit (ucast (of_nat n :: 8 word) OR push_bit 8 (ucast (of_nat (drop_bit 8 n) :: 8 word)) OR
        push_bit 16 (ucast (of_nat (drop_bit 16 n) :: 8 word)) OR
        push_bit 24 (ucast (of_nat (drop_bit 24 n) :: 8 word)) :: w32) i = bit (of_nat n :: w32) i"
      by cases (auto simp: bit_simps)
  qed
qed

lemma high_length: "n < 2 ^ 32 \<Longrightarrow> of_nat (8 * n div 256 ^ 4) = (drop_bit 29 (of_nat n) :: w32)"
proof -
  assume n: "n < 2 ^ 32"
  have "8 * n div 256 ^ 4 = drop_bit 29 n" by (simp add: drop_bit_eq_div)
  moreover have "k < 32" if "bit n k" for k
    using n that by (metis bit_take_bit_iff take_bit_nat_eq_self_iff)
  ultimately show ?thesis
    by (auto intro!: bit_word_eqI simp: bit_simps)
qed

definition to_bytes :: "units \<Rightarrow> 8 word list" where
  "to_bytes = map ucast"

lemma length_to_bytes [simp]: "length (to_bytes u) = length u"
  by (simp add: to_bytes_def)

lemma rfc_byte_to_bytes:
  "\<forall>u \<in> set us. u < 256 \<Longrightarrow> rfc_byte (to_bytes us) i = byte_at us i"
proof -
  have "ucast (ucast u :: 8 word) = (ucast u :: w32)" if "u < 256" for u :: "16 word"
  proof -
    have "unat u < 2 ^ 8" using that by (simp add: word_less_nat_alt)
    then have "k < 8" if "bit u k" for k
      using that by (metis bit_take_bit_iff take_bit_nat_eq_self_iff bit_unsigned_iff possible_bit_nat)
    then show ?thesis
      by (auto intro!: bit_word_eqI simp: bit_simps)
  qed
  then show "\<forall>u \<in> set us. u < 256 \<Longrightarrow> ?thesis"
    by (simp add: rfc_byte_def byte_at_def to_bytes_def)
qed

lemma convert_rfc:
  assumes b: "\<forall>u \<in> set us. u < 256" and l: "length us < 2 ^ 32"
  shows "convertToWordArray us = map (rfc_word (rfc_pad (to_bytes us))) [0..<word_count (length us)]"
proof -
  let ?l = "length us" and ?p = "rfc_pad (to_bytes us)"
  define z where "z = (119 - ?l mod 64) mod 64"
  have p: "?p = to_bytes (us @ [0x80]) @ replicate z 0 @ map (\<lambda>k. of_nat (8 * ?l div 256 ^ k)) [0..<8]"
    by (simp add: rfc_pad_def z_def to_bytes_def)
  obtain k where "word_count ?l = 16 + k"
    using word_count_bounds(3) [of us] by (metis le_iff_add)
  then obtain m where m: "word_count ?l = Suc (Suc m)" by simp
  have lm: "?l + 1 + z = 4 * m"
    using length_rfc_pad [of "to_bytes us"] m by (simp add: p)
  have b': "\<forall>u \<in> set (us @ [0x80]). u < 256" using b by simp
  have low: "rfc_byte ?p i = byte_at (us @ [0x80]) i" if "i < 4 * m" for i
    using that lm rfc_byte_to_bytes [OF b', of i]
    by (auto simp: p rfc_byte_def byte_at_def nth_append)
  have high: "rfc_byte ?p (4 * m + k) = ucast (of_nat (8 * ?l div 256 ^ k) :: 8 word)" if "k < 8" for k
    using that lm [symmetric] by (simp add: p rfc_byte_def nth_append)
  have "rfc_word ?p j = le_word (us @ [0x80]) j" if "j < m" for j
    using that by (simp add: rfc_word_def le_word_def low)
  moreover have "rfc_word ?p m = push_bit 3 (of_nat ?l)"
    using high [of 0] high [of 1] high [of 2] high [of 3] of_nat_bytes [of "8 * ?l"]
    by (simp add: rfc_word_def push_bit_eq_mult mult.commute)
  moreover have "rfc_word ?p (Suc m) = drop_bit 29 (of_nat ?l)"
    using high [of 4] high [of 5] high [of 6] high [of 7] of_nat_bytes [of "8 * ?l div 256 ^ 4"]
      high_length [OF l]
    by (simp add: rfc_word_def div_mult2_eq [symmetric] add.commute)
  ultimately show ?thesis
    by (simp add: convert_map m)
qed

section \<open>The loop and the printed digest\<close>

lemma md5_loop_fold:
  "j \<le> n \<Longrightarrow> length x = 16 * n \<Longrightarrow>
   md5_loop x (16 * j) st = fold (\<lambda>j. md5_block x (16 * j)) [j..<n] st"
proof (induction "n - j" arbitrary: j st)
  case 0
  then show ?case by (simp add: md5_loop.simps)
next
  case (Suc d)
  then have "j < n" by simp
  moreover have "md5_loop x (16 * Suc j) st' = fold (\<lambda>j. md5_block x (16 * j)) [Suc j..<n] st'" for st'
    using Suc by (intro Suc.hyps) auto
  ultimately show ?case
    using Suc.prems by (simp add: md5_loop.simps [of x "16 * j"] upt_conv_Cons add.commute)
qed

lemma byte_hex_eq:
  "byte_hex w k = (let v = unat w div 256 ^ k mod 256 in [digit_char (v div 16), digit_char (v mod 16)])"
proof -
  define v where "v = unat w div 256 ^ k mod 256"
  have "drop_bit (k * 8) w AND 255 = take_bit 8 (drop_bit (k * 8) w)"
    by (simp add: take_bit_eq_mask mask_eq_exp_minus_1)
  moreover have "unat (take_bit 8 (drop_bit (k * 8) w)) = take_bit 8 (drop_bit (k * 8) (unat w))"
    by (simp only: unsigned_take_bit_eq unat_drop_bit_eq)
  moreover have "(2 :: nat) ^ (k * 8) = 256 ^ k"
    by (simp add: mult.commute [of k] power_mult)
  ultimately have u: "unat (drop_bit (k * 8) w AND 255) = v"
    by (simp only: v_def take_bit_eq_mod drop_bit_eq_div) simp
  have v: "v < 256" by (simp add: v_def)
  have z: "CHR ''0'' = digit_char 0" by code_simp
  show ?thesis
    unfolding z v_def [symmetric] byte_hex_def u Let_def
    using v by (cases "v < 16") (simp_all add: digits_in.simps [of 16 v] digits_in.simps [of 16 "v div 16"])
qed

lemma wordToHex_eq: "wordToHex w = rfc_hex w"
  by (simp add: wordToHex_def rfc_hex_def byte_hex_eq upt_rec_numeral Let_def)

lemma lower_digit: "d < 16 \<Longrightarrow> lower_char (digit_char d) = digit_char d"
  by (auto simp: lower_char_def digit_char_def)

lemma to_lower_hex: "to_lower (rfc_hex w) = rfc_hex w"
  by (simp add: rfc_hex_def to_lower_def lower_digit Let_def upt_rec_numeral)

lemma byteI: "take_bit 8 u = u \<Longrightarrow> (u :: 16 word) < 256"
proof -
  assume "take_bit 8 u = u"
  then have "unat u = take_bit 8 (unat u)" by (metis unsigned_take_bit_eq)
  then have "unat u < 2 ^ 8" by (metis take_bit_nat_less_exp)
  then show ?thesis by (simp add: word_less_nat_alt)
qed

lemma byteD: "(u :: 16 word) < 256 \<Longrightarrow> take_bit 8 u = u"
proof -
  assume "u < 256"
  then have "unat u < 2 ^ 8" by (simp add: word_less_nat_alt)
  then have "unat (take_bit 8 u) = unat u"
    by (simp add: unsigned_take_bit_eq take_bit_nat_eq_self)
  then show ?thesis by (simp only: word_unat_eq_iff)
qed

lemma utf8_unit_bytes: "u \<in> set (utf8_unit c) \<Longrightarrow> u < 256"
proof (rule byteI)
  assume u: "u \<in> set (utf8_unit c)"
  have m: "c AND 63 = take_bit 6 c" for c :: "16 word"
    by (simp add: take_bit_eq_mask mask_eq_exp_minus_1)
  have d: "take_bit 8 (drop_bit 12 c) = drop_bit 12 c"
    by (rule bit_word_eqI) (auto simp: bit_simps dest: bit_imp_le_length)
  have e: "take_bit 8 (drop_bit 6 c) = drop_bit 6 c" if "c < 2048"
  proof -
    have "unat c < 2 ^ 11" using that by (simp add: word_less_nat_alt)
    then have "k < 11" if "bit c k" for k
      using that by (metis bit_take_bit_iff take_bit_nat_eq_self_iff bit_unsigned_iff possible_bit_nat)
    then show ?thesis
      by (intro bit_word_eqI) (fastforce simp: bit_simps)
  qed
  have "take_bit 8 c = c" if "c < 128"
    using that by (intro byteD) (simp add: word_less_nat_alt)
  with u d e show "take_bit 8 u = u"
    by (auto simp: utf8_unit_def m split: if_splits)
qed

lemma utf8Encode_bytes: "\<forall>u \<in> set (utf8Encode s). u < 256"
  by (auto simp: utf8Encode_def dest: utf8_unit_bytes)

lemma md5_units_rfc:
  assumes "length (utf8Encode str) < 2 ^ 32"
  shows "md5_units str = rfc_md5 (to_bytes (utf8Encode str))"
proof -
  let ?us = "utf8Encode str"
  let ?p = "rfc_pad (to_bytes ?us)" and ?n = "word_count (length ?us)"
  define x where "x = convertToWordArray ?us"
  have x: "x = map (rfc_word ?p) [0..<?n]"
    unfolding x_def by (rule convert_rfc [OF utf8Encode_bytes assms])
  obtain q where q: "?n = 16 * q" using word_count_bounds(2) [of ?us] by (elim dvdE)
  have lp: "length ?p div 64 = q" by (simp add: length_rfc_pad q)
  have "array_get x (16 * j + i) = rfc_word ?p (16 * j + i)" if "16 * j + i < 16 * q" for i j
    using that by (simp add: x q array_get_map)
  have blk: "md5_block x (16 * j) st = rfc_block (\<lambda>i. rfc_word ?p (16 * j + i)) st" if "j < q" for j st
  proof -
    have "fold (rfc_round (\<lambda>i. array_get x (16 * j + i))) [0..<64] st' =
        fold (rfc_round (\<lambda>i. rfc_word ?p (16 * j + i))) [0..<64] st'" for st'
    proof (rule fold_cong)
      fix i assume "i \<in> set [0..<64]"
      have "16 * j + rfc_index i < 16 * q"
        using that by (auto simp: rfc_index_def) 
      then show "rfc_round (\<lambda>i. array_get x (16 * j + i)) i = rfc_round (\<lambda>i. rfc_word ?p (16 * j + i)) i"
        by (simp add: rfc_round_def x q array_get_map)
    qed simp_all
    then show ?thesis by (simp add: md5_block_rfc rfc_block_def)
  qed
  have "md5_loop x 0 md5_init = fold (\<lambda>j. md5_block x (16 * j)) [0..<q] md5_init"
    using md5_loop_fold [of 0 q x] by (simp add: x q)
  also have "\<dots> = fold (\<lambda>j. rfc_block (\<lambda>i. rfc_word ?p (16 * j + i))) [0..<q] md5_init"
    by (rule fold_cong) (auto simp: blk)
  finally show ?thesis
    by (simp add: md5_units_def rfc_md5_def lp wordToHex_eq to_lower_hex flip: x_def split: prod.split)
qed


section \<open>UTF-8\<close>

definition is_surrogate :: "16 word \<Rightarrow> bool" where
  "is_surrogate u = (0xD800 \<le> u \<and> u < 0xE000)"

text \<open>The code points a list of UTF-16 units denotes; an unpaired surrogate stands for itself.\<close>

fun code_points :: "units \<Rightarrow> nat list" where
  "code_points (h # l # us) =
     (if 0xD800 \<le> h \<and> h < 0xDC00 \<and> 0xDC00 \<le> l \<and> l < 0xE000
      then (0x10000 + (unat h - 0xD800) * 0x400 + (unat l - 0xDC00)) # code_points us
      else unat h # code_points (l # us))"
| "code_points us = map unat us"

definition rfc_utf8 :: "nat \<Rightarrow> 8 word list" where
  "rfc_utf8 p = map of_nat
     (if p < 0x80 then [p]
      else if p < 0x800 then [0xC0 + p div 64, 0x80 + p mod 64]
      else if p < 0x10000 then [0xE0 + p div 4096, 0x80 + p div 64 mod 64, 0x80 + p mod 64]
      else [0xF0 + p div 262144, 0x80 + p div 4096 mod 64, 0x80 + p div 64 mod 64, 0x80 + p mod 64])"

definition utf8_of_units :: "units \<Rightarrow> 8 word list" where
  "utf8_of_units us = concat (map rfc_utf8 (code_points us))"

lemma code_points_bmp: "\<forall>u \<in> set us. \<not> is_surrogate u \<Longrightarrow> code_points us = map unat us"
  by (induction us rule: code_points.induct) (auto simp: is_surrogate_def)

lemma ucast_of_unat: "(ucast u :: 8 word) = of_nat (unat u)" for u :: "16 word"
  by (simp add: unsigned_of_nat)

lemma or_byte: "take_bit k a = a \<Longrightarrow> take_bit k b = 0 \<Longrightarrow> a OR b = a + b" for a b :: nat
proof -
  assume "take_bit k a = a" and "take_bit k b = 0"
  then have "bit a n \<Longrightarrow> n < k" and "n < k \<Longrightarrow> \<not> bit b n" for n
    by (metis bit_take_bit_iff) (metis \<open>take_bit k b = 0\<close> bit_take_bit_iff bit_0_eq bot_apply bot_bool_def)
  then have "a AND b = 0" by (intro bit_eqI) (auto simp: bit_simps)
  then show ?thesis by (rule disjunctive_add_eq_or [symmetric])
qed

lemma utf8_unit_rfc: "to_bytes (utf8_unit u) = rfc_utf8 (unat u)"
proof -
  have m: "unat (u AND 63) = unat u mod 64" for u :: "16 word"
  proof -
    have "u AND 63 = take_bit 6 u" by (simp add: take_bit_eq_mask mask_eq_exp_minus_1)
    moreover have "unat (take_bit 6 u) = take_bit 6 (unat u)"
      by (rule unsigned_take_bit_eq)
    moreover have "take_bit 6 (unat u) = unat u mod 64" by (simp add: take_bit_eq_mod)
    ultimately show ?thesis by (simp only:)
  qed
  have d: "unat (drop_bit k u) = unat u div 2 ^ k" for k and u :: "16 word"
  proof -
    have "unat (drop_bit k u) = drop_bit k (unat u)" by (rule unat_drop_bit_eq)
    also have "\<dots> = unat u div 2 ^ k" by (rule drop_bit_eq_div)
    finally show ?thesis .
  qed
  have or128: "x OR 128 = 128 + x" if "x < 64" for x :: nat
    using or_byte [of 6 x 128] that by (simp add: take_bit_nat_eq_self)
  have or192: "x OR 192 = 192 + x" if "x < 64" for x :: nat
    using or_byte [of 6 x 192] that by (simp add: take_bit_nat_eq_self)
  have or224: "x OR 224 = 224 + x" if "x < 32" for x :: nat
    using or_byte [of 5 x 224] that by (simp add: take_bit_nat_eq_self)
  have o: "unat (a OR b) = unat a OR unat b" for a b :: "16 word"
    by (simp add: unsigned_or_eq)
  have lt: "unat u < 65536" using unsigned_less [of u, where 'a = nat] by simp
  have c: "u < 128 \<longleftrightarrow> unat u < 128" "u < 2048 \<longleftrightarrow> unat u < 2048" "127 < u \<longleftrightarrow> 127 < unat u"
    by (simp_all add: word_less_nat_alt)
  show ?thesis
    unfolding utf8_unit_def rfc_utf8_def to_bytes_def c using lt
    by (auto simp: ucast_of_unat o m d or128 or192 or224 simp del: of_nat_unat)
qed


lemma utf8Encode_rfc:
  "\<forall>u \<in> set us. \<not> is_surrogate u \<Longrightarrow> to_bytes (utf8Encode us) = utf8_of_units us"
proof (induction us)
  case Nil
  then show ?case by (simp add: utf8Encode_def utf8_of_units_def to_bytes_def)
next
  case (Cons u us)
  then show ?case
    by (simp add: utf8Encode_def utf8_of_units_def to_bytes_def code_points_bmp
        utf8_unit_rfc [unfolded to_bytes_def] map_concat comp_def)
qed

lemma length_utf8Encode: "length (utf8Encode us) \<le> 3 * length us"
  by (induction us) (auto simp: utf8Encode_def utf8_unit_def)

section \<open>Properties\<close>

text \<open>
  C1. On every string without surrogates (of at most \<open>2^32 / 3\<close> units) \<open>calculateMD5\<close> returns the
  RFC 1321 MD5 digest, in hexadecimal, of the string's RFC 3629 UTF-8 encoding.
\<close>

theorem md5_correct:
  assumes "\<forall>u \<in> set us. \<not> is_surrogate u" and "3 * length us < 2 ^ 32"
  shows "md5_units us = rfc_md5 (utf8_of_units us)"
  using md5_units_rfc [of us] utf8Encode_rfc [OF assms(1)] length_utf8Encode [of us] assms(2) by simp

theorem md5_correct_witness:
  "md5_units [0x41, 0xE9] = rfc_md5 (utf8_of_units [0x41, 0xE9])"
  by (rule md5_correct) (simp_all add: is_surrogate_def)

text \<open>
  The encoder writes a surrogate pair (here U+1F600) as two three-byte sequences, which is
  not its UTF-8 encoding, so a digest over such a user name or password is not the RFC's.
\<close>

theorem utf8Encode_surrogates:
  "to_bytes (utf8Encode [0xD83D, 0xDE00]) = [0xED, 0xA0, 0xBD, 0xED, 0xB8, 0x80] \<and>
   utf8_of_units [0xD83D, 0xDE00] = [0xF0, 0x9F, 0x98, 0x80]"
  by (simp add: utf8Encode_def utf8_unit_def to_bytes_def utf8_of_units_def rfc_utf8_def)

definition hex_chars :: string where
  "hex_chars = ''0123456789abcdef''"

lemma hex_chars_eq: "hex_chars = map digit_char [0..<16]"
  by code_simp

lemma hex_digit_in: "d < 16 \<Longrightarrow> digit_char d \<in> set hex_chars"
  unfolding hex_chars_eq by simp

lemma rfc_hex_shape: "length (rfc_hex w) = 8" "set (rfc_hex w) \<subseteq> set hex_chars"
  by (simp_all add: rfc_hex_def Let_def hex_digit_in)

text \<open>
  Whatever its input, \<open>calculateMD5\<close> returns 32 lower-case hexadecimal digits, the form
  RFC 2617 requires of \<open>response\<close> and \<open>HA1\<close>.
\<close>

theorem md5_hex:
  "length (calculateMD5 s) = 32 \<and> set (calculateMD5 s) \<subseteq> set hex_chars"
  by (auto simp: calculateMD5_def md5_units_def wordToHex_eq to_lower_hex rfc_hex_shape(1)
      split: prod.split dest: subsetD [OF rfc_hex_shape(2)])
end
