(* ===== verification/Sip_Constants.thy ===== *)
theory Sip_Constants
  imports Js_Prelude
begin

text \<open>
  The tables of \<open>Constants.js\<close> and \<open>Timers.js\<close> (lines 326-500 and 22723-22743 of
  \<open>frontend/static/js/jssip-3.10.0.js\<close>) and the numeric status codes the classes keep in
  their \<open>C\<close> objects, as datatypes with the code each stands for.
\<close>

section \<open>Causes\<close>

datatype cause =
    C_CONNECTION_ERROR
  | C_REQUEST_TIMEOUT
  | C_SIP_FAILURE_CODE
  | C_INTERNAL_ERROR
  | C_BUSY
  | C_REJECTED
  | C_REDIRECTED
  | C_UNAVAILABLE
  | C_NOT_FOUND
  | C_ADDRESS_INCOMPLETE
  | C_INCOMPATIBLE_SDP
  | C_MISSING_SDP
  | C_AUTHENTICATION_ERROR
  | C_BYE
  | C_WEBRTC_ERROR
  | C_CANCELED
  | C_NO_ANSWER
  | C_EXPIRES
  | C_NO_ACK
  | C_DIALOG_ERROR
  | C_USER_DENIED_MEDIA_ACCESS
  | C_BAD_MEDIA_DESCRIPTION
  | C_RTP_TIMEOUT

text \<open>The values of \<open>causes\<close>, and its keys as \<open>SIP_ERROR_CAUSES\<close> spells them.\<close>

fun cause_text :: "cause \<Rightarrow> string" where
  "cause_text C_CONNECTION_ERROR = ''Connection Error''"
| "cause_text C_REQUEST_TIMEOUT = ''Request Timeout''"
| "cause_text C_SIP_FAILURE_CODE = ''SIP Failure Code''"
| "cause_text C_INTERNAL_ERROR = ''Internal Error''"
| "cause_text C_BUSY = ''Busy''"
| "cause_text C_REJECTED = ''Rejected''"
| "cause_text C_REDIRECTED = ''Redirected''"
| "cause_text C_UNAVAILABLE = ''Unavailable''"
| "cause_text C_NOT_FOUND = ''Not Found''"
| "cause_text C_ADDRESS_INCOMPLETE = ''Address Incomplete''"
| "cause_text C_INCOMPATIBLE_SDP = ''Incompatible SDP''"
| "cause_text C_MISSING_SDP = ''Missing SDP''"
| "cause_text C_AUTHENTICATION_ERROR = ''Authentication Error''"
| "cause_text C_BYE = ''Terminated''"
| "cause_text C_WEBRTC_ERROR = ''WebRTC Error''"
| "cause_text C_CANCELED = ''Canceled''"
| "cause_text C_NO_ANSWER = ''No Answer''"
| "cause_text C_EXPIRES = ''Expires''"
| "cause_text C_NO_ACK = ''No ACK''"
| "cause_text C_DIALOG_ERROR = ''Dialog Error''"
| "cause_text C_USER_DENIED_MEDIA_ACCESS = ''User Denied Media Access''"
| "cause_text C_BAD_MEDIA_DESCRIPTION = ''Bad Media Description''"
| "cause_text C_RTP_TIMEOUT = ''RTP Timeout''"

definition SIP_ERROR_CAUSES :: "(cause \<times> nat list) list" where
  "SIP_ERROR_CAUSES = [
    (C_REDIRECTED, [300, 301, 302, 305, 380]),
    (C_BUSY, [486, 600]),
    (C_REJECTED, [403, 603]),
    (C_NOT_FOUND, [404, 604]),
    (C_UNAVAILABLE, [480, 410, 408, 430]),
    (C_ADDRESS_INCOMPLETE, [484, 424]),
    (C_INCOMPATIBLE_SDP, [488, 606]),
    (C_AUTHENTICATION_ERROR, [401, 407])]"

section \<open>Methods\<close>

datatype sip_method =
    ACK
  | BYE
  | CANCEL
  | INFO
  | INVITE
  | MESSAGE
  | NOTIFY
  | OPTIONS
  | REGISTER
  | REFER
  | UPDATE
  | SUBSCRIBE
  | OtherMethod string

fun method_str :: "sip_method \<Rightarrow> string" where
  "method_str ACK = ''ACK''"
| "method_str BYE = ''BYE''"
| "method_str CANCEL = ''CANCEL''"
| "method_str INFO = ''INFO''"
| "method_str INVITE = ''INVITE''"
| "method_str MESSAGE = ''MESSAGE''"
| "method_str NOTIFY = ''NOTIFY''"
| "method_str OPTIONS = ''OPTIONS''"
| "method_str REGISTER = ''REGISTER''"
| "method_str REFER = ''REFER''"
| "method_str UPDATE = ''UPDATE''"
| "method_str SUBSCRIBE = ''SUBSCRIBE''"
| "method_str (OtherMethod m) = m"

section \<open>Reason phrases\<close>

definition REASON_PHRASE :: "(nat \<times> string) list" where
  "REASON_PHRASE = [
    (100, ''Trying''),
    (180, ''Ringing''),
    (181, ''Call Is Being Forwarded''),
    (182, ''Queued''),
    (183, ''Session Progress''),
    (199, ''Early Dialog Terminated''),
    (200, ''OK''),
    (202, ''Accepted''),
    (204, ''No Notification''),
    (300, ''Multiple Choices''),
    (301, ''Moved Permanently''),
    (302, ''Moved Temporarily''),
    (305, ''Use Proxy''),
    (380, ''Alternative Service''),
    (400, ''Bad Request''),
    (401, ''Unauthorized''),
    (402, ''Payment Required''),
    (403, ''Forbidden''),
    (404, ''Not Found''),
    (405, ''Method Not Allowed''),
    (406, ''Not Acceptable''),
    (407, ''Proxy Authentication Required''),
    (408, ''Request Timeout''),
    (410, ''Gone''),
    (412, ''Conditional Request Failed''),
    (413, ''Request Entity Too Large''),
    (414, ''Request-URI Too Long''),
    (415, ''Unsupported Media Type''),
    (416, ''Unsupported URI Scheme''),
    (417, ''Unknown Resource-Priority''),
    (420, ''Bad Extension''),
    (421, ''Extension Required''),
    (422, ''Session Interval Too Small''),
    (423, ''Interval Too Brief''),
    (424, ''Bad Location Information''),
    (428, ''Use Identity Header''),
    (429, ''Provide Referrer Identity''),
    (430, ''Flow Failed''),
    (433, ''Anonymity Disallowed''),
    (436, ''Bad Identity-Info''),
    (437, ''Unsupported Certificate''),
    (438, ''Invalid Identity Header''),
    (439, ''First Hop Lacks Outbound Support''),
    (440, ''Max-Breadth Exceeded''),
    (469, ''Bad Info Package''),
    (470, ''Consent Needed''),
    (478, ''Unresolvable Destination''),
    (480, ''Temporarily Unavailable''),
    (481, ''Call/Transaction Does Not Exist''),
    (482, ''Loop Detected''),
    (483, ''Too Many Hops''),
    (484, ''Address Incomplete''),
    (485, ''Ambiguous''),
    (486, ''Busy Here''),
    (487, ''Request Terminated''),
    (488, ''Not Acceptable Here''),
    (489, ''Bad Event''),
    (491, ''Request Pending''),
    (493, ''Undecipherable''),
    (494, ''Security Agreement Required''),
    (500, ''JsSIP Internal Error''),
    (501, ''Not Implemented''),
    (502, ''Bad Gateway''),
    (503, ''Service Unavailable''),
    (504, ''Server Time-out''),
    (505, ''Version Not Supported''),
    (513, ''Message Too Large''),
    (580, ''Precondition Failure''),
    (600, ''Busy Everywhere''),
    (603, ''Decline''),
    (604, ''Does Not Exist Anywhere''),
    (606, ''Not Acceptable'')]"

definition reason_phrase :: "nat \<Rightarrow> string" where
  "reason_phrase code = (case map_of REASON_PHRASE code of None \<Rightarrow> [] | Some p \<Rightarrow> p)"

section \<open>Scalars\<close>

definition ALLOWED_METHODS :: string where
  "ALLOWED_METHODS = ''INVITE,ACK,CANCEL,BYE,UPDATE,MESSAGE,OPTIONS,REFER,INFO,NOTIFY''"

definition ACCEPTED_BODY_TYPES :: string where
  "ACCEPTED_BODY_TYPES = ''application/sdp, application/dtmf-relay''"

definition MAX_FORWARDS :: nat where
  "MAX_FORWARDS = 69"

definition SESSION_EXPIRES :: nat where
  "SESSION_EXPIRES = 90"

definition MIN_SESSION_EXPIRES :: nat where
  "MIN_SESSION_EXPIRES = 60"

definition CONNECTION_RECOVERY_MAX_INTERVAL :: nat where
  "CONNECTION_RECOVERY_MAX_INTERVAL = 30"

definition CONNECTION_RECOVERY_MIN_INTERVAL :: nat where
  "CONNECTION_RECOVERY_MIN_INTERVAL = 2"

text \<open>\<open>USER_AGENT\<close> is \<open>pkg.title\<close> and \<open>pkg.version\<close> of the bundled \<open>package.json\<close>.\<close>

definition USER_AGENT :: string where
  "USER_AGENT = ''JsSIP 3.10.0''"

section \<open>Timers\<close>

text \<open>The timer lengths, in milliseconds.\<close>

definition T1 :: nat where "T1 = 500"
definition T2 :: nat where "T2 = 4000"
definition T4 :: nat where "T4 = 5000"
definition TIMER_B :: nat where "TIMER_B = 64 * T1"
definition TIMER_D :: nat where "TIMER_D = 0 * T1"
definition TIMER_F :: nat where "TIMER_F = 64 * T1"
definition TIMER_H :: nat where "TIMER_H = 64 * T1"
definition TIMER_I :: nat where "TIMER_I = 0 * T1"
definition TIMER_J :: nat where "TIMER_J = 0 * T1"
definition TIMER_K :: nat where "TIMER_K = 0 * T4"
definition TIMER_L :: nat where "TIMER_L = 64 * T1"
definition TIMER_M :: nat where "TIMER_M = 64 * T1"
definition PROVISIONAL_RESPONSE_INTERVAL :: nat where "PROVISIONAL_RESPONSE_INTERVAL = 60000"

lemmas timer_defs =
  TIMER_B_def TIMER_D_def TIMER_F_def TIMER_H_def TIMER_I_def TIMER_J_def TIMER_K_def
  TIMER_L_def TIMER_M_def PROVISIONAL_RESPONSE_INTERVAL_def T1_def T2_def T4_def

end
