(* ===== verification/Sip_Utils.thy ===== *)
theory Sip_Utils
  imports Complex_Main Sip_Constants
begin

text \<open>
  The helpers of \<open>Utils.js\<close> (lines 25223-25752 of \<open>frontend/static/js/jssip-3.10.0.js\<close>), all but
  the MD5 routine (theory \<^theory_text>\<open>Md5\<close>) and the ones that only inspect JavaScript types.
  \<open>Math.random()\<close> is a real number in \<open>[0, 1)\<close> given as an argument, one per call.
\<close>

section \<open>Exceptions\<close>

text \<open>
  \<open>WideUnit\<close> is not an exception of the program: it says that the result has a code unit above
  255, which \<^typ>\<open>string\<close> cannot hold.
\<close>

datatype js_error = TypeError string | PlainError string | URIError | WideUnit | InvalidStateError nat | RangeError
  | NotSupportedError string | NotReadyError string | ConfigurationError string

section \<open>Random tokens\<close>

definition random_below :: "real \<Rightarrow> nat \<Rightarrow> nat" where
  "random_below u n = nat \<lfloor>u * real n\<rfloor>"

definition is_random :: "real \<Rightarrow> bool" where
  "is_random u = (0 \<le> u \<and> u < 1)"

lemma random_below_less [intro]: "is_random u \<Longrightarrow> 0 < n \<Longrightarrow> random_below u n < n"
proof -
  assume "is_random u" and n: "0 < n"
  then have u: "0 \<le> u" "u < 1" by (simp_all add: is_random_def)
  then have "u * real n < real n" using n by simp
  then have "\<lfloor>u * real n\<rfloor> < int n" by linarith
  then show ?thesis using n by (simp add: random_below_def nat_less_iff)
qed

text \<open>The \<open>for\<close> loop of \<open>createRandomToken\<close>; \<open>rnd i\<close> is the \<open>i\<close>-th draw.\<close>

definition createRandomToken :: "nat \<Rightarrow> nat \<Rightarrow> (nat \<Rightarrow> real) \<Rightarrow> string" where
  "createRandomToken n base rnd =
     concat (map (\<lambda>i. digits_in base (random_below (rnd i) base)) [0..<n])"

definition newTag :: "(nat \<Rightarrow> real) \<Rightarrow> string" where
  "newTag rnd = createRandomToken 10 32 rnd"

text \<open>\<open>newUUID\<close>: each \<open>x\<close> and \<open>y\<close> of the template is replaced, in order; the \<open>i\<close>-th character
  uses draw \<open>i\<close>.  \<open>r & 0x3 | 0x8\<close> is \<open>r mod 4 + 8\<close>.\<close>

definition uuid_template :: string where
  "uuid_template = ''xxxxxxxx-xxxx-4xxx-yxxx-xxxxxxxxxxxx''"

definition newUUID :: "(nat \<Rightarrow> real) \<Rightarrow> string" where
  "newUUID rnd =
     concat (map (\<lambda>(i, c).
         if c = CHR ''x'' \<or> c = CHR ''y'' then
           (let r = random_below (rnd i) 16;
                v = (if c = CHR ''x'' then r else r mod 4 + 8)
            in digits_in 16 v)
         else [c])
       (enumerate 0 uuid_template))"

definition getOctet :: "real \<Rightarrow> nat \<Rightarrow> nat \<Rightarrow> nat" where
  "getOctet u from to = nat \<lfloor>u * real (to - from + 1) + real from\<rfloor>"

definition getRandomTestNetIP :: "real \<Rightarrow> string" where
  "getRandomTestNetIP u = ''192.0.2.'' @ num_str (getOctet u 1 254)"

section \<open>UTF-8 length and percent encoding\<close>

definition str_utf8_length :: "string \<Rightarrow> nat" where
  "str_utf8_length s = sum_list (map (\<lambda>c. if char_code c < 128 then 1 else 2) s)"

definition upper_hex :: "nat \<Rightarrow> string" where
  "upper_hex b = [upper_char (digit_char (b div 16)), upper_char (digit_char (b mod 16))]"

definition pct :: "nat \<Rightarrow> string" where
  "pct b = CHR ''%'' # upper_hex b"

definition uri_unreserved :: "char \<Rightarrow> bool" where
  "uri_unreserved c =
     (let n = char_code c in
      65 \<le> n \<and> n \<le> 90 \<or> 97 \<le> n \<and> n \<le> 122 \<or> 48 \<le> n \<and> n \<le> 57 \<or> n \<in> {45, 95, 46, 33, 126, 42, 39, 40, 41})"

definition enc_char :: "char \<Rightarrow> string" where
  "enc_char c =
     (if uri_unreserved c then [c]
      else if char_code c < 128 then pct (char_code c)
      else pct (192 + char_code c div 64) @ pct (128 + char_code c mod 64))"

definition encodeURIComponent :: "string \<Rightarrow> string" where
  "encodeURIComponent s = concat (map enc_char s)"

definition hex_val :: "char \<Rightarrow> nat option" where
  "hex_val c =
     (let n = char_code c in
      if 48 \<le> n \<and> n \<le> 57 then Some (n - 48)
      else if 65 \<le> n \<and> n \<le> 70 then Some (n - 55)
      else if 97 \<le> n \<and> n \<le> 102 then Some (n - 87)
      else None)"

text \<open>The byte after a percent sign and the rest, \<open>None\<close> where there are not two hex digits.\<close>

fun pct_byte :: "string \<Rightarrow> (nat \<times> string) option" where
  "pct_byte (h # l # r) =
     (case (hex_val h, hex_val l) of
        (Some a, Some b) \<Rightarrow> Some (16 * a + b, r)
      | _ \<Rightarrow> None)"
| "pct_byte _ = None"

text \<open>\<open>k\<close> continuation bytes, each written \<open>%8x\<close> to \<open>%Bx\<close>: their payloads and the rest.\<close>

fun cont_bytes :: "nat \<Rightarrow> string \<Rightarrow> (nat list \<times> string) option" where
  "cont_bytes 0 s = Some ([], s)"
| "cont_bytes (Suc k) (c # s) =
     (if c \<noteq> CHR ''%'' then None
      else (case pct_byte s of
          None \<Rightarrow> None
        | Some (b, r) \<Rightarrow>
            if b < 128 \<or> 192 \<le> b then None
            else map_option (\<lambda>(bs, r'). ((b - 128) # bs, r')) (cont_bytes k r)))"
| "cont_bytes (Suc k) [] = None"

text \<open>The code point of a multi-byte sequence, or the exception a malformed one raises.\<close>

definition multi_point :: "nat \<Rightarrow> nat list \<Rightarrow> js_error + nat" where
  "multi_point b ps =
     (let n = length ps;
          lead = (if n = 1 then b - 192 else if n = 2 then b - 224 else b - 240);
          p = foldl (\<lambda>v x. 64 * v + x) lead ps
      in if n = 1 \<and> p < 128 \<or> n = 2 \<and> p < 2048 \<or> n = 3 \<and> p < 65536
            \<or> 55296 \<le> p \<and> p < 57344 \<or> 1114112 \<le> p then Inl URIError
         else if 256 \<le> p then Inl WideUnit else Inr p)"

lemma pct_byte_length: "pct_byte s = Some (b, r) \<Longrightarrow> length r < length s"
  by (cases s rule: pct_byte.cases) (auto split: option.splits)

lemma cont_bytes_length: "cont_bytes k s = Some (bs, r) \<Longrightarrow> length r \<le> length s"
  by (induction k s arbitrary: bs r rule: cont_bytes.induct)
    (fastforce split: if_splits option.splits dest: pct_byte_length)+

function decodeURIComponent :: "string \<Rightarrow> js_error + string" where
  "decodeURIComponent [] = Inr []"
| "decodeURIComponent (c # s) =
     (if c \<noteq> CHR ''%'' then bind_result (decodeURIComponent s) (\<lambda>t. Inr (c # t))
      else (case pct_byte s of
          None \<Rightarrow> Inl URIError
        | Some (b, r) \<Rightarrow>
            if b < 128 then bind_result (decodeURIComponent r) (\<lambda>t. Inr (char_of b # t))
            else if b < 192 \<or> 248 \<le> b then Inl URIError
            else (case cont_bytes (if b < 224 then 1 else if b < 240 then 2 else 3) r of
                None \<Rightarrow> Inl URIError
              | Some (bs, r') \<Rightarrow>
                  bind_result (multi_point b bs) (\<lambda>p.
                    bind_result (decodeURIComponent r') (\<lambda>t. Inr (char_of p # t))))))"
  by pat_completeness auto
termination
  by (relation "measure length") (auto dest!: pct_byte_length cont_bytes_length simp: less_Suc_eq_le)

section \<open>URI users and targets\<close>

text \<open>\<open>s.replace(/p/ig, r)\<close> for a pattern without special characters.\<close>

function replace_all :: "string \<Rightarrow> string \<Rightarrow> string \<Rightarrow> string" where
  "replace_all p r s =
     (if s = [] \<or> p = [] then s
      else if starts_with (to_lower p) (to_lower s) then r @ replace_all p r (drop (length p) s)
      else hd s # replace_all p r (tl s))"
  by pat_completeness auto
termination
  by (relation "measure (\<lambda>(p, r, s). length s)") auto

declare replace_all.simps [simp del]

definition escapeUser :: "string \<Rightarrow> js_error + string" where
  "escapeUser user =
     bind_result (decodeURIComponent user) (\<lambda>d.
       Inr (replace_all ''%2F'' ''/'' (replace_all ''%3F'' ''?''
         (replace_all ''%2B'' ''+'' (replace_all ''%3A'' '':'' (encodeURIComponent d))))))"

text \<open>\<open>target_user.replace(/^(sips?|tel):/i, '')\<close>.\<close>

definition strip_scheme :: "string \<Rightarrow> string" where
  "strip_scheme s =
     (if starts_with ''sips:'' (to_lower s) then drop 5 s
      else if starts_with ''sip:'' (to_lower s) \<or> starts_with ''tel:'' (to_lower s) then drop 4 s
      else s)"

definition is_tel_sep :: "char \<Rightarrow> bool" where
  "is_tel_sep c = (c \<in> set ''-.()'')"

definition is_digit :: "char \<Rightarrow> bool" where
  "is_digit c = (48 \<le> char_code c \<and> char_code c \<le> 57)"

text \<open>\<open>/^[-.()]*\+?[0-9\-.()]+$/\<close>: separators, at most one plus, then digits and separators.\<close>

definition is_tel_number :: "string \<Rightarrow> bool" where
  "is_tel_number s =
     (let rest = dropWhile is_tel_sep s in
      case rest of
        [] \<Rightarrow> s \<noteq> []
      | c # cs \<Rightarrow>
          if c = CHR ''+'' then cs \<noteq> [] \<and> list_all (\<lambda>d. is_digit d \<or> is_tel_sep d) cs
          else list_all (\<lambda>d. is_digit d \<or> is_tel_sep d) rest)"

definition strip_separators :: "string \<Rightarrow> string" where
  "strip_separators s = (if is_tel_number s then filter (\<lambda>c. \<not> is_tel_sep c) s else s)"

text \<open>
  \<open>normalizeTarget\<close> on a string target (a URI object is returned as it is).  \<open>parse\<close> is
  \<open>URI.parse\<close>, the generated grammar's rule \<open>SIP_URI\<close>.  \<open>Inr None\<close> is \<open>undefined\<close>.
\<close>

definition normalizeTarget ::
    "(string \<Rightarrow> 'u option) \<Rightarrow> string \<Rightarrow> string \<Rightarrow> js_error + 'u option" where
  "normalizeTarget parse target domain =
     (if target = [] then Inr None
      else
        (let target_array = js_split (CHR ''@'') target in
         if length target_array = 1 \<and> domain = [] then Inr None
         else
           (let (target_user, target_domain) =
              (if length target_array = 1 then (target, domain)
               else (js_join ''@'' (butlast target_array), last target_array));
              target_user = strip_separators (strip_scheme target_user)
            in bind_result (escapeUser target_user) (\<lambda>u.
                 Inr (parse (''sip:'' @ u @ ''@'' @ target_domain))))))"

section \<open>Header names and causes\<close>

definition hyphenate :: "string \<Rightarrow> string" where
  "hyphenate s = map (\<lambda>c. if c = CHR ''_'' then CHR ''-'' else c) s"

fun capitalize :: "string \<Rightarrow> string" where
  "capitalize [] = []"
| "capitalize (c # cs) = upper_char c # cs"

definition headerize :: "string \<Rightarrow> string" where
  "headerize string =
     (let name = js_split (CHR ''-'') (hyphenate (to_lower string));
          hname = js_join ''-'' (map capitalize name)
      in if hname = ''Call-Id'' then ''Call-ID''
         else if hname = ''Cseq'' then ''CSeq''
         else if hname = ''Www-Authenticate'' then ''WWW-Authenticate''
         else hname)"

text \<open>The \<open>for (cause in SIP_ERROR_CAUSES)\<close> loop.\<close>

fun find_cause :: "(cause \<times> nat list) list \<Rightarrow> nat \<Rightarrow> cause" where
  "find_cause [] status_code = C_SIP_FAILURE_CODE"
| "find_cause ((c, codes) # rest) status_code =
     (if status_code \<in> set codes then c else find_cause rest status_code)"

definition sipErrorCause :: "nat \<Rightarrow> cause" where
  "sipErrorCause status_code = find_cause SIP_ERROR_CAUSES status_code"

definition cloneArray :: "'a list option \<Rightarrow> 'a list" where
  "cloneArray a = (case a of None \<Rightarrow> [] | Some xs \<Rightarrow> xs)"

definition hasMethods :: "(string \<Rightarrow> bool) \<Rightarrow> string list \<Rightarrow> bool" where
  "hasMethods is_function methodNames = list_all (\<lambda>m. \<not> is_function m) methodNames"

section \<open>Lemmas\<close>

lemma digits_single: "2 \<le> b \<Longrightarrow> d < b \<Longrightarrow> digits_in b d = [digit_char d]"
  by (subst digits_in.simps) simp

lemma token_digits:
  assumes "2 \<le> base" and "\<And>i. is_random (rnd i)"
  shows "createRandomToken n base rnd = map (\<lambda>i. digit_char (random_below (rnd i) base)) [0..<n]"
  using assms by (simp add: createRandomToken_def digits_single random_below_less concat_map_singleton)

lemma uuid_expand:
  assumes "\<And>i. is_random (rnd i)"
  shows "newUUID rnd = map (\<lambda>(i, c).
      if c = CHR ''x'' then digit_char (random_below (rnd i) 16)
      else if c = CHR ''y'' then digit_char (random_below (rnd i) 16 mod 4 + 8)
      else c) (enumerate 0 uuid_template)"
proof -
  have r: "random_below (rnd i) 16 < 16" for i using assms by (intro random_below_less) auto
  have "random_below (rnd i) 16 mod 4 + 8 < 16" for i 
  proof -
    have "random_below (rnd i) 16 mod 4 < 4" by simp
    then show ?thesis by linarith
  qed
  with r have "(\<lambda>(i, c). if c = CHR ''x'' \<or> c = CHR ''y'' then
           (let r = random_below (rnd i) 16; v = (if c = CHR ''x'' then r else r mod 4 + 8)
            in digits_in 16 v) else [c]) = (\<lambda>(i, c). [
      if c = CHR ''x'' then digit_char (random_below (rnd i) 16)
      else if c = CHR ''y'' then digit_char (random_below (rnd i) 16 mod 4 + 8)
      else c])"
    by (auto simp: digits_single Let_def fun_eq_iff)
  then show ?thesis
    unfolding newUUID_def by (simp add: case_prod_unfold concat_map_singleton)
qed

lemma variant_digit: "digit_char (r mod 4 + 8) \<in> set ''89ab''"
proof -
  have "r mod 4 \<in> {0, 1, 2, 3}" by auto
  moreover have "digit_char 8 = CHR ''8''" "digit_char 9 = CHR ''9''" "digit_char 10 = CHR ''a''" "digit_char 11 = CHR ''b''"
    by code_simp+
  ultimately show ?thesis by auto
qed

lemma octet_range: "is_random u \<Longrightarrow> 1 \<le> getOctet u 1 254 \<and> getOctet u 1 254 \<le> 254"
  unfolding getOctet_def is_random_def by (simp add: nat_le_iff le_nat_iff le_floor_iff floor_le_iff)


lemma upper_digit_val: "d < 16 \<Longrightarrow> hex_val (upper_char (digit_char d)) = Some d"
  by (auto simp: hex_val_def upper_char_def digit_char_def Let_def)

lemma pct_byte_hex: "b < 256 \<Longrightarrow> pct_byte (upper_hex b @ r) = Some (b, r)"
  by (simp add: upper_hex_def upper_digit_val)

lemma enc_char_decode:
  "decodeURIComponent (enc_char c @ s) = bind_result (decodeURIComponent s) (\<lambda>t. Inr (c # t))"
proof -
  let ?n = "char_code c"
  have n: "?n < 256" by simp
  consider "uri_unreserved c" | "\<not> uri_unreserved c" "?n < 128" | "\<not> uri_unreserved c" "128 \<le> ?n"
    by linarith
  then show ?thesis
  proof cases
    case 1
    then have "c \<noteq> CHR ''%''" by (auto simp: uri_unreserved_def char_code_def)
    with 1 show ?thesis by (simp add: enc_char_def)
  next
    case 2
    then show ?thesis by (simp add: enc_char_def pct_def pct_byte_hex char_code_def)
  next
    case 3
    have "2 \<le> ?n div 64" using div_le_mono [of 128 ?n 64] 3 by simp
    moreover have "?n div 64 < 4" using n less_mult_imp_div_less [of ?n 4 64] by simp
    ultimately have d: "?n div 64 = 2 \<or> ?n div 64 = 3" by linarith
    define b t where "b = 192 + ?n div 64" and "t = pct (128 + ?n mod 64) @ s"
    have b: "\<not> b < 128" "\<not> (b < 192 \<or> 248 \<le> b)" "b < 224" "b < 256"
      using d by (auto simp: b_def)
    have e: "enc_char c @ s = CHR ''%'' # upper_hex b @ t"
      using 3 by (simp add: enc_char_def pct_def b_def t_def)
    have p: "pct_byte (upper_hex b @ t) = Some (b, t)" using b by (intro pct_byte_hex)
    have q: "cont_bytes 1 t = Some ([?n mod 64], s)"
      by (simp add: t_def pct_def pct_byte_hex)
    have m: "multi_point b [?n mod 64] = Inr ?n"
    proof -
      have l: "?n < 55296" "?n < 1114112" using less_trans [OF n] by simp_all
      have v: "64 * (b - 192) + ?n mod 64 = ?n" by (simp add: b_def)
      show ?thesis
        using 3 l by (simp add: multi_point_def Let_def v)
    qed
    have ch: "char_of (char_code c) = c" by (simp add: char_code_def)
    show ?thesis
      unfolding e decodeURIComponent.simps(2)
      by (simp only: p q m b ch if_False if_True option.case prod.case bind_result.simps simp_thms)
  qed
qed

lemma to_lower_join: "to_lower (js_join sep ws) = js_join (to_lower sep) (map to_lower ws)"
  by (induction sep ws rule: js_join.induct) simp_all

lemma to_lower_capitalize: "to_lower (capitalize w) = to_lower w"
  by (cases w) (simp_all add: to_lower_def)

lemma js_split_map: "(\<And>x. f x = c \<longleftrightarrow> x = c) \<Longrightarrow> js_split c (map f s) = map (map f) (js_split c s)"
  by (induction s) (auto split: list.splits)

definition canon :: "string \<Rightarrow> string" where
  "canon s = hyphenate (to_lower s)"

lemma char_codes [simp]:
  "char_code (CHR ''-'') = 45" "char_code (CHR ''_'') = 95" "char_code (CHR ''%'') = 37"
  by (simp_all add: char_code_def)

lemma lower_hyphen: "lower_char (CHR ''-'') = CHR ''-''"
  by (simp add: lower_char_def)

lemma lower_char_hyphen: "lower_char x = CHR ''-'' \<longleftrightarrow> x = CHR ''-''"
  by (auto simp: lower_char_def simp flip: char_code_inj)

lemma to_lower_canon: "to_lower (canon s) = canon s"
  by (auto simp: canon_def hyphenate_def to_lower_def lower_hyphen)

lemma lower_headerize: "to_lower (headerize s) = canon s"
proof -
  let ?h = "js_join ''-'' (map capitalize (js_split (CHR ''-'') (canon s)))"
  have "map to_lower (js_split (CHR ''-'') (canon s)) = js_split (CHR ''-'') (to_lower (canon s))"
    unfolding to_lower_def by (rule js_split_map [symmetric]) (rule lower_char_hyphen)
  then have "to_lower ?h = js_join (to_lower ''-'') (js_split (CHR ''-'') (to_lower (canon s)))"
    by (simp add: to_lower_join comp_def to_lower_capitalize)
  also have "\<dots> = canon s"
    by (simp add: to_lower_canon) (simp add: to_lower_def lower_hyphen)
  finally have h: "to_lower ?h = canon s" .
  have e: "to_lower ''Call-ID'' = to_lower ''Call-Id''" "to_lower ''CSeq'' = to_lower ''Cseq''"
    "to_lower ''WWW-Authenticate'' = to_lower ''Www-Authenticate''"
    by code_simp+
  have "headerize s = ?h \<or> headerize s = ''Call-ID'' \<and> ?h = ''Call-Id'' \<or>
      headerize s = ''CSeq'' \<and> ?h = ''Cseq'' \<or>
      headerize s = ''WWW-Authenticate'' \<and> ?h = ''Www-Authenticate''"
    unfolding headerize_def Let_def canon_def [symmetric] by presburger
  with h e show ?thesis by metis
qed

section \<open>Properties\<close>

text \<open>
  A random token has the length asked for and only digits of its base: \<open>newTag\<close>'s ten
  characters are base-32 digits, so a tag is always a valid SIP token.
\<close>

theorem token_shape:
  assumes "2 \<le> base" and "\<And>i. is_random (rnd i)"
  shows "length (createRandomToken n base rnd) = n \<and>
    list_all (\<lambda>c. \<exists>d < base. c = digit_char d) (createRandomToken n base rnd)"
proof -
  have "random_below (rnd i) base < base" for i
    using assms by (auto intro: random_below_less)
  with assms show ?thesis by (auto simp: token_digits list_all_iff)
qed

theorem token_shape_witness:
  "length (createRandomToken 2 32 (\<lambda>i. 1 / 2)) = 2 \<and>
    list_all (\<lambda>c. \<exists>d < 32. c = digit_char d) (createRandomToken 2 32 (\<lambda>i. 1 / 2))"
  by (rule token_shape) (simp_all add: is_random_def)

text \<open>
  Whatever the draws, \<open>newUUID\<close> has the layout of an RFC 4122 version 4 identifier: 36
  characters, hyphens at 8, 13, 18 and 23, version digit 4 and a variant digit 8, 9, a or b.
\<close>

theorem newUUID_shape:
  assumes "\<And>i. is_random (rnd i)"
  shows "length (newUUID rnd) = 36 \<and> newUUID rnd ! 14 = CHR ''4'' \<and> newUUID rnd ! 19 \<in> set ''89ab'' \<and>
    map ((!) (newUUID rnd)) [8, 13, 18, 23] = ''----''"
proof -
  have l: "length uuid_template = 36" by (simp add: uuid_template_def)
  have t: "uuid_template ! 14 = CHR ''4''" "uuid_template ! 19 = CHR ''y''"
    "map ((!) uuid_template) [8, 13, 18, 23] = ''----''"
    by (simp_all add: uuid_template_def)
  show ?thesis
    unfolding uuid_expand [OF assms]
    using t variant_digit [of "random_below (rnd 19) 16"]
    by (simp add: l nth_enumerate_eq del: list.set)
qed

theorem newUUID_shape_witness:
  "length (newUUID (\<lambda>i. 0)) = 36 \<and> newUUID (\<lambda>i. 0) ! 14 = CHR ''4'' \<and>
    newUUID (\<lambda>i. 0) ! 19 \<in> set ''89ab'' \<and> map ((!) (newUUID (\<lambda>i. 0))) [8, 13, 18, 23] = ''----''"
  by (rule newUUID_shape) (simp add: is_random_def)

text \<open>Decoding undoes percent encoding: \<open>decodeURIComponent(encodeURIComponent(s))\<close> is \<open>s\<close>.\<close>

theorem decode_encode: "decodeURIComponent (encodeURIComponent s) = Inr s"
  by (induction s) (simp_all add: encodeURIComponent_def enc_char_decode)


text \<open>
  \<open>headerize\<close> identifies exactly the spellings of a header name that differ in case or
  write an underscore for a hyphen, so it is a canonical key for the header tables.
\<close>

theorem headerize_eq_iff: "headerize a = headerize b \<longleftrightarrow> canon a = canon b"
  by (metis lower_headerize headerize_def canon_def)

text \<open>
  \<open>sipErrorCause\<close> returns a cause with a code list exactly for the codes of its list, and
  \<open>SIP_FAILURE_CODE\<close> exactly for the codes of no list: the order of the loop does not matter.
\<close>

theorem sipErrorCause_spec:
  "sipErrorCause n = c \<longleftrightarrow>
     (case map_of SIP_ERROR_CAUSES c of Some codes \<Rightarrow> n \<in> set codes
      | None \<Rightarrow> c = C_SIP_FAILURE_CODE \<and> list_all (\<lambda>(d, codes). n \<notin> set codes) SIP_ERROR_CAUSES)"
   by (cases c) (auto simp: sipErrorCause_def SIP_ERROR_CAUSES_def split: if_splits)

end
