(* ===== verification/Sip_Uri.thy ===== *)
theory Sip_Uri
  imports Sip_Utils
begin

text \<open>
  The classes \<open>URI\<close> (lines 24976-25220) and \<open>NameAddrHeader\<close> (lines 16569-16690 of
  \<open>frontend/static/js/jssip-3.10.0.js\<close>), and the contract of their parameter and header
  tables as the locale \<^theory_text>\<open>param_bag\<close>.  A parameter whose value is \<open>null\<close> is written without a
  value; a port, user or display name that is \<open>null\<close> or \<open>undefined\<close> is \<open>None\<close>.
\<close>

section \<open>URI\<close>

type_synonym params = "string option js_object"

record uri =
  uri_scheme :: string
  uri_user :: "string option"
  uri_host :: string
  uri_port :: "nat option"
  uri_parameters :: params
  uri_headers :: "string list js_object"

text \<open>\<open>setParam\<close> and its companions, on the table itself: both classes have the same code.\<close>

definition setParam :: "string \<Rightarrow> string option \<Rightarrow> params \<Rightarrow> params" where
  "setParam key val ps = (if key \<noteq> [] then obj_put (to_lower key) val ps else ps)"

definition getParam :: "string \<Rightarrow> params \<Rightarrow> string option option" where
  "getParam key ps = (if key \<noteq> [] then obj_get ps (to_lower key) else None)"

definition hasParam :: "string \<Rightarrow> params \<Rightarrow> bool" where
  "hasParam key ps = (if key \<noteq> [] then obj_has ps (to_lower key) else False)"

definition deleteParam :: "string \<Rightarrow> params \<Rightarrow> string option option \<times> params" where
  "deleteParam parameter ps =
     (let parameter = to_lower parameter in
      if obj_has ps parameter then (obj_get ps parameter, obj_del parameter ps) else (None, ps))"

definition uri_setParam :: "string \<Rightarrow> string option \<Rightarrow> uri \<Rightarrow> uri" where
  "uri_setParam key val u = u\<lparr>uri_parameters := setParam key val (uri_parameters u)\<rparr>"

definition uri_getParam :: "string \<Rightarrow> uri \<Rightarrow> string option option" where
  "uri_getParam key u = getParam key (uri_parameters u)"

definition uri_hasParam :: "string \<Rightarrow> uri \<Rightarrow> bool" where
  "uri_hasParam key u = hasParam key (uri_parameters u)"

definition uri_deleteParam :: "string \<Rightarrow> uri \<Rightarrow> string option option \<times> uri" where
  "uri_deleteParam parameter u =
     (let (v, ps) = deleteParam parameter (uri_parameters u) in (v, u\<lparr>uri_parameters := ps\<rparr>))"

definition uri_clearParams :: "uri \<Rightarrow> uri" where
  "uri_clearParams u = u\<lparr>uri_parameters := []\<rparr>"

definition uri_setHeader :: "string \<Rightarrow> string list \<Rightarrow> uri \<Rightarrow> uri" where
  "uri_setHeader name val u = u\<lparr>uri_headers := obj_put (headerize name) val (uri_headers u)\<rparr>"

definition uri_getHeader :: "string \<Rightarrow> uri \<Rightarrow> string list option" where
  "uri_getHeader name u = (if name \<noteq> [] then obj_get (uri_headers u) (headerize name) else None)"

definition uri_hasHeader :: "string \<Rightarrow> uri \<Rightarrow> bool" where
  "uri_hasHeader name u = (if name \<noteq> [] then obj_has (uri_headers u) (headerize name) else False)"

definition uri_deleteHeader :: "string \<Rightarrow> uri \<Rightarrow> string list option \<times> uri" where
  "uri_deleteHeader header u =
     (let header = headerize header in
      if obj_has (uri_headers u) header
      then (obj_get (uri_headers u) header, u\<lparr>uri_headers := obj_del header (uri_headers u)\<rparr>)
      else (None, u))"

definition uri_clearHeaders :: "uri \<Rightarrow> uri" where
  "uri_clearHeaders u = u\<lparr>uri_headers := []\<rparr>"

text \<open>The constructor: \<open>scheme || 'sip'\<close>, then one \<open>setParam\<close> or \<open>setHeader\<close> per own key.\<close>

definition new_uri ::
    "string \<Rightarrow> string option \<Rightarrow> string \<Rightarrow> nat option \<Rightarrow> params \<Rightarrow> string list js_object \<Rightarrow> js_error + uri" where
  "new_uri scheme user host port parameters headers =
     (if host = [] then Inl (TypeError ''missing or invalid \"host\" parameter'')
      else
        (let u = \<lparr>uri_scheme = (if scheme = [] then ''sip'' else scheme), uri_user = user,
                  uri_host = host, uri_port = port, uri_parameters = [], uri_headers = []\<rparr>;
             u = fold (\<lambda>(k, v). uri_setParam k v) parameters u;
             u = fold (\<lambda>(k, v). uri_setHeader k v) headers u
         in Inr u))"

definition uri_clone :: "uri \<Rightarrow> js_error + uri" where
  "uri_clone u =
     new_uri (uri_scheme u) (uri_user u) (uri_host u) (uri_port u) (uri_parameters u) (uri_headers u)"

text \<open>The setters \<open>scheme\<close>, \<open>user\<close>, \<open>host\<close> and \<open>port\<close> (on a number or \<open>null\<close>).\<close>

definition uri_set_scheme :: "string \<Rightarrow> uri \<Rightarrow> uri" where
  "uri_set_scheme v u = u\<lparr>uri_scheme := to_lower v\<rparr>"

definition uri_set_user :: "string option \<Rightarrow> uri \<Rightarrow> uri" where
  "uri_set_user v u = u\<lparr>uri_user := v\<rparr>"

definition uri_set_host :: "string \<Rightarrow> uri \<Rightarrow> uri" where
  "uri_set_host v u = u\<lparr>uri_host := to_lower v\<rparr>"

definition uri_set_port :: "nat option \<Rightarrow> uri \<Rightarrow> uri" where
  "uri_set_port v u = u\<lparr>uri_port := v\<rparr>"

definition param_str :: "string \<times> string option \<Rightarrow> string" where
  "param_str p =
     '';'' @ fst p @ (case snd p of None \<Rightarrow> [] | Some v \<Rightarrow> ''='' @ v)"

definition params_str :: "params \<Rightarrow> string" where
  "params_str ps = concat (map param_str ps)"

text \<open>\<open>if (this._user)\<close>: neither \<open>null\<close> nor empty.\<close>

definition user_str :: "string option \<Rightarrow> js_error + string" where
  "user_str user =
     (case user of
        None \<Rightarrow> Inr []
      | Some us \<Rightarrow> if us = [] then Inr [] else bind_result (escapeUser us) (\<lambda>e. Inr (e @ ''@'')))"

definition port_str :: "nat option \<Rightarrow> string" where
  "port_str p = (case p of None \<Rightarrow> [] | Some n \<Rightarrow> '':'' @ num_str n)"

definition uri_toString :: "uri \<Rightarrow> js_error + string" where
  "uri_toString u =
     bind_result (user_str (uri_user u)) (\<lambda>us.
       (let uri = uri_scheme u @ '':'' @ us @ uri_host u @ port_str (uri_port u) @ params_str (uri_parameters u);
            headers = concat (map (\<lambda>(h, items). map (\<lambda>item. h @ ''='' @ item) items) (uri_headers u))
        in Inr (if headers \<noteq> [] then uri @ ''?'' @ js_join ''&'' headers else uri)))"

definition uri_toAor :: "bool \<Rightarrow> uri \<Rightarrow> js_error + string" where
  "uri_toAor show_port u =
     bind_result (user_str (uri_user u)) (\<lambda>us.
       Inr (uri_scheme u @ '':'' @ us @ uri_host u @ (if show_port then port_str (uri_port u) else [])))"

section \<open>NameAddrHeader\<close>

record name_addr =
  na_uri :: uri
  na_display_name :: "string option"
  na_parameters :: params

definition na_setParam :: "string \<Rightarrow> string option \<Rightarrow> name_addr \<Rightarrow> name_addr" where
  "na_setParam key val h = h\<lparr>na_parameters := setParam key val (na_parameters h)\<rparr>"

definition na_getParam :: "string \<Rightarrow> name_addr \<Rightarrow> string option option" where
  "na_getParam key h = getParam key (na_parameters h)"

definition na_hasParam :: "string \<Rightarrow> name_addr \<Rightarrow> bool" where
  "na_hasParam key h = hasParam key (na_parameters h)"

definition na_deleteParam :: "string \<Rightarrow> name_addr \<Rightarrow> string option option \<times> name_addr" where
  "na_deleteParam parameter h =
     (let (v, ps) = deleteParam parameter (na_parameters h) in (v, h\<lparr>na_parameters := ps\<rparr>))"

definition na_clearParams :: "name_addr \<Rightarrow> name_addr" where
  "na_clearParams h = h\<lparr>na_parameters := []\<rparr>"

definition new_name_addr :: "uri \<Rightarrow> string option \<Rightarrow> params \<Rightarrow> name_addr" where
  "new_name_addr u display_name parameters =
     fold (\<lambda>(k, v). na_setParam k v) parameters
       \<lparr>na_uri = u, na_display_name = display_name, na_parameters = []\<rparr>"

definition na_clone :: "name_addr \<Rightarrow> js_error + name_addr" where
  "na_clone h =
     bind_result (uri_clone (na_uri h)) (\<lambda>u.
       Inr (new_name_addr u (na_display_name h) (na_parameters h)))"

text \<open>\<open>str.replace(/\\/g, '\\\\').replace(/"/g, '\\"')\<close>.\<close>

definition quote_display :: "string \<Rightarrow> string" where
  "quote_display str =
     concat (map (\<lambda>c. if c = CHR 0x22 then [CHR 0x5C, CHR 0x22] else [c])
       (concat (map (\<lambda>c. if c = CHR 0x5C then [CHR 0x5C, CHR 0x5C] else [c]) str)))"

definition display_str :: "string option \<Rightarrow> string" where
  "display_str d =
     (case d of
        None \<Rightarrow> []
      | Some n \<Rightarrow> if n = [] then [] else [CHR 0x22] @ quote_display n @ [CHR 0x22, CHR 0x20])"

definition na_toString :: "name_addr \<Rightarrow> js_error + string" where
  "na_toString h =
     bind_result (uri_toString (na_uri h)) (\<lambda>u.
       Inr (display_str (na_display_name h) @ ''<'' @ u @ ''>'' @ params_str (na_parameters h)))"

section \<open>The contract of a parameter table\<close>

text \<open>
  Three tables of the two classes obey the same laws, up to the canonical form of a name: lower
  case for parameters, \<open>headerize\<close> for URI headers.
\<close>

locale param_bag =
  fixes norm :: "string \<Rightarrow> string"
    and set_val :: "string \<Rightarrow> 'v \<Rightarrow> 'b \<Rightarrow> 'b"
    and get_val :: "string \<Rightarrow> 'b \<Rightarrow> 'v option"
    and has_val :: "string \<Rightarrow> 'b \<Rightarrow> bool"
    and del_val :: "string \<Rightarrow> 'b \<Rightarrow> 'v option \<times> 'b"
  assumes get_norm: "norm k = norm k' \<Longrightarrow> get_val k b = get_val k' b"
    and norm_empty: "norm k = [] \<longleftrightarrow> k = []"
    and get_set: "k \<noteq> [] \<Longrightarrow> get_val k' (set_val k v b) = (if norm k' = norm k then Some v else get_val k' b)"
    and has_get: "has_val k b \<longleftrightarrow> get_val k b \<noteq> None"
    and del_fst: "k \<noteq> [] \<Longrightarrow> fst (del_val k b) = get_val k b"
    and get_del: "k \<noteq> [] \<Longrightarrow> get_val k' (snd (del_val k b)) = (if norm k' = norm k then None else get_val k' b)"
begin

lemma has_set: "k \<noteq> [] \<Longrightarrow> has_val k' (set_val k v b) \<longleftrightarrow> norm k' = norm k \<or> has_val k' b"
  by (simp add: has_get get_set)

lemma has_del: "k \<noteq> [] \<Longrightarrow> has_val k' (snd (del_val k b)) \<longleftrightarrow> norm k' \<noteq> norm k \<and> has_val k' b"
  by (simp add: has_get get_del)

lemma del_set: "k \<noteq> [] \<Longrightarrow> fst (del_val k (set_val k v b)) = Some v"
  by (simp add: del_fst get_set)

text \<open>The constructors' loop: among names with the same canonical form the last one wins.\<close>

lemma get_fold:
  assumes "[] \<notin> fst ` set kvs"
  shows "get_val k (fold (\<lambda>(k, v). set_val k v) kvs b) =
    (case find (\<lambda>(k', v). norm k' = norm k) (rev kvs) of
       Some (k', v) \<Rightarrow> Some v
     | None \<Rightarrow> get_val k b)"
  using assms
proof (induction kvs rule: rev_induct)
  case Nil
  then show ?case by simp
next
  case (snoc p kvs)
  obtain j v where p: "p = (j, v)" by (cases p)
  with snoc.prems have "j \<noteq> []" by auto
  with snoc show ?case by (auto simp: p get_set)
qed

end

lemma canon_headerize: "canon (headerize s) = canon s"
  by (simp add: canon_def [of "headerize s"] lower_headerize)
    (simp add: canon_def hyphenate_def)

lemma headerize_cong: "canon a = canon b \<Longrightarrow> headerize a = headerize b"
  by (simp add: headerize_def canon_def)

lemma headerize_idem [simp]: "headerize (headerize s) = headerize s"
  by (rule headerize_cong) (rule canon_headerize)

lemma canon_Nil [simp]: "canon s = [] \<longleftrightarrow> s = []"
  by (simp add: canon_def hyphenate_def)

lemma headerize_Nil [simp]: "headerize s = [] \<longleftrightarrow> s = []"
  by (metis canon_Nil canon_headerize)

lemma headerize_empty [simp]: "headerize [] = []"
  by simp

lemma to_lower_Nil_eq: "[] = to_lower s \<longleftrightarrow> s = []" and headerize_Nil_eq: "[] = headerize s \<longleftrightarrow> s = []"
  by (metis to_lower_eq_Nil) (metis headerize_Nil)

lemma obj_get_has: "\<not> obj_has ob k \<Longrightarrow> obj_get ob k = None"
  by (simp add: obj_has_def)

interpretation uri_params: param_bag to_lower uri_setParam uri_getParam uri_hasParam uri_deleteParam
  by unfold_locales
    (auto simp: uri_setParam_def uri_getParam_def uri_hasParam_def uri_deleteParam_def setParam_def
      getParam_def hasParam_def deleteParam_def Let_def obj_has_def to_lower_Nil_eq)

interpretation uri_heads: param_bag headerize uri_setHeader uri_getHeader uri_hasHeader uri_deleteHeader
  by unfold_locales
    (auto simp: uri_setHeader_def uri_getHeader_def uri_hasHeader_def uri_deleteHeader_def Let_def obj_has_def
      headerize_Nil_eq)

interpretation na_params: param_bag to_lower na_setParam na_getParam na_hasParam na_deleteParam
  by unfold_locales
    (auto simp: na_setParam_def na_getParam_def na_hasParam_def na_deleteParam_def setParam_def
      getParam_def hasParam_def deleteParam_def Let_def obj_has_def to_lower_Nil_eq)

section \<open>Well-formed tables and cloning\<close>

definition params_wf :: "params \<Rightarrow> bool" where
  "params_wf ps = (obj_wf ps \<and> list_all (\<lambda>(k, v). k \<noteq> [] \<and> to_lower k = k) ps)"

definition headers_wf :: "string list js_object \<Rightarrow> bool" where
  "headers_wf hs = (obj_wf hs \<and> list_all (\<lambda>(k, v). headerize k = k) hs)"

definition uri_wf :: "uri \<Rightarrow> bool" where
  "uri_wf u = (uri_host u \<noteq> [] \<and> uri_scheme u \<noteq> [] \<and> params_wf (uri_parameters u) \<and> headers_wf (uri_headers u))"

definition na_wf :: "name_addr \<Rightarrow> bool" where
  "na_wf h = (uri_wf (na_uri h) \<and> params_wf (na_parameters h))"

lemma set_obj_put: "set (obj_put k v ob) \<subseteq> insert (k, v) (set ob)"
  by (induction ob) (auto simp: obj_put_def)

lemma set_obj_del: "set (obj_del k ob) \<subseteq> set ob"
  by (induction ob) (auto simp: obj_del_def)

lemma list_all_put: "list_all P ob \<Longrightarrow> P (k, v) \<Longrightarrow> list_all P (obj_put k v ob)"
  using set_obj_put [of k v ob] by (auto simp: list_all_iff)

lemma list_all_del: "list_all P ob \<Longrightarrow> list_all P (obj_del k ob)"
  using set_obj_del [of k ob] by (auto simp: list_all_iff)

lemmas table_wf_defs = params_wf_def headers_wf_def uri_wf_def na_wf_def

lemma params_wf_Nil [simp]: "params_wf []" and headers_wf_Nil [simp]: "headers_wf []"
  by (simp_all add: table_wf_defs)

lemma params_wf_set [simp]: "params_wf ps \<Longrightarrow> params_wf (setParam k v ps)"
  by (simp add: params_wf_def setParam_def list_all_put)

lemma params_wf_del: "deleteParam k ps = (v, qs) \<Longrightarrow> params_wf ps \<Longrightarrow> params_wf qs"
  by (auto simp: params_wf_def deleteParam_def Let_def list_all_del split: if_splits)

lemma headers_wf_put [simp]: "headers_wf hs \<Longrightarrow> headers_wf (obj_put (headerize k) v hs)"
  by (simp add: headers_wf_def list_all_put)

lemma headers_wf_del [simp]: "headers_wf hs \<Longrightarrow> headers_wf (obj_del k hs)"
  by (simp add: headers_wf_def list_all_del)

lemma fold_setParam:
  "fold (\<lambda>(k, v). uri_setParam k v) ps u =
     u\<lparr>uri_parameters := fold (\<lambda>(k, v). setParam k v) ps (uri_parameters u)\<rparr>"
  by (induction ps arbitrary: u) (auto simp: uri_setParam_def)

lemma fold_setHeader:
  "fold (\<lambda>(k, v). uri_setHeader k v) hs u =
     u\<lparr>uri_headers := fold (\<lambda>(k, v). obj_put (headerize k) v) hs (uri_headers u)\<rparr>"
  by (induction hs arbitrary: u) (auto simp: uri_setHeader_def)

lemma fold_na_setParam:
  "fold (\<lambda>(k, v). na_setParam k v) ps h =
     h\<lparr>na_parameters := fold (\<lambda>(k, v). setParam k v) ps (na_parameters h)\<rparr>"
  by (induction ps arbitrary: h) (auto simp: na_setParam_def)

lemma params_wf_fold: "params_wf qs \<Longrightarrow> params_wf (fold (\<lambda>(k, v). setParam k v) ps qs)"
  by (induction ps arbitrary: qs) auto

lemma headers_wf_fold: "headers_wf qs \<Longrightarrow> headers_wf (fold (\<lambda>(k, v). obj_put (headerize k) v) hs qs)"
  by (induction hs arbitrary: qs) auto

lemma obj_wf_ConsD: "obj_wf (qs @ (k, v) # ob) \<Longrightarrow> \<not> obj_has qs k \<and> obj_wf ((qs @ [(k, v)]) @ ob)"
  by (auto simp: obj_wf_def obj_has_iff)

lemma rebuild_params:
  "params_wf (qs @ ps) \<Longrightarrow> fold (\<lambda>(k, v). setParam k v) ps qs = qs @ ps"
proof (induction ps arbitrary: qs)
  case (Cons p ps)
  obtain k v where p: "p = (k, v)" by (cases p)
  have "setParam k v qs = qs @ [(k, v)]"
    using Cons.prems obj_wf_ConsD [of qs k v ps]
    by (simp add: p params_wf_def setParam_def obj_put_fresh)
  with Cons show ?case by (simp add: p)
qed simp

lemma rebuild_headers:
  "headers_wf (qs @ hs) \<Longrightarrow> fold (\<lambda>(k, v). obj_put (headerize k) v) hs qs = qs @ hs"
proof (induction hs arbitrary: qs)
  case (Cons p hs)
  obtain k v where p: "p = (k, v)" by (cases p)
  have "obj_put (headerize k) v qs = qs @ [(k, v)]"
    using Cons.prems obj_wf_ConsD [of qs k v hs]
    by (simp add: p headers_wf_def obj_put_fresh)
  with Cons show ?case by (simp add: p)
qed simp

lemma uri_clone_wf: "uri_wf u \<Longrightarrow> uri_clone u = Inr u"
  using rebuild_params [of "[]"] rebuild_headers [of "[]"]
  by (simp add: uri_clone_def new_uri_def fold_setParam fold_setHeader uri_wf_def Let_def)

lemma na_clone_wf: "na_wf h \<Longrightarrow> na_clone h = Inr h"
  using rebuild_params [of "[]"]
  by (simp add: na_clone_def uri_clone_wf na_wf_def new_name_addr_def fold_na_setParam)

lemma new_uri_wf: "new_uri scheme user host port ps hs = Inr u \<Longrightarrow> uri_wf u"
  by (auto simp: new_uri_def uri_wf_def fold_setParam fold_setHeader params_wf_fold headers_wf_fold Let_def
      split: if_splits)

text \<open>The display name a reader of \<open>quoted-string\<close> (RFC 3261, 25.1) finds after the opening quote.\<close>

fun read_quoted :: "string \<Rightarrow> (string \<times> string) option" where
  "read_quoted [] = None"
| "read_quoted [c] = (if c = CHR 0x22 then Some ([], []) else None)"
| "read_quoted (c # d # s) =
     (if c = CHR 0x22 then Some ([], d # s)
      else if c = CHR 0x5C then map_option (\<lambda>(n, r). (d # n, r)) (read_quoted s)
      else map_option (\<lambda>(n, r). (c # n, r)) (read_quoted (d # s)))"

lemma read_quoted_Cons:
  "c \<noteq> CHR 0x22 \<Longrightarrow> c \<noteq> CHR 0x5C \<Longrightarrow> read_quoted (c # s) = map_option (\<lambda>(n, r). (c # n, r)) (read_quoted s)"
  by (cases s) auto

lemma read_quoted_end: "read_quoted (CHR 0x22 # s) = Some ([], s)"
  by (cases s) auto

lemma quote_display_Cons:
  "quote_display (c # s) =
     (if c = CHR 0x5C \<or> c = CHR 0x22 then [CHR 0x5C, c] else [c]) @ quote_display s"
  by (simp add: quote_display_def)

section \<open>The URIs and headers the program can hold\<close>

text \<open>Made by a constructor and changed by the classes' own operations.\<close>

inductive uri_made :: "uri \<Rightarrow> bool" where
  made_new: "new_uri scheme user host port ps hs = Inr u \<Longrightarrow> uri_made u"
| made_clone: "uri_made u \<Longrightarrow> uri_clone u = Inr v \<Longrightarrow> uri_made v"
| made_setParam: "uri_made u \<Longrightarrow> uri_made (uri_setParam k v u)"
| made_deleteParam: "uri_made u \<Longrightarrow> uri_made (snd (uri_deleteParam k u))"
| made_clearParams: "uri_made u \<Longrightarrow> uri_made (uri_clearParams u)"
| made_setHeader: "uri_made u \<Longrightarrow> uri_made (uri_setHeader n vs u)"
| made_deleteHeader: "uri_made u \<Longrightarrow> uri_made (snd (uri_deleteHeader n u))"
| made_clearHeaders: "uri_made u \<Longrightarrow> uri_made (uri_clearHeaders u)"
| made_set_scheme: "uri_made u \<Longrightarrow> s \<noteq> [] \<Longrightarrow> uri_made (uri_set_scheme s u)"
| made_set_user: "uri_made u \<Longrightarrow> uri_made (uri_set_user w u)"
| made_set_host: "uri_made u \<Longrightarrow> h \<noteq> [] \<Longrightarrow> uri_made (uri_set_host h u)"
| made_set_port: "uri_made u \<Longrightarrow> uri_made (uri_set_port p u)"

inductive na_made :: "name_addr \<Rightarrow> bool" where
  na_new: "uri_made u \<Longrightarrow> na_made (new_name_addr u d ps)"
| na_clone: "na_made h \<Longrightarrow> na_clone h = Inr g \<Longrightarrow> na_made g"
| na_set: "na_made h \<Longrightarrow> na_made (na_setParam k v h)"
| na_delete: "na_made h \<Longrightarrow> na_made (snd (na_deleteParam k h))"
| na_clear: "na_made h \<Longrightarrow> na_made (na_clearParams h)"

lemma uri_made_wf: "uri_made u \<Longrightarrow> uri_wf u"
proof (induction rule: uri_made.induct)
  case (made_new scheme user host port ps hs u)
  then show ?case by (rule new_uri_wf)
next
  case (made_clone u v)
  then show ?case by (simp add: uri_clone_wf)
next
  case (made_deleteParam u k)
  then show ?case
    by (auto simp: uri_deleteParam_def uri_wf_def params_wf_del split: prod.splits)
next
  case (made_deleteHeader u n)
  then show ?case by (simp add: uri_deleteHeader_def uri_wf_def Let_def)
qed (auto simp: uri_wf_def uri_setParam_def uri_clearParams_def uri_setHeader_def
  uri_clearHeaders_def uri_set_scheme_def uri_set_user_def uri_set_host_def uri_set_port_def)

lemma na_made_wf: "na_made h \<Longrightarrow> na_wf h"
proof (induction rule: na_made.induct)
  case (na_new u d ps)
  then show ?case by (simp add: na_wf_def uri_made_wf new_name_addr_def fold_na_setParam params_wf_fold)
next
  case (na_clone h g)
  then show ?case by (simp add: na_clone_wf)
next
  case (na_delete h k)
  then show ?case
    by (auto simp: na_deleteParam_def na_wf_def params_wf_del split: prod.splits)
qed (simp_all add: na_wf_def na_setParam_def na_clearParams_def)

lemma read_quoted_display: "read_quoted (quote_display n @ CHR 0x22 # r) = Some (n, r)"
proof (induction n)
  case Nil
  then show ?case by (simp add: quote_display_def read_quoted_end)
next
  case (Cons c n)
  then show ?case by (auto simp: quote_display_Cons read_quoted_Cons)
qed

section \<open>Properties\<close>

text \<open>
  Every URI the program can hold (constructed, then changed by any sequence of the class's
  operations, the host and scheme never set to the empty string) is reproduced exactly by
  \<open>clone()\<close>: no parameter, header or order is lost by its detour through the constructor.
\<close>

theorem uri_clone_exact: "uri_made u \<Longrightarrow> uri_clone u = Inr u"
  by (simp add: uri_clone_wf uri_made_wf)

theorem uri_clone_exact_witness:
  "uri_clone (uri_setParam ''LR'' None
      \<lparr>uri_scheme = ''sip'', uri_user = None, uri_host = ''h'', uri_port = None, uri_parameters = [], uri_headers = []\<rparr>) =
    Inr (uri_setParam ''LR'' None
      \<lparr>uri_scheme = ''sip'', uri_user = None, uri_host = ''h'', uri_port = None, uri_parameters = [], uri_headers = []\<rparr>)"
  by (rule uri_clone_exact, rule made_setParam, rule made_new [of "''sip''" None "''h''" None "[]" "[]"])
    (simp add: new_uri_def)

text \<open>
  The same for name-addr headers, whose URI is cloned with them.
\<close>

theorem na_clone_exact: "na_made h \<Longrightarrow> na_clone h = Inr h"
  by (simp add: na_clone_wf na_made_wf)

theorem na_clone_exact_witness:
  "na_clone (new_name_addr
      \<lparr>uri_scheme = ''sip'', uri_user = None, uri_host = ''h'', uri_port = None, uri_parameters = [], uri_headers = []\<rparr>
      (Some ''Bob'') [(''tag'', Some ''x'')]) =
    Inr (new_name_addr
      \<lparr>uri_scheme = ''sip'', uri_user = None, uri_host = ''h'', uri_port = None, uri_parameters = [], uri_headers = []\<rparr>
      (Some ''Bob'') [(''tag'', Some ''x'')])"
  by (rule na_clone_exact, rule na_new, rule made_new [of "''sip''" None "''h''" None "[]" "[]"])
    (simp add: new_uri_def)

text \<open>
  A display name cannot break out of its quotes: whatever characters it has, a reader of the
  quoted string that \<open>toString\<close> writes gets the name back and stops where the program's closing
  quote is.
\<close>

theorem display_name_read_back:
  assumes "n \<noteq> []" and "na_display_name h = Some n" and "na_toString h = Inr s"
  shows "\<exists>r. read_quoted (tl s) = Some (n, CHR 0x20 # CHR ''<'' # r)"
proof -
  obtain r where "s = CHR 0x22 # quote_display n @ CHR 0x22 # CHR 0x20 # CHR ''<'' # r"
    using assms by (auto simp: na_toString_def bind_result_Inr display_str_def)
  then show ?thesis by (simp add: read_quoted_display)
qed

theorem display_name_read_back_witness:
  "\<exists>r. read_quoted (tl (CHR 0x22 # ''B'' @ [CHR 0x22, CHR 0x20] @ ''<sip:h>'')) =
    Some (''B'', CHR 0x20 # CHR ''<'' # r)"
  by (rule display_name_read_back [where h = "\<lparr>na_uri = \<lparr>uri_scheme = ''sip'', uri_user = None,
        uri_host = ''h'', uri_port = None, uri_parameters = [], uri_headers = []\<rparr>,
        na_display_name = Some ''B'', na_parameters = []\<rparr>"])
    (simp_all add: na_toString_def display_str_def uri_toString_def user_str_def port_str_def
      params_str_def quote_display_def Let_def)

end
