(* ===== verification/Sip_Message.thy ===== *)
theory Sip_Message
  imports Sip_Uri
begin

text \<open>
  The classes of \<open>SIPMessage.js\<close> (lines 21766-22648 of \<open>frontend/static/js/jssip-3.10.0.js\<close>):
  \<open>OutgoingRequest\<close>, \<open>InitialOutgoingInviteRequest\<close>, \<open>IncomingMessage\<close> and the two kinds of
  incoming messages, with the contract of their header tables as the locale
  \<^theory_text>\<open>header_store\<close>.  The grammar that parses one header is a parameter.  Header names are
  taken literally where the source puts them into a regular expression (they are letters and
  hyphens wherever the program calls these methods).  The stored values are strings; a number
  given as a header value is stored as the string it is printed as.
\<close>

section \<open>What the messages read of the user agent\<close>

record ua_config =
  cfg_extra_headers :: "string list option"
  cfg_use_preloaded_route :: bool
  cfg_transport_sip_uri :: string
  cfg_via_host :: string
  cfg_uri :: uri
  cfg_display_name :: "string option"
  cfg_jssip_id :: string
  cfg_session_timers :: bool
  cfg_user_agent :: "string option"
  ua_pub_gruu :: "string option"
  ua_temp_gruu :: "string option"

text \<open>A value the source tests with \<open>if (x)\<close>: present and not the empty string.\<close>

definition truthy :: "string option \<Rightarrow> bool" where
  "truthy s = (s \<noteq> None \<and> s \<noteq> Some [])"

definition crlf :: string where
  "crlf = [CHR 0x0D, CHR 0x0A]"

section \<open>Extra headers\<close>

text \<open>\<open>new RegExp('^\\s*name\\s*:', 'i')\<close> on one line, and the value after the colon.\<close>

definition header_matches :: "string \<Rightarrow> string \<Rightarrow> bool" where
  "header_matches name line =
     (let s = dropWhile is_space line in
      starts_with (to_lower name) (to_lower s) \<and>
      starts_with '':'' (dropWhile is_space (drop (length name) s)))"

definition header_value :: "string \<Rightarrow> string" where
  "header_value line =
     js_trim (drop (case index_of line '':'' 0 of None \<Rightarrow> 0 | Some i \<Rightarrow> Suc i) line)"

text \<open>
  The loop of \<open>setHeader\<close> that removes a header from \<open>extraHeaders\<close>: after a \<open>splice\<close> at
  \<open>idx\<close> the next line has moved to \<open>idx\<close>, and \<open>idx++\<close> passes over it.
\<close>

fun splice_headers :: "string \<Rightarrow> string list \<Rightarrow> string list" where
  "splice_headers name [] = []"
| "splice_headers name [h] = (if header_matches name h then [] else [h])"
| "splice_headers name (h # k # hs) =
     (if header_matches name h then k # splice_headers name hs else h # splice_headers name (k # hs))"

section \<open>Outgoing requests\<close>

record out_request =
  or_method :: sip_method
  or_ruri :: uri
  or_headers :: "string list js_object"
  or_extraHeaders :: "string list"
  or_body :: "string option"
  or_to :: name_addr
  or_from :: name_addr
  or_call_id :: string
  or_cseq :: nat

definition or_setHeader :: "string \<Rightarrow> string list \<Rightarrow> 'a out_request_scheme \<Rightarrow> 'a out_request_scheme" where
  "or_setHeader name val r =
     r\<lparr>or_extraHeaders := splice_headers name (or_extraHeaders r),
       or_headers := obj_put (headerize name) val (or_headers r)\<rparr>"

definition or_getHeader :: "string \<Rightarrow> 'a out_request_scheme \<Rightarrow> string option" where
  "or_getHeader name r =
     (case obj_get (or_headers r) (headerize name) of
        Some hs \<Rightarrow> (case hs of [] \<Rightarrow> None | h # _ \<Rightarrow> if h \<noteq> [] then Some h else None)
      | None \<Rightarrow> map_option header_value (find (header_matches name) (or_extraHeaders r)))"

definition or_getHeaders :: "string \<Rightarrow> 'a out_request_scheme \<Rightarrow> string list" where
  "or_getHeaders name r =
     (case obj_get (or_headers r) (headerize name) of
        Some hs \<Rightarrow> hs
      | None \<Rightarrow> map header_value (filter (header_matches name) (or_extraHeaders r)))"

definition or_hasHeader :: "string \<Rightarrow> 'a out_request_scheme \<Rightarrow> bool" where
  "or_hasHeader name r =
     (case obj_get (or_headers r) (headerize name) of
        Some hs \<Rightarrow> True
      | None \<Rightarrow> list_ex (header_matches name) (or_extraHeaders r))"

text \<open>
  The \<open>params\<close> argument.  A display name is \<open>None\<close> when the key is absent (\<open>undefined\<close>) and
  \<open>Some None\<close> when it is \<open>null\<close>.
\<close>

record req_params =
  p_route_set :: "string list option"
  p_to_uri :: "uri option"
  p_to_tag :: "string option"
  p_to_display_name :: "string option option"
  p_from_uri :: "uri option"
  p_from_tag :: "string option"
  p_from_display_name :: "string option option"
  p_call_id :: "string option"
  p_cseq :: "nat option"

definition no_params :: req_params where
  "no_params = \<lparr>p_route_set = None, p_to_uri = None, p_to_tag = None, p_to_display_name = None,
     p_from_uri = None, p_from_tag = None, p_from_display_name = None, p_call_id = None, p_cseq = None\<rparr>"

text \<open>The draws of \<open>Math.random()\<close> one constructor call may take.\<close>

record draws =
  d_tag :: "nat \<Rightarrow> real"
  d_token :: "nat \<Rightarrow> real"
  d_cseq :: real

text \<open>\<open>a || b\<close> on strings that may be missing.\<close>

definition str_or :: "string option \<Rightarrow> string \<Rightarrow> string" where
  "str_or s d = (case s of None \<Rightarrow> d | Some t \<Rightarrow> if t = [] then d else t)"

definition new_to :: "uri \<Rightarrow> req_params \<Rightarrow> name_addr" where
  "new_to ruri p =
     new_name_addr (case p_to_uri p of None \<Rightarrow> ruri | Some u \<Rightarrow> u)
       (case p_to_display_name p of None \<Rightarrow> None | Some d \<Rightarrow> d)
       (if truthy (p_to_tag p) then [(''tag'', p_to_tag p)] else [])"

definition new_from :: "ua_config \<Rightarrow> draws \<Rightarrow> req_params \<Rightarrow> name_addr" where
  "new_from cfg dr p =
     new_name_addr (case p_from_uri p of None \<Rightarrow> cfg_uri cfg | Some u \<Rightarrow> u)
       (case p_from_display_name p of
          Some d \<Rightarrow> d
        | None \<Rightarrow> if truthy (cfg_display_name cfg) then cfg_display_name cfg else None)
       [(''tag'', Some (str_or (p_from_tag p) (newTag (d_tag dr))))]"

definition new_call_id :: "ua_config \<Rightarrow> draws \<Rightarrow> req_params \<Rightarrow> string" where
  "new_call_id cfg dr p =
     str_or (p_call_id p) (cfg_jssip_id cfg @ createRandomToken 15 32 (d_token dr))"

definition new_cseq :: "draws \<Rightarrow> req_params \<Rightarrow> nat" where
  "new_cseq dr p =
     (case p_cseq p of
        None \<Rightarrow> random_below (d_cseq dr) 10000
      | Some n \<Rightarrow> if n = 0 then random_below (d_cseq dr) 10000 else n)"

definition new_out_request ::
    "ua_config \<Rightarrow> draws \<Rightarrow> sip_method \<Rightarrow> uri \<Rightarrow> req_params \<Rightarrow> string list option \<Rightarrow> string option \<Rightarrow>
      js_error + out_request" where
  "new_out_request cfg dr method ruri p extraHeaders body =
     (let to = new_to ruri p; frm = new_from cfg dr p;
          call_id = new_call_id cfg dr p; cseq = new_cseq dr p;
          r = \<lparr>or_method = method, or_ruri = ruri, or_headers = [],
               or_extraHeaders = cloneArray extraHeaders @ cloneArray (cfg_extra_headers cfg),
               or_body = body, or_to = to, or_from = frm, or_call_id = call_id, or_cseq = cseq\<rparr>;
          r = (case p_route_set p of
                 Some rs \<Rightarrow> or_setHeader ''route'' rs r
               | None \<Rightarrow>
                   if cfg_use_preloaded_route cfg
                   then or_setHeader ''route'' [''<'' @ cfg_transport_sip_uri cfg @ '';lr>''] r else r);
          r = or_setHeader ''via'' [''''] r;
          r = or_setHeader ''max-forwards'' [num_str MAX_FORWARDS] r
      in bind_result (na_toString to) (\<lambda>to_str.
           (let r = or_setHeader ''to'' [to_str] r in
            bind_result (na_toString frm) (\<lambda>from_str.
              (let r = or_setHeader ''from'' [from_str] r;
                   r = or_setHeader ''call-id'' [call_id] r
               in Inr (or_setHeader ''cseq'' [num_str cseq @ '' '' @ method_str method] r))))))"

definition session_timer_tags :: "ua_config \<Rightarrow> string list" where
  "session_timer_tags cfg = (if cfg_session_timers cfg then [''timer''] else [])"

definition gruu_tags :: "ua_config \<Rightarrow> string list" where
  "gruu_tags cfg = (if truthy (ua_pub_gruu cfg) \<or> truthy (ua_temp_gruu cfg) then [''gruu''] else [])"

definition or_supported :: "ua_config \<Rightarrow> sip_method \<Rightarrow> string list" where
  "or_supported cfg method =
     (if method = REGISTER then [''path'', ''gruu'']
      else if method = INVITE then session_timer_tags cfg @ gruu_tags cfg @ [''ice'', ''replaces'']
      else if method = UPDATE then session_timer_tags cfg @ [''ice'']
      else []) @ [''outbound'']"

definition headers_text :: "string list js_object \<Rightarrow> string" where
  "headers_text hs =
     concat (map (\<lambda>(n, vals). concat (map (\<lambda>v. n @ '': '' @ v @ crlf) vals)) hs)"

definition extra_text :: "string list \<Rightarrow> string" where
  "extra_text ls = concat (map (\<lambda>l. js_trim l @ crlf) ls)"

definition body_text :: "string option \<Rightarrow> string" where
  "body_text body =
     (case body of
        None \<Rightarrow> ''Content-Length: 0'' @ crlf @ crlf
      | Some b \<Rightarrow>
          if b = [] then ''Content-Length: 0'' @ crlf @ crlf
          else ''Content-Length: '' @ num_str (str_utf8_length b) @ crlf @ crlf @ b)"

definition or_toString :: "ua_config \<Rightarrow> 'a out_request_scheme \<Rightarrow> js_error + string" where
  "or_toString cfg r =
     bind_result (uri_toString (or_ruri r)) (\<lambda>ruri.
       Inr (method_str (or_method r) @ '' '' @ ruri @ '' SIP/2.0'' @ crlf
         @ headers_text (or_headers r)
         @ extra_text (or_extraHeaders r)
         @ ''Allow: '' @ ALLOWED_METHODS @ crlf
         @ ''Supported: '' @ js_join '','' (or_supported cfg (or_method r)) @ crlf
         @ ''User-Agent: '' @ str_or (cfg_user_agent cfg) USER_AGENT @ crlf
         @ body_text (or_body r)))"

text \<open>\<open>Object.keys(this.headers).forEach\<close> over the freshly constructed request.\<close>

definition copy_headers :: "string list js_object \<Rightarrow> string list js_object \<Rightarrow> string list js_object" where
  "copy_headers hs into = fold (\<lambda>(n, vals). obj_put n vals) hs into"

definition or_clone :: "ua_config \<Rightarrow> draws \<Rightarrow> 'a out_request_scheme \<Rightarrow> js_error + out_request" where
  "or_clone cfg dr r =
     bind_result (new_out_request cfg dr (or_method r) (or_ruri r) no_params None None) (\<lambda>q.
       Inr (q\<lparr>or_headers := copy_headers (or_headers r) (or_headers q), or_body := or_body r,
              or_extraHeaders := or_extraHeaders r, or_to := or_to r, or_from := or_from r,
              or_call_id := or_call_id r, or_cseq := or_cseq r\<rparr>))"

text \<open>The initial INVITE keeps the transaction that carries it, here by its identifier.\<close>

record init_invite = out_request +
  ii_transaction :: "string option"

definition new_init_invite ::
    "ua_config \<Rightarrow> draws \<Rightarrow> uri \<Rightarrow> req_params \<Rightarrow> string list option \<Rightarrow> string option \<Rightarrow> js_error + init_invite" where
  "new_init_invite cfg dr ruri p extraHeaders body =
     bind_result (new_out_request cfg dr INVITE ruri p extraHeaders body) (\<lambda>r.
       Inr (out_request.extend r (init_invite.fields None)))"

definition ii_clone :: "ua_config \<Rightarrow> draws \<Rightarrow> init_invite \<Rightarrow> js_error + init_invite" where
  "ii_clone cfg dr r =
     bind_result (new_init_invite cfg dr (or_ruri r) no_params None None) (\<lambda>q.
       Inr (q\<lparr>or_headers := copy_headers (or_headers r) (or_headers q), or_body := or_body r,
              or_extraHeaders := or_extraHeaders r, or_to := or_to r, or_from := or_from r,
              or_call_id := or_call_id r, or_cseq := or_cseq r, ii_transaction := ii_transaction r\<rparr>))"

section \<open>Incoming messages\<close>

text \<open>What the grammar returns for the headers the program parses.\<close>

record challenge =
  ch_algorithm :: "string option"
  ch_realm :: "string option"
  ch_nonce :: "string option"
  ch_opaque :: "string option"
  ch_stale :: bool
  ch_qop :: "string list option"

datatype parsed =
    P_NameAddr name_addr
  | P_Via "string option" string "nat option"
  | P_CSeq nat string
  | P_Number nat
  | P_Text string
  | P_SessionExpires nat "string option"
  | P_Challenge challenge
  | P_Replaces string "string option" "string option"
  | P_Event string params

record header_field =
  hf_raw :: string
  hf_parsed :: "parsed option"

type_synonym in_headers = "header_field list js_object"
type_synonym grammar = "string \<Rightarrow> string \<Rightarrow> parsed option"

record in_table =
  im_headers :: in_headers

record in_message = in_table +
  im_data :: string
  im_method :: sip_method
  im_via_branch :: "string option"
  im_call_id :: string
  im_cseq :: nat
  im_from_tag :: "string option"
  im_to_tag :: "string option"
  im_body :: "string option"
  im_from :: "parsed option"
  im_to :: "parsed option"
  im_session_expires :: "nat option"
  im_session_expires_refresher :: "string option"
  im_refer_to :: "parsed option"
  im_replaces :: "parsed option"
  im_event :: "parsed option"

record in_request = in_message +
  im_ruri :: uri

record in_response = in_message +
  im_status_code :: nat
  im_reason_phrase :: string

definition raw_field :: "string \<Rightarrow> header_field" where
  "raw_field v = \<lparr>hf_raw = v, hf_parsed = None\<rparr>"

definition im_addHeader :: "string \<Rightarrow> string \<Rightarrow> 'a in_table_scheme \<Rightarrow> 'a in_table_scheme" where
  "im_addHeader name val m =
     (let name = headerize name in
      case obj_get (im_headers m) name of
        Some hs \<Rightarrow> m\<lparr>im_headers := obj_put name (hs @ [raw_field val]) (im_headers m)\<rparr>
      | None \<Rightarrow> m\<lparr>im_headers := obj_put name [raw_field val] (im_headers m)\<rparr>)"

definition im_getHeader :: "string \<Rightarrow> 'a in_table_scheme \<Rightarrow> string option" where
  "im_getHeader name m =
     (case obj_get (im_headers m) (headerize name) of
        Some (h # _) \<Rightarrow> Some (hf_raw h)
      | _ \<Rightarrow> None)"

definition im_getHeaders :: "string \<Rightarrow> 'a in_table_scheme \<Rightarrow> string list" where
  "im_getHeaders name m =
     (case obj_get (im_headers m) (headerize name) of
        Some hs \<Rightarrow> map hf_raw hs
      | None \<Rightarrow> [])"

definition im_hasHeader :: "string \<Rightarrow> 'a in_table_scheme \<Rightarrow> bool" where
  "im_hasHeader name m = obj_has (im_headers m) (headerize name)"

text \<open>\<open>name.replace(/-/g, '_')\<close>: the grammar rule of a header.\<close>

definition rule_name :: "string \<Rightarrow> string" where
  "rule_name s = map (\<lambda>c. if c = CHR ''-'' then CHR ''_'' else c) s"

definition im_parseHeader ::
    "grammar \<Rightarrow> string \<Rightarrow> nat \<Rightarrow> 'a in_table_scheme \<Rightarrow> parsed option \<times> 'a in_table_scheme" where
  "im_parseHeader parse name idx m =
     (let name = headerize name in
      case obj_get (im_headers m) name of
        None \<Rightarrow> (None, m)
      | Some hs \<Rightarrow>
          if length hs \<le> idx then (None, m)
          else
            (let header = hs ! idx in
             case hf_parsed header of
               Some p \<Rightarrow> (Some p, m)
             | None \<Rightarrow>
                 (case parse (rule_name name) (hf_raw header) of
                    None \<Rightarrow>
                      (None, m\<lparr>im_headers := obj_put name (take idx hs @ drop (Suc idx) hs) (im_headers m)\<rparr>)
                  | Some p \<Rightarrow>
                      (Some p,
                       m\<lparr>im_headers := obj_put name (hs[idx := header\<lparr>hf_parsed := Some p\<rparr>]) (im_headers m)\<rparr>))))"

definition im_setHeader :: "string \<Rightarrow> string \<Rightarrow> 'a in_table_scheme \<Rightarrow> 'a in_table_scheme" where
  "im_setHeader name val m =
     m\<lparr>im_headers := obj_put (headerize name) [raw_field val] (im_headers m)\<rparr>"

text \<open>A missing value concatenated to a string prints as \<open>undefined\<close>.\<close>

definition text_of :: "string option \<Rightarrow> string" where
  "text_of s = (case s of None \<Rightarrow> ''undefined'' | Some t \<Rightarrow> t)"

text \<open>
  The To header of a response.  \<open>this.s('to').hasParam('tag')\<close> raises a \<open>TypeError\<close> when the
  header does not parse.
\<close>

definition reply_to ::
    "grammar \<Rightarrow> draws \<Rightarrow> nat \<Rightarrow> 'a in_message_scheme \<Rightarrow> js_error + string \<times> 'a in_message_scheme" where
  "reply_to parse dr code m =
     (let to = text_of (im_getHeader ''To'' m) in
      if \<not> truthy (im_to_tag m) \<and> code > 100 then Inr (to @ '';tag='' @ newTag (d_tag dr), m)
      else if truthy (im_to_tag m) then
        (case im_parseHeader parse ''to'' 0 m of
           (Some (P_NameAddr h), m') \<Rightarrow>
             Inr (if na_hasParam ''tag'' h then to else to @ '';tag='' @ text_of (im_to_tag m), m')
         | (Some _, m') \<Rightarrow> Inl (TypeError ''hasParam is not a function'')
         | (None, m') \<Rightarrow> Inl (TypeError ''Cannot read property of undefined''))
      else Inr (to, m))"

definition field_lines :: "string \<Rightarrow> string list \<Rightarrow> string" where
  "field_lines name vals = concat (map (\<lambda>v. name @ '': '' @ v @ crlf) vals)"

definition status_line :: "nat \<Rightarrow> string option \<Rightarrow> string" where
  "status_line code reason =
     ''SIP/2.0 '' @ num_str code @ '' '' @ str_or reason (reason_phrase code) @ crlf"

definition dialog_fields :: "string \<Rightarrow> 'a in_message_scheme \<Rightarrow> string" where
  "dialog_fields to m =
     ''To: '' @ to @ crlf
     @ ''From: '' @ text_of (im_getHeader ''From'' m) @ crlf
     @ ''Call-ID: '' @ im_call_id m @ crlf
     @ ''CSeq: '' @ num_str (im_cseq m) @ '' '' @ method_str (im_method m) @ crlf"

definition reply_supported :: "ua_config \<Rightarrow> sip_method \<Rightarrow> string option \<Rightarrow> string list" where
  "reply_supported cfg method body =
     (if method = INVITE then session_timer_tags cfg @ gruu_tags cfg @ [''ice'', ''replaces'']
      else if method = UPDATE then
        session_timer_tags cfg @ (if truthy body then [''ice''] else []) @ [''replaces'']
      else []) @ [''outbound'']"

definition reply_allow :: "sip_method \<Rightarrow> nat \<Rightarrow> string" where
  "reply_allow method code =
     (if method = OPTIONS then
        ''Allow: '' @ ALLOWED_METHODS @ crlf @ ''Accept: '' @ ACCEPTED_BODY_TYPES @ crlf
      else if code = 405 then ''Allow: '' @ ALLOWED_METHODS @ crlf
      else if code = 415 then ''Accept: '' @ ACCEPTED_BODY_TYPES @ crlf
      else [])"

definition reply_body :: "string option \<Rightarrow> string" where
  "reply_body body =
     (if truthy body then ''Content-Type: application/sdp'' @ crlf else []) @ body_text body"

definition valid_status :: "nat \<Rightarrow> bool" where
  "valid_status code = (100 \<le> code \<and> code \<le> 699)"

text \<open>
  \<open>reply\<close> up to its last line, which hands the text to the server transaction: the text and the
  request with its To header parsed.
\<close>

definition reply_text ::
    "ua_config \<Rightarrow> grammar \<Rightarrow> draws \<Rightarrow> nat \<Rightarrow> string option \<Rightarrow> string list option \<Rightarrow> string option \<Rightarrow>
      'a in_message_scheme \<Rightarrow> js_error + string \<times> 'a in_message_scheme" where
  "reply_text cfg parse dr code reason extraHeaders body m =
     (if \<not> valid_status code then Inl (TypeError (''Invalid status_code: '' @ num_str code))
      else
        bind_result (reply_to parse dr code m) (\<lambda>(to, m').
          Inr (status_line code reason
            @ (if im_method m = INVITE \<and> code > 100 \<and> code \<le> 200
               then field_lines ''Record-Route'' (im_getHeaders ''record-route'' m) else [])
            @ field_lines ''Via'' (im_getHeaders ''via'' m)
            @ dialog_fields to m'
            @ extra_text (cloneArray extraHeaders @ cloneArray (cfg_extra_headers cfg))
            @ reply_allow (im_method m) code
            @ ''Supported: '' @ js_join '','' (reply_supported cfg (im_method m) body) @ crlf
            @ reply_body body, m')))"

text \<open>\<open>reply_sl\<close> up to its last line, which sends the text.\<close>

definition reply_sl_text ::
    "ua_config \<Rightarrow> grammar \<Rightarrow> draws \<Rightarrow> nat \<Rightarrow> string option \<Rightarrow>
      'a in_message_scheme \<Rightarrow> js_error + string \<times> 'a in_message_scheme" where
  "reply_sl_text cfg parse dr code reason m =
     (if \<not> valid_status code then Inl (TypeError (''Invalid status_code: '' @ num_str code))
      else
        bind_result (reply_to parse dr code m) (\<lambda>(to, m').
          Inr (status_line code reason
            @ field_lines ''Via'' (im_getHeaders ''via'' m)
            @ dialog_fields to m'
            @ extra_text (cloneArray (cfg_extra_headers cfg))
            @ ''Content-Length: 0'' @ crlf @ crlf, m')))"

section \<open>The contract of a header table\<close>

text \<open>A character of a header name, and the names the program uses.\<close>

definition name_char :: "char \<Rightarrow> bool" where
  "name_char c = (\<not> is_space c \<and> c \<noteq> CHR '':'')"

definition header_name :: "string \<Rightarrow> bool" where
  "header_name n = (n \<noteq> [] \<and> list_all name_char n)"

text \<open>
  What the program relies on of \<open>setHeader\<close>, \<open>getHeaders\<close>, \<open>getHeader\<close> and \<open>hasHeader\<close>:
  setting replaces all the values of a name, under every spelling of it, and of no other name.
\<close>

locale header_store =
  fixes set_h :: "string \<Rightarrow> 'v \<Rightarrow> 'm \<Rightarrow> 'm"
    and all_h :: "string \<Rightarrow> 'm \<Rightarrow> string list"
    and one_h :: "string \<Rightarrow> 'm \<Rightarrow> string option"
    and has_h :: "string \<Rightarrow> 'm \<Rightarrow> bool"
    and vals :: "'v \<Rightarrow> string list"
  assumes all_set_same: "headerize n' = headerize n \<Longrightarrow> all_h n' (set_h n v m) = vals v"
    and all_set_other:
      "header_name n \<Longrightarrow> header_name n' \<Longrightarrow> headerize n' \<noteq> headerize n \<Longrightarrow> all_h n' (set_h n v m) = all_h n' m"
    and has_set_same: "headerize n' = headerize n \<Longrightarrow> has_h n' (set_h n v m)"
    and all_has: "all_h n m \<noteq> [] \<Longrightarrow> has_h n m"
    and one_all: "one_h n m = Some x \<Longrightarrow> \<exists>xs. all_h n m = x # xs"
begin

lemma set_set: "header_name n' \<Longrightarrow> header_name n \<Longrightarrow> all_h n' (set_h n v (set_h n w m)) = all_h n' (set_h n v m)"
  by (cases "headerize n' = headerize n") (simp_all add: all_set_same all_set_other)

lemma set_commute:
  assumes "header_name n" "header_name n1" "header_name n2" "headerize n1 \<noteq> headerize n2"
  shows "all_h n (set_h n1 v (set_h n2 w m)) = all_h n (set_h n2 w (set_h n1 v m))"
proof (cases "headerize n = headerize n1")
  case True
  with assms show ?thesis by (simp add: all_set_same all_set_other)
next
  case False
  with assms show ?thesis
    by (cases "headerize n = headerize n2") (simp_all add: all_set_same all_set_other)
qed

lemma has_set: "vals v \<noteq> [] \<Longrightarrow> headerize n' = headerize n \<Longrightarrow> has_h n' (set_h n v m)"
  by (simp add: has_set_same)

lemma one_set: "headerize n' = headerize n \<Longrightarrow> one_h n' (set_h n v m) = Some x \<Longrightarrow> \<exists>xs. vals v = x # xs"
  using all_set_same one_all by fastforce

end

lemma to_lower_take: "to_lower (take k s) = take k (to_lower s)"
  by (simp add: to_lower_def take_map)

lemma lower_space: "is_space (lower_char c) \<longleftrightarrow> is_space c"
  by (auto simp: is_space_def lower_char_def)

lemma lower_colon: "lower_char c = CHR '':'' \<longleftrightarrow> c = CHR '':''"
proof -
  have "char_code (CHR '':'') = 58" by (simp add: char_code_def)
  then show ?thesis by (auto simp: lower_char_def simp flip: char_code_inj)
qed

lemma name_char_lower [simp]: "name_char (lower_char c) = name_char c"
  by (simp add: name_char_def lower_space lower_colon)

lemma takeWhile_app: "list_all P xs \<Longrightarrow> takeWhile P (xs @ ys) = xs @ takeWhile P ys"
  by (induction xs) auto

lemma starts_colon_space:
  "starts_with '':'' (dropWhile is_space s) \<Longrightarrow> takeWhile name_char s = []"
  by (cases s) (auto simp: name_char_def split: if_splits)

lemma matches_name:
  assumes "header_matches n l" and "header_name n"
  shows "to_lower (takeWhile name_char (dropWhile is_space l)) = to_lower n"
proof -
  let ?s = "dropWhile is_space l"
  from assms obtain r where r: "to_lower ?s = to_lower n @ r"
    and c: "starts_with '':'' (dropWhile is_space (drop (length n) ?s))"
    by (auto simp: header_matches_def Let_def starts_with_iff)
  have t: "to_lower (take (length n) ?s) = to_lower n"
    using r by (simp add: to_lower_take)
  have "list_all name_char (to_lower (take (length n) ?s))"
    unfolding t using assms by (simp add: header_name_def to_lower_def list_all_iff)
  then have a: "list_all name_char (take (length n) ?s)"
    by (simp add: to_lower_def list_all_iff)
  have "takeWhile name_char ?s = takeWhile name_char (take (length n) ?s @ drop (length n) ?s)"
    by simp
  also have "\<dots> = take (length n) ?s"
    unfolding takeWhile_app [OF a] using starts_colon_space [OF c] by simp
  finally show ?thesis using t by simp
qed

lemma matches_unique:
  "header_matches n l \<Longrightarrow> header_matches n' l \<Longrightarrow> header_name n \<Longrightarrow> header_name n' \<Longrightarrow> headerize n' = headerize n"
  using matches_name [of n l] matches_name [of n' l] by (simp add: headerize_def)

lemma filter_splice:
  assumes "header_name n" and "header_name n'" and "headerize n' \<noteq> headerize n"
  shows "filter (header_matches n') (splice_headers n hs) = filter (header_matches n') hs"
  using assms
  by (induction n hs rule: splice_headers.induct) (auto dest: matches_unique)

lemma find_filter: "find P xs = (case filter P xs of [] \<Rightarrow> None | y # _ \<Rightarrow> Some y)"
  by (induction xs) auto

interpretation out_heads: header_store or_setHeader or_getHeaders or_getHeader or_hasHeader "\<lambda>vs. vs"
proof
  fix n n' :: string and v m
  assume "header_name n" "header_name n'" "headerize n' \<noteq> headerize n"
  then show "or_getHeaders n' (or_setHeader n v m) = or_getHeaders n' m"
    by (simp add: or_getHeaders_def or_setHeader_def filter_splice split: option.splits)
next
  fix n m
  assume "or_getHeaders n m \<noteq> []"
  then show "or_hasHeader n m"
    by (auto simp: or_getHeaders_def or_hasHeader_def list_ex_iff filter_empty_conv split: option.splits)
next
  fix n m x
  assume "or_getHeader n m = Some x"
  then show "\<exists>xs. or_getHeaders n m = x # xs"
    by (auto simp: or_getHeader_def or_getHeaders_def find_filter
        split: option.splits list.splits if_splits)
qed (simp_all add: or_getHeaders_def or_setHeader_def or_hasHeader_def)

interpretation in_heads: header_store im_setHeader im_getHeaders im_getHeader im_hasHeader "\<lambda>v. [v]"
  by unfold_locales
    (auto simp: im_setHeader_def im_getHeaders_def im_getHeader_def im_hasHeader_def raw_field_def obj_has_def
      split: option.splits list.splits)

section \<open>Requests as the program makes them\<close>

lemma header_keys [simp]:
  "headerize ''route'' = ''Route''" "headerize ''via'' = ''Via''"
  "headerize ''max-forwards'' = ''Max-Forwards''" "headerize ''to'' = ''To''"
  "headerize ''from'' = ''From''" "headerize ''call-id'' = ''Call-ID''" "headerize ''cseq'' = ''CSeq''"
  "headerize ''Via'' = ''Via''" "headerize ''Max-Forwards'' = ''Max-Forwards''"
  "headerize ''To'' = ''To''" "headerize ''From'' = ''From''" "headerize ''CSeq'' = ''CSeq''"
  "headerize ''Call-ID'' = ''Call-ID''" "headerize ''record-route'' = ''Record-Route''"
  by code_simp+

lemma or_headers_set [simp]: "or_headers (or_setHeader n v r) = obj_put (headerize n) v (or_headers r)"
  by (simp add: or_setHeader_def)

lemma or_extra_set [simp]: "or_extraHeaders (or_setHeader n v r) = splice_headers n (or_extraHeaders r)"
  by (simp add: or_setHeader_def)

lemma or_fields_set [simp]:
  "or_method (or_setHeader n v r) = or_method r" "or_ruri (or_setHeader n v r) = or_ruri r"
  "or_to (or_setHeader n v r) = or_to r" "or_from (or_setHeader n v r) = or_from r"
  "or_call_id (or_setHeader n v r) = or_call_id r" "or_cseq (or_setHeader n v r) = or_cseq r"
  "or_body (or_setHeader n v r) = or_body r"
  by (simp_all add: or_setHeader_def)

definition base_names :: "ua_config \<Rightarrow> string list" where
  "base_names cfg =
     (if cfg_use_preloaded_route cfg then [''Route''] else []) @
     [''Via'', ''Max-Forwards'', ''To'', ''From'', ''Call-ID'', ''CSeq'']"

definition new_route :: "ua_config \<Rightarrow> req_params \<Rightarrow> string list option" where
  "new_route cfg p =
     (case p_route_set p of Some rs \<Rightarrow> Some rs
      | None \<Rightarrow> if cfg_use_preloaded_route cfg then Some [''<'' @ cfg_transport_sip_uri cfg @ '';lr>''] else None)"

lemma obj_get_put_fun: "obj_get (obj_put k v ob) = (obj_get ob)(k \<mapsto> v)"
  by (rule ext) simp

lemma new_out_request_headers:
  assumes "new_out_request cfg dr method ruri p eh body = Inr r"
  obtains to_str from_str where
    "obj_get (or_headers r) = (case new_route cfg p of None \<Rightarrow> Map.empty | Some rt \<Rightarrow> [''Route'' \<mapsto> rt])
      (''Via'' \<mapsto> [''''], ''Max-Forwards'' \<mapsto> [num_str MAX_FORWARDS], ''To'' \<mapsto> [to_str], ''From'' \<mapsto> [from_str],
       ''Call-ID'' \<mapsto> [or_call_id r], ''CSeq'' \<mapsto> [num_str (or_cseq r) @ '' '' @ method_str method])"
    "na_toString (or_to r) = Inr to_str" "na_toString (or_from r) = Inr from_str"
    "or_method r = method" "or_ruri r = ruri" "or_from r = new_from cfg dr p" "or_call_id r = new_call_id cfg dr p"
    "or_cseq r = new_cseq dr p"
proof -
  from assms obtain to_str from_str where ts: "na_toString (new_to ruri p) = Inr to_str"
    and fs: "na_toString (new_from cfg dr p) = Inr from_str"
    by (auto simp: new_out_request_def Let_def bind_result_Inr)
  let ?cs = "new_cseq dr p"
  have eqs: "or_to r = new_to ruri p" "or_from r = new_from cfg dr p" "or_method r = method" "or_ruri r = ruri"
    "or_call_id r = new_call_id cfg dr p" "or_cseq r = ?cs"
    using assms by (auto simp: new_out_request_def Let_def bind_result_Inr split: option.splits)
  have "obj_get (or_headers r) = (case new_route cfg p of None \<Rightarrow> Map.empty | Some rt \<Rightarrow> [''Route'' \<mapsto> rt])
      (''Via'' \<mapsto> [''''], ''Max-Forwards'' \<mapsto> [num_str MAX_FORWARDS], ''To'' \<mapsto> [to_str], ''From'' \<mapsto> [from_str],
       ''Call-ID'' \<mapsto> [new_call_id cfg dr p], ''CSeq'' \<mapsto> [num_str ?cs @ '' '' @ method_str method])"
    using assms
    by (simp only: new_out_request_def Let_def ts fs bind_result.simps sum.inject)
      (auto simp: new_route_def obj_get_put_fun split: option.splits)
  with ts fs show thesis by (intro that [of to_str from_str]) (simp_all only: eqs)
qed

lemma new_request_wf: "new_out_request cfg dr method ruri p eh body = Inr r \<Longrightarrow> obj_wf (or_headers r)"
  by (auto simp: new_out_request_def Let_def bind_result_Inr split: option.splits)

lemma createRandomToken_not_Nil: "0 < n \<Longrightarrow> createRandomToken n base rnd \<noteq> []"
  by (cases n) (auto simp: createRandomToken_def)

lemma str_or_not_Nil: "d \<noteq> [] \<Longrightarrow> str_or s d \<noteq> []"
  by (auto simp: str_or_def split: option.splits)

lemma new_from_tag: "\<exists>t. na_getParam ''tag'' (new_from cfg dr p) = Some (Some t) \<and> t \<noteq> []"
proof -
  have "to_lower ''tag'' = ''tag''" by code_simp
  moreover have "newTag (d_tag dr) \<noteq> []" by (simp add: newTag_def createRandomToken_not_Nil)
  ultimately show ?thesis
    by (simp add: new_from_def new_name_addr_def na_setParam_def na_getParam_def setParam_def getParam_def
        str_or_not_Nil)
qed

text \<open>Made by the constructor and changed by the class's own operations.\<close>

inductive or_made :: "ua_config \<Rightarrow> out_request \<Rightarrow> bool" for cfg where
  or_made_new: "new_out_request cfg dr method ruri p eh body = Inr r \<Longrightarrow> or_made cfg r"
| or_made_set: "or_made cfg r \<Longrightarrow> or_made cfg (or_setHeader n vs r)"
| or_made_clone: "or_made cfg r \<Longrightarrow> or_clone cfg dr r = Inr q \<Longrightarrow> or_made cfg q"

definition or_wf :: "ua_config \<Rightarrow> out_request \<Rightarrow> bool" where
  "or_wf cfg r = (obj_wf (or_headers r) \<and> list_all (obj_has (or_headers r)) (base_names cfg))"

lemma get_copy:
  "obj_wf hs \<Longrightarrow> obj_get (copy_headers hs into) n = (if obj_has hs n then obj_get hs n else obj_get into n)"
proof (induction hs arbitrary: into)
  case Nil
  then show ?case by (simp add: copy_headers_def)
next
  case (Cons p hs)
  obtain k v where p: "p = (k, v)" by (cases p)
  with Cons.prems have "obj_wf hs" "\<not> obj_has hs k" by (auto simp: obj_wf_def obj_has_iff)
  with Cons.IH [of "obj_put k v into"] show ?case
    by (auto simp: p copy_headers_def obj_has_def)
qed

lemma obj_wf_copy: "obj_wf into \<Longrightarrow> obj_wf (copy_headers hs into)"
  unfolding copy_headers_def by (induction hs arbitrary: into) auto

lemma new_plain_has:
  assumes "new_out_request cfg dr method ruri no_params None None = Inr q" and "obj_has (or_headers q) n"
  shows "n \<in> set (base_names cfg)"
  using assms
  by (auto elim!: new_out_request_headers simp: obj_has_def no_params_def base_names_def new_route_def
      split: if_splits)

lemma clone_get:
  assumes "or_wf cfg r" and "or_clone cfg dr r = Inr q"
  shows "obj_get (or_headers q) = obj_get (or_headers r)"
proof
  fix n
  from assms obtain q0 where q0: "new_out_request cfg dr (or_method r) (or_ruri r) no_params None None = Inr q0"
    and q: "or_headers q = copy_headers (or_headers r) (or_headers q0)"
    by (auto simp: or_clone_def bind_result_Inr)
  show "obj_get (or_headers q) n = obj_get (or_headers r) n"
  proof (cases "obj_has (or_headers r) n")
    case True
    with assms q show ?thesis by (simp add: get_copy or_wf_def)
  next
    case False
    with assms have "n \<notin> set (base_names cfg)" by (auto simp: or_wf_def list_all_iff)
    with q0 have "\<not> obj_has (or_headers q0) n" using new_plain_has by blast
    with False assms q show ?thesis by (simp add: get_copy or_wf_def) (simp add: obj_has_def)
  qed
qed

lemma or_made_wf: "or_made cfg r \<Longrightarrow> or_wf cfg r"
proof (induction rule: or_made.induct)
  case (or_made_new dr m ruri p eh body r)
  then show ?case
    by (auto elim!: new_out_request_headers
        simp: or_wf_def new_request_wf obj_has_def base_names_def new_route_def split: option.splits)
next
  case (or_made_set r n vs)
  then show ?case by (auto simp: or_wf_def list_all_iff)
next
  case (or_made_clone r dr q)
  then have "obj_wf (or_headers q)"
    by (auto simp: or_clone_def bind_result_Inr obj_wf_copy dest: new_request_wf)
  moreover have "obj_has (or_headers q) = obj_has (or_headers r)"
    using or_made_clone clone_get [of cfg r dr q] by (simp add: obj_has_def fun_eq_iff)
  ultimately show ?case using or_made_clone by (simp add: or_wf_def)
qed

lemma clone_fields:
  "or_clone cfg dr r = Inr q \<Longrightarrow>
    or_extraHeaders q = or_extraHeaders r \<and> or_body q = or_body r \<and> or_call_id q = or_call_id r \<and>
    or_cseq q = or_cseq r \<and> or_to q = or_to r \<and> or_from q = or_from r \<and>
    or_method q = or_method r \<and> or_ruri q = or_ruri r"
  by (auto simp: or_clone_def bind_result_Inr elim!: new_out_request_headers)

section \<open>Replies\<close>

lemma parse_other:
  "im_parseHeader parse n idx m = (p, m') \<Longrightarrow> headerize n' \<noteq> headerize n \<Longrightarrow>
    im_getHeaders n' m' = im_getHeaders n' m \<and> im_getHeader n' m' = im_getHeader n' m"
  by (auto simp: im_parseHeader_def im_getHeaders_def im_getHeader_def Let_def split: option.splits if_splits)

lemma parse_fields:
  "im_parseHeader parse n idx m = (p, m') \<Longrightarrow>
    im_call_id m' = im_call_id m \<and> im_cseq m' = im_cseq m \<and> im_method m' = im_method m"
  by (auto simp: im_parseHeader_def Let_def split: option.splits if_splits)

lemma parse_to:
  "im_parseHeader parse ''to'' 0 m = (p, m') \<Longrightarrow>
    im_getHeader ''From'' m' = im_getHeader ''From'' m \<and>
    im_call_id m' = im_call_id m \<and> im_cseq m' = im_cseq m \<and> im_method m' = im_method m"
  using parse_other [of parse "''to''" 0 m p m' "''From''"] parse_fields [of parse "''to''" 0 m p m'] by simp

lemma reply_to_cases:
  assumes "reply_to parse dr code m = Inr (to, m')"
  obtains tag where "to = text_of (im_getHeader ''To'' m) @ tag"
    "truthy (im_to_tag m) \<or> tag = (if 100 < code then '';tag='' @ newTag (d_tag dr) else [])"
    "im_getHeader ''From'' m' = im_getHeader ''From'' m"
    "im_call_id m' = im_call_id m" "im_cseq m' = im_cseq m" "im_method m' = im_method m"
  using assms
  by (auto simp: reply_to_def Let_def split: if_splits prod.splits option.splits parsed.splits
      dest: parse_to)

section \<open>Properties\<close>


definition demo_uri :: uri where
  "demo_uri = \<lparr>uri_scheme = ''sip'', uri_user = None, uri_host = ''h'', uri_port = None,
     uri_parameters = [], uri_headers = []\<rparr>"

definition demo_cfg :: ua_config where
  "demo_cfg = \<lparr>cfg_extra_headers = None, cfg_use_preloaded_route = False, cfg_transport_sip_uri = ''sip:h'',
     cfg_via_host = ''v.invalid'', cfg_uri = demo_uri, cfg_display_name = None, cfg_jssip_id = ''j'',
     cfg_session_timers = True, cfg_user_agent = None, ua_pub_gruu = None, ua_temp_gruu = None\<rparr>"

definition demo_draws :: draws where
  "demo_draws = \<lparr>d_tag = (\<lambda>i. 0), d_token = (\<lambda>i. 0), d_cseq = 1 / 2\<rparr>"

lemma demo_uri_str: "uri_toString demo_uri = Inr ''sip:h''"
  by (simp add: demo_uri_def uri_toString_def user_str_def port_str_def params_str_def Let_def)

lemma demo_na_str: "\<exists>s. na_toString (new_name_addr demo_uri None ps) = Inr s"
  by (simp add: na_toString_def new_name_addr_def fold_na_setParam demo_uri_str)

lemma demo_new:
  "\<exists>r. new_out_request demo_cfg demo_draws method demo_uri no_params eh body = Inr r"
  using demo_na_str [of "[]"] demo_na_str [of "[(''tag'', Some (newTag (\<lambda>i. 0)))]"]
  by (auto simp: new_out_request_def Let_def new_to_def new_from_def no_params_def demo_cfg_def
      demo_draws_def truthy_def str_or_def bind_result_Inr simp del: bind_result.simps split: sum.splits)

definition demo_request :: out_request where
  "demo_request = projr (new_out_request demo_cfg demo_draws REGISTER demo_uri no_params None None)"

lemma demo_request: "new_out_request demo_cfg demo_draws REGISTER demo_uri no_params None None = Inr demo_request"
  using demo_new [of REGISTER None None] by (auto simp: demo_request_def)


text \<open>
  A cloned request (the copy \<open>RequestSender\<close> resends with credentials) answers every header
  query as the original does and has the original's method, target, body, call identifier and
  sequence number, for every request the constructor and \<open>setHeader\<close> can make.
\<close>

theorem clone_same_headers:
  assumes "or_made cfg r" and "or_clone cfg dr r = Inr q"
  shows "or_getHeaders n q = or_getHeaders n r \<and> or_getHeader n q = or_getHeader n r \<and>
    or_hasHeader n q = or_hasHeader n r \<and> or_method q = or_method r \<and> or_ruri q = or_ruri r \<and>
    or_body q = or_body r \<and> or_call_id q = or_call_id r \<and> or_cseq q = or_cseq r"
  using clone_get [OF or_made_wf [OF assms(1)] assms(2)] clone_fields [OF assms(2)]
  by (auto simp: or_getHeaders_def or_getHeader_def or_hasHeader_def split: option.splits)

lemma demo_request_fields: "or_method demo_request = REGISTER" "or_ruri demo_request = demo_uri"
  using demo_request by (auto elim: new_out_request_headers)

lemma demo_clone: "or_clone demo_cfg demo_draws demo_request = Inr (projr (or_clone demo_cfg demo_draws demo_request))"
  by (simp add: or_clone_def demo_request_fields demo_request)

theorem clone_same_headers_witness:
  "or_getHeaders ''CSeq'' (projr (or_clone demo_cfg demo_draws demo_request)) = or_getHeaders ''CSeq'' demo_request \<and>
    or_getHeader ''CSeq'' (projr (or_clone demo_cfg demo_draws demo_request)) = or_getHeader ''CSeq'' demo_request \<and>
    or_hasHeader ''CSeq'' (projr (or_clone demo_cfg demo_draws demo_request)) = or_hasHeader ''CSeq'' demo_request \<and>
    or_method (projr (or_clone demo_cfg demo_draws demo_request)) = or_method demo_request \<and>
    or_ruri (projr (or_clone demo_cfg demo_draws demo_request)) = or_ruri demo_request \<and>
    or_body (projr (or_clone demo_cfg demo_draws demo_request)) = or_body demo_request \<and>
    or_call_id (projr (or_clone demo_cfg demo_draws demo_request)) = or_call_id demo_request \<and>
    or_cseq (projr (or_clone demo_cfg demo_draws demo_request)) = or_cseq demo_request"
  by (rule clone_same_headers [OF or_made_new [OF demo_request] demo_clone])

text \<open>
  \<open>setHeader\<close> is meant to remove the header from \<open>extraHeaders\<close>, but it leaves a line of that
  name exactly when two neighbouring lines have it: the second one is passed over after the
  \<open>splice\<close>.
\<close>

theorem setHeader_leaves_extra:
  "list_ex (header_matches n) (or_extraHeaders (or_setHeader n v r)) \<longleftrightarrow>
    list_ex (\<lambda>(a, b). header_matches n a \<and> header_matches n b) (zip (or_extraHeaders r) (tl (or_extraHeaders r)))"
proof -
  have "list_ex (header_matches n) (splice_headers n hs) \<longleftrightarrow>
    list_ex (\<lambda>(a, b). header_matches n a \<and> header_matches n b) (zip hs (tl hs))" for hs
  proof (induction n hs rule: splice_headers.induct)
    case (3 name h k hs)
    then show ?case by (cases hs) auto
  qed auto
  then show ?thesis by simp
qed

text \<open>
  Every stateful reply has the frame RFC 3261 (8.2.6) asks for: after the status line (and, for
  an INVITE answered 101 to 200, the Record-Route lines) come all the Via values of the request in
  their order, its To, From, Call-ID and CSeq; and where the request had no To tag, a fresh tag is
  added exactly when the code is above 100.
\<close>

theorem reply_frame:
  assumes "reply_text cfg parse dr code reason eh body m = Inr (t, m')"
  shows "\<exists>tag post. t = status_line code reason
      @ (if im_method m = INVITE \<and> 100 < code \<and> code \<le> 200
         then field_lines ''Record-Route'' (im_getHeaders ''record-route'' m) else [])
      @ field_lines ''Via'' (im_getHeaders ''via'' m)
      @ ''To: '' @ text_of (im_getHeader ''To'' m) @ tag @ crlf
      @ ''From: '' @ text_of (im_getHeader ''From'' m) @ crlf
      @ ''Call-ID: '' @ im_call_id m @ crlf
      @ ''CSeq: '' @ num_str (im_cseq m) @ '' '' @ method_str (im_method m) @ crlf @ post \<and>
    (truthy (im_to_tag m) \<or> tag = (if 100 < code then '';tag='' @ newTag (d_tag dr) else []))"
proof -
  from assms obtain to post where t: "t = status_line code reason
      @ (if im_method m = INVITE \<and> 100 < code \<and> code \<le> 200
         then field_lines ''Record-Route'' (im_getHeaders ''record-route'' m) else [])
      @ field_lines ''Via'' (im_getHeaders ''via'' m) @ dialog_fields to m' @ post"
    and r: "reply_to parse dr code m = Inr (to, m')"
    by (auto simp: reply_text_def bind_result_Inr split: if_splits)
  from r obtain tag where "to = text_of (im_getHeader ''To'' m) @ tag"
    "truthy (im_to_tag m) \<or> tag = (if 100 < code then '';tag='' @ newTag (d_tag dr) else [])"
    "im_getHeader ''From'' m' = im_getHeader ''From'' m"
    "im_call_id m' = im_call_id m" "im_cseq m' = im_cseq m" "im_method m' = im_method m"
    by (rule reply_to_cases)
  then show ?thesis
    by (intro exI [of _ tag] exI [of _ post]) (simp add: t dialog_fields_def)
qed

definition demo_in :: in_message where
  "demo_in = \<lparr>im_headers = [(''To'', [raw_field ''<sip:h>'']), (''Via'', [raw_field ''a'', raw_field ''b''])], im_data = [], im_method = BYE, im_via_branch = Some ''z'', im_call_id = ''c'', im_cseq = 3, im_from_tag = Some ''f'',
     im_to_tag = None, im_body = None, im_from = None, im_to = None, im_session_expires = None, im_session_expires_refresher = None,
      im_refer_to = None, im_replaces = None, im_event = None\<rparr>"

theorem reply_frame_witness:
  "\<exists>tag post. fst (projr (reply_text demo_cfg (\<lambda>r s. None) demo_draws 200 None None None demo_in)) = status_line 200 None
      @ (if im_method demo_in = INVITE \<and> 100 < (200 :: nat) \<and> (200 :: nat) \<le> 200
         then field_lines ''Record-Route'' (im_getHeaders ''record-route'' demo_in) else [])
      @ field_lines ''Via'' (im_getHeaders ''via'' demo_in)
      @ ''To: '' @ text_of (im_getHeader ''To'' demo_in) @ tag @ crlf
      @ ''From: '' @ text_of (im_getHeader ''From'' demo_in) @ crlf
      @ ''Call-ID: '' @ im_call_id demo_in @ crlf
      @ ''CSeq: '' @ num_str (im_cseq demo_in) @ '' '' @ method_str (im_method demo_in) @ crlf @ post \<and>
    (truthy (im_to_tag demo_in) \<or> tag = (if 100 < (200 :: nat) then '';tag='' @ newTag (d_tag demo_draws) else []))"
  by (rule reply_frame [where m' = demo_in and cfg = demo_cfg and parse = "\<lambda>r s. None" and eh = None and body = None])
    (simp add: reply_text_def reply_to_def valid_status_def truthy_def demo_in_def)

lemma new_out_request_ok:
  "na_toString (new_to ruri p) = Inr a \<Longrightarrow> na_toString (new_from cfg dr p) = Inr b \<Longrightarrow>
    \<exists>r. new_out_request cfg dr method ruri p eh body = Inr r"
  by (simp add: new_out_request_def Let_def)

lemma demo_new_ok:
  assumes "p_to_uri p = None" and "p_from_uri p = None"
  shows "\<exists>r. new_out_request demo_cfg dr method demo_uri p eh body = Inr r"
proof -
  have "\<exists>s. na_toString (new_name_addr demo_uri d ps) = Inr s" for d ps
    by (simp add: na_toString_def new_name_addr_def fold_na_setParam demo_uri_str)
  then have "\<exists>a. na_toString (new_to demo_uri p) = Inr a" "\<exists>b. na_toString (new_from demo_cfg dr p) = Inr b"
    using assms by (simp_all add: new_to_def new_from_def demo_cfg_def)
  then show ?thesis by (blast intro: new_out_request_ok)
qed

end
