(* ===== verification/Tx_Base.thy ===== *)
theory Tx_Base
  imports Sip_Message
begin

text \<open>
  What the transaction classes of \<open>Transactions.js\<close> (lines 22745-23569 of
  \<open>frontend/static/js/jssip-3.10.0.js\<close>) share: their states, the timers they set and the calls
  they make to the outside.  An object of a class is a record that extends \<open>tx\<close>; everything it
  does to its surroundings (\<open>emit\<close>, \<open>transport.send\<close>, \<open>ua.newTransaction\<close>,
  \<open>ua.destroyTransaction\<close>, the callbacks of its creator) is appended to \<open>tx_trace\<close>, and the
  result of the one \<open>transport.send\<close> a method may make is its argument \<open>sent\<close>.  The callbacks
  do not call back into the transaction before they return.

  The event loop's timers of one transaction are \<open>tx_pending\<close>, the timers set and neither fired
  nor cleared, by handle.  The locale \<^theory_text>\<open>tx_machine\<close> is the contract the classes share, as the user
  agent relies on it.
\<close>

section \<open>States, timers and effects\<close>

datatype tx_state =
    STATUS_TRYING
  | STATUS_PROCEEDING
  | STATUS_CALLING
  | STATUS_ACCEPTED
  | STATUS_COMPLETED
  | STATUS_TERMINATED
  | STATUS_CONFIRMED

datatype timer =
    Timer_B | Timer_D | Timer_F | Timer_H | Timer_I | Timer_J | Timer_K | Timer_L | Timer_M
  | Timer_Provisional

datatype tx_event =
    StateChanged tx_state
  | NewTransaction
  | Destroyed
  | SendRequest out_request
  | SendReply nat string
  | Resend string
  | OnTransportError
  | OnRequestTimeout
  | OnReceiveResponse in_response
  | OnSuccess
  | OnFailure

record tx =
  tx_id :: string
  tx_state :: "tx_state option"
  tx_pending :: "(nat \<times> timer \<times> nat) list"
  tx_next :: nat
  tx_trace :: "tx_event list"

definition emit :: "tx_event \<Rightarrow> 'a tx_scheme \<Rightarrow> 'a tx_scheme" where
  "emit e t = t\<lparr>tx_trace := tx_trace t @ [e]\<rparr>"

text \<open>\<open>stateChanged\<close>, the same in the four classes.\<close>

definition stateChanged :: "tx_state \<Rightarrow> 'a tx_scheme \<Rightarrow> 'a tx_scheme" where
  "stateChanged s t = emit (StateChanged s) (t\<lparr>tx_state := Some s\<rparr>)"

text \<open>
  \<open>setTimeout\<close> and \<open>setInterval\<close>: the new handle and the transaction with the timer pending;
  \<open>clearTimeout\<close> of a field that may be \<open>undefined\<close>.
\<close>

definition setTimeout :: "timer \<Rightarrow> nat \<Rightarrow> 'a tx_scheme \<Rightarrow> nat \<times> 'a tx_scheme" where
  "setTimeout n delay t =
     (tx_next t, t\<lparr>tx_pending := tx_pending t @ [(tx_next t, n, delay)], tx_next := Suc (tx_next t)\<rparr>)"

definition clearTimeout :: "nat option \<Rightarrow> 'a tx_scheme \<Rightarrow> 'a tx_scheme" where
  "clearTimeout h t = t\<lparr>tx_pending := filter (\<lambda>(k, _). Some k \<noteq> h) (tx_pending t)\<rparr>"

text \<open>The loop takes a timer that is due off the list before it calls the function.\<close>

definition take_timer :: "nat \<Rightarrow> 'a tx_scheme \<Rightarrow> 'a tx_scheme" where
  "take_timer h t = clearTimeout (Some h) t"

definition timer_at :: "nat \<Rightarrow> 'a tx_scheme \<Rightarrow> timer option" where
  "timer_at h t = map_option fst (map_of (tx_pending t) h)"

definition branch_id :: "real \<Rightarrow> string" where
  "branch_id u = ''z9hG4bK'' @ num_str (random_below u 10000000)"

definition via_value :: "string \<Rightarrow> ua_config \<Rightarrow> string \<Rightarrow> string" where
  "via_value via_transport cfg branch =
     ''SIP/2.0/'' @ via_transport @ '' '' @ cfg_via_host cfg @ '';branch='' @ branch"

lemmas tx_defs =
  emit_def stateChanged_def setTimeout_def clearTimeout_def take_timer_def timer_at_def

abbreviation destroy :: "'a tx_scheme \<Rightarrow> 'a tx_scheme" where
  "destroy \<equiv> emit Destroyed"

text \<open>The user agent keeps a transaction in its table until it is destroyed.\<close>

definition registered :: "'a tx_scheme \<Rightarrow> bool" where
  "registered t = (Destroyed \<notin> set (tx_trace t))"

text \<open>Events that report an outcome to the creator of a client transaction.\<close>

fun is_final :: "tx_event \<Rightarrow> bool" where
  "is_final (OnReceiveResponse r) = (200 \<le> im_status_code r)"
| "is_final OnRequestTimeout = True"
| "is_final _ = False"

fun is_success :: "tx_event \<Rightarrow> bool" where
  "is_success (OnReceiveResponse r) = (200 \<le> im_status_code r \<and> im_status_code r \<le> 299)"
| "is_success _ = False"

fun is_failure :: "tx_event \<Rightarrow> bool" where
  "is_failure (OnReceiveResponse r) = (300 \<le> im_status_code r)"
| "is_failure OnRequestTimeout = True"
| "is_failure OnTransportError = True"
| "is_failure _ = False"

section \<open>The contract of a transaction\<close>

locale tx_machine =
  fixes init :: "'t \<Rightarrow> bool"
    and step :: "'t \<Rightarrow> 't \<Rightarrow> bool"
    and inv :: "'t \<Rightarrow> bool"
    and state_of :: "'t \<Rightarrow> tx_state option"
    and trace :: "'t \<Rightarrow> tx_event list"
  assumes inv_init: "init t \<Longrightarrow> inv t"
    and inv_step: "inv t \<Longrightarrow> step t t' \<Longrightarrow> inv t'"
    and trace_grows: "step t t' \<Longrightarrow> \<exists>es. trace t' = trace t @ es"
    and destroyed_iff: "inv t \<Longrightarrow> Destroyed \<in> set (trace t) \<longleftrightarrow> state_of t = Some STATUS_TERMINATED"
begin

lemma inv_reach: "step\<^sup>*\<^sup>* t t' \<Longrightarrow> inv t \<Longrightarrow> inv t'"
  by (induction rule: rtranclp_induct) (auto intro: inv_step)

lemma reach_inv: "init t \<Longrightarrow> step\<^sup>*\<^sup>* t t' \<Longrightarrow> inv t'"
  by (blast intro: inv_reach inv_init)

lemma trace_reach: "step\<^sup>*\<^sup>* t t' \<Longrightarrow> \<exists>es. trace t' = trace t @ es"
  by (induction rule: rtranclp_induct) (force dest: trace_grows)+

text \<open>A terminated transaction stays terminated, whatever timer still fires.\<close>

lemma terminated_for_good:
  assumes "init t0" and "step\<^sup>*\<^sup>* t0 t" and "state_of t = Some STATUS_TERMINATED" and "step\<^sup>*\<^sup>* t t'"
  shows "state_of t' = Some STATUS_TERMINATED"
proof -
  have i: "inv t" "inv t'" using assms by (meson reach_inv inv_reach)+
  obtain es where "trace t' = trace t @ es" using trace_reach [OF assms(4)] by blast
  with destroyed_iff [OF i(1)] assms(3) have "Destroyed \<in> set (trace t')" by simp
  with destroyed_iff [OF i(2)] show ?thesis by simp
qed

end

section \<open>Shared lemmas\<close>

named_theorems tx_simps \<open>the fields of a transaction after the primitive operations\<close>

lemma tx_fields [simp, tx_simps]:
  "tx_state (emit e t) = tx_state t" "tx_pending (emit e t) = tx_pending t" "tx_next (emit e t) = tx_next t"
  "tx_trace (emit e t) = tx_trace t @ [e]" "tx_id (emit e t) = tx_id t" "tx.more (emit e t) = tx.more t"
  "tx_state (stateChanged s t) = Some s" "tx_pending (stateChanged s t) = tx_pending t"
  "tx_next (stateChanged s t) = tx_next t" "tx_trace (stateChanged s t) = tx_trace t @ [StateChanged s]"
  "tx_id (stateChanged s t) = tx_id t" "tx.more (stateChanged s t) = tx.more t"
  "tx_state (clearTimeout h t) = tx_state t" "tx_next (clearTimeout h t) = tx_next t"
  "tx_trace (clearTimeout h t) = tx_trace t" "tx_id (clearTimeout h t) = tx_id t"
  "tx.more (clearTimeout h t) = tx.more t"
  "tx_pending (clearTimeout h t) = filter (\<lambda>(k, _). Some k \<noteq> h) (tx_pending t)"
  "tx_state (take_timer k t) = tx_state t" "tx_next (take_timer k t) = tx_next t"
  "tx_trace (take_timer k t) = tx_trace t" "tx_id (take_timer k t) = tx_id t"
  "tx.more (take_timer k t) = tx.more t"
  "tx_pending (take_timer k t) = filter (\<lambda>(j, _). Some j \<noteq> Some k) (tx_pending t)"
  by (simp_all add: tx_defs)

definition finals :: "tx_event list \<Rightarrow> nat" where
  "finals es = length (filter is_final es)"

definition transport_errors :: "tx_event list \<Rightarrow> nat" where
  "transport_errors es = length (filter ((=) OnTransportError) es)"

definition destroys :: "tx_event list \<Rightarrow> nat" where
  "destroys es = length (filter ((=) Destroyed) es)"

lemma counts [simp]:
  "finals [] = 0" "transport_errors [] = 0" "destroys [] = 0"
  "finals (e # es) = (if is_final e then 1 else 0) + finals es"
  "transport_errors (e # es) = (if e = OnTransportError then 1 else 0) + transport_errors es"
  "destroys (e # es) = (if e = Destroyed then 1 else 0) + destroys es"
  "finals (es @ fs) = finals es + finals fs"
  "transport_errors (es @ fs) = transport_errors es + transport_errors fs"
  "destroys (es @ fs) = destroys es + destroys fs"
  by (auto simp: finals_def transport_errors_def destroys_def)

lemma destroys_pos: "0 < destroys es \<longleftrightarrow> Destroyed \<in> set es"
  by (auto simp: destroys_def filter_empty_conv)

lemma destroys_zero: "destroys es = 0 \<longleftrightarrow> Destroyed \<notin> set es"
  using destroys_pos [of es] by auto

lemma registered_destroys: "registered t \<longleftrightarrow> destroys (tx_trace t) = 0"
  by (simp add: registered_def destroys_zero)

end
