(* ===== verification/Tx_Client.thy ===== *)
theory Tx_Client
  imports Tx_Base
begin

text \<open>
  The client transactions of \<open>Transactions.js\<close>: \<open>NonInviteClientTransaction\<close>,
  \<open>InviteClientTransaction\<close> and \<open>AckClientTransaction\<close> (lines 22801-23158 of
  \<open>frontend/static/js/jssip-3.10.0.js\<close>), each with the step relation of the calls the user agent
  and the event loop make on it, and its invariant.
\<close>

section \<open>Non-INVITE client transaction\<close>

record nict = tx +
  nict_request :: out_request
  nict_F :: "nat option"
  nict_K :: "nat option"

definition new_nict :: "ua_config \<Rightarrow> string \<Rightarrow> real \<Rightarrow> out_request \<Rightarrow> nict" where
  "new_nict cfg via_transport u request =
     (let id = branch_id u;
          request = or_setHeader ''via'' [via_value via_transport cfg id] request
      in emit NewTransaction
           \<lparr>tx_id = id, tx_state = None, tx_pending = [], tx_next = 0, tx_trace = [],
            nict_request = request, nict_F = None, nict_K = None\<rparr>)"

definition nict_onTransportError :: "nict \<Rightarrow> nict" where
  "nict_onTransportError t =
     (let t = clearTimeout (nict_F t) t;
          t = clearTimeout (nict_K t) t;
          t = stateChanged STATUS_TERMINATED t;
          t = destroy t
      in emit OnTransportError t)"

definition nict_timer_F :: "nict \<Rightarrow> nict" where
  "nict_timer_F t = emit OnRequestTimeout (destroy (stateChanged STATUS_TERMINATED t))"

definition nict_timer_K :: "nict \<Rightarrow> nict" where
  "nict_timer_K t = destroy (stateChanged STATUS_TERMINATED t)"

definition nict_send :: "bool \<Rightarrow> nict \<Rightarrow> nict" where
  "nict_send sent t =
     (let t = stateChanged STATUS_TRYING t;
          (h, t) = setTimeout Timer_F TIMER_F t;
          t = t\<lparr>nict_F := Some h\<rparr>;
          t = emit (SendRequest (nict_request t)) t
      in if \<not> sent then nict_onTransportError t else t)"

definition nict_receiveResponse :: "in_response \<Rightarrow> nict \<Rightarrow> nict" where
  "nict_receiveResponse response t =
     (let status_code = im_status_code response in
      if status_code < 200 then
        (if tx_state t = Some STATUS_TRYING \<or> tx_state t = Some STATUS_PROCEEDING
         then emit (OnReceiveResponse response) (stateChanged STATUS_PROCEEDING t)
         else t)
      else
        (if tx_state t = Some STATUS_TRYING \<or> tx_state t = Some STATUS_PROCEEDING
         then
           (let t = stateChanged STATUS_COMPLETED t;
                t = clearTimeout (nict_F t) t;
                t = (if status_code = 408 then emit OnRequestTimeout t
                     else emit (OnReceiveResponse response) t);
                (h, t) = setTimeout Timer_K TIMER_K t
            in t\<lparr>nict_K := Some h\<rparr>)
         else t))"

text \<open>The event loop runs the function of a timer that is due.\<close>

definition nict_fire :: "nat \<Rightarrow> nict \<Rightarrow> nict" where
  "nict_fire h t =
     (case timer_at h t of
        Some Timer_F \<Rightarrow> nict_timer_F (take_timer h t)
      | Some Timer_K \<Rightarrow> nict_timer_K (take_timer h t)
      | _ \<Rightarrow> t)"

text \<open>
  The calls made on a transaction: \<open>RequestSender\<close> sends it once; the user agent passes responses
  and transport errors to the transactions of its table; timers fire at any time.
\<close>

inductive nict_step :: "nict \<Rightarrow> nict \<Rightarrow> bool" where
  nict_step_send: "registered t \<Longrightarrow> tx_state t = None \<Longrightarrow> nict_step t (nict_send sent t)"
| nict_step_response: "registered t \<Longrightarrow> nict_step t (nict_receiveResponse r t)"
| nict_step_transport: "registered t \<Longrightarrow> nict_step t (nict_onTransportError t)"
| nict_step_timer: "timer_at h t = Some n \<Longrightarrow> nict_step t (nict_fire h t)"

inductive nict_init :: "nict \<Rightarrow> bool" where
  "nict_init (new_nict cfg via_transport u request)"

inductive_simps nict_init_iff: "nict_init t"
inductive_cases nict_stepE: "nict_step t t'"

section \<open>INVITE client transaction\<close>

record ict = tx +
  ict_request :: out_request
  ict_B :: "nat option"
  ict_D :: "nat option"
  ict_M :: "nat option"

definition new_ict :: "ua_config \<Rightarrow> string \<Rightarrow> real \<Rightarrow> out_request \<Rightarrow> ict" where
  "new_ict cfg via_transport u request =
     (let id = branch_id u;
          request = or_setHeader ''via'' [via_value via_transport cfg id] request
      in emit NewTransaction
           \<lparr>tx_id = id, tx_state = None, tx_pending = [], tx_next = 0, tx_trace = [],
            ict_request = request, ict_B = None, ict_D = None, ict_M = None\<rparr>)"

definition ict_onTransportError :: "ict \<Rightarrow> ict" where
  "ict_onTransportError t =
     (let t = clearTimeout (ict_B t) t;
          t = clearTimeout (ict_D t) t;
          t = clearTimeout (ict_M t) t;
          t = (if tx_state t \<noteq> Some STATUS_ACCEPTED then emit OnTransportError t else t);
          t = stateChanged STATUS_TERMINATED t
      in destroy t)"

definition ict_send :: "bool \<Rightarrow> ict \<Rightarrow> ict" where
  "ict_send sent t =
     (let t = stateChanged STATUS_CALLING t;
          (h, t) = setTimeout Timer_B TIMER_B t;
          t = t\<lparr>ict_B := Some h\<rparr>;
          t = emit (SendRequest (ict_request t)) t
      in if \<not> sent then ict_onTransportError t else t)"

definition ict_timer_M :: "ict \<Rightarrow> ict" where
  "ict_timer_M t =
     (if tx_state t = Some STATUS_ACCEPTED
      then destroy (stateChanged STATUS_TERMINATED (clearTimeout (ict_B t) t)) else t)"

definition ict_timer_B :: "ict \<Rightarrow> ict" where
  "ict_timer_B t =
     (if tx_state t = Some STATUS_CALLING
      then emit OnRequestTimeout (destroy (stateChanged STATUS_TERMINATED t)) else t)"

definition ict_timer_D :: "ict \<Rightarrow> ict" where
  "ict_timer_D t = destroy (stateChanged STATUS_TERMINATED (clearTimeout (ict_B t) t))"

text \<open>The \<open>params\<close> of the ACK and the CANCEL a transaction makes for its own request.\<close>

definition same_request_params :: "out_request \<Rightarrow> req_params" where
  "same_request_params r =
     no_params\<lparr>p_route_set := Some (or_getHeaders ''route'' r), p_call_id := or_getHeader ''call-id'' r,
               p_cseq := Some (or_cseq r)\<rparr>"

definition make_ack :: "ua_config \<Rightarrow> draws \<Rightarrow> out_request \<Rightarrow> 'a in_message_scheme \<Rightarrow> js_error + out_request" where
  "make_ack cfg dr request response =
     bind_result (new_out_request cfg dr ACK (or_ruri request) (same_request_params request) None None) (\<lambda>ack.
       (let ack = or_setHeader ''from'' [text_of (or_getHeader ''from'' request)] ack;
            ack = or_setHeader ''via'' [text_of (or_getHeader ''via'' request)] ack
        in Inr (or_setHeader ''to'' [text_of (im_getHeader ''to'' response)] ack)))"

text \<open>An exception leaves the transaction as it is at that point.\<close>

definition ict_sendACK :: "ua_config \<Rightarrow> draws \<Rightarrow> in_response \<Rightarrow> ict \<Rightarrow> js_error option \<times> ict" where
  "ict_sendACK cfg dr response t =
     (case make_ack cfg dr (ict_request t) response of
        Inl e \<Rightarrow> (Some e, t)
      | Inr ack \<Rightarrow>
          (let (h, t) = setTimeout Timer_D TIMER_D t;
               t = t\<lparr>ict_D := Some h\<rparr>
           in (None, emit (SendRequest ack) t)))"

definition make_cancel :: "ua_config \<Rightarrow> draws \<Rightarrow> out_request \<Rightarrow> string option \<Rightarrow> js_error + out_request" where
  "make_cancel cfg dr request reason =
     bind_result (new_out_request cfg dr CANCEL (or_ruri request) (same_request_params request) None None) (\<lambda>cancel.
       (let cancel = or_setHeader ''from'' [text_of (or_getHeader ''from'' request)] cancel;
            cancel = or_setHeader ''via'' [text_of (or_getHeader ''via'' request)] cancel;
            cancel = or_setHeader ''to'' [text_of (or_getHeader ''to'' request)] cancel
        in Inr (if truthy reason then or_setHeader ''reason'' [text_of reason] cancel else cancel)))"

definition ict_cancel :: "ua_config \<Rightarrow> draws \<Rightarrow> string option \<Rightarrow> ict \<Rightarrow> js_error option \<times> ict" where
  "ict_cancel cfg dr reason t =
     (if tx_state t \<noteq> Some STATUS_PROCEEDING then (None, t)
      else
        (case make_cancel cfg dr (ict_request t) reason of
           Inl e \<Rightarrow> (Some e, t)
         | Inr cancel \<Rightarrow> (None, emit (SendRequest cancel) t)))"

definition ict_receiveResponse :: "ua_config \<Rightarrow> draws \<Rightarrow> in_response \<Rightarrow> ict \<Rightarrow> js_error option \<times> ict" where
  "ict_receiveResponse cfg dr response t =
     (let status_code = im_status_code response in
      if 100 \<le> status_code \<and> status_code \<le> 199 then
        (if tx_state t = Some STATUS_CALLING
         then (None, emit (OnReceiveResponse response) (stateChanged STATUS_PROCEEDING t))
         else if tx_state t = Some STATUS_PROCEEDING then (None, emit (OnReceiveResponse response) t)
         else (None, t))
      else if 200 \<le> status_code \<and> status_code \<le> 299 then
        (if tx_state t = Some STATUS_CALLING \<or> tx_state t = Some STATUS_PROCEEDING
         then
           (let t = stateChanged STATUS_ACCEPTED t;
                (h, t) = setTimeout Timer_M TIMER_M t;
                t = t\<lparr>ict_M := Some h\<rparr>
            in (None, emit (OnReceiveResponse response) t))
         else if tx_state t = Some STATUS_ACCEPTED then (None, emit (OnReceiveResponse response) t)
         else (None, t))
      else if 300 \<le> status_code \<and> status_code \<le> 699 then
        (if tx_state t = Some STATUS_CALLING \<or> tx_state t = Some STATUS_PROCEEDING
         then
           (case ict_sendACK cfg dr response (stateChanged STATUS_COMPLETED t) of
              (Some e, t) \<Rightarrow> (Some e, t)
            | (None, t) \<Rightarrow> (None, emit (OnReceiveResponse response) t))
         else if tx_state t = Some STATUS_COMPLETED then ict_sendACK cfg dr response t
         else (None, t))
      else (None, t))"

definition ict_fire :: "nat \<Rightarrow> ict \<Rightarrow> ict" where
  "ict_fire h t =
     (case timer_at h t of
        Some Timer_B \<Rightarrow> ict_timer_B (take_timer h t)
      | Some Timer_D \<Rightarrow> ict_timer_D (take_timer h t)
      | Some Timer_M \<Rightarrow> ict_timer_M (take_timer h t)
      | _ \<Rightarrow> t)"

inductive ict_step :: "ict \<Rightarrow> ict \<Rightarrow> bool" where
  ict_step_send: "registered t \<Longrightarrow> tx_state t = None \<Longrightarrow> ict_step t (ict_send sent t)"
| ict_step_response: "registered t \<Longrightarrow> ict_step t (snd (ict_receiveResponse cfg dr r t))"
| ict_step_transport: "registered t \<Longrightarrow> ict_step t (ict_onTransportError t)"
| ict_step_cancel: "ict_step t (snd (ict_cancel cfg dr reason t))"
| ict_step_timer: "timer_at h t = Some n \<Longrightarrow> ict_step t (ict_fire h t)"

inductive ict_init :: "ict \<Rightarrow> bool" where
  "ict_init (new_ict cfg via_transport u request)"

inductive_simps ict_init_iff: "ict_init t"
inductive_cases ict_stepE: "ict_step t t'"

section \<open>ACK client transaction\<close>

text \<open>The ACK to a 2xx: no state, no timer, not in the user agent's table.\<close>

record ack_tx = tx +
  ack_request :: out_request

definition new_ack :: "ua_config \<Rightarrow> string \<Rightarrow> real \<Rightarrow> out_request \<Rightarrow> ack_tx" where
  "new_ack cfg via_transport u request =
     (let id = branch_id u in
      \<lparr>tx_id = id, tx_state = None, tx_pending = [], tx_next = 0, tx_trace = [],
       ack_request = or_setHeader ''via'' [via_value via_transport cfg id] request\<rparr>)"

definition ack_onTransportError :: "ack_tx \<Rightarrow> ack_tx" where
  "ack_onTransportError t = emit OnTransportError t"

definition ack_send :: "bool \<Rightarrow> ack_tx \<Rightarrow> ack_tx" where
  "ack_send sent t =
     (let t = emit (SendRequest (ack_request t)) t in if \<not> sent then ack_onTransportError t else t)"

section \<open>Invariant of the non-INVITE client transaction\<close>

text \<open>
  In each state: which timer is pending, how many outcomes the creator has been given, and how
  often the transaction has been destroyed.
\<close>

definition nict_inv :: "nict \<Rightarrow> bool" where
  "nict_inv t =
     (let es = tx_trace t in
      case tx_state t of
        None \<Rightarrow> tx_pending t = [] \<and> finals es = 0 \<and> transport_errors es = 0 \<and> destroys es = 0
      | Some s \<Rightarrow>
          if s = STATUS_TRYING \<or> s = STATUS_PROCEEDING then
            (\<exists>h. nict_F t = Some h \<and> tx_pending t = [(h, Timer_F, TIMER_F)]) \<and>
            finals es = 0 \<and> transport_errors es = 0 \<and> destroys es = 0
          else if s = STATUS_COMPLETED then
            (\<exists>h. nict_K t = Some h \<and> tx_pending t = [(h, Timer_K, TIMER_K)]) \<and>
            finals es = 1 \<and> transport_errors es = 0 \<and> destroys es = 0
          else if s = STATUS_TERMINATED then
            tx_pending t = [] \<and> finals es \<le> 1 \<and> transport_errors es \<le> 1 \<and>
            1 \<le> finals es + transport_errors es \<and> destroys es = 1
          else False)"

lemma nict_fields [simp]:
  "nict_F (emit e t) = nict_F t" "nict_K (emit e t) = nict_K t"
  "nict_F (stateChanged s t) = nict_F t" "nict_K (stateChanged s t) = nict_K t"
  "nict_F (clearTimeout h t) = nict_F t" "nict_K (clearTimeout h t) = nict_K t"
  "nict_F (take_timer k t) = nict_F t" "nict_K (take_timer k t) = nict_K t"
  "nict_request (emit e t) = nict_request t" "nict_request (stateChanged s t) = nict_request t"
  by (simp_all add: tx_defs)

lemma nict_inv_new: "nict_inv (new_nict cfg via_transport u request)"
  by (simp add: nict_inv_def new_nict_def Let_def emit_def)

lemma nict_inv_transport: "nict_inv t \<Longrightarrow> registered t \<Longrightarrow> nict_inv (nict_onTransportError t)"
  by (auto simp: nict_inv_def nict_onTransportError_def Let_def registered_destroys
      split: option.splits if_splits)

lemma nict_inv_send: "nict_inv t \<Longrightarrow> tx_state t = None \<Longrightarrow> nict_inv (nict_send sent t)"
  by (auto simp: nict_inv_def nict_send_def nict_onTransportError_def setTimeout_def Let_def)

lemma nict_inv_response: "nict_inv t \<Longrightarrow> nict_inv (nict_receiveResponse r t)"
  by (auto simp: nict_inv_def nict_receiveResponse_def setTimeout_def Let_def split: option.splits)

lemma nict_inv_timer: "nict_inv t \<Longrightarrow> nict_inv (nict_fire h t)"
  by (auto simp: nict_inv_def nict_fire_def nict_timer_F_def nict_timer_K_def timer_at_def Let_def
      split: option.splits timer.splits if_splits)

lemma nict_trace_grows: "nict_step t t' \<Longrightarrow> \<exists>es. tx_trace t' = tx_trace t @ es"
  by (elim nict_stepE)
    (auto simp: nict_send_def nict_onTransportError_def nict_receiveResponse_def nict_fire_def nict_timer_F_def
      nict_timer_K_def setTimeout_def Let_def split: option.splits timer.splits)

interpretation nict: tx_machine nict_init nict_step nict_inv tx_state tx_trace
proof
  show "nict_inv t" if "nict_init t" for t
    using that by (auto simp: nict_init_iff nict_inv_new)
  show "nict_inv t'" if "nict_inv t" "nict_step t t'" for t t'
    using that(2,1)
    by cases (auto intro: nict_inv_send nict_inv_response nict_inv_transport nict_inv_timer)
  show "\<exists>es. tx_trace t' = tx_trace t @ es" if "nict_step t t'" for t t'
    using that by (rule nict_trace_grows)
  show "Destroyed \<in> set (tx_trace t) \<longleftrightarrow> tx_state t = Some STATUS_TERMINATED" if "nict_inv t" for t
    using that destroys_pos [of "tx_trace t"]
    by (auto simp: nict_inv_def Let_def split: option.splits if_splits)
qed

section \<open>Invariant of the INVITE client transaction\<close>

definition successes :: "tx_event list \<Rightarrow> nat" where
  "successes es = length (filter is_success es)"

definition failures :: "tx_event list \<Rightarrow> nat" where
  "failures es = length (filter is_failure es)"

lemma more_counts [simp]:
  "successes [] = 0" "failures [] = 0"
  "successes (e # es) = (if is_success e then 1 else 0) + successes es"
  "failures (e # es) = (if is_failure e then 1 else 0) + failures es"
  "successes (es @ fs) = successes es + successes fs"
  "failures (es @ fs) = failures es + failures fs"
  by (auto simp: successes_def failures_def)

text \<open>
  The timer that bounds a state is pending in it: B while calling, M once accepted.  The handles
  are distinct, so a timer is found by its own handle.
\<close>

definition handles_ok :: "'a tx_scheme \<Rightarrow> bool" where
  "handles_ok t = (distinct (map fst (tx_pending t)) \<and> list_all (\<lambda>p. fst p < tx_next t) (tx_pending t))"

definition ict_inv :: "ict \<Rightarrow> bool" where
  "ict_inv t =
     (let es = tx_trace t in
      handles_ok t \<and>
      (case tx_state t of
        None \<Rightarrow> successes es = 0 \<and> failures es = 0 \<and> destroys es = 0 \<and> ict_B t = None
      | Some s \<Rightarrow>
          if s = STATUS_CALLING then
            (\<exists>h. ict_B t = Some h \<and> (h, Timer_B, TIMER_B) \<in> set (tx_pending t)) \<and>
            successes es = 0 \<and> failures es = 0 \<and> destroys es = 0
          else if s = STATUS_PROCEEDING then successes es = 0 \<and> failures es = 0 \<and> destroys es = 0
          else if s = STATUS_ACCEPTED then
            (\<exists>h. ict_M t = Some h \<and> (h, Timer_M, TIMER_M) \<in> set (tx_pending t)) \<and>
            1 \<le> successes es \<and> failures es = 0 \<and> destroys es = 0
          else if s = STATUS_COMPLETED then successes es = 0 \<and> failures es \<le> 1 \<and> destroys es = 0
          else if s = STATUS_TERMINATED then
            (successes es = 0 \<or> failures es = 0) \<and> failures es \<le> 2 \<and> 1 \<le> destroys es
          else False))"

lemma ict_fields [simp]:
  "ict_B (emit e t) = ict_B t" "ict_D (emit e t) = ict_D t" "ict_M (emit e t) = ict_M t"
  "ict_B (stateChanged s t) = ict_B t" "ict_D (stateChanged s t) = ict_D t" "ict_M (stateChanged s t) = ict_M t"
  "ict_B (clearTimeout h t) = ict_B t" "ict_D (clearTimeout h t) = ict_D t" "ict_M (clearTimeout h t) = ict_M t"
  "ict_B (take_timer k t) = ict_B t" "ict_D (take_timer k t) = ict_D t" "ict_M (take_timer k t) = ict_M t"
  "ict_request (emit e t) = ict_request t" "ict_request (stateChanged s t) = ict_request t"
  by (simp_all add: tx_defs)

lemma handles_ok_prims [simp]:
  "handles_ok (emit e t) = handles_ok t" "handles_ok (stateChanged s t) = handles_ok t"
  by (simp_all add: handles_ok_def)

lemma distinct_map_filter2: "distinct (map fst xs) \<Longrightarrow> distinct (map fst (filter P xs))"
  by (induction xs) auto

lemma handles_ok_clear [simp]: "handles_ok t \<Longrightarrow> handles_ok (clearTimeout h t)"
  by (auto simp: handles_ok_def list_all_iff distinct_map_filter2)

lemma handles_ok_take [simp]: "handles_ok t \<Longrightarrow> handles_ok (take_timer h t)"
  by (simp add: take_timer_def)

lemma handles_ok_append:
  "handles_ok t \<Longrightarrow> tx_pending t' = tx_pending t @ [(tx_next t, n, d)] \<Longrightarrow> tx_next t' = Suc (tx_next t) \<Longrightarrow>
    handles_ok t'"
  by (fastforce simp: handles_ok_def list_all_iff)

lemma timer_at_pending: "timer_at h t = Some n \<Longrightarrow> \<exists>d. (h, n, d) \<in> set (tx_pending t)"
  by (auto simp: timer_at_def dest: map_of_SomeD)

lemma pending_timer_at: "handles_ok t \<Longrightarrow> (h, n, d) \<in> set (tx_pending t) \<Longrightarrow> timer_at h t = Some n"
  by (auto simp: timer_at_def handles_ok_def map_of_eq_Some_iff)

lemma ict_inv_new: "ict_inv (new_ict cfg via_transport u request)"
  by (simp add: ict_inv_def new_ict_def Let_def emit_def handles_ok_def)

lemma ict_inv_transport: "ict_inv t \<Longrightarrow> registered t \<Longrightarrow> ict_inv (ict_onTransportError t)"
  by (auto simp: ict_inv_def ict_onTransportError_def Let_def registered_destroys
      split: option.splits if_splits)

lemma ict_inv_send: "ict_inv t \<Longrightarrow> tx_state t = None \<Longrightarrow> ict_inv (ict_send sent t)"
  by (auto simp: ict_inv_def ict_send_def ict_onTransportError_def setTimeout_def Let_def handles_ok_def
      list_all_iff distinct_map_filter2)

lemma sendACK_cases:
  assumes "ict_sendACK cfg dr r t = (e, t')"
  obtains "e \<noteq> None" "t' = t"
  | ack where "e = None" "make_ack cfg dr (ict_request t) r = Inr ack" "tx_state t' = tx_state t"
    "tx_pending t' = tx_pending t @ [(tx_next t, Timer_D, TIMER_D)]" "tx_next t' = Suc (tx_next t)"
    "ict_B t' = ict_B t" "ict_M t' = ict_M t" "ict_D t' = Some (tx_next t)"
    "tx_trace t' = tx_trace t @ [SendRequest ack]"
  using assms
  by (auto simp: ict_sendACK_def setTimeout_def emit_def Let_def split: sum.splits)

lemma ict_inv_ack:
  "ict_inv t \<Longrightarrow> tx_state t = Some STATUS_COMPLETED \<Longrightarrow> ict_sendACK cfg dr r t = (e, t') \<Longrightarrow>
    ict_inv t' \<and> tx_state t' = Some STATUS_COMPLETED \<and> failures (tx_trace t') = failures (tx_trace t)"
  by (elim sendACK_cases) (auto simp: ict_inv_def Let_def intro: handles_ok_append)

lemma ict_inv_completed:
  "ict_inv t \<Longrightarrow> tx_state t = Some STATUS_CALLING \<or> tx_state t = Some STATUS_PROCEEDING \<Longrightarrow>
    ict_inv (stateChanged STATUS_COMPLETED t) \<and> failures (tx_trace t) = 0"
  by (auto simp: ict_inv_def Let_def)

lemma ict_inv_response: "ict_inv t \<Longrightarrow> ict_inv (snd (ict_receiveResponse cfg dr r t))"
proof -
  assume i: "ict_inv t"
  then have h: "handles_ok t" by (simp add: ict_inv_def Let_def)
  let ?pre = "tx_state t = Some STATUS_CALLING \<or> tx_state t = Some STATUS_PROCEEDING"
  let ?c = "stateChanged STATUS_COMPLETED t"
  consider "im_status_code r < 200 \<or> 699 < im_status_code r"
    | "200 \<le> im_status_code r" "im_status_code r \<le> 299"
    | "300 \<le> im_status_code r" "im_status_code r \<le> 699" by linarith
  then show ?thesis
  proof cases
    case 1
    show ?thesis
    proof (cases "?pre \<and> 100 \<le> im_status_code r \<and> im_status_code r \<le> 199")
      case True
      with i show ?thesis by (auto simp: ict_receiveResponse_def ict_inv_def Let_def)
    next
      case False
      with 1 have "snd (ict_receiveResponse cfg dr r t) = t"
        by (auto simp: ict_receiveResponse_def Let_def)
      with i show ?thesis by simp
    qed
  next
    case 2
    consider ?pre | "\<not> ?pre" "tx_state t = Some STATUS_ACCEPTED" | "\<not> ?pre" "tx_state t \<noteq> Some STATUS_ACCEPTED"
      by blast
    then show ?thesis
    proof cases
      case 1
      then have "successes (tx_trace t) = 0" "failures (tx_trace t) = 0" "destroys (tx_trace t) = 0"
        using i by (auto simp: ict_inv_def Let_def)
      with 1 2 show ?thesis
        by (simp add: ict_receiveResponse_def ict_inv_def Let_def setTimeout_def emit_def stateChanged_def
            handles_ok_append [OF h])
    next
      case b: 2
      with 2 i show ?thesis by (simp add: ict_receiveResponse_def ict_inv_def Let_def)
    next
      case 3
      with 2 i show ?thesis by (simp add: ict_receiveResponse_def Let_def)
    qed
  next
    case 3
    obtain e u where u: "ict_sendACK cfg dr r ?c = (e, u)" by fastforce
    obtain e' u' where u': "ict_sendACK cfg dr r t = (e', u')" by fastforce
    from 3 u u' have "snd (ict_receiveResponse cfg dr r t) =
        (if ?pre then (if e = None then emit (OnReceiveResponse r) u else u)
         else if tx_state t = Some STATUS_COMPLETED then u' else t)"
      by (auto simp: ict_receiveResponse_def Let_def split: option.splits)
    moreover have "ict_inv (emit (OnReceiveResponse r) u) \<and> ict_inv u" if ?pre
      using ict_inv_completed [OF i that] ict_inv_ack [OF _ _ u] 3 by (auto simp: ict_inv_def Let_def)
    ultimately show ?thesis using i ict_inv_ack [OF i _ u'] by simp
  qed
qed

lemma take_keeps:
  "handles_ok t \<Longrightarrow> timer_at h t = Some n \<Longrightarrow> (k, m, d) \<in> set (tx_pending t) \<Longrightarrow> n \<noteq> m \<Longrightarrow>
    (k, m, d) \<in> set (tx_pending (take_timer h t))"
  by (auto dest: pending_timer_at)

lemma ict_inv_take:
  "ict_inv t \<Longrightarrow> timer_at h t = Some n \<Longrightarrow> \<not> (n = Timer_B \<and> tx_state t = Some STATUS_CALLING) \<Longrightarrow>
    \<not> (n = Timer_M \<and> tx_state t = Some STATUS_ACCEPTED) \<Longrightarrow> ict_inv (take_timer h t)"
  using take_keeps [of t h n _ Timer_B TIMER_B] take_keeps [of t h n _ Timer_M TIMER_M]
  by (auto simp: ict_inv_def Let_def split: option.splits if_splits)

lemma ict_inv_timer: "ict_inv t \<Longrightarrow> ict_inv (ict_fire h t)"
proof (cases "timer_at h t")
  case (Some n)
  assume "ict_inv t"
  with Some show ?thesis
    using ict_inv_take [OF \<open>ict_inv t\<close> Some]
    by (cases n)
      (auto simp: ict_fire_def ict_timer_B_def ict_timer_D_def ict_timer_M_def,
        auto simp: ict_inv_def Let_def split: option.splits if_splits)
qed (simp add: ict_fire_def)

lemma cancel_cases:
  "ict_cancel cfg dr reason t = (e, t') \<Longrightarrow> t' = t \<or> (\<exists>c. t' = emit (SendRequest c) t)"
  by (auto simp: ict_cancel_def split: if_splits sum.splits)

lemma ict_inv_cancel: "ict_inv t \<Longrightarrow> ict_inv (snd (ict_cancel cfg dr reason t))"
  using cancel_cases [of cfg dr reason t, OF prod.collapse [symmetric]]
  by (auto simp: ict_inv_def Let_def split: option.splits if_splits)

lemma sendACK_grows: "\<exists>es. tx_trace (snd (ict_sendACK cfg dr r t)) = tx_trace t @ es"
  by (rule sendACK_cases [OF prod.collapse [symmetric]]) auto

lemma response_grows: "\<exists>es. tx_trace (snd (ict_receiveResponse cfg dr r t)) = tx_trace t @ es"
proof -
  obtain e u where u: "ict_sendACK cfg dr r (stateChanged STATUS_COMPLETED t) = (e, u)" by fastforce
  with sendACK_grows [of cfg dr r "stateChanged STATUS_COMPLETED t"] obtain es
    where "tx_trace u = tx_trace t @ StateChanged STATUS_COMPLETED # es" by auto
  with u sendACK_grows [of cfg dr r t] show ?thesis
    by (auto simp: ict_receiveResponse_def setTimeout_def Let_def split: option.splits)
qed

lemma ict_trace_grows: "ict_step t t' \<Longrightarrow> \<exists>es. tx_trace t' = tx_trace t @ es"
proof (elim ict_stepE)
  fix cfg dr reason
  assume "t' = snd (ict_cancel cfg dr reason t)"
  then show ?thesis using cancel_cases [of cfg dr reason t, OF prod.collapse [symmetric]] by auto
qed (auto simp: ict_send_def ict_onTransportError_def ict_fire_def ict_timer_B_def ict_timer_D_def ict_timer_M_def
  setTimeout_def Let_def response_grows split: option.splits timer.splits)

interpretation ict: tx_machine ict_init ict_step ict_inv tx_state tx_trace
proof
  show "ict_inv t" if "ict_init t" for t
    using that by (auto simp: ict_init_iff ict_inv_new)
  show "ict_inv t'" if "ict_inv t" "ict_step t t'" for t t'
    using that(2,1)
    by cases (auto intro: ict_inv_send ict_inv_response ict_inv_transport ict_inv_cancel ict_inv_timer)
  show "\<exists>es. tx_trace t' = tx_trace t @ es" if "ict_step t t'" for t t'
    using that by (rule ict_trace_grows)
  show "Destroyed \<in> set (tx_trace t) \<longleftrightarrow> tx_state t = Some STATUS_TERMINATED" if "ict_inv t" for t
    using that destroys_pos [of "tx_trace t"]
    by (auto simp: ict_inv_def Let_def split: option.splits if_splits)
qed

section \<open>The ACK a transaction makes\<close>

lemma ack_names [simp]:
  "headerize ''reason'' = ''Reason''"
  by code_simp

lemma make_ack_fields:
  assumes "make_ack cfg dr request response = Inr ack"
  shows "or_method ack = ACK" "or_ruri ack = or_ruri request"
    "or_getHeaders ''via'' ack = [text_of (or_getHeader ''via'' request)]"
    "or_getHeaders ''from'' ack = [text_of (or_getHeader ''from'' request)]"
    "or_getHeaders ''to'' ack = [text_of (im_getHeader ''to'' response)]"
    "or_getHeaders ''route'' ack = or_getHeaders ''route'' request"
    "or_getHeader ''call-id'' request = Some c \<Longrightarrow> c \<noteq> [] \<Longrightarrow> or_getHeaders ''call-id'' ack = [c]"
    "or_cseq request \<noteq> 0 \<Longrightarrow> or_getHeaders ''cseq'' ack = [num_str (or_cseq request) @ '' ACK'']"
    "or_cseq request = 0 \<Longrightarrow> or_getHeaders ''cseq'' ack = [num_str (random_below (d_cseq dr) 10000) @ '' ACK'']"
proof -
  let ?p = "same_request_params request"
  from assms obtain a where a: "new_out_request cfg dr ACK (or_ruri request) ?p None None = Inr a"
    and ack: "ack = or_setHeader ''to'' [text_of (im_getHeader ''to'' response)]
      (or_setHeader ''via'' [text_of (or_getHeader ''via'' request)]
      (or_setHeader ''from'' [text_of (or_getHeader ''from'' request)] a))"
    by (auto simp: make_ack_def bind_result_Inr Let_def)
  have p: "p_route_set ?p = Some (or_getHeaders ''route'' request)" "p_cseq ?p = Some (or_cseq request)"
    "p_call_id ?p = or_getHeader ''call-id'' request"
    by (simp_all add: same_request_params_def no_params_def)
  from a obtain to_str from_str where h:
    "obj_get (or_headers a) = (case new_route cfg ?p of None \<Rightarrow> Map.empty | Some rt \<Rightarrow> [''Route'' \<mapsto> rt])
      (''Via'' \<mapsto> [''''], ''Max-Forwards'' \<mapsto> [num_str MAX_FORWARDS], ''To'' \<mapsto> [to_str], ''From'' \<mapsto> [from_str],
       ''Call-ID'' \<mapsto> [or_call_id a], ''CSeq'' \<mapsto> [num_str (or_cseq a) @ '' '' @ method_str ACK])"
    and f: "or_method a = ACK" "or_ruri a = or_ruri request" "or_call_id a = new_call_id cfg dr ?p"
      "or_cseq a = new_cseq dr ?p"
    by (rule new_out_request_headers)
  have r: "new_route cfg ?p = Some (or_getHeaders ''route'' request)" by (simp add: new_route_def p)
  show "or_method ack = ACK" "or_ruri ack = or_ruri request" by (simp_all add: ack f)
  show "or_getHeaders ''via'' ack = [text_of (or_getHeader ''via'' request)]"
    "or_getHeaders ''from'' ack = [text_of (or_getHeader ''from'' request)]"
    "or_getHeaders ''to'' ack = [text_of (im_getHeader ''to'' response)]"
    by (simp_all add: ack or_getHeaders_def)
  show "or_getHeaders ''route'' ack = or_getHeaders ''route'' request"
    by (subst or_getHeaders_def) (simp add: ack h r)
  show "or_getHeaders ''call-id'' ack = [c]" if "or_getHeader ''call-id'' request = Some c" "c \<noteq> []"
    using that by (simp add: or_getHeaders_def ack h f new_call_id_def p str_or_def)
  show "or_getHeaders ''cseq'' ack = [num_str (or_cseq request) @ '' ACK'']" if "or_cseq request \<noteq> 0"
    using that by (simp add: or_getHeaders_def ack h f new_cseq_def p)
  show "or_getHeaders ''cseq'' ack = [num_str (random_below (d_cseq dr) 10000) @ '' ACK'']" if "or_cseq request = 0"
    using that by (simp add: or_getHeaders_def ack h f new_cseq_def p)
qed

section \<open>Concrete runs\<close>

definition demo_response :: "nat \<Rightarrow> in_response" where
  "demo_response code =
     \<lparr>im_headers = [(''To'', [raw_field ''<sip:h>;tag=t''])], im_data = [], im_method = INVITE,
      im_via_branch = Some ''z'', im_call_id = ''c'', im_cseq = 3, im_from_tag = Some ''f'',
      im_to_tag = Some ''t'', im_body = None, im_from = None, im_to = None, im_session_expires = None, im_session_expires_refresher = None,
      im_refer_to = None, im_replaces = None, im_event = None, im_status_code = code, im_reason_phrase = []\<rparr>"

lemma demo_code [simp]: "im_status_code (demo_response n) = n"
  by (simp add: demo_response_def)

definition demo_nict :: nict where
  "demo_nict = new_nict demo_cfg ''WSS'' 0 demo_request"

definition demo_ict :: ict where
  "demo_ict = new_ict demo_cfg ''WSS'' 0 demo_request"

lemma demo_init: "nict_init demo_nict" "ict_init demo_ict"
  unfolding demo_nict_def demo_ict_def by (rule nict_init.intros ict_init.intros)+

lemmas nict_defs = nict_send_def nict_receiveResponse_def nict_onTransportError_def nict_fire_def
  nict_timer_F_def nict_timer_K_def tx_defs registered_def

lemmas ict_defs = ict_send_def ict_receiveResponse_def ict_onTransportError_def ict_fire_def
  ict_timer_B_def ict_timer_D_def ict_timer_M_def tx_defs registered_def

lemma demo_ack_ok:
  assumes "or_ruri request = demo_uri"
  obtains ack where "make_ack demo_cfg demo_draws request response = Inr ack"
proof -
  have "p_to_uri (same_request_params request) = None" "p_from_uri (same_request_params request) = None"
    by (simp_all add: same_request_params_def no_params_def)
  then obtain r where "new_out_request demo_cfg demo_draws ACK demo_uri (same_request_params request) None None = Inr r"
    using demo_new_ok by blast
  with assms show thesis by (intro that) (simp add: make_ack_def)
qed

section \<open>Properties\<close>

text \<open>
  The creator of a non-INVITE client transaction is told of at most one final outcome (a final
  response or a timeout) and at most one transport error; the transaction is destroyed at most
  once, exactly when it is terminated, and never without an outcome having been reported.
\<close>

theorem nict_outcome:
  assumes "nict_init t0" and "nict_step\<^sup>*\<^sup>* t0 t"
  shows "finals (tx_trace t) \<le> 1 \<and> transport_errors (tx_trace t) \<le> 1 \<and>
    destroys (tx_trace t) = (if tx_state t = Some STATUS_TERMINATED then 1 else 0) \<and>
    destroys (tx_trace t) \<le> finals (tx_trace t) + transport_errors (tx_trace t)"
  using nict.reach_inv [OF assms]
  by (auto simp: nict_inv_def Let_def split: option.splits if_splits)

theorem nict_outcome_witness:
  "finals (tx_trace (nict_send True demo_nict)) \<le> 1 \<and> transport_errors (tx_trace (nict_send True demo_nict)) \<le> 1 \<and>
    destroys (tx_trace (nict_send True demo_nict)) =
      (if tx_state (nict_send True demo_nict) = Some STATUS_TERMINATED then 1 else 0) \<and>
    destroys (tx_trace (nict_send True demo_nict))
      \<le> finals (tx_trace (nict_send True demo_nict)) + transport_errors (tx_trace (nict_send True demo_nict))"
  by (rule nict_outcome [OF demo_init(1) r_into_rtranclp [where r = nict_step]], rule nict_step_send)
    (simp_all add: demo_nict_def new_nict_def nict_defs Let_def)



text \<open>
  A transport error after the final response, before timer K has fired, is reported to the
  creator as well: it is then told of two outcomes of one request.
\<close>

theorem nict_two_outcomes:
  "\<exists>t0 t. nict_init t0 \<and> nict_step\<^sup>*\<^sup>* t0 t \<and>
    OnReceiveResponse (demo_response 200) \<in> set (tx_trace t) \<and> OnTransportError \<in> set (tx_trace t)"
proof -
  let ?a = "nict_send True demo_nict"
  let ?b = "nict_receiveResponse (demo_response 200) ?a"
  let ?c = "nict_onTransportError ?b"
  have "nict_step demo_nict ?a"
    by (rule nict_step_send) (simp_all add: demo_nict_def new_nict_def nict_defs Let_def)
  moreover have "nict_step ?a ?b"
    by (rule nict_step_response) (simp add: demo_nict_def new_nict_def nict_defs Let_def)
  moreover have "nict_step ?b ?c"
    by (rule nict_step_transport) (simp add: demo_nict_def new_nict_def nict_defs Let_def)
  ultimately have "nict_step\<^sup>*\<^sup>* demo_nict ?c" by (meson converse_rtranclp_into_rtranclp rtranclp.rtrancl_refl)
  moreover have "OnReceiveResponse (demo_response 200) \<in> set (tx_trace ?c)" "OnTransportError \<in> set (tx_trace ?c)"
    by (simp_all add: demo_nict_def new_nict_def nict_defs Let_def)
  ultimately show ?thesis using demo_init(1) by blast
qed

text \<open>
  C36. The creator of an INVITE client transaction never hears both of a success and of a failure:
  once a 2xx has been passed on, no later response, timeout or transport error is; and after a
  failure no 2xx is.
\<close>

theorem ict_exclusive:
  assumes "ict_init t0" and "ict_step\<^sup>*\<^sup>* t0 t"
  shows "list_all (\<lambda>e. \<not> is_success e) (tx_trace t) \<or> list_all (\<lambda>e. \<not> is_failure e) (tx_trace t)"
proof -
  have "successes (tx_trace t) = 0 \<or> failures (tx_trace t) = 0"
    using ict.reach_inv [OF assms] by (auto simp: ict_inv_def Let_def split: option.splits if_splits)
  then show ?thesis
    by (auto simp: successes_def failures_def list_all_iff filter_empty_conv)
qed

theorem ict_exclusive_witness:
  "list_all (\<lambda>e. \<not> is_success e) (tx_trace (ict_send True demo_ict)) \<or>
    list_all (\<lambda>e. \<not> is_failure e) (tx_trace (ict_send True demo_ict))"
  by (rule ict_exclusive [OF demo_init(2) r_into_rtranclp [where r = ict_step]], rule ict_step_send)
    (simp_all add: demo_ict_def new_ict_def ict_defs Let_def)

text \<open>
  The ACK to a final non-2xx response is the one RFC 3261 (17.1.1.3) prescribes: same
  request-URI, From and Via as the INVITE, the To of the response, the INVITE's Route set and
  Call-ID, and the INVITE's sequence number with method ACK, when that number is not 0.
\<close>

theorem ack_matches_invite:
  assumes "make_ack cfg dr request response = Inr ack" and "or_cseq request \<noteq> 0"
    and "or_getHeader ''call-id'' request = Some c" and "c \<noteq> []"
  shows "or_method ack = ACK \<and> or_ruri ack = or_ruri request \<and>
    or_getHeaders ''via'' ack = [text_of (or_getHeader ''via'' request)] \<and>
    or_getHeaders ''from'' ack = [text_of (or_getHeader ''from'' request)] \<and>
    or_getHeaders ''to'' ack = [text_of (im_getHeader ''to'' response)] \<and>
    or_getHeaders ''route'' ack = or_getHeaders ''route'' request \<and>
    or_getHeaders ''call-id'' ack = [c] \<and>
    or_getHeaders ''cseq'' ack = [num_str (or_cseq request) @ '' ACK'']"
  using make_ack_fields [OF assms(1)] assms(2-4) by simp

lemma demo_request_more: "or_cseq demo_request = 5000" "\<exists>c. or_getHeader ''call-id'' demo_request = Some c \<and> c \<noteq> []"
proof -
  have c: "new_call_id demo_cfg demo_draws no_params \<noteq> []"
    by (simp add: new_call_id_def str_or_not_Nil createRandomToken_not_Nil)
  have s: "new_cseq demo_draws no_params = 5000"
    by (simp add: new_cseq_def no_params_def demo_draws_def random_below_def)
  from demo_request obtain to_str from_str where
    "obj_get (or_headers demo_request) =
      (case new_route demo_cfg no_params of None \<Rightarrow> Map.empty | Some rt \<Rightarrow> [''Route'' \<mapsto> rt])
      (''Via'' \<mapsto> [''''], ''Max-Forwards'' \<mapsto> [num_str MAX_FORWARDS], ''To'' \<mapsto> [to_str], ''From'' \<mapsto> [from_str],
       ''Call-ID'' \<mapsto> [or_call_id demo_request],
       ''CSeq'' \<mapsto> [num_str (or_cseq demo_request) @ '' '' @ method_str REGISTER])"
    and f: "or_call_id demo_request = new_call_id demo_cfg demo_draws no_params"
      "or_cseq demo_request = new_cseq demo_draws no_params"
    by (rule new_out_request_headers)
  then show "or_cseq demo_request = 5000" "\<exists>c. or_getHeader ''call-id'' demo_request = Some c \<and> c \<noteq> []"
    using c s by (simp_all add: or_getHeader_def)
qed

theorem ack_matches_invite_witness:
  "\<exists>ack c. make_ack demo_cfg demo_draws demo_request (demo_response 486) = Inr ack \<and>
    or_method ack = ACK \<and> or_ruri ack = or_ruri demo_request \<and>
    or_getHeaders ''via'' ack = [text_of (or_getHeader ''via'' demo_request)] \<and>
    or_getHeaders ''from'' ack = [text_of (or_getHeader ''from'' demo_request)] \<and>
    or_getHeaders ''to'' ack = [text_of (im_getHeader ''to'' (demo_response 486))] \<and>
    or_getHeaders ''route'' ack = or_getHeaders ''route'' demo_request \<and>
    or_getHeaders ''call-id'' ack = [c] \<and>
    or_getHeaders ''cseq'' ack = [num_str (or_cseq demo_request) @ '' ACK'']"
proof -
  obtain ack where a: "make_ack demo_cfg demo_draws demo_request (demo_response 486) = Inr ack"
    using demo_request_fields by (blast intro: demo_ack_ok)
  obtain c where c: "or_getHeader ''call-id'' demo_request = Some c" "c \<noteq> []"
    using demo_request_more by blast
  have "or_cseq demo_request \<noteq> 0" using demo_request_more by simp
  from a ack_matches_invite [OF a this c] show ?thesis by blast
qed

text \<open>
  An INVITE whose random sequence number is 0 (\<open>Math.floor(Math.random() * 10000)\<close> can be) gets
  an ACK with another sequence number: \<open>params.cseq || ...\<close> takes 0 for a missing number and draws
  again.
\<close>

theorem ack_other_cseq:
  "\<exists>dr request ack.
    new_out_request demo_cfg dr INVITE demo_uri no_params None None = Inr request \<and>
    make_ack demo_cfg demo_draws request (demo_response 486) = Inr ack \<and>
    or_getHeaders ''cseq'' request = [num_str 0 @ '' INVITE''] \<and>
    or_getHeaders ''cseq'' ack = [num_str 5000 @ '' ACK'']"
proof -
  let ?dr = "demo_draws\<lparr>d_cseq := 0\<rparr>"
  have "p_to_uri no_params = None" "p_from_uri no_params = None" by (simp_all add: no_params_def)
  from demo_new_ok [OF this] obtain request
    where q: "new_out_request demo_cfg ?dr INVITE demo_uri no_params None None = Inr request"
    by blast
  from q obtain to_str from_str where
    h: "obj_get (or_headers request) =
      (case new_route demo_cfg no_params of None \<Rightarrow> Map.empty | Some rt \<Rightarrow> [''Route'' \<mapsto> rt])
      (''Via'' \<mapsto> [''''], ''Max-Forwards'' \<mapsto> [num_str MAX_FORWARDS], ''To'' \<mapsto> [to_str], ''From'' \<mapsto> [from_str],
       ''Call-ID'' \<mapsto> [or_call_id request],
       ''CSeq'' \<mapsto> [num_str (or_cseq request) @ '' '' @ method_str INVITE])"
    and f: "or_ruri request = demo_uri" "or_cseq request = new_cseq ?dr no_params"
    by (rule new_out_request_headers)
  have z: "or_cseq request = 0" by (simp add: f new_cseq_def no_params_def random_below_def)
  from f(1) obtain ack where a: "make_ack demo_cfg demo_draws request (demo_response 486) = Inr ack"
    by (rule demo_ack_ok)
  have "or_getHeaders ''cseq'' ack = [num_str 5000 @ '' ACK'']"
    using make_ack_fields(9) [OF a z] by (simp add: demo_draws_def random_below_def)
  moreover have "or_getHeaders ''cseq'' request = [num_str 0 @ '' INVITE'']"
    using h z by (simp add: or_getHeaders_def)
  ultimately show ?thesis using q a by blast
qed

text \<open>
  The event loop can destroy an INVITE client transaction twice: each retransmitted final
  response sets another timer D, and a second one still fires after the first has terminated it.
\<close>

theorem ict_destroyed_twice:
  "\<exists>t0 t. ict_init t0 \<and> ict_step\<^sup>*\<^sup>* t0 t \<and> destroys (tx_trace t) = 2"
proof -
  let ?r = "demo_response 486"
  let ?a = "ict_send True demo_ict"
  let ?b = "snd (ict_receiveResponse demo_cfg demo_draws ?r ?a)"
  let ?c = "snd (ict_receiveResponse demo_cfg demo_draws ?r ?b)"
  let ?d = "ict_fire 1 ?c"
  let ?e = "ict_fire 2 ?d"
  have "or_ruri (ict_request demo_ict) = demo_uri"
    by (simp add: demo_ict_def new_ict_def Let_def emit_def demo_request_fields)
  then obtain ack where ack: "make_ack demo_cfg demo_draws (ict_request demo_ict) ?r = Inr ack"
    by (rule demo_ack_ok)
  note ev = ack [unfolded demo_ict_def new_ict_def Let_def emit_def, simplified]
  note defs = demo_ict_def new_ict_def ict_defs ict_sendACK_def Let_def
  have "ict_step demo_ict ?a" by (rule ict_step_send) (simp_all add: defs)
  moreover have "ict_step ?a ?b" by (rule ict_step_response) (simp add: defs)
  moreover have "ict_step ?b ?c" by (rule ict_step_response) (simp add: defs ev)
  moreover have "ict_step ?c ?d" by (rule ict_step_timer [where n = Timer_D]) (simp add: defs ev)
  moreover have "ict_step ?d ?e" by (rule ict_step_timer [where n = Timer_D]) (simp add: defs ev)
  ultimately have "ict_step\<^sup>*\<^sup>* demo_ict ?e"
    by (meson converse_rtranclp_into_rtranclp rtranclp.rtrancl_refl)
  moreover have "destroys (tx_trace ?e) = 2" by (simp add: defs ev)
  ultimately show ?thesis using demo_init(2) by blast
qed

end
