(* ===== verification/Tx_Server.thy ===== *)
theory Tx_Server
  imports Tx_Base
begin

text \<open>
  The server transactions of \<open>Transactions.js\<close>: \<open>NonInviteServerTransaction\<close>,
  \<open>InviteServerTransaction\<close> and the function \<open>checkTransaction\<close> (lines 23160-23569 of
  \<open>frontend/static/js/jssip-3.10.0.js\<close>), with their step relations and invariants.  The optional
  callbacks of \<open>receiveResponse\<close> are two flags that say whether they were given.
\<close>

section \<open>Non-INVITE server transaction\<close>

record nist = tx +
  nist_last_response :: string
  nist_transportError :: bool
  nist_J :: "nat option"

definition new_nist :: "'a in_message_scheme \<Rightarrow> nist" where
  "new_nist request =
     emit NewTransaction
       \<lparr>tx_id = text_of (im_via_branch request), tx_state = Some STATUS_TRYING, tx_pending = [],
        tx_next = 0, tx_trace = [], nist_last_response = [], nist_transportError = False, nist_J = None\<rparr>"

definition nist_timer_J :: "nist \<Rightarrow> nist" where
  "nist_timer_J t = destroy (stateChanged STATUS_TERMINATED t)"

definition nist_onTransportError :: "nist \<Rightarrow> nist" where
  "nist_onTransportError t =
     (if \<not> nist_transportError t then
        (let t = t\<lparr>nist_transportError := True\<rparr>;
             t = clearTimeout (nist_J t) t;
             t = stateChanged STATUS_TERMINATED t
         in destroy t)
      else t)"

definition call_if :: "bool \<Rightarrow> tx_event \<Rightarrow> 'a tx_scheme \<Rightarrow> 'a tx_scheme" where
  "call_if given e t = (if given then emit e t else t)"

definition nist_receiveResponse :: "nat \<Rightarrow> string \<Rightarrow> bool \<Rightarrow> bool \<Rightarrow> bool \<Rightarrow> nist \<Rightarrow> nist" where
  "nist_receiveResponse status_code response onSuccess onFailure sent t =
     (if status_code = 100 then
        (if tx_state t = Some STATUS_TRYING then
           (let t = stateChanged STATUS_PROCEEDING t;
                t = emit (SendReply status_code response) t
            in if \<not> sent then nist_onTransportError t else t)
         else if tx_state t = Some STATUS_PROCEEDING then
           (let t = t\<lparr>nist_last_response := response\<rparr>;
                t = emit (SendReply status_code response) t
            in if \<not> sent then call_if onFailure OnFailure (nist_onTransportError t)
               else call_if onSuccess OnSuccess t)
         else t)
      else if 200 \<le> status_code \<and> status_code \<le> 699 then
        (if tx_state t = Some STATUS_TRYING \<or> tx_state t = Some STATUS_PROCEEDING then
           (let t = stateChanged STATUS_COMPLETED t;
                t = t\<lparr>nist_last_response := response\<rparr>;
                (h, t) = setTimeout Timer_J TIMER_J t;
                t = t\<lparr>nist_J := Some h\<rparr>;
                t = emit (SendReply status_code response) t
            in if \<not> sent then call_if onFailure OnFailure (nist_onTransportError t)
               else call_if onSuccess OnSuccess t)
         else t)
      else t)"

definition nist_fire :: "nat \<Rightarrow> nist \<Rightarrow> nist" where
  "nist_fire h t = (case timer_at h t of Some Timer_J \<Rightarrow> nist_timer_J (take_timer h t) | _ \<Rightarrow> t)"

text \<open>What \<open>checkTransaction\<close> does with a request of this branch: a retransmission.\<close>

definition nist_retransmit :: "nist \<Rightarrow> nist" where
  "nist_retransmit t =
     (if tx_state t = Some STATUS_PROCEEDING \<or> tx_state t = Some STATUS_COMPLETED
      then emit (Resend (nist_last_response t)) t else t)"

inductive nist_step :: "nist \<Rightarrow> nist \<Rightarrow> bool" where
  nist_step_reply: "nist_step t (nist_receiveResponse code response onS onF sent t)"
| nist_step_retransmit: "registered t \<Longrightarrow> nist_step t (nist_retransmit t)"
| nist_step_transport: "registered t \<Longrightarrow> nist_step t (nist_onTransportError t)"
| nist_step_timer: "timer_at h t = Some n \<Longrightarrow> nist_step t (nist_fire h t)"

inductive nist_init :: "nist \<Rightarrow> bool" where
  "nist_init (new_nist (request :: in_request))"

inductive_simps nist_init_iff: "nist_init t"
inductive_cases nist_stepE: "nist_step t t'"

section \<open>INVITE server transaction\<close>

record ist = tx +
  ist_last_response :: string
  ist_transportError :: bool
  ist_resendProvisionalTimer :: "nat option"
  ist_H :: "nat option"
  ist_I :: "nat option"
  ist_L :: "nat option"

definition ist_timer_H :: "ist \<Rightarrow> ist" where
  "ist_timer_H t = destroy (stateChanged STATUS_TERMINATED t)"

definition ist_timer_I :: "ist \<Rightarrow> ist" where
  "ist_timer_I t = destroy (stateChanged STATUS_TERMINATED t)"

definition ist_timer_L :: "ist \<Rightarrow> ist" where
  "ist_timer_L t =
     (if tx_state t = Some STATUS_ACCEPTED then destroy (stateChanged STATUS_TERMINATED t) else t)"

definition ist_clearProvisional :: "ist \<Rightarrow> ist" where
  "ist_clearProvisional t =
     (if ist_resendProvisionalTimer t \<noteq> None
      then (clearTimeout (ist_resendProvisionalTimer t) t)\<lparr>ist_resendProvisionalTimer := None\<rparr> else t)"

definition ist_onTransportError :: "ist \<Rightarrow> ist" where
  "ist_onTransportError t =
     (if \<not> ist_transportError t then
        (let t = t\<lparr>ist_transportError := True\<rparr>;
             t = ist_clearProvisional t;
             t = clearTimeout (ist_L t) t;
             t = clearTimeout (ist_H t) t;
             t = clearTimeout (ist_I t) t;
             t = stateChanged STATUS_TERMINATED t
         in destroy t)
      else t)"

definition ist_resend_provisional :: "bool \<Rightarrow> ist \<Rightarrow> ist" where
  "ist_resend_provisional sent t =
     (let t = emit (Resend (ist_last_response t)) t in if \<not> sent then ist_onTransportError t else t)"

text \<open>The first \<open>if\<close> of \<open>receiveResponse\<close>.\<close>

definition ist_provisional :: "nat \<Rightarrow> string \<Rightarrow> bool \<Rightarrow> ist \<Rightarrow> ist" where
  "ist_provisional status_code response sent t =
     (if 100 \<le> status_code \<and> status_code \<le> 199 \<and> tx_state t = Some STATUS_PROCEEDING then
        (let t = emit (SendReply status_code response) t;
             t = (if \<not> sent then ist_onTransportError t else t)
         in t\<lparr>ist_last_response := response\<rparr>)
      else t)"

definition ist_send_2xx :: "nat \<Rightarrow> string \<Rightarrow> bool \<Rightarrow> bool \<Rightarrow> bool \<Rightarrow> ist \<Rightarrow> ist" where
  "ist_send_2xx status_code response onSuccess onFailure sent t =
     (let t = emit (SendReply status_code response) t
      in if \<not> sent then call_if onFailure OnFailure (ist_onTransportError t)
         else call_if onSuccess OnSuccess t)"

definition ist_receiveResponse :: "nat \<Rightarrow> string \<Rightarrow> bool \<Rightarrow> bool \<Rightarrow> bool \<Rightarrow> ist \<Rightarrow> ist" where
  "ist_receiveResponse status_code response onSuccess onFailure sent t0 =
     (let t = ist_provisional status_code response sent t0 in
      if 100 < status_code \<and> status_code \<le> 199 \<and> tx_state t = Some STATUS_PROCEEDING then
        (if ist_resendProvisionalTimer t = None then
           (let (h, t) = setTimeout Timer_Provisional PROVISIONAL_RESPONSE_INTERVAL t
            in t\<lparr>ist_resendProvisionalTimer := Some h\<rparr>)
         else t)
      else if 200 \<le> status_code \<and> status_code \<le> 299 then
        (if tx_state t = Some STATUS_PROCEEDING then
           (let t = stateChanged STATUS_ACCEPTED t;
                t = t\<lparr>ist_last_response := response\<rparr>;
                (h, t) = setTimeout Timer_L TIMER_L t;
                t = t\<lparr>ist_L := Some h\<rparr>;
                t = ist_clearProvisional t
            in ist_send_2xx status_code response onSuccess onFailure sent t)
         else if tx_state t = Some STATUS_ACCEPTED
         then ist_send_2xx status_code response onSuccess onFailure sent t
         else t)
      else if 300 \<le> status_code \<and> status_code \<le> 699 then
        (if tx_state t = Some STATUS_PROCEEDING then
           (let t = ist_clearProvisional t;
                t = emit (SendReply status_code response) t
            in if \<not> sent then call_if onFailure OnFailure (ist_onTransportError t)
               else
                 (let t = stateChanged STATUS_COMPLETED t;
                      (h, t) = setTimeout Timer_H TIMER_H t;
                      t = t\<lparr>ist_H := Some h\<rparr>
                  in call_if onSuccess OnSuccess t))
         else t)
      else t)"

text \<open>
  The constructor registers the transaction and replies 100; an exception of \<open>reply\<close> leaves it
  registered.
\<close>

definition blank_ist :: "'a in_message_scheme \<Rightarrow> ist" where
  "blank_ist request =
     emit NewTransaction
       \<lparr>tx_id = text_of (im_via_branch request), tx_state = Some STATUS_PROCEEDING, tx_pending = [],
        tx_next = 0, tx_trace = [], ist_last_response = [], ist_transportError = False,
        ist_resendProvisionalTimer = None, ist_H = None, ist_I = None, ist_L = None\<rparr>"

definition new_ist ::
    "ua_config \<Rightarrow> grammar \<Rightarrow> draws \<Rightarrow> bool \<Rightarrow> 'a in_message_scheme \<Rightarrow> js_error option \<times> ist" where
  "new_ist cfg parse dr sent request =
     (case reply_text cfg parse dr 100 None None None request of
        Inl e \<Rightarrow> (Some e, blank_ist request)
      | Inr (response, request') \<Rightarrow>
          (None, ist_receiveResponse 100 response False False sent (blank_ist request)))"

text \<open>An interval stays pending when it fires.\<close>

definition ist_fire :: "bool \<Rightarrow> nat \<Rightarrow> ist \<Rightarrow> ist" where
  "ist_fire sent h t =
     (case timer_at h t of
        Some Timer_H \<Rightarrow> ist_timer_H (take_timer h t)
      | Some Timer_I \<Rightarrow> ist_timer_I (take_timer h t)
      | Some Timer_L \<Rightarrow> ist_timer_L (take_timer h t)
      | Some Timer_Provisional \<Rightarrow> ist_resend_provisional sent t
      | _ \<Rightarrow> t)"

text \<open>What \<open>checkTransaction\<close> does with an INVITE and an ACK of this branch.\<close>

definition ist_retransmit :: "ist \<Rightarrow> ist" where
  "ist_retransmit t =
     (if tx_state t = Some STATUS_PROCEEDING then emit (Resend (ist_last_response t)) t else t)"

definition ist_ack :: "ist \<Rightarrow> ist" where
  "ist_ack t =
     (if tx_state t = Some STATUS_COMPLETED then
        (let t = t\<lparr>tx_state := Some STATUS_CONFIRMED\<rparr>;
             (h, t) = setTimeout Timer_I TIMER_I t
         in t\<lparr>ist_I := Some h\<rparr>)
      else t)"

inductive ist_step :: "ist \<Rightarrow> ist \<Rightarrow> bool" where
  ist_step_reply: "ist_step t (ist_receiveResponse code response onS onF sent t)"
| ist_step_retransmit: "registered t \<Longrightarrow> ist_step t (ist_retransmit t)"
| ist_step_ack: "registered t \<Longrightarrow> ist_step t (ist_ack t)"
| ist_step_transport: "registered t \<Longrightarrow> ist_step t (ist_onTransportError t)"
| ist_step_timer: "timer_at h t = Some n \<Longrightarrow> ist_step t (ist_fire sent h t)"

inductive ist_init :: "ist \<Rightarrow> bool" where
  "ist_init (snd (new_ist cfg parse dr sent (request :: in_request)))"

inductive_cases ist_initE: "ist_init t"
inductive_cases ist_stepE: "ist_step t t'"

section \<open>Which transaction a request belongs to\<close>

record check_result =
  cr_result :: "js_error + bool"
  cr_ists :: "ist js_object"
  cr_nists :: "nist js_object"
  cr_sent :: "string list"

text \<open>A stateless reply, then \<open>k\<close>; an exception of \<open>reply_sl\<close> ends the function.\<close>

definition reply_then ::
    "ua_config \<Rightarrow> grammar \<Rightarrow> draws \<Rightarrow> nat \<Rightarrow> 'a in_message_scheme \<Rightarrow> bool \<Rightarrow> ist js_object \<Rightarrow> nist js_object \<Rightarrow>
      check_result" where
  "reply_then cfg parse dr code request res ists nists =
     (case reply_sl_text cfg parse dr code None request of
        Inl e \<Rightarrow> \<lparr>cr_result = Inl e, cr_ists = ists, cr_nists = nists, cr_sent = []\<rparr>
      | Inr (text, _) \<Rightarrow> \<lparr>cr_result = Inr res, cr_ists = ists, cr_nists = nists, cr_sent = [text]\<rparr>)"

text \<open>A function that ends without \<open>return\<close> gives \<open>undefined\<close>, which its caller takes for false.\<close>

definition checkTransaction ::
    "ua_config \<Rightarrow> grammar \<Rightarrow> draws \<Rightarrow> ist js_object \<Rightarrow> nist js_object \<Rightarrow> 'a in_message_scheme \<Rightarrow> check_result" where
  "checkTransaction cfg parse dr ists nists request =
     (let branch = text_of (im_via_branch request);
          out = (\<lambda>res ists nists. \<lparr>cr_result = Inr res, cr_ists = ists, cr_nists = nists, cr_sent = []\<rparr>)
      in case im_method request of
        INVITE \<Rightarrow>
          (case obj_get ists branch of
             Some tr \<Rightarrow> out True (obj_put branch (ist_retransmit tr) ists) nists
           | None \<Rightarrow> out False ists nists)
      | ACK \<Rightarrow>
          (case obj_get ists branch of
             Some tr \<Rightarrow>
               if tx_state tr = Some STATUS_ACCEPTED then out False ists nists
               else if tx_state tr = Some STATUS_COMPLETED
               then out True (obj_put branch (ist_ack tr) ists) nists
               else out False ists nists
           | None \<Rightarrow> out False ists nists)
      | CANCEL \<Rightarrow>
          (case obj_get ists branch of
             Some tr \<Rightarrow>
               reply_then cfg parse dr 200 request (tx_state tr \<noteq> Some STATUS_PROCEEDING) ists nists
           | None \<Rightarrow> reply_then cfg parse dr 481 request True ists nists)
      | _ \<Rightarrow>
          (case obj_get nists branch of
             Some tr \<Rightarrow> out True ists (obj_put branch (nist_retransmit tr) nists)
           | None \<Rightarrow> out False ists nists))"

section \<open>Invariant of the non-INVITE server transaction\<close>

fun is_final_reply :: "tx_event \<Rightarrow> bool" where
  "is_final_reply (SendReply code text) = (200 \<le> code)"
| "is_final_reply _ = False"

fun is_2xx_reply :: "tx_event \<Rightarrow> bool" where
  "is_2xx_reply (SendReply code text) = (200 \<le> code \<and> code \<le> 299)"
| "is_2xx_reply _ = False"

fun is_rejection :: "tx_event \<Rightarrow> bool" where
  "is_rejection (SendReply code text) = (300 \<le> code)"
| "is_rejection _ = False"

definition final_replies :: "tx_event list \<Rightarrow> nat" where
  "final_replies es = length (filter is_final_reply es)"

definition accepts :: "tx_event list \<Rightarrow> nat" where
  "accepts es = length (filter is_2xx_reply es)"

definition rejections :: "tx_event list \<Rightarrow> nat" where
  "rejections es = length (filter is_rejection es)"

lemma reply_counts [simp]:
  "final_replies [] = 0" "accepts [] = 0" "rejections [] = 0"
  "final_replies (e # es) = (if is_final_reply e then 1 else 0) + final_replies es"
  "accepts (e # es) = (if is_2xx_reply e then 1 else 0) + accepts es"
  "rejections (e # es) = (if is_rejection e then 1 else 0) + rejections es"
  "final_replies (es @ fs) = final_replies es + final_replies fs"
  "accepts (es @ fs) = accepts es + accepts fs"
  "rejections (es @ fs) = rejections es + rejections fs"
  by (auto simp: final_replies_def accepts_def rejections_def)

lemma call_if_fields [simp]:
  "tx_state (call_if b e t) = tx_state t" "tx_pending (call_if b e t) = tx_pending t"
  "tx_next (call_if b e t) = tx_next t"
  "tx_trace (call_if b e t) = tx_trace t @ (if b then [e] else [])"
  by (simp_all add: call_if_def)

lemma nist_fields [simp]:
  "nist_J (emit e t) = nist_J t" "nist_J (stateChanged s t) = nist_J t" "nist_J (clearTimeout h t) = nist_J t"
  "nist_J (take_timer k t) = nist_J t" "nist_J (call_if b e t) = nist_J t"
  "nist_transportError (emit e t) = nist_transportError t"
  "nist_transportError (stateChanged s t) = nist_transportError t"
  "nist_transportError (clearTimeout h t) = nist_transportError t"
  "nist_transportError (take_timer k t) = nist_transportError t"
  "nist_transportError (call_if b e t) = nist_transportError t"
  "nist_last_response (emit e t) = nist_last_response t"
  "nist_last_response (stateChanged s t) = nist_last_response t"
  "nist_last_response (take_timer k t) = nist_last_response t"
  "nist_last_response (call_if b e t) = nist_last_response t"
  by (simp_all add: tx_defs call_if_def)

definition nist_inv :: "nist \<Rightarrow> bool" where
  "nist_inv t =
     (let es = tx_trace t in
      case tx_state t of
        None \<Rightarrow> False
      | Some s \<Rightarrow>
          if s = STATUS_TRYING \<or> s = STATUS_PROCEEDING then
            tx_pending t = [] \<and> destroys es = 0 \<and> final_replies es = 0 \<and> \<not> nist_transportError t
          else if s = STATUS_COMPLETED then
            (\<exists>h. nist_J t = Some h \<and> tx_pending t = [(h, Timer_J, TIMER_J)]) \<and>
            (\<exists>code. 200 \<le> code \<and> SendReply code (nist_last_response t) \<in> set es) \<and>
            destroys es = 0 \<and> final_replies es = 1 \<and> \<not> nist_transportError t
          else if s = STATUS_TERMINATED then
            tx_pending t = [] \<and> destroys es = 1 \<and> final_replies es \<le> 1
          else False)"

lemma nist_inv_new: "nist_inv (new_nist request)"
  by (simp add: nist_inv_def new_nist_def emit_def)

lemma nist_inv_transport: "nist_inv t \<Longrightarrow> registered t \<Longrightarrow> nist_inv (nist_onTransportError t)"
  by (auto simp: nist_inv_def nist_onTransportError_def Let_def registered_destroys
      split: option.splits if_splits)

lemma nist_inv_reply: "nist_inv t \<Longrightarrow> nist_inv (nist_receiveResponse code response onS onF sent t)"
proof (cases "tx_state t = Some STATUS_TRYING \<or> tx_state t = Some STATUS_PROCEEDING")
  case True
  assume "nist_inv t"
  with True show ?thesis
    by (auto simp: nist_inv_def nist_receiveResponse_def nist_onTransportError_def setTimeout_def Let_def)
next
  case False
  assume "nist_inv t"
  with False show ?thesis by (simp add: nist_receiveResponse_def)
qed

lemma nist_inv_retransmit: "nist_inv t \<Longrightarrow> nist_inv (nist_retransmit t)"
  by (auto simp: nist_inv_def nist_retransmit_def Let_def)

lemma nist_inv_timer: "nist_inv t \<Longrightarrow> nist_inv (nist_fire h t)"
  by (auto simp: nist_inv_def nist_fire_def nist_timer_J_def timer_at_def Let_def
      split: option.splits timer.splits if_splits)

lemma nist_trace_grows: "nist_step t t' \<Longrightarrow> \<exists>es. tx_trace t' = tx_trace t @ es"
  by (elim nist_stepE)
    (auto simp: nist_receiveResponse_def nist_onTransportError_def nist_retransmit_def nist_fire_def
      nist_timer_J_def setTimeout_def call_if_def Let_def split: option.splits timer.splits)

interpretation nist: tx_machine nist_init nist_step nist_inv tx_state tx_trace
proof
  show "nist_inv t" if "nist_init t" for t
    using that by (auto simp: nist_init_iff nist_inv_new)
  show "nist_inv t'" if "nist_inv t" "nist_step t t'" for t t'
    using that(2,1)
    by cases (auto intro: nist_inv_reply nist_inv_retransmit nist_inv_transport nist_inv_timer)
  show "\<exists>es. tx_trace t' = tx_trace t @ es" if "nist_step t t'" for t t'
    using that by (rule nist_trace_grows)
  show "Destroyed \<in> set (tx_trace t) \<longleftrightarrow> tx_state t = Some STATUS_TERMINATED" if "nist_inv t" for t
    using that destroys_pos [of "tx_trace t"]
    by (auto simp: nist_inv_def Let_def split: option.splits if_splits)
qed

section \<open>Invariant of the INVITE server transaction\<close>

lemma ist_fields [simp]:
  "ist_L (emit e t) = ist_L t" "ist_L (stateChanged s t) = ist_L t" "ist_L (clearTimeout h t) = ist_L t"
  "ist_L (take_timer k t) = ist_L t" "ist_L (call_if b e t) = ist_L t"
  "ist_H (emit e t) = ist_H t" "ist_H (stateChanged s t) = ist_H t" "ist_H (clearTimeout h t) = ist_H t"
  "ist_H (take_timer k t) = ist_H t" "ist_H (call_if b e t) = ist_H t"
  "ist_I (emit e t) = ist_I t" "ist_I (stateChanged s t) = ist_I t" "ist_I (clearTimeout h t) = ist_I t"
  "ist_I (take_timer k t) = ist_I t" "ist_I (call_if b e t) = ist_I t"
  "ist_transportError (emit e t) = ist_transportError t"
  "ist_transportError (stateChanged s t) = ist_transportError t"
  "ist_transportError (clearTimeout h t) = ist_transportError t"
  "ist_transportError (take_timer k t) = ist_transportError t"
  "ist_transportError (call_if b e t) = ist_transportError t"
  "ist_resendProvisionalTimer (emit e t) = ist_resendProvisionalTimer t"
  "ist_resendProvisionalTimer (stateChanged s t) = ist_resendProvisionalTimer t"
  "ist_resendProvisionalTimer (clearTimeout h t) = ist_resendProvisionalTimer t"
  "ist_resendProvisionalTimer (take_timer k t) = ist_resendProvisionalTimer t"
  "ist_resendProvisionalTimer (call_if b e t) = ist_resendProvisionalTimer t"
  by (simp_all add: tx_defs call_if_def)

text \<open>
  The pending timers by state.  Timer H is not cleared by the ACK, so a confirmed transaction has
  two timers that terminate it, and after the first of them the other is still pending.
\<close>

definition ist_inv :: "ist \<Rightarrow> bool" where
  "ist_inv t =
     (let es = tx_trace t; ps = tx_pending t; p = ist_resendProvisionalTimer t in
      case tx_state t of
        None \<Rightarrow> False
      | Some s \<Rightarrow>
          if s = STATUS_PROCEEDING then
            (p = None \<and> ps = [] \<or>
             (\<exists>h. p = Some h \<and> ps = [(h, Timer_Provisional, PROVISIONAL_RESPONSE_INTERVAL)] \<and> h < tx_next t)) \<and>
            destroys es = 0 \<and> accepts es = 0 \<and> rejections es = 0 \<and> \<not> ist_transportError t
          else if s = STATUS_ACCEPTED then
            p = None \<and> (\<exists>h. ist_L t = Some h \<and> ps = [(h, Timer_L, TIMER_L)]) \<and>
            destroys es = 0 \<and> rejections es = 0 \<and> \<not> ist_transportError t
          else if s = STATUS_COMPLETED then
            p = None \<and> (\<exists>h. ist_H t = Some h \<and> ps = [(h, Timer_H, TIMER_H)] \<and> h < tx_next t) \<and>
            destroys es = 0 \<and> accepts es = 0 \<and> rejections es = 1 \<and> \<not> ist_transportError t
          else if s = STATUS_CONFIRMED then
            p = None \<and>
            (\<exists>h i. ist_H t = Some h \<and> ist_I t = Some i \<and>
               ps = [(h, Timer_H, TIMER_H), (i, Timer_I, TIMER_I)] \<and> h \<noteq> i) \<and>
            destroys es = 0 \<and> accepts es = 0 \<and> rejections es = 1 \<and> \<not> ist_transportError t
          else if s = STATUS_TERMINATED then
            (ps = [] \<and> destroys es \<le> 2 \<or>
             destroys es = 1 \<and> (\<exists>h. ps = [(h, Timer_H, TIMER_H)] \<or> ps = [(h, Timer_I, TIMER_I)])) \<and>
            1 \<le> destroys es \<and> (accepts es = 0 \<or> rejections es = 0) \<and> rejections es \<le> 1
          else False)"

lemma ist_inv_blank: "ist_inv (blank_ist request)"
  by (simp add: ist_inv_def blank_ist_def emit_def)

lemma ist_inv_transport: "ist_inv t \<Longrightarrow> registered t \<Longrightarrow> ist_inv (ist_onTransportError t)"
  by (auto simp: ist_inv_def ist_onTransportError_def ist_clearProvisional_def Let_def registered_destroys
      split: option.splits if_splits)

lemma ist_inv_retransmit: "ist_inv t \<Longrightarrow> ist_inv (ist_retransmit t)"
  by (auto simp: ist_inv_def ist_retransmit_def Let_def)

lemma ist_inv_ack: "ist_inv t \<Longrightarrow> ist_inv (ist_ack t)"
  by (auto simp: ist_inv_def ist_ack_def setTimeout_def Let_def)

lemma ist_inv_timer: "ist_inv t \<Longrightarrow> ist_inv (ist_fire sent h t)"
  by (auto simp: ist_inv_def ist_fire_def ist_timer_H_def ist_timer_I_def ist_timer_L_def
      ist_resend_provisional_def ist_onTransportError_def ist_clearProvisional_def timer_at_def Let_def
      split: option.splits timer.splits if_splits)

lemma ist_provisional_other [simp]:
  "tx_state t \<noteq> Some STATUS_PROCEEDING \<or> \<not> (100 \<le> code \<and> code \<le> 199) \<Longrightarrow> ist_provisional code response sent t = t"
  by (auto simp: ist_provisional_def)

lemma ist_inv_provisional:
  assumes "ist_inv t" and "tx_state t = Some STATUS_PROCEEDING" and "100 \<le> code" "code \<le> 199"
  shows "ist_inv (ist_receiveResponse code response onS onF sent t)"
proof (cases sent)
  case True
  with assms show ?thesis
    by (auto simp: ist_inv_def ist_receiveResponse_def ist_provisional_def setTimeout_def Let_def)
next
  case False
  with assms show ?thesis
    by (auto simp: ist_inv_def ist_receiveResponse_def ist_provisional_def ist_onTransportError_def
        ist_clearProvisional_def Let_def)
qed

lemma ist_inv_2xx:
  assumes "ist_inv t" and "tx_state t = Some STATUS_PROCEEDING" and "200 \<le> code" "code \<le> 299"
  shows "ist_inv (ist_receiveResponse code response onS onF sent t)"
  using assms
  by (cases sent)
    (auto simp: ist_inv_def ist_receiveResponse_def ist_send_2xx_def ist_onTransportError_def
      ist_clearProvisional_def setTimeout_def Let_def)

lemma ist_inv_2xx_again:
  assumes "ist_inv t" and "tx_state t = Some STATUS_ACCEPTED" and "200 \<le> code" "code \<le> 299"
  shows "ist_inv (ist_send_2xx code response onS onF sent t)"
  using assms
  by (cases sent)
    (auto simp: ist_inv_def ist_receiveResponse_def ist_send_2xx_def ist_onTransportError_def
      ist_clearProvisional_def Let_def)

lemma ist_inv_rejection:
  assumes "ist_inv t" and "tx_state t = Some STATUS_PROCEEDING" and "300 \<le> code" "code \<le> 699"
  shows "ist_inv (ist_receiveResponse code response onS onF sent t)"
  using assms
  by (cases sent)
    (auto simp: ist_inv_def ist_receiveResponse_def ist_onTransportError_def ist_clearProvisional_def
      setTimeout_def Let_def)

lemma ist_inv_reply: "ist_inv t \<Longrightarrow> ist_inv (ist_receiveResponse code response onS onF sent t)"
proof (cases "tx_state t = Some STATUS_PROCEEDING")
  case True
  assume i: "ist_inv t"
  consider "100 \<le> code" "code \<le> 199" | "200 \<le> code" "code \<le> 299" | "300 \<le> code" "code \<le> 699"
    | "code < 100 \<or> 699 < code" by linarith
  then show ?thesis
  proof cases
    case 4
    then have "ist_receiveResponse code response onS onF sent t = t"
      by (auto simp: ist_receiveResponse_def Let_def)
    with i show ?thesis by simp
  qed (use i True in \<open>auto intro: ist_inv_provisional ist_inv_2xx ist_inv_rejection\<close>)
next
  case False
  assume i: "ist_inv t"
  from False have "ist_receiveResponse code response onS onF sent t =
      (if 200 \<le> code \<and> code \<le> 299 \<and> tx_state t = Some STATUS_ACCEPTED
       then ist_send_2xx code response onS onF sent t else t)"
    by (simp add: ist_receiveResponse_def Let_def)
  with i show ?thesis by (simp add: ist_inv_2xx_again)
qed

lemma ist_reply_grows: "\<exists>es. tx_trace (ist_receiveResponse code response onS onF sent t) = tx_trace t @ es"
  by (auto simp: ist_receiveResponse_def ist_provisional_def ist_send_2xx_def ist_onTransportError_def
      ist_clearProvisional_def setTimeout_def Let_def)

lemma ist_trace_grows: "ist_step t t' \<Longrightarrow> \<exists>es. tx_trace t' = tx_trace t @ es"
proof (elim ist_stepE)
  fix code response onS onF sent
  assume "t' = ist_receiveResponse code response onS onF sent t"
  then show ?thesis by (simp add: ist_reply_grows)
qed (auto simp: ist_onTransportError_def ist_retransmit_def ist_fire_def ist_ack_def ist_timer_H_def
  ist_timer_I_def ist_timer_L_def ist_resend_provisional_def ist_clearProvisional_def setTimeout_def Let_def
  split: option.splits timer.splits)

lemma ist_inv_new: "ist_inv (snd (new_ist cfg parse dr sent request))"
  by (auto simp: new_ist_def ist_inv_blank ist_inv_reply split: sum.splits)

interpretation ist: tx_machine ist_init ist_step ist_inv tx_state tx_trace
proof
  show "ist_inv t" if "ist_init t" for t
    using that by (elim ist_initE) (simp add: ist_inv_new)
  show "ist_inv t'" if "ist_inv t" "ist_step t t'" for t t'
    using that(2,1)
    by cases (auto intro: ist_inv_reply ist_inv_retransmit ist_inv_ack ist_inv_transport ist_inv_timer)
  show "\<exists>es. tx_trace t' = tx_trace t @ es" if "ist_step t t'" for t t'
    using that by (rule ist_trace_grows)
  show "Destroyed \<in> set (tx_trace t) \<longleftrightarrow> tx_state t = Some STATUS_TERMINATED" if "ist_inv t" for t
    using that destroys_pos [of "tx_trace t"]
    by (auto simp: ist_inv_def Let_def split: option.splits if_splits)
qed

section \<open>Concrete transactions\<close>

definition demo_invite :: in_request where
  "demo_invite =
     \<lparr>im_headers = [(''To'', [raw_field ''<sip:h>''])], im_data = [], im_method = INVITE,
      im_via_branch = Some ''z'', im_call_id = ''c'', im_cseq = 3, im_from_tag = Some ''f'',
      im_to_tag = None, im_body = None, im_from = None, im_to = None, im_session_expires = None, im_session_expires_refresher = None,
      im_refer_to = None, im_replaces = None, im_event = None, im_ruri = demo_uri\<rparr>"

definition demo_ist :: ist where
  "demo_ist = snd (new_ist demo_cfg (\<lambda>r s. None) demo_draws True demo_invite)"

lemma demo_ist: "ist_init demo_ist"
  unfolding demo_ist_def by (rule ist_init.intros)

lemma demo_ist_eval: "\<exists>text. demo_ist = ist_receiveResponse 100 text False False True (blank_ist demo_invite)"
proof -
  have "\<exists>p. reply_text demo_cfg (\<lambda>r s. None) demo_draws 100 None None None demo_invite = Inr p"
    by (simp add: reply_text_def reply_to_def valid_status_def truthy_def demo_invite_def)
  then show ?thesis by (auto simp: demo_ist_def new_ist_def)
qed

lemmas ist_defs = ist_receiveResponse_def ist_provisional_def ist_send_2xx_def ist_onTransportError_def
  ist_fire_def ist_timer_H_def ist_timer_I_def ist_timer_L_def ist_ack_def ist_clearProvisional_def
  blank_ist_def call_if_def tx_defs registered_def

section \<open>Properties\<close>

text \<open>
  A non-INVITE request is answered with at most one final response, and a completed
  transaction answers a retransmission with exactly that response; it is destroyed at most once,
  and exactly when terminated.
\<close>

theorem nist_one_answer:
  assumes "nist_init t0" and "nist_step\<^sup>*\<^sup>* t0 t"
  shows "final_replies (tx_trace t) \<le> 1 \<and>
    destroys (tx_trace t) = (if tx_state t = Some STATUS_TERMINATED then 1 else 0) \<and>
    (if tx_state t = Some STATUS_COMPLETED then
       (\<exists>code. 200 \<le> code \<and> SendReply code (nist_last_response t) \<in> set (tx_trace t)) \<and>
       tx_trace (nist_retransmit t) = tx_trace t @ [Resend (nist_last_response t)]
     else True)"
  using nist.reach_inv [OF assms]
  by (auto simp: nist_inv_def nist_retransmit_def Let_def split: option.splits if_splits)

definition demo_nist :: nist where
  "demo_nist = nist_receiveResponse 200 ''ok'' False False True (new_nist demo_invite)"

theorem nist_one_answer_witness:
  "final_replies (tx_trace demo_nist) \<le> 1 \<and>
    destroys (tx_trace demo_nist) = (if tx_state demo_nist = Some STATUS_TERMINATED then 1 else 0) \<and>
    (if tx_state demo_nist = Some STATUS_COMPLETED then
       (\<exists>code. 200 \<le> code \<and> SendReply code (nist_last_response demo_nist) \<in> set (tx_trace demo_nist)) \<and>
       tx_trace (nist_retransmit demo_nist) = tx_trace demo_nist @ [Resend (nist_last_response demo_nist)]
     else True)"
  unfolding demo_nist_def
  by (rule nist_one_answer [OF nist_init.intros r_into_rtranclp [where r = nist_step]], rule nist_step_reply)

text \<open>
  C38. An INVITE is never both accepted and rejected: after a 2xx reply no reply of 300 or more is
  handed to the transport, nor a 2xx after such a reply, and at most one such reply is.
\<close>

theorem ist_exclusive:
  assumes "ist_init t0" and "ist_step\<^sup>*\<^sup>* t0 t"
  shows "(accepts (tx_trace t) = 0 \<or> rejections (tx_trace t) = 0) \<and> rejections (tx_trace t) \<le> 1"
  using ist.reach_inv [OF assms]
  by (auto simp: ist_inv_def Let_def split: option.splits if_splits)

theorem ist_exclusive_witness:
  "(accepts (tx_trace (ist_receiveResponse 486 ''no'' True True True demo_ist)) = 0 \<or>
     rejections (tx_trace (ist_receiveResponse 486 ''no'' True True True demo_ist)) = 0) \<and>
    rejections (tx_trace (ist_receiveResponse 486 ''no'' True True True demo_ist)) \<le> 1"
  by (rule ist_exclusive [OF demo_ist r_into_rtranclp [where r = ist_step]], rule ist_step_reply)

text \<open>
  C39. An INVITE server transaction that has answered finally cannot hang: when it has accepted,
  completed or been confirmed, a timer due within 32 seconds is pending whose function terminates
  it; while it still proceeds only the resend interval can be pending.
\<close>

theorem ist_terminates:
  assumes "ist_init t0" and "ist_step\<^sup>*\<^sup>* t0 t" and "tx_state t \<noteq> Some STATUS_TERMINATED"
  shows "if tx_state t = Some STATUS_PROCEEDING
    then list_all (\<lambda>(h, n, d). n = Timer_Provisional) (tx_pending t)
    else (\<exists>h n d. (h, n, d) \<in> set (tx_pending t) \<and> d \<le> 32000 \<and>
      tx_state (ist_fire True h t) = Some STATUS_TERMINATED)"
  using ist.reach_inv [OF assms(1,2)] assms(3)
  by (auto simp: ist_inv_def Let_def ist_fire_def timer_at_def ist_timer_H_def ist_timer_I_def ist_timer_L_def
      timer_defs split: option.splits if_splits)

theorem ist_terminates_witness:
  "if tx_state (ist_receiveResponse 200 ''ok'' True True True demo_ist) = Some STATUS_PROCEEDING
    then list_all (\<lambda>(h, n, d). n = Timer_Provisional) (tx_pending (ist_receiveResponse 200 ''ok'' True True True demo_ist))
    else (\<exists>h n d. (h, n, d) \<in> set (tx_pending (ist_receiveResponse 200 ''ok'' True True True demo_ist)) \<and> d \<le> 32000 \<and>
      tx_state (ist_fire True h (ist_receiveResponse 200 ''ok'' True True True demo_ist)) = Some STATUS_TERMINATED)"
proof (rule ist_terminates [OF demo_ist r_into_rtranclp [where r = ist_step]], rule ist_step_reply)
  show "tx_state (ist_receiveResponse 200 ''ok'' True True True demo_ist) \<noteq> Some STATUS_TERMINATED"
  proof -
    obtain body where e: "demo_ist = ist_receiveResponse 100 body False False True (blank_ist demo_invite)"
      using demo_ist_eval by blast
    show ?thesis by (simp add: e ist_defs Let_def)
  qed
qed

text \<open>
  The ACK of a rejected INVITE starts timer I but leaves timer H running: once I has destroyed
  the transaction, H still fires and destroys it a second time.
\<close>

theorem ist_destroyed_twice:
  "\<exists>t0 t. ist_init t0 \<and> ist_step\<^sup>*\<^sup>* t0 t \<and> destroys (tx_trace t) = 2"
proof -
  let ?a = "ist_receiveResponse 486 ''no'' True True True demo_ist"
  let ?b = "ist_ack ?a"
  let ?c = "ist_fire True 1 ?b"
  let ?d = "ist_fire True 0 ?c"
  obtain body where e: "demo_ist = ist_receiveResponse 100 body False False True (blank_ist demo_invite)"
    using demo_ist_eval by blast
  have "ist_step demo_ist ?a" by (rule ist_step_reply)
  moreover have "ist_step ?a ?b" by (rule ist_step_ack) (simp add: e ist_defs Let_def)
  moreover have "ist_step ?b ?c" by (rule ist_step_timer [where n = Timer_I]) (simp add: e ist_defs Let_def)
  moreover have "ist_step ?c ?d" by (rule ist_step_timer [where n = Timer_H]) (simp add: e ist_defs Let_def)
  ultimately have "ist_step\<^sup>*\<^sup>* demo_ist ?d"
    by (meson converse_rtranclp_into_rtranclp rtranclp.rtrancl_refl)
  moreover have "destroys (tx_trace ?d) = 2" by (simp add: e ist_defs Let_def)
  ultimately show ?thesis using demo_ist by blast
qed

text \<open>
  \<open>checkTransaction\<close> absorbs a request exactly as its comment says: an INVITE or another
  request when a transaction of its branch exists, an ACK when it completes one, and it leaves a
  CANCEL to the caller only when the INVITE is still proceeding; it answers every CANCEL, with 200
  or 481, and no other request.
\<close>

theorem checkTransaction_absorbs:
  assumes "reply_sl_text cfg parse dr 200 None request = Inr p" and "reply_sl_text cfg parse dr 481 None request = Inr q"
  shows "cr_result (checkTransaction cfg parse dr ists nists request) =
    Inr (let tr = obj_get ists (text_of (im_via_branch request)) in
         if im_method request = INVITE then tr \<noteq> None
         else if im_method request = ACK then (tr \<noteq> None \<and> tx_state (the tr) = Some STATUS_COMPLETED)
         else if im_method request = CANCEL then (tr = None \<or> tx_state (the tr) \<noteq> Some STATUS_PROCEEDING)
         else obj_get nists (text_of (im_via_branch request)) \<noteq> None) \<and>
    length (cr_sent (checkTransaction cfg parse dr ists nists request)) = (if im_method request = CANCEL then 1 else 0)"
  using assms
  by (cases "im_method request")
    (auto simp: checkTransaction_def reply_then_def Let_def split: option.splits prod.splits)

definition demo_cancel :: in_request where
  "demo_cancel = demo_invite\<lparr>im_method := CANCEL\<rparr>"

theorem checkTransaction_absorbs_witness:
  "cr_result (checkTransaction demo_cfg (\<lambda>r s. None) demo_draws [(''z'', demo_ist)] [] demo_cancel) =
    Inr (let tr = obj_get [(''z'', demo_ist)] (text_of (im_via_branch demo_cancel)) in
         if im_method demo_cancel = INVITE then tr \<noteq> None
         else if im_method demo_cancel = ACK then (tr \<noteq> None \<and> tx_state (the tr) = Some STATUS_COMPLETED)
         else if im_method demo_cancel = CANCEL then (tr = None \<or> tx_state (the tr) \<noteq> Some STATUS_PROCEEDING)
         else obj_get ([] :: nist js_object) (text_of (im_via_branch demo_cancel)) \<noteq> None) \<and>
    length (cr_sent (checkTransaction demo_cfg (\<lambda>r s. None) demo_draws [(''z'', demo_ist)] [] demo_cancel)) =
      (if im_method demo_cancel = CANCEL then 1 else 0)"
proof -
  have "\<exists>p. reply_sl_text demo_cfg (\<lambda>r s. None) demo_draws code None demo_cancel = Inr p" if "valid_status code" for code
    using that by (simp add: reply_sl_text_def reply_to_def truthy_def demo_cancel_def demo_invite_def Let_def)
  note this [of 200] this [of 481]
  then obtain p q where "reply_sl_text demo_cfg (\<lambda>r s. None) demo_draws 200 None demo_cancel = Inr p"
    "reply_sl_text demo_cfg (\<lambda>r s. None) demo_draws 481 None demo_cancel = Inr q"
    by (auto simp: valid_status_def)
  then show ?thesis by (rule checkTransaction_absorbs)
qed

end
