(* ===== verification/Digest.thy ===== *)
theory Digest
  imports Md5_Rfc Sip_Message
begin

text \<open>
  The class \<open>DigestAuthentication\<close> (lines 909-1115 of \<open>frontend/static/js/jssip-3.10.0.js\<close>) and
  the HTTP digest of RFC 2617 it is meant to compute.  A field that is \<open>null\<close> or \<open>undefined\<close> is
  \<open>None\<close>; the request-URI is given as the string it prints as.
\<close>

section \<open>State\<close>

record credentials =
  cr_username :: string
  cr_password :: "string option"
  cr_realm :: "string option"
  cr_ha1 :: "string option"

record digest =
  dg_credentials :: credentials
  dg_cnonce :: "string option"
  dg_nc :: nat
  dg_ncHex :: string
  dg_algorithm :: "string option"
  dg_realm :: "string option"
  dg_nonce :: "string option"
  dg_opaque :: "string option"
  dg_stale :: bool
  dg_qop :: "string option"
  dg_method :: string
  dg_uri :: string
  dg_ha1 :: "string option"
  dg_response :: "string option"

definition new_digest :: "credentials \<Rightarrow> digest" where
  "new_digest c =
     \<lparr>dg_credentials = c, dg_cnonce = None, dg_nc = 0, dg_ncHex = ''00000000'', dg_algorithm = None,
      dg_realm = None, dg_nonce = None, dg_opaque = None, dg_stale = False, dg_qop = None,
      dg_method = [], dg_uri = [], dg_ha1 = None, dg_response = None\<rparr>"

section \<open>Generating a response\<close>

text \<open>\<open>'00000000'.substr(0, 8 - hex.length) + hex\<close>: a negative length gives the empty string.\<close>

definition nc_hex :: "nat \<Rightarrow> string" where
  "nc_hex n = (let hex = digits_in 16 n in take (8 - length hex) ''00000000'' @ hex)"

text \<open>The fields taken from the challenge before any check.\<close>

definition take_challenge :: "challenge \<Rightarrow> digest \<Rightarrow> digest" where
  "take_challenge ch d =
     d\<lparr>dg_algorithm := ch_algorithm ch, dg_realm := ch_realm ch, dg_nonce := ch_nonce ch,
       dg_opaque := ch_opaque ch, dg_stale := ch_stale ch\<rparr>"

text \<open>The checks before \<open>qop\<close>: what \<open>return false\<close> leaves behind is the second component.\<close>

definition check_challenge :: "digest \<Rightarrow> bool \<times> digest" where
  "check_challenge d =
     (if truthy (dg_algorithm d) \<and> dg_algorithm d \<noteq> Some ''MD5'' then (False, d)
      else
        (let d = d\<lparr>dg_algorithm := Some ''MD5''\<rparr> in
         if \<not> truthy (dg_nonce d) then (False, d)
         else if \<not> truthy (dg_realm d) then (False, d)
         else if \<not> truthy (cr_password (dg_credentials d)) then
           (if \<not> truthy (cr_ha1 (dg_credentials d)) then (False, d)
            else if cr_realm (dg_credentials d) \<noteq> dg_realm d then (False, d)
            else (True, d))
         else (True, d)))"

definition choose_qop :: "challenge \<Rightarrow> digest \<Rightarrow> bool \<times> digest" where
  "choose_qop ch d =
     (case ch_qop ch of
        None \<Rightarrow> (True, d\<lparr>dg_qop := None\<rparr>)
      | Some qop \<Rightarrow>
          if ''auth-int'' \<in> set qop then (True, d\<lparr>dg_qop := Some ''auth-int''\<rparr>)
          else if ''auth'' \<in> set qop then (True, d\<lparr>dg_qop := Some ''auth''\<rparr>)
          else (False, d))"

definition next_nc :: "digest \<Rightarrow> digest" where
  "next_nc d =
     (let d = d\<lparr>dg_nc := dg_nc d + 1\<rparr>;
          d = d\<lparr>dg_ncHex := nc_hex (dg_nc d)\<rparr>
      in if dg_nc d = 4294967296 then d\<lparr>dg_nc := 1, dg_ncHex := ''00000001''\<rparr> else d)"

definition set_ha1 :: "digest \<Rightarrow> digest" where
  "set_ha1 d =
     (let c = dg_credentials d in
      if truthy (cr_password c)
      then d\<lparr>dg_ha1 := Some (calculateMD5
             (cr_username c @ '':'' @ text_of (dg_realm d) @ '':'' @ text_of (cr_password c)))\<rparr>
      else d\<lparr>dg_ha1 := cr_ha1 c\<rparr>)"

definition digest_response :: "string option \<Rightarrow> digest \<Rightarrow> string" where
  "digest_response body d =
     (let ha1 = text_of (dg_ha1 d); nonce = text_of (dg_nonce d); cnonce = text_of (dg_cnonce d) in
      if dg_qop d = Some ''auth'' then
        (let ha2 = calculateMD5 (dg_method d @ '':'' @ dg_uri d)
         in calculateMD5 (ha1 @ '':'' @ nonce @ '':'' @ dg_ncHex d @ '':'' @ cnonce @ '':auth:'' @ ha2))
      else if dg_qop d = Some ''auth-int'' then
        (let ha2 = calculateMD5 (dg_method d @ '':'' @ dg_uri d @ '':'' @ calculateMD5 (str_or body []))
         in calculateMD5 (ha1 @ '':'' @ nonce @ '':'' @ dg_ncHex d @ '':'' @ cnonce @ '':auth-int:'' @ ha2))
      else
        (let ha2 = calculateMD5 (dg_method d @ '':'' @ dg_uri d)
         in calculateMD5 (ha1 @ '':'' @ nonce @ '':'' @ ha2)))"

definition authenticate ::
    "sip_method \<Rightarrow> string \<Rightarrow> string option \<Rightarrow> challenge \<Rightarrow> string option \<Rightarrow> (nat \<Rightarrow> real) \<Rightarrow> digest \<Rightarrow>
      bool \<times> digest" where
  "authenticate method ruri body ch cnonce rnd d =
     (case check_challenge (take_challenge ch d) of
        (False, d) \<Rightarrow> (False, d)
      | (True, d) \<Rightarrow>
          (case choose_qop ch d of
             (False, d) \<Rightarrow> (False, d)
           | (True, d) \<Rightarrow>
               (let d = d\<lparr>dg_method := method_str method, dg_uri := ruri,
                          dg_cnonce := Some (str_or cnonce (createRandomToken 12 32 rnd))\<rparr>;
                    d = next_nc d;
                    d = set_ha1 d
                in (True, d\<lparr>dg_response := Some (digest_response body d)\<rparr>))))"

text \<open>\<open>toString\<close> throws a plain \<open>Error\<close> when there is no response.\<close>

definition quoted :: "string \<Rightarrow> string \<Rightarrow> string" where
  "quoted name val = name @ ''='' @ [CHR 0x22] @ val @ [CHR 0x22]"

definition digest_toString :: "digest \<Rightarrow> js_error + string" where
  "digest_toString d =
     (if \<not> truthy (dg_response d) then
        Inl (PlainError ''response field does not exist, cannot generate Authorization header'')
      else Inr (''Digest '' @ js_join '', ''
        ([''algorithm='' @ text_of (dg_algorithm d),
          quoted ''username'' (cr_username (dg_credentials d)),
          quoted ''realm'' (text_of (dg_realm d)),
          quoted ''nonce'' (text_of (dg_nonce d)),
          quoted ''uri'' (dg_uri d),
          quoted ''response'' (text_of (dg_response d))]
         @ (if truthy (dg_opaque d) then [quoted ''opaque'' (text_of (dg_opaque d))] else [])
         @ (if truthy (dg_qop d)
            then [''qop='' @ text_of (dg_qop d), quoted ''cnonce'' (text_of (dg_cnonce d)), ''nc='' @ dg_ncHex d]
            else []))))"

section \<open>The digest of RFC 2617\<close>

text \<open>
  Section 3.2.2 of the RFC, for the algorithm MD5, over \<^const>\<open>rfc_md5\<close> and the UTF-8 form of the
  strings.
\<close>

definition H :: "string \<Rightarrow> string" where
  "H s = rfc_md5 (utf8_of_units (string_units s))"

definition KD :: "string \<Rightarrow> string \<Rightarrow> string" where
  "KD secret s = H (secret @ '':'' @ s)"

definition A1 :: "string \<Rightarrow> string \<Rightarrow> string \<Rightarrow> string" where
  "A1 user realm passwd = user @ '':'' @ realm @ '':'' @ passwd"

definition A2 :: "string option \<Rightarrow> string \<Rightarrow> string \<Rightarrow> string \<Rightarrow> string" where
  "A2 qop method uri body =
     (if qop = Some ''auth-int'' then method @ '':'' @ uri @ '':'' @ H body else method @ '':'' @ uri)"

definition request_digest ::
    "string \<Rightarrow> string \<Rightarrow> string \<Rightarrow> string \<Rightarrow> string option \<Rightarrow> string \<Rightarrow> string" where
  "request_digest ha1 nonce nc cnonce qop ha2 =
     (case qop of
        None \<Rightarrow> KD ha1 (nonce @ '':'' @ ha2)
      | Some q \<Rightarrow> KD ha1 (nonce @ '':'' @ nc @ '':'' @ cnonce @ '':'' @ q @ '':'' @ ha2))"

section \<open>Lemmas\<close>

lemma string_units_bmp: "\<forall>u \<in> set (string_units s). \<not> is_surrogate u"
proof
  fix u
  assume "u \<in> set (string_units s)"
  then obtain c where u: "u = of_nat (char_code c)" by (auto simp: string_units_def)
  then have "unat u < 256" by (simp add: unat_of_nat take_bit_eq_mod less_le_trans [OF char_code_less])
  then show "\<not> is_surrogate u" by (simp add: is_surrogate_def word_le_nat_alt word_less_nat_alt)
qed

lemma calculateMD5_H: "3 * length s < 2 ^ 32 \<Longrightarrow> calculateMD5 s = H s"
  using md5_units_rfc [of "string_units s"] utf8Encode_rfc [OF string_units_bmp, of s]
    length_utf8Encode [of "string_units s"]
  by (simp add: calculateMD5_def H_def string_units_def)

lemma length_H [simp]: "length (H s) = 32"
  by (simp add: H_def rfc_md5_def rfc_hex_shape Let_def split: prod.splits)

lemma value_in_zeros: "value_in b (take k ''00000000'' @ s) = value_in b s"
proof -
  have "digit_val (CHR ''0'') = 0" by (simp add: digit_val_def char_code_def)
  then have "value_in b (replicate k (CHR ''0'') @ s) = value_in b s" for k
    by (induction k) (simp_all add: value_in_def)
  moreover have "''00000000'' = replicate 8 (CHR ''0'')" by (simp add: numeral_eq_Suc)
  then have "take k ''00000000'' = replicate (min k 8) (CHR ''0'')" by (simp only: take_replicate)
  ultimately show ?thesis by simp
qed

lemma nc_hex_length: "n < 2 ^ 32 \<Longrightarrow> length (nc_hex n) = 8"
  using length_digits_in [of 16 8 n] by (simp add: nc_hex_def Let_def)

lemma nc_hex_value: "value_in 16 (nc_hex n) = n"
  by (simp only: nc_hex_def Let_def value_in_zeros) (rule value_digits_in; simp)

lemma next_nc_spec:
  assumes "dg_nc d < 2 ^ 32"
  shows "dg_nc (next_nc d) = (if dg_nc d + 1 = 2 ^ 32 then 1 else dg_nc d + 1) \<and>
    dg_ncHex (next_nc d) = nc_hex (dg_nc (next_nc d))"
proof -
  have "nc_hex 1 = ''00000001''"
    by (simp add: nc_hex_def digits_in.simps [of 16 1] digit_char_def Let_def char_of_def
        del: char_of_eq_iff) code_simp
  then show ?thesis using assms by (simp add: next_nc_def Let_def)
qed

lemma check_fields:
  "check_challenge d = (b, d') \<Longrightarrow>
    dg_credentials d' = dg_credentials d \<and> dg_realm d' = dg_realm d \<and> dg_nonce d' = dg_nonce d \<and>
    dg_nc d' = dg_nc d \<and> dg_response d' = dg_response d \<and> dg_ncHex d' = dg_ncHex d"
  by (auto simp: check_challenge_def Let_def split: if_splits)

lemma qop_fields:
  "choose_qop ch d = (b, d') \<Longrightarrow>
    dg_credentials d' = dg_credentials d \<and> dg_realm d' = dg_realm d \<and> dg_nonce d' = dg_nonce d \<and>
    dg_nc d' = dg_nc d \<and> dg_response d' = dg_response d \<and> dg_ncHex d' = dg_ncHex d \<and>
    (b \<longrightarrow> dg_qop d' = None \<or> dg_qop d' = Some ''auth'' \<or> dg_qop d' = Some ''auth-int'')"
  by (auto simp: choose_qop_def split: if_splits option.splits)

lemma next_nc_fields [simp]:
  "dg_credentials (next_nc d) = dg_credentials d" "dg_realm (next_nc d) = dg_realm d"
  "dg_nonce (next_nc d) = dg_nonce d" "dg_qop (next_nc d) = dg_qop d" "dg_method (next_nc d) = dg_method d"
  "dg_uri (next_nc d) = dg_uri d" "dg_cnonce (next_nc d) = dg_cnonce d"
  by (simp_all add: next_nc_def Let_def)

lemma set_ha1_fields [simp]:
  "dg_nonce (set_ha1 d) = dg_nonce d" "dg_qop (set_ha1 d) = dg_qop d" "dg_method (set_ha1 d) = dg_method d"
  "dg_uri (set_ha1 d) = dg_uri d" "dg_cnonce (set_ha1 d) = dg_cnonce d" "dg_ncHex (set_ha1 d) = dg_ncHex d"
  "dg_nc (set_ha1 d) = dg_nc d" "dg_realm (set_ha1 d) = dg_realm d"
  by (simp_all add: set_ha1_def Let_def)

text \<open>Everything a successful call leaves in the object.\<close>

lemma authenticate_cases:
  assumes "authenticate m uri body ch cn rnd d = (True, d')"
  obtains u where "d' = u\<lparr>dg_response := Some (digest_response body u)\<rparr>"
    "dg_nonce u = ch_nonce ch" "dg_realm u = ch_realm ch" "dg_method u = method_str m" "dg_uri u = uri"
    "dg_cnonce u = Some (str_or cn (createRandomToken 12 32 rnd))"
    "dg_qop u = None \<or> dg_qop u = Some ''auth'' \<or> dg_qop u = Some ''auth-int''"
    "dg_ha1 u = (if truthy (cr_password (dg_credentials d))
       then Some (calculateMD5 (cr_username (dg_credentials d) @ '':'' @ text_of (ch_realm ch) @ '':''
         @ text_of (cr_password (dg_credentials d))))
       else cr_ha1 (dg_credentials d))"
    "dg_nc d < 2 ^ 32 \<longrightarrow> dg_nc u = (if dg_nc d + 1 = 2 ^ 32 then 1 else dg_nc d + 1) \<and>
       dg_ncHex u = nc_hex (dg_nc u)"
proof -
  from assms obtain d1 d2 where c: "check_challenge (take_challenge ch d) = (True, d1)"
    and q: "choose_qop ch d1 = (True, d2)"
    by (auto simp: authenticate_def split: prod.splits bool.splits)
  let ?v = "d2\<lparr>dg_method := method_str m, dg_uri := uri,
    dg_cnonce := Some (str_or cn (createRandomToken 12 32 rnd))\<rparr>"
  let ?u = "set_ha1 (next_nc ?v)"
  have d': "d' = ?u\<lparr>dg_response := Some (digest_response body ?u)\<rparr>"
    using assms c q by (simp add: authenticate_def Let_def)
  have f: "dg_credentials d2 = dg_credentials d" "dg_realm d2 = ch_realm ch" "dg_nonce d2 = ch_nonce ch"
    "dg_nc d2 = dg_nc d" "dg_qop d2 = None \<or> dg_qop d2 = Some ''auth'' \<or> dg_qop d2 = Some ''auth-int''"
    using check_fields [OF c] qop_fields [OF q] by (simp_all add: take_challenge_def)
  have n: "dg_nc d < 2 ^ 32 \<longrightarrow> dg_nc ?u = (if dg_nc d + 1 = 2 ^ 32 then 1 else dg_nc d + 1) \<and>
      dg_ncHex ?u = nc_hex (dg_nc ?u)"
    using next_nc_spec [of ?v] f by simp
  have h: "dg_ha1 ?u = (if truthy (cr_password (dg_credentials d))
       then Some (calculateMD5 (cr_username (dg_credentials d) @ '':'' @ text_of (ch_realm ch) @ '':''
         @ text_of (cr_password (dg_credentials d))))
       else cr_ha1 (dg_credentials d))"
    by (simp add: set_ha1_def Let_def f)
  show thesis by (rule that [OF d' _ _ _ _ _ _ h n]) (simp_all add: f)
qed

lemma length_token: "\<forall>i. is_random (rnd i) \<Longrightarrow> length (createRandomToken n 32 rnd) = n"
  by (simp add: token_digits)

definition ha1_of :: "credentials \<Rightarrow> string \<Rightarrow> string" where
  "ha1_of c realm =
     (if truthy (cr_password c) then H (A1 (cr_username c) realm (text_of (cr_password c)))
      else text_of (cr_ha1 c))"

text \<open>The texts a digest is made of, whose lengths a size bound limits.\<close>

definition digest_size :: "credentials \<Rightarrow> challenge \<Rightarrow> string \<Rightarrow> sip_method \<Rightarrow> string option \<Rightarrow> string option \<Rightarrow> nat" where
  "digest_size c ch uri m body cn =
     length (cr_username c) + length (text_of (cr_password c)) + length (text_of (cr_ha1 c)) +
     length (text_of (ch_realm ch)) + length (text_of (ch_nonce ch)) + length uri + length (method_str m) +
     length (str_or body []) + length (str_or cn [])"

section \<open>Properties\<close>

text \<open>
  C2. The response \<open>authenticate\<close> computes is the request-digest of RFC 2617 (3.2.2) for the
  challenge, the credentials and the quality of protection it chose, with MD5 as RFC 1321 defines
  it and the nonce count and cnonce it writes into the header.
\<close>

theorem digest_rfc2617:
  assumes "authenticate m uri body ch cn rnd d = (True, d')"
    and "dg_nc d < 2 ^ 32" and "\<forall>i. is_random (rnd i)" and "digest_size (dg_credentials d) ch uri m body cn \<le> 2 ^ 28"
  shows "dg_response d' = Some (request_digest (ha1_of (dg_credentials d) (text_of (ch_realm ch)))
      (text_of (ch_nonce ch)) (dg_ncHex d') (text_of (dg_cnonce d')) (dg_qop d')
      (H (A2 (dg_qop d') (method_str m) uri (str_or body []))))"
proof -
  from assms(1) obtain u where d': "d' = u\<lparr>dg_response := Some (digest_response body u)\<rparr>"
    and f: "dg_nonce u = ch_nonce ch" "dg_realm u = ch_realm ch" "dg_method u = method_str m" "dg_uri u = uri"
      "dg_cnonce u = Some (str_or cn (createRandomToken 12 32 rnd))"
    and q: "dg_qop u = None \<or> dg_qop u = Some ''auth'' \<or> dg_qop u = Some ''auth-int''"
    and h: "dg_ha1 u = (if truthy (cr_password (dg_credentials d))
       then Some (calculateMD5 (cr_username (dg_credentials d) @ '':'' @ text_of (ch_realm ch) @ '':''
         @ text_of (cr_password (dg_credentials d))))
       else cr_ha1 (dg_credentials d))"
    and n: "dg_nc d < 2 ^ 32 \<longrightarrow> dg_nc u = (if dg_nc d + 1 = 2 ^ 32 then 1 else dg_nc d + 1) \<and>
       dg_ncHex u = nc_hex (dg_nc u)"
    by (rule authenticate_cases)
  note size = assms(4) [unfolded digest_size_def]
  have ha1: "text_of (dg_ha1 u) = ha1_of (dg_credentials d) (text_of (ch_realm ch))"
    using h size by (simp add: ha1_of_def A1_def calculateMD5_H text_of_def)
  have l1: "length (text_of (dg_ha1 u)) \<le> 2 ^ 28 + 32"
    using size by (simp add: ha1 ha1_of_def)
  have l2: "length (dg_ncHex u) = 8" using n assms(2) by (auto intro: nc_hex_length)
  have l3: "length (text_of (dg_cnonce u)) \<le> 2 ^ 28 + 12"
    using size length_token [OF assms(3), of 12]
    by (auto simp: f text_of_def str_or_def split: option.splits)
  have b: "calculateMD5 (str_or body []) = H (str_or body [])"
    using size by (intro calculateMD5_H) simp
  note lens = l1 l2 l3 size
  from q show ?thesis
    by (elim disjE)
      (use lens in \<open>simp_all add: d' digest_response_def request_digest_def KD_def A2_def f ha1 b calculateMD5_H Let_def\<close>)
qed

definition demo_challenge :: "string \<Rightarrow> challenge" where
  "demo_challenge nonce =
     \<lparr>ch_algorithm = None, ch_realm = Some ''r'', ch_nonce = Some nonce, ch_opaque = None, ch_stale = True,
      ch_qop = Some [''auth'']\<rparr>"

definition demo_digest :: digest where
  "demo_digest = new_digest \<lparr>cr_username = ''u'', cr_password = Some ''p'', cr_realm = None, cr_ha1 = None\<rparr>"

definition demo_auth :: "string \<Rightarrow> digest \<Rightarrow> bool \<times> digest" where
  "demo_auth nonce d = authenticate REGISTER ''sip:h'' None (demo_challenge nonce) None (\<lambda>i. 0) d"

lemma demo_auth_ok:
  assumes "cr_password (dg_credentials d) = Some ''p''" and "nonce \<noteq> []"
  shows "demo_auth nonce d = (True, snd (demo_auth nonce d))"
  using assms
  by (simp add: demo_auth_def authenticate_def check_challenge_def take_challenge_def choose_qop_def truthy_def
      demo_challenge_def Let_def)

lemma demo_auth_run:
  "authenticate REGISTER ''sip:h'' None (demo_challenge ''n'') None (\<lambda>i. 0) demo_digest =
    (True, snd (demo_auth ''n'' demo_digest))"
proof -
  have "cr_password (dg_credentials demo_digest) = Some ''p''" by (simp add: demo_digest_def new_digest_def)
  from demo_auth_ok [OF this, of "''n''"] show ?thesis by (simp add: demo_auth_def)
qed

theorem digest_rfc2617_witness:
  "dg_response (snd (demo_auth ''n'' demo_digest)) =
    Some (request_digest (ha1_of (dg_credentials demo_digest) (text_of (ch_realm (demo_challenge ''n''))))
      (text_of (ch_nonce (demo_challenge ''n''))) (dg_ncHex (snd (demo_auth ''n'' demo_digest)))
      (text_of (dg_cnonce (snd (demo_auth ''n'' demo_digest)))) (dg_qop (snd (demo_auth ''n'' demo_digest)))
      (H (A2 (dg_qop (snd (demo_auth ''n'' demo_digest))) (method_str REGISTER) ''sip:h'' (str_or None []))))"
  by (rule digest_rfc2617 [OF demo_auth_run])
    (simp_all add: demo_digest_def new_digest_def is_random_def digest_size_def demo_challenge_def text_of_def
      str_or_def)

text \<open>
  The nonce count is always written as eight hexadecimal digits that denote it, counts up by
  one with every response and wraps from \<open>FFFFFFFF\<close> to 1.
\<close>

theorem nonce_count:
  assumes "authenticate m uri body ch cn rnd d = (True, d')" and "dg_nc d < 2 ^ 32"
  shows "dg_nc d' = (if dg_nc d = 2 ^ 32 - 1 then 1 else dg_nc d + 1) \<and> dg_nc d' < 2 ^ 32 \<and>
    length (dg_ncHex d') = 8 \<and> value_in 16 (dg_ncHex d') = dg_nc d'"
proof -
  from assms obtain u where "d' = u\<lparr>dg_response := Some (digest_response body u)\<rparr>"
    and "dg_nc u = (if dg_nc d + 1 = 2 ^ 32 then 1 else dg_nc d + 1)" "dg_ncHex u = nc_hex (dg_nc u)"
    by (auto elim: authenticate_cases)
  with assms(2) show ?thesis by (auto simp: nc_hex_length nc_hex_value)
qed

theorem nonce_count_witness:
  "dg_nc (snd (demo_auth ''n'' demo_digest)) =
      (if dg_nc demo_digest = 2 ^ 32 - 1 then 1 else dg_nc demo_digest + 1) \<and>
    dg_nc (snd (demo_auth ''n'' demo_digest)) < 2 ^ 32 \<and>
    length (dg_ncHex (snd (demo_auth ''n'' demo_digest))) = 8 \<and>
    value_in 16 (dg_ncHex (snd (demo_auth ''n'' demo_digest))) = dg_nc (snd (demo_auth ''n'' demo_digest))"
  by (rule nonce_count [OF demo_auth_run])
    (simp_all add: demo_digest_def new_digest_def)

lemma demo_nc: "dg_nc d < 100 \<Longrightarrow> cr_password (dg_credentials d) = Some ''p'' \<Longrightarrow> nonce \<noteq> [] \<Longrightarrow>
    dg_nc (snd (demo_auth nonce d)) = dg_nc d + 1 \<and> dg_ncHex (snd (demo_auth nonce d)) = nc_hex (dg_nc d + 1) \<and>
    dg_nonce (snd (demo_auth nonce d)) = Some nonce \<and>
    dg_credentials (snd (demo_auth nonce d)) = dg_credentials d"
  by (simp add: demo_auth_def authenticate_def check_challenge_def take_challenge_def choose_qop_def truthy_def
      demo_challenge_def next_nc_def set_ha1_def Let_def)

text \<open>
  The nonce count is not restarted for a new nonce: RFC 2617 (3.2.2) counts the requests sent
  with the nonce of the header, so the first one must say 1, but the response to a second challenge
  with another nonce says 2.
\<close>

theorem nonce_count_not_restarted:
  "dg_nonce (snd (demo_auth ''n2'' (snd (demo_auth ''n1'' demo_digest)))) = Some ''n2'' \<and>
    value_in 16 (dg_ncHex (snd (demo_auth ''n2'' (snd (demo_auth ''n1'' demo_digest))))) = 2"
proof -
  have "dg_nc demo_digest = 0" "cr_password (dg_credentials demo_digest) = Some ''p''"
    by (simp_all add: demo_digest_def new_digest_def)
  then show ?thesis
    using demo_nc [of demo_digest "''n1''"] demo_nc [of "snd (demo_auth ''n1'' demo_digest)" "''n2''"]
    by (simp add: nc_hex_value)
qed

end
