(* ===== verification/Request_Sender.thy ===== *)
theory Request_Sender
  imports Digest Tx_Client
begin

text \<open>
  The class \<open>RequestSender\<close> (lines 21590-21764 of \<open>frontend/static/js/jssip-3.10.0.js\<close>), which
  sends a request in a client transaction of its method and answers authentication challenges.
  The calls of its creator's handlers are the log \<open>rs_log\<close>.  The credentials it reads from, and
  writes back to, the user agent's configuration are a record that its methods pass along.
\<close>

section \<open>State\<close>

record auth_config =
  ac_authorization_user :: string
  ac_password :: "string option"
  ac_realm :: "string option"
  ac_ha1 :: "string option"
  ac_authorization_jwt :: "string option"

datatype rs_event =
    Rs_Timeout
  | Rs_TransportError
  | Rs_Response in_response
  | Rs_Authenticated out_request
  | Rs_Send out_request

datatype client_tx = CT_Invite ict | CT_Ack ack_tx | CT_Other nict

record sender =
  rs_request :: out_request
  rs_method :: sip_method
  rs_auth :: "digest option"
  rs_challenged :: bool
  rs_staled :: bool
  rs_log :: "rs_event list"

text \<open>What one call reads of its surroundings.\<close>

record rs_env =
  env_cfg :: ua_config
  env_via_transport :: string
  env_parse :: grammar
  env_draws :: draws
  env_branch :: real
  env_cnonce :: "nat \<Rightarrow> real"
  env_sent :: bool

definition rs_emit :: "rs_event \<Rightarrow> sender \<Rightarrow> sender" where
  "rs_emit e s = s\<lparr>rs_log := rs_log s @ [e]\<rparr>"

definition new_sender :: "bool \<Rightarrow> out_request \<Rightarrow> sender" where
  "new_sender user_closed request =
     (let s = \<lparr>rs_request = request, rs_method = or_method request, rs_auth = None, rs_challenged = False,
               rs_staled = False, rs_log = []\<rparr>
      in if user_closed \<and> (rs_method s \<noteq> BYE \<or> rs_method s \<noteq> ACK) then rs_emit Rs_TransportError s else s)"

section \<open>Sending\<close>

text \<open>The handlers passed to the transaction hand two of its calls straight on.\<close>

fun forward :: "tx_event \<Rightarrow> rs_event list" where
  "forward OnRequestTimeout = [Rs_Timeout]"
| "forward OnTransportError = [Rs_TransportError]"
| "forward _ = []"

definition forward_all :: "tx_event list \<Rightarrow> rs_event list" where
  "forward_all es = concat (map forward es)"

definition add_jwt :: "auth_config \<Rightarrow> out_request \<Rightarrow> out_request" where
  "add_jwt ac r =
     (if truthy (ac_authorization_jwt ac)
      then or_setHeader ''Authorization'' [text_of (ac_authorization_jwt ac)] r else r)"

text \<open>
  The transaction and the sender share one request object: what the transaction's constructor and
  \<open>send\<close> set in it, both have.
\<close>

definition rs_send :: "rs_env \<Rightarrow> auth_config \<Rightarrow> sender \<Rightarrow> client_tx \<times> sender" where
  "rs_send env ac s =
     (let cfg = env_cfg env; vt = env_via_transport env; u = env_branch env; sent = env_sent env in
      if rs_method s = INVITE then
        (let t = new_ict cfg vt u (rs_request s);
             r = add_jwt ac (ict_request t);
             t = ict_send sent (t\<lparr>ict_request := r\<rparr>)
         in (CT_Invite t, s\<lparr>rs_request := r, rs_log := rs_log s @ Rs_Send r # forward_all (tx_trace t)\<rparr>))
      else if rs_method s = ACK then
        (let t = new_ack cfg vt u (rs_request s);
             r = add_jwt ac (ack_request t);
             t = ack_send sent (t\<lparr>ack_request := r\<rparr>)
         in (CT_Ack t, s\<lparr>rs_request := r, rs_log := rs_log s @ Rs_Send r # forward_all (tx_trace t)\<rparr>))
      else
        (let t = new_nict cfg vt u (rs_request s);
             r = add_jwt ac (nict_request t);
             t = nict_send sent (t\<lparr>nict_request := r\<rparr>)
         in (CT_Other t, s\<lparr>rs_request := r, rs_log := rs_log s @ Rs_Send r # forward_all (tx_trace t)\<rparr>)))"

section \<open>Receiving a response\<close>

definition challenge_header :: "nat \<Rightarrow> string" where
  "challenge_header code = (if code = 401 then ''www-authenticate'' else ''proxy-authenticate'')"

definition authorization_header :: "nat \<Rightarrow> string" where
  "authorization_header code = (if code = 401 then ''authorization'' else ''proxy-authorization'')"

text \<open>The digest object kept for the request, made on first use.\<close>

definition rs_digest :: "auth_config \<Rightarrow> sender \<Rightarrow> digest" where
  "rs_digest ac s =
     (case rs_auth s of
        Some d \<Rightarrow> d
      | None \<Rightarrow> new_digest \<lparr>cr_username = ac_authorization_user ac, cr_password = ac_password ac,
                            cr_realm = ac_realm ac, cr_ha1 = ac_ha1 ac\<rparr>)"

text \<open>The copy of the request with the next sequence number and the credentials.\<close>

definition retry_request :: "rs_env \<Rightarrow> nat \<Rightarrow> digest \<Rightarrow> sender \<Rightarrow> js_error + out_request" where
  "retry_request env code d s =
     bind_result (or_clone (env_cfg env) (env_draws env) (rs_request s)) (\<lambda>q.
       (let q = q\<lparr>or_cseq := or_cseq q + 1\<rparr>;
            q = or_setHeader ''cseq'' [num_str (or_cseq q) @ '' '' @ method_str (rs_method s)] q
        in bind_result (digest_toString d) (\<lambda>v. Inr (or_setHeader (authorization_header code) [v] q))))"

definition rs_answer_challenge ::
    "rs_env \<Rightarrow> in_response \<Rightarrow> challenge \<Rightarrow> auth_config \<Rightarrow> sender \<Rightarrow>
      js_error option \<times> auth_config \<times> sender \<times> client_tx option" where
  "rs_answer_challenge env response ch ac s =
     (let s = s\<lparr>rs_auth := Some (rs_digest ac s)\<rparr> in
      case uri_toString (or_ruri (rs_request s)) of
        Inl e \<Rightarrow> (Some e, ac, s, None)
      | Inr ruri \<Rightarrow>
          (case authenticate (or_method (rs_request s)) ruri (or_body (rs_request s)) ch None (env_cnonce env)
                  (rs_digest ac s) of
             (False, d) \<Rightarrow> (None, ac, rs_emit (Rs_Response response) (s\<lparr>rs_auth := Some d\<rparr>), None)
           | (True, d) \<Rightarrow>
               (let s = s\<lparr>rs_auth := Some d, rs_challenged := True, rs_staled := rs_staled s \<or> ch_stale ch\<rparr>;
                    ac = ac\<lparr>ac_realm := dg_realm d, ac_ha1 := dg_ha1 d\<rparr>
                in case retry_request env (im_status_code response) d s of
                     Inl e \<Rightarrow> (Some e, ac, s, None)
                   | Inr q \<Rightarrow>
                       (let s = rs_emit (Rs_Authenticated q) (s\<lparr>rs_request := q\<rparr>);
                            (t, s) = rs_send env ac s
                        in (None, ac, s, Some t)))))"

definition rs_receiveResponse ::
    "rs_env \<Rightarrow> in_response \<Rightarrow> auth_config \<Rightarrow> sender \<Rightarrow>
      js_error option \<times> auth_config \<times> sender \<times> client_tx option" where
  "rs_receiveResponse env response ac s =
     (let status_code = im_status_code response in
      if (status_code = 401 \<or> status_code = 407) \<and> (ac_password ac \<noteq> None \<or> ac_ha1 ac \<noteq> None) then
        (case im_parseHeader (env_parse env) (challenge_header status_code) 0 response of
           (Some (P_Challenge ch), response) \<Rightarrow>
             if \<not> rs_challenged s \<or> \<not> rs_staled s \<and> ch_stale ch
             then rs_answer_challenge env response ch ac s
             else (None, ac, rs_emit (Rs_Response response) s, None)
         | (_, response) \<Rightarrow> (None, ac, rs_emit (Rs_Response response) s, None))
      else (None, ac, rs_emit (Rs_Response response) s, None))"

text \<open>A sender in use: sent once, then called by its transactions.\<close>

inductive rs_run :: "auth_config \<times> sender \<Rightarrow> bool" where
  rs_run_start: "or_made (env_cfg env) request \<Longrightarrow> rs_run (ac, snd (rs_send env ac (new_sender user_closed request)))"
| rs_run_response:
    "rs_run (ac, s) \<Longrightarrow> rs_receiveResponse env r ac s = (e, ac', s', t) \<Longrightarrow> rs_run (ac', s')"
| rs_run_timeout: "rs_run (ac, s) \<Longrightarrow> rs_run (ac, rs_emit Rs_Timeout s)"
| rs_run_transport: "rs_run (ac, s) \<Longrightarrow> rs_run (ac, rs_emit Rs_TransportError s)"

section \<open>Lemmas\<close>

fun is_send :: "rs_event \<Rightarrow> bool" where
  "is_send (Rs_Send r) = True"
| "is_send _ = False"

definition sends :: "sender \<Rightarrow> nat" where
  "sends s = length (filter is_send (rs_log s))"

lemma rs_emit_fields [simp]:
  "rs_log (rs_emit e s) = rs_log s @ [e]" "rs_request (rs_emit e s) = rs_request s"
  "rs_method (rs_emit e s) = rs_method s" "rs_auth (rs_emit e s) = rs_auth s"
  "rs_challenged (rs_emit e s) = rs_challenged s" "rs_staled (rs_emit e s) = rs_staled s"
  by (simp_all add: rs_emit_def)

lemma forward_no_send: "filter is_send (forward_all es) = []"
proof -
  have "filter is_send (forward e) = []" for e by (cases e) simp_all
  then show ?thesis by (induction es) (simp_all add: forward_all_def)
qed

lemma rs_send_fields:
  assumes "rs_send env ac s = (t, s')"
  shows "rs_challenged s' = rs_challenged s" "rs_staled s' = rs_staled s" "rs_auth s' = rs_auth s"
    "rs_method s' = rs_method s" "sends s' = Suc (sends s)"
  using assms
  by (auto simp: rs_send_def sends_def forward_no_send Let_def split: if_splits)

definition rs_inv :: "sender \<Rightarrow> bool" where
  "rs_inv s = (sends s \<le> 1 + (if rs_challenged s then 1 else 0) + (if rs_challenged s \<and> rs_staled s then 1 else 0)
     \<and> (rs_staled s \<longrightarrow> rs_challenged s))"

lemma rs_inv_emit: "rs_inv s \<Longrightarrow> \<not> is_send e \<Longrightarrow> rs_inv (rs_emit e s)"
  by (simp add: rs_inv_def sends_def)

lemma rs_inv_answer:
  assumes "rs_inv s" and "rs_answer_challenge env response ch ac s = (e, ac', s', t)"
    and "\<not> rs_challenged s \<or> \<not> rs_staled s \<and> ch_stale ch"
  shows "rs_inv s'"
proof -
  have keep: "rs_inv (s\<lparr>rs_auth := a\<rparr>)" for a
    using assms(1) by (simp add: rs_inv_def sends_def)
  let ?v = "\<lambda>d. s\<lparr>rs_auth := Some d, rs_challenged := True, rs_staled := rs_staled s \<or> ch_stale ch\<rparr>"
  have n: "sends s \<le> (if rs_staled s \<or> ch_stale ch then 2 else 1)"
    using assms(1,3) by (auto simp: rs_inv_def split: if_splits)
  have failed: "rs_inv (?v d)" for d
    using n by (auto simp: rs_inv_def sends_def split: if_splits)
  have sent: "rs_inv s2" if "rs_send env ac2 (rs_emit (Rs_Authenticated q) ((?v d)\<lparr>rs_request := q\<rparr>)) = (t2, s2)"
    for d q ac2 t2 s2
  proof -
    have "sends (rs_emit (Rs_Authenticated q) ((?v d)\<lparr>rs_request := q\<rparr>)) = sends s" by (simp add: sends_def)
    with rs_send_fields [OF that] n assms(1,3) show ?thesis by (auto simp: rs_inv_def split: if_splits)
  qed
  show ?thesis
    using assms(2) keep failed sent rs_inv_emit [OF keep]
    by (auto simp: rs_answer_challenge_def Let_def split: sum.splits prod.splits bool.splits)
qed

lemma rs_inv_receive:
  assumes "rs_inv s" and "rs_receiveResponse env r ac s = (e, ac', s', t)"
  shows "rs_inv s'"
  using assms rs_inv_emit [OF assms(1)]
  by (auto simp: rs_receiveResponse_def Let_def split: if_splits prod.splits option.splits parsed.splits
      intro: rs_inv_answer)

lemma rs_run_inv: "rs_run x \<Longrightarrow> rs_inv (snd x)"
proof (induction rule: rs_run.induct)
  case (rs_run_start env request ac user_closed)
  obtain t s where s: "rs_send env ac (new_sender user_closed request) = (t, s)" by fastforce
  have "sends (new_sender user_closed request) = 0" "\<not> rs_challenged (new_sender user_closed request)"
    "\<not> rs_staled (new_sender user_closed request)"
    by (simp_all add: new_sender_def sends_def rs_emit_def Let_def)
  with rs_send_fields [OF s] show ?case by (simp add: s rs_inv_def)
qed (auto simp: rs_inv_emit intro: rs_inv_receive)

lemma authorization_keys [simp]:
  "headerize ''authorization'' = ''Authorization''" "headerize ''proxy-authorization'' = ''Proxy-Authorization''"
  by code_simp+

lemma authorization_name: "header_name (authorization_header code)" "header_name ''cseq''"
  unfolding authorization_header_def header_name_def name_char_def is_space_def char_code_def by simp_all

lemma or_getHeaders_cong:
  "or_headers q = or_headers r \<Longrightarrow> or_extraHeaders q = or_extraHeaders r \<Longrightarrow> or_getHeaders n q = or_getHeaders n r"
  by (simp add: or_getHeaders_def split: option.split)

lemma clone_getHeaders:
  assumes "or_made cfg r" and "or_clone cfg dr r = Inr q"
  shows "or_getHeaders n q = or_getHeaders n r"
  using clone_get [OF or_made_wf [OF assms(1)] assms(2)] clone_fields [OF assms(2)]
  by (auto simp: or_getHeaders_def split: option.splits)

lemma parse_status: "im_parseHeader parse n i r = (p, r') \<Longrightarrow> im_status_code r' = im_status_code r"
  by (auto simp: im_parseHeader_def Let_def split: option.splits if_splits)

definition demo_env :: rs_env where
  "demo_env = \<lparr>env_cfg = demo_cfg, env_via_transport = ''WSS'', env_parse = (\<lambda>r s. None), env_draws = demo_draws,
     env_branch = 0, env_cnonce = (\<lambda>i. 0), env_sent = True\<rparr>"

definition demo_ac :: auth_config where
  "demo_ac = \<lparr>ac_authorization_user = ''u'', ac_password = Some ''p'', ac_realm = None, ac_ha1 = None,
     ac_authorization_jwt = None\<rparr>"

definition demo_sender :: sender where
  "demo_sender = snd (rs_send demo_env demo_ac (new_sender False demo_request))"

lemma demo_request_made: "or_made demo_cfg demo_request"
  by (rule or_made_new [OF demo_request])

lemma demo_sender_run: "rs_run (demo_ac, demo_sender)"
  unfolding demo_sender_def by (rule rs_run_start) (simp add: demo_env_def demo_request_made)

section \<open>Properties\<close>

text \<open>
  C3. Authentication cannot loop: whatever responses, timeouts and transport errors arrive, a
  request is put on the wire at most three times (first, in answer to a challenge, and in answer to
  one challenge marked stale).
\<close>

theorem sends_bounded:
  assumes "rs_run (ac, s)"
  shows "sends s \<le> 3"
  using rs_run_inv [OF assms] by (auto simp: rs_inv_def split: if_splits)

theorem sends_bounded_witness: "sends demo_sender \<le> 3"
  by (rule sends_bounded [OF demo_sender_run])

text \<open>
  Every response is accounted for exactly once: it is passed on to the creator, or it is a 401
  or 407 and leads to one authenticated copy being announced and sent; only the latter makes a new
  transaction.
\<close>

theorem response_handled_once:
  assumes "rs_receiveResponse env r ac s = (None, ac', s', t)"
  shows "(\<exists>r'. rs_log s' = rs_log s @ [Rs_Response r'] \<and> im_status_code r' = im_status_code r \<and> t = None) \<or>
    (im_status_code r \<in> {401, 407} \<and> t \<noteq> None \<and>
     (\<exists>q q' es. rs_log s' = rs_log s @ Rs_Authenticated q # Rs_Send q' # forward_all es))"
proof -
  have send: "\<exists>q' es. rs_log s2 = rs_log s1 @ Rs_Send q' # forward_all es"
    if "rs_send env ac1 s1 = (t1, s2)" for ac1 s1 t1 s2
    using that by (auto simp: rs_send_def Let_def split: if_splits)
  have answer: "(\<exists>r'. rs_log s' = rs_log s @ [Rs_Response r'] \<and> im_status_code r' = im_status_code r1 \<and> t = None) \<or>
      t \<noteq> None \<and> (\<exists>q q' es. rs_log s' = rs_log s @ Rs_Authenticated q # Rs_Send q' # forward_all es)"
    if "rs_answer_challenge env r1 ch ac s = (None, ac', s', t)" for r1 ch
    using that
    by (auto simp: rs_answer_challenge_def Let_def split: sum.splits prod.splits bool.splits dest!: send)
  show ?thesis
    using assms
    by (auto simp: rs_receiveResponse_def Let_def split: if_splits prod.splits option.splits parsed.splits
        dest!: answer dest: parse_status)
qed

theorem response_handled_once_witness:
  "(\<exists>r'. rs_log (rs_emit (Rs_Response (demo_response 200)) demo_sender) = rs_log demo_sender @ [Rs_Response r'] \<and>
      im_status_code r' = im_status_code (demo_response 200) \<and> (None :: client_tx option) = None) \<or>
    (im_status_code (demo_response 200) \<in> {401, 407} \<and> (None :: client_tx option) \<noteq> None \<and>
     (\<exists>q q' es. rs_log (rs_emit (Rs_Response (demo_response 200)) demo_sender) =
        rs_log demo_sender @ Rs_Authenticated q # Rs_Send q' # forward_all es))"
  by (rule response_handled_once [of demo_env _ demo_ac _ demo_ac]) (simp add: rs_receiveResponse_def)

text \<open>
  The authenticated copy has the next sequence number, in the field and in its CSeq header,
  exactly one authorization header, which is the digest's, and every other header as the request
  had it.
\<close>

theorem retry_headers:
  assumes "or_made (env_cfg env) (rs_request s)" and "retry_request env code d s = Inr q"
    and "header_name n" and "headerize n \<noteq> ''CSeq''" and "headerize n \<noteq> headerize (authorization_header code)"
  shows "or_cseq q = or_cseq (rs_request s) + 1 \<and>
    or_getHeaders ''cseq'' q = [num_str (or_cseq q) @ '' '' @ method_str (rs_method s)] \<and>
    map Inr (or_getHeaders (authorization_header code) q) = [digest_toString d] \<and>
    or_getHeaders n q = or_getHeaders n (rs_request s)"
proof -
  from assms(2) obtain q0 v where c: "or_clone (env_cfg env) (env_draws env) (rs_request s) = Inr q0"
    and v: "digest_toString d = Inr v"
    and q: "q = or_setHeader (authorization_header code) [v]
      (or_setHeader ''cseq'' [num_str (or_cseq q0 + 1) @ '' '' @ method_str (rs_method s)] (q0\<lparr>or_cseq := or_cseq q0 + 1\<rparr>))"
    by (auto simp: retry_request_def bind_result_Inr Let_def)
  have a: "headerize (authorization_header code) \<noteq> ''CSeq''"
    by (simp add: authorization_header_def)
  have n0: "or_getHeaders n (q0\<lparr>or_cseq := or_cseq q0 + 1\<rparr>) = or_getHeaders n (rs_request s)"
    using clone_getHeaders [OF assms(1) c, of n] or_getHeaders_cong [of "q0\<lparr>or_cseq := or_cseq q0 + 1\<rparr>" q0 n]
    by simp
  have "or_cseq q0 = or_cseq (rs_request s)" using clone_fields [OF c] by simp
  moreover have "or_getHeaders n q = or_getHeaders n (rs_request s)"
    using assms(3-5) n0 by (simp add: q out_heads.all_set_other authorization_name)
  moreover have "or_getHeaders ''cseq'' q = [num_str (or_cseq q0 + 1) @ '' '' @ method_str (rs_method s)]"
    using a by (simp add: q or_getHeaders_def)
  ultimately show ?thesis using v by (simp add: q or_getHeaders_def [of "authorization_header code"])
qed

lemma demo_digest_str: "\<exists>v. digest_toString (snd (demo_auth ''n'' demo_digest)) = Inr v"
proof -
  obtain u where u: "snd (demo_auth ''n'' demo_digest) = u\<lparr>dg_response := Some (digest_response None u)\<rparr>"
    using demo_auth_run by (rule authenticate_cases)
  have "length (calculateMD5 s) = 32" for s
    by (auto simp: calculateMD5_def md5_units_def wordToHex_eq to_lower_hex rfc_hex_shape(1) split: prod.split)
  then have "calculateMD5 s \<noteq> []" for s by (metis list.size(3) zero_neq_numeral)
  then have "digest_response None u \<noteq> []" by (simp add: digest_response_def Let_def)
  then show ?thesis by (simp add: u digest_toString_def truthy_def)
qed

theorem retry_headers_witness:
  "\<exists>q. retry_request demo_env 401 (snd (demo_auth ''n'' demo_digest)) (new_sender False demo_request) = Inr q \<and>
    or_cseq q = 5001 \<and> or_getHeaders ''cseq'' q = [num_str (or_cseq q) @ '' REGISTER''] \<and>
    or_getHeaders ''call-id'' q = or_getHeaders ''call-id'' demo_request"
proof -
  have f: "rs_request (new_sender False demo_request) = demo_request" "env_cfg demo_env = demo_cfg"
    "env_draws demo_env = demo_draws" "rs_method (new_sender False demo_request) = REGISTER"
    by (simp_all add: new_sender_def demo_env_def demo_request_fields)
  have made: "or_made (env_cfg demo_env) (rs_request (new_sender False demo_request))"
    by (simp add: f demo_request_made)
  obtain q where q: "retry_request demo_env 401 (snd (demo_auth ''n'' demo_digest)) (new_sender False demo_request) = Inr q"
    using demo_clone demo_digest_str by (auto simp: retry_request_def f bind_result_Inr Let_def)
  have n: "header_name ''call-id''" "headerize ''call-id'' \<noteq> ''CSeq''"
    "headerize ''call-id'' \<noteq> headerize (authorization_header 401)"
    unfolding header_name_def name_char_def is_space_def char_code_def by (simp_all add: authorization_header_def)
  from retry_headers [OF made q n] q show ?thesis
    by (simp add: f demo_request_more(1))
qed

text \<open>
  A user agent that the user has closed reports a transport error for every request: the
  condition that should except BYE and ACK, as its comment says, is always true.
\<close>

theorem closed_agent_sends_nothing: "rs_log (new_sender True request) = [Rs_TransportError]"
  by (cases "or_method request") (simp_all add: new_sender_def rs_emit_def)

end
