(* ===== verification/Transport.thy ===== *)
theory Transport
  imports Complex_Main "HOL-Library.Word" Sip_Utils
begin

text \<open>
  The classes \<open>WebSocketInterface\<close> (lines 25754-25922) and \<open>Transport\<close> (lines 23571-23899 of
  \<open>frontend/static/js/jssip-3.10.0.js\<close>), with the interface \<open>Socket\<close> documented at line 22658 as the
  locale \<^theory_text>\<open>socket_interface\<close>.  The transport's sockets are named by numbers; its calls to the user
  agent and to the socket are the log \<open>tr_log\<close>.  The browser's \<open>WebSocket\<close> object is its
  \<open>readyState\<close> and whether the interface's callbacks are bound to it.
\<close>

section \<open>The socket interface\<close>

locale socket_interface =
  fixes is_open :: "'s \<Rightarrow> bool"
    and listens :: "'s \<Rightarrow> bool"
    and sock_disconnect :: "'s \<Rightarrow> 's"
    and sock_send :: "string \<Rightarrow> 's \<Rightarrow> bool \<times> 's"
    and wire :: "'s \<Rightarrow> string list"
  assumes disconnect_closes: "\<not> is_open (sock_disconnect s)"
    and disconnect_unbinds: "\<not> listens (sock_disconnect s)"
    and disconnect_wire: "wire (sock_disconnect s) = wire s"
    and send_result: "fst (sock_send m s) = is_open s"
    and send_wire: "wire (snd (sock_send m s)) = (if is_open s then wire s @ [m] else wire s)"
begin

lemma send_after_disconnect:
  "fst (sock_send m (sock_disconnect s)) = False" "wire (snd (sock_send m (sock_disconnect s))) = wire s"
  by (simp_all add: send_result send_wire disconnect_closes disconnect_wire)

text \<open>A message is on the wire exactly when \<open>send\<close> says so.\<close>

lemma send_honest: "fst (sock_send m s) \<longleftrightarrow> wire (snd (sock_send m s)) = wire s @ [m]"
  by (simp add: send_result send_wire)

end

section \<open>WebSocketInterface\<close>

datatype ready_state = CONNECTING | OPEN | CLOSING | CLOSED

record web_socket =
  wb_readyState :: ready_state
  wb_bound :: bool
  wb_sent :: "string list"

datatype ws_event = Ws_onconnect | Ws_ondisconnect bool nat string | Ws_ondata string

record ws_interface =
  ws_url :: string
  ws_sip_uri :: string
  ws_via_transport :: string
  ws_ws :: "web_socket option"
  ws_wire :: "string list"
  ws_log :: "ws_event list"

text \<open>The parsed URL, from the generated grammar.\<close>

record parsed_url =
  pu_scheme :: string
  pu_host :: string
  pu_port :: "nat option"

definition new_ws :: "(string \<Rightarrow> parsed_url option) \<Rightarrow> string \<Rightarrow> js_error + ws_interface" where
  "new_ws parse url =
     (case parse url of
        None \<Rightarrow> Inl (TypeError (''Invalid argument: '' @ url))
      | Some p \<Rightarrow>
          if pu_scheme p \<noteq> ''wss'' \<and> pu_scheme p \<noteq> ''ws'' then Inl (TypeError (''Invalid argument: '' @ url))
          else Inr
            \<lparr>ws_url = url,
             ws_sip_uri = ''sip:'' @ pu_host p
               @ (case pu_port p of None \<Rightarrow> [] | Some n \<Rightarrow> if n = 0 then [] else '':'' @ num_str n)
               @ '';transport=ws'',
             ws_via_transport = to_upper (pu_scheme p), ws_ws = None, ws_wire = [], ws_log = []\<rparr>)"

definition ws_isConnected :: "ws_interface \<Rightarrow> bool" where
  "ws_isConnected s = (case ws_ws s of None \<Rightarrow> False | Some w \<Rightarrow> wb_readyState w = OPEN)"

definition ws_isConnecting :: "ws_interface \<Rightarrow> bool" where
  "ws_isConnecting s = (case ws_ws s of None \<Rightarrow> False | Some w \<Rightarrow> wb_readyState w = CONNECTING)"

definition ws_disconnect :: "ws_interface \<Rightarrow> ws_interface" where
  "ws_disconnect s = (case ws_ws s of None \<Rightarrow> s | Some w \<Rightarrow> s\<lparr>ws_ws := None\<rparr>)"

text \<open>\<open>constructed\<close>: whether \<open>new WebSocket\<close> returns; an exception only reaches \<open>_onError\<close>, which logs.\<close>

definition ws_connect :: "bool \<Rightarrow> ws_interface \<Rightarrow> ws_interface" where
  "ws_connect constructed s =
     (if ws_isConnected s then s
      else if ws_isConnecting s then s
      else
        (let s = (if ws_ws s \<noteq> None then ws_disconnect s else s) in
         if constructed
         then s\<lparr>ws_ws := Some \<lparr>wb_readyState = CONNECTING, wb_bound = True, wb_sent = []\<rparr>\<rparr>
         else s))"

definition ws_send :: "string \<Rightarrow> ws_interface \<Rightarrow> bool \<times> ws_interface" where
  "ws_send msg s = (if ws_isConnected s then (True, s\<lparr>ws_wire := ws_wire s @ [msg]\<rparr>) else (False, s))"

definition ws_emit :: "ws_event \<Rightarrow> ws_interface \<Rightarrow> ws_interface" where
  "ws_emit e s = s\<lparr>ws_log := ws_log s @ [e]\<rparr>"

definition ws_onOpen :: "ws_interface \<Rightarrow> ws_interface" where
  "ws_onOpen s = ws_emit Ws_onconnect s"

definition ws_onClose :: "bool \<Rightarrow> nat \<Rightarrow> string \<Rightarrow> ws_interface \<Rightarrow> ws_interface" where
  "ws_onClose wasClean code reason s = ws_emit (Ws_ondisconnect (\<not> wasClean) code reason) s"

definition ws_onMessage :: "string \<Rightarrow> ws_interface \<Rightarrow> ws_interface" where
  "ws_onMessage d s = ws_emit (Ws_ondata d) s"

definition ws_set_via_transport :: "string \<Rightarrow> ws_interface \<Rightarrow> ws_interface" where
  "ws_set_via_transport v s = s\<lparr>ws_via_transport := to_upper v\<rparr>"

definition ws_listens :: "ws_interface \<Rightarrow> bool" where
  "ws_listens s = (case ws_ws s of None \<Rightarrow> False | Some w \<Rightarrow> wb_bound w)"

lemmas ws_defs = ws_isConnected_def ws_isConnecting_def ws_disconnect_def ws_connect_def ws_send_def
  ws_listens_def

interpretation ws: socket_interface ws_isConnected ws_listens ws_disconnect ws_send ws_wire
  by unfold_locales (auto simp: ws_defs split: option.splits)

section \<open>Transport\<close>

datatype tr_status = STATUS_CONNECTED | STATUS_CONNECTING | STATUS_DISCONNECTED

record socket_entry =
  so_socket :: nat
  so_weight :: nat
  so_error :: bool

datatype tr_event =
    Tr_onconnecting nat nat
  | Tr_onconnect
  | Tr_ondisconnect nat bool
  | Tr_ondata string
  | Sock_connect nat
  | Sock_disconnect nat
  | Sock_send nat string

record transport =
  tr_status :: tr_status
  tr_socket :: nat
  tr_sockets :: "socket_entry list"
  tr_min_interval :: nat
  tr_max_interval :: nat
  tr_recover_attempts :: nat
  tr_recovery_timer :: "nat option"
  tr_close_requested :: bool
  tr_bound :: bool
  tr_pending :: "(nat \<times> nat) list"
  tr_next :: nat
  tr_log :: "tr_event list"

definition tr_emit :: "tr_event \<Rightarrow> transport \<Rightarrow> transport" where
  "tr_emit e t = t\<lparr>tr_log := tr_log t @ [e]\<rparr>"

text \<open>One step of the loop of \<open>_getSocket\<close> over the sockets.\<close>

fun add_candidate :: "socket_entry \<Rightarrow> socket_entry list \<Rightarrow> socket_entry list" where
  "add_candidate s [] = (if so_error s then [] else [s])"
| "add_candidate s (c # cs) =
     (if so_error s then c # cs
      else if so_weight s > so_weight c then [s]
      else if so_weight s = so_weight c then c # cs @ [s]
      else c # cs)"

definition candidates_of :: "socket_entry list \<Rightarrow> socket_entry list" where
  "candidates_of sockets = fold add_candidate sockets []"

text \<open>With no socket at all the method calls itself without end: \<open>None\<close>.\<close>

partial_function (option) getSocket :: "real \<Rightarrow> transport \<Rightarrow> transport option" where
  "getSocket u t =
     (let candidates = candidates_of (tr_sockets t) in
      if candidates = []
      then getSocket u (t\<lparr>tr_sockets := map (\<lambda>s. s\<lparr>so_error := False\<rparr>) (tr_sockets t)\<rparr>)
      else Some (t\<lparr>tr_socket := so_socket (candidates ! random_below u (length candidates))\<rparr>))"

definition new_transport :: "(nat \<times> nat) list \<Rightarrow> nat \<Rightarrow> nat \<Rightarrow> real \<Rightarrow> transport option" where
  "new_transport sockets min_interval max_interval u =
     getSocket u
       \<lparr>tr_status = STATUS_DISCONNECTED, tr_socket = 0,
        tr_sockets = map (\<lambda>(s, w). \<lparr>so_socket = s, so_weight = w, so_error = False\<rparr>) sockets,
        tr_min_interval = min_interval, tr_max_interval = max_interval, tr_recover_attempts = 0,
        tr_recovery_timer = None, tr_close_requested = False, tr_bound = False, tr_pending = [],
        tr_next = 0, tr_log = []\<rparr>"

definition tr_clear_timer :: "transport \<Rightarrow> transport" where
  "tr_clear_timer t =
     (case tr_recovery_timer t of
        None \<Rightarrow> t
      | Some h \<Rightarrow> t\<lparr>tr_pending := filter (\<lambda>(k, _). k \<noteq> h) (tr_pending t), tr_recovery_timer := None\<rparr>)"

definition tr_disconnect :: "transport \<Rightarrow> transport" where
  "tr_disconnect t =
     (let t = t\<lparr>tr_close_requested := True, tr_recover_attempts := 0, tr_status := STATUS_DISCONNECTED\<rparr>;
          t = tr_clear_timer t;
          t = t\<lparr>tr_bound := False\<rparr>;
          t = tr_emit (Sock_disconnect (tr_socket t)) t
      in tr_emit (Tr_ondisconnect (tr_socket t) False) t)"

text \<open>\<open>closes\<close>: whether the handler of \<open>onconnecting\<close> calls \<open>disconnect()\<close>.\<close>

definition tr_connect :: "bool \<Rightarrow> transport \<Rightarrow> transport" where
  "tr_connect closes t =
     (if tr_status t = STATUS_CONNECTED then t
      else if tr_status t = STATUS_CONNECTING then t
      else
        (let t = t\<lparr>tr_close_requested := False, tr_status := STATUS_CONNECTING\<rparr>;
             t = tr_emit (Tr_onconnecting (tr_socket t) (tr_recover_attempts t)) t;
             t = (if closes then tr_disconnect t else t)
         in if \<not> tr_close_requested t then tr_emit (Sock_connect (tr_socket t)) (t\<lparr>tr_bound := True\<rparr>) else t))"

text \<open>\<open>sock_sent\<close>: what the socket's \<open>send\<close> returns.\<close>

definition tr_send :: "bool \<Rightarrow> string \<Rightarrow> transport \<Rightarrow> bool \<times> transport" where
  "tr_send sock_sent msg t =
     (if tr_status t \<noteq> STATUS_CONNECTED then (False, t)
      else (sock_sent, tr_emit (Sock_send (tr_socket t) msg) t))"

text \<open>The delay of the next attempt in seconds: \<open>Math.floor(Math.random() * 2^n + 1)\<close>, clamped.\<close>

definition recovery_delay :: "real \<Rightarrow> nat \<Rightarrow> nat \<Rightarrow> nat \<Rightarrow> nat" where
  "recovery_delay u attempts min_interval max_interval =
     (let k = nat \<lfloor>u * 2 ^ attempts + 1\<rfloor> in
      if k < min_interval then min_interval else if k > max_interval then max_interval else k)"

definition tr_reconnect :: "real \<Rightarrow> transport \<Rightarrow> transport" where
  "tr_reconnect u t =
     (let t = t\<lparr>tr_recover_attempts := tr_recover_attempts t + 1\<rparr>;
          k = recovery_delay u (tr_recover_attempts t) (tr_min_interval t) (tr_max_interval t)
      in t\<lparr>tr_pending := tr_pending t @ [(tr_next t, k * 1000)], tr_recovery_timer := Some (tr_next t),
           tr_next := Suc (tr_next t)\<rparr>)"

definition tr_fire :: "real \<Rightarrow> bool \<Rightarrow> nat \<Rightarrow> transport \<Rightarrow> transport option" where
  "tr_fire u closes h t =
     (let t = t\<lparr>tr_pending := filter (\<lambda>(k, _). k \<noteq> h) (tr_pending t)\<rparr> in
      if \<not> tr_close_requested t \<and> \<not> (tr_status t = STATUS_CONNECTED \<or> tr_status t = STATUS_CONNECTING)
      then map_option (tr_connect closes) (getSocket u t)
      else Some t)"

definition tr_onConnect :: "transport \<Rightarrow> transport" where
  "tr_onConnect t =
     (let t = t\<lparr>tr_recover_attempts := 0, tr_status := STATUS_CONNECTED\<rparr>;
          t = tr_clear_timer t
      in tr_emit Tr_onconnect t)"

text \<open>\<open>closes\<close>: whether the handler of \<open>ondisconnect\<close> calls \<open>disconnect()\<close>.\<close>

definition tr_onDisconnect :: "real \<Rightarrow> bool \<Rightarrow> bool \<Rightarrow> transport \<Rightarrow> transport" where
  "tr_onDisconnect u closes error t =
     (let t = t\<lparr>tr_status := STATUS_DISCONNECTED\<rparr>;
          t = tr_emit (Tr_ondisconnect (tr_socket t) error) t;
          t = (if closes then tr_disconnect t else t)
      in if tr_close_requested t then t
         else tr_reconnect u
           (t\<lparr>tr_sockets := map (\<lambda>s. if so_socket s = tr_socket t then s\<lparr>so_error := True\<rparr> else s) (tr_sockets t)\<rparr>))"

text \<open>\<open>decode\<close> is the browser's decoding of a binary message, \<open>None\<close> when it throws.\<close>

datatype ws_data = Text_data string | Binary_data "8 word list"

definition tr_onData :: "(8 word list \<Rightarrow> string option) \<Rightarrow> ws_data \<Rightarrow> transport \<Rightarrow> transport" where
  "tr_onData decode d t =
     (if d = Text_data [CHR 0x0D, CHR 0x0A] then t
      else case d of
          Binary_data b \<Rightarrow> (case decode b of None \<Rightarrow> t | Some m \<Rightarrow> tr_emit (Tr_ondata m) t)
        | Text_data m \<Rightarrow> tr_emit (Tr_ondata m) t)"

text \<open>
  The calls of the user agent, of the socket whose callbacks are bound (an open one is connected
  first, and none is called by a socket that was unbound), and of the timer.
\<close>

inductive tr_step :: "transport \<Rightarrow> transport \<Rightarrow> bool" where
  tr_step_connect: "tr_step t (tr_connect closes t)"
| tr_step_disconnect: "tr_step t (tr_disconnect t)"
| tr_step_send: "tr_step t (snd (tr_send sock_sent m t))"
| tr_step_open: "tr_bound t \<Longrightarrow> tr_status t = STATUS_CONNECTING \<Longrightarrow> tr_step t (tr_onConnect t)"
| tr_step_close: "tr_bound t \<Longrightarrow> is_random u \<Longrightarrow> tr_step t (tr_onDisconnect u closes error t)"
| tr_step_data: "tr_bound t \<Longrightarrow> tr_step t (tr_onData decode d t)"
| tr_step_timer: "h \<in> fst ` set (tr_pending t) \<Longrightarrow> is_random u \<Longrightarrow> tr_fire u closes h t = Some t' \<Longrightarrow> tr_step t t'"

inductive_cases tr_stepE: "tr_step t t'"

abbreviation tr_run :: "transport \<Rightarrow> transport \<Rightarrow> bool" where
  "tr_run \<equiv> tr_step\<^sup>*\<^sup>*"

section \<open>Choosing a socket\<close>

lemma add_candidate_best:
  fixes s :: socket_entry
  assumes "\<forall>c\<in>set cs. \<not> so_error c \<and> c \<in> S \<and> (\<forall>r\<in>S. \<not> so_error r \<longrightarrow> so_weight r \<le> so_weight c)"
    and "cs = [] \<longleftrightarrow> (\<forall>r\<in>S. so_error r)"
  defines "cs' \<equiv> add_candidate s cs"
  shows "\<forall>c\<in>set cs'. \<not> so_error c \<and> c \<in> insert s S
           \<and> (\<forall>r\<in>insert s S. \<not> so_error r \<longrightarrow> so_weight r \<le> so_weight c)"
    and "cs' = [] \<longleftrightarrow> (\<forall>r\<in>insert s S. so_error r)"
proof -
  have "(\<forall>c\<in>set cs'. \<not> so_error c \<and> c \<in> insert s S
           \<and> (\<forall>r\<in>insert s S. \<not> so_error r \<longrightarrow> so_weight r \<le> so_weight c))
        \<and> (cs' = [] \<longleftrightarrow> (\<forall>r\<in>insert s S. so_error r))"
  proof (cases cs)
    case Nil
    then show ?thesis using assms(2) by (simp add: cs'_def)
  next
    case (Cons c ds)
    have all: "\<And>r. r \<in> S \<Longrightarrow> \<not> so_error r \<Longrightarrow> so_weight r \<le> so_weight c"
      and c: "\<not> so_error c" "c \<in> S"
      and ds: "\<And>d. d \<in> set ds \<Longrightarrow> so_weight d = so_weight c" "\<And>d. d \<in> set ds \<Longrightarrow> d \<in> S"
        "\<And>d. d \<in> set ds \<Longrightarrow> \<not> so_error d"
      using assms(1) Cons by (auto intro: le_antisym)
    show ?thesis
      using c by (auto simp: cs'_def Cons ds dest: all intro: le_trans)
  qed
  then show "\<forall>c\<in>set cs'. \<not> so_error c \<and> c \<in> insert s S
           \<and> (\<forall>r\<in>insert s S. \<not> so_error r \<longrightarrow> so_weight r \<le> so_weight c)"
    and "cs' = [] \<longleftrightarrow> (\<forall>r\<in>insert s S. so_error r)" by blast+
qed

lemma candidates_best:
  "(\<forall>c\<in>set (candidates_of ss). \<not> so_error c \<and> c \<in> set ss
       \<and> (\<forall>r\<in>set ss. \<not> so_error r \<longrightarrow> so_weight r \<le> so_weight c))
   \<and> (candidates_of ss = [] \<longleftrightarrow> (\<forall>r\<in>set ss. so_error r))"
proof (induction ss rule: rev_induct)
  case Nil
  then show ?case by (simp add: candidates_of_def)
next
  case (snoc s ss)
  then have 1: "\<forall>c\<in>set (candidates_of ss). \<not> so_error c \<and> c \<in> set ss
       \<and> (\<forall>r\<in>set ss. \<not> so_error r \<longrightarrow> so_weight r \<le> so_weight c)"
    and 2: "candidates_of ss = [] \<longleftrightarrow> (\<forall>r\<in>set ss. so_error r)" by blast+
  have "candidates_of (ss @ [s]) = add_candidate s (candidates_of ss)"
    by (simp add: candidates_of_def)
  with add_candidate_best [OF 1 2, of s] show ?case by simp
qed

lemma candidates_empty_iff: "candidates_of ss = [] \<longleftrightarrow> (\<forall>r\<in>set ss. so_error r)"
  using candidates_best by blast

text \<open>The sockets after the choice: all errors are forgotten when every socket has one.\<close>

definition sockets_after :: "socket_entry list \<Rightarrow> socket_entry list" where
  "sockets_after ss =
     (if list_all so_error ss then map (\<lambda>s. s\<lparr>so_error := False\<rparr>) ss else ss)"

lemma sockets_after_Nil [simp]: "sockets_after ss = [] \<longleftrightarrow> ss = []"
  by (simp add: sockets_after_def)

lemma getSocket_eq:
  assumes "tr_sockets t \<noteq> []"
  shows "getSocket u t =
    (let cs = candidates_of (sockets_after (tr_sockets t))
     in Some (t\<lparr>tr_sockets := sockets_after (tr_sockets t),
                tr_socket := so_socket (cs ! random_below u (length cs))\<rparr>))"
proof (cases "list_all so_error (tr_sockets t)")
  case True
  let ?ss = "map (\<lambda>s. s\<lparr>so_error := False\<rparr>) (tr_sockets t)"
  have 1: "candidates_of (tr_sockets t) = []" using True by (simp add: candidates_empty_iff list_all_iff)
  have 2: "candidates_of ?ss \<noteq> []" using assms by (auto simp: candidates_empty_iff neq_Nil_conv)
  show ?thesis
    apply (subst getSocket.simps)
    using 1 2 True by (simp add: sockets_after_def Let_def getSocket.simps)
next
  case False
  then have "candidates_of (tr_sockets t) \<noteq> []" by (simp add: candidates_empty_iff list_all_iff)
  then show ?thesis using False by (subst getSocket.simps) (simp add: sockets_after_def Let_def)
qed

text \<open>C35.  With at least one socket configured, \<open>_getSocket\<close> ends and selects a socket that has not
  failed since the errors were last reset, of the greatest weight among those; the errors are
  reset exactly when every socket had one.\<close>

theorem getSocket_best:
  assumes "tr_sockets t \<noteq> []" and "is_random u"
  shows "\<exists>s t'. getSocket u t = Some t' \<and> tr_socket t' = so_socket s \<and> s \<in> set (tr_sockets t') \<and> \<not> so_error s
    \<and> (\<forall>r\<in>set (tr_sockets t'). \<not> so_error r \<longrightarrow> so_weight r \<le> so_weight s)
    \<and> tr_sockets t' = sockets_after (tr_sockets t)"
proof -
  let ?ss = "sockets_after (tr_sockets t)"
  let ?cs = "candidates_of ?ss"
  have "?cs \<noteq> []"
    using assms(1) by (auto simp: candidates_empty_iff sockets_after_def list_all_iff neq_Nil_conv)
  then have "?cs ! random_below u (length ?cs) \<in> set ?cs" using assms(2) by (auto intro: nth_mem)
  with candidates_best [of ?ss] show ?thesis
    by (intro exI [of _ "?cs ! random_below u (length ?cs)"])
      (auto simp: getSocket_eq [OF assms(1)] Let_def)
qed

text \<open>Three sockets, the two heavier ones failed.\<close>

definition demo_transport :: transport where
  "demo_transport =
     \<lparr>tr_status = STATUS_DISCONNECTED, tr_socket = 7,
      tr_sockets = [\<lparr>so_socket = 7, so_weight = 10, so_error = True\<rparr>, \<lparr>so_socket = 8, so_weight = 5, so_error = False\<rparr>,
        \<lparr>so_socket = 9, so_weight = 10, so_error = True\<rparr>],
      tr_min_interval = 2, tr_max_interval = 30, tr_recover_attempts = 1,
      tr_recovery_timer = Some 0, tr_close_requested = False, tr_bound = True, tr_pending = [(0, 2000)],
      tr_next = 1, tr_log = []\<rparr>"

theorem getSocket_best_witness:
  "map_option (\<lambda>t. tr_socket t) (getSocket (1 / 2) demo_transport) = Some 8"
  using getSocket_best [of demo_transport "1 / 2"]
  by (auto simp: demo_transport_def is_random_def sockets_after_def)

text \<open>With no socket configured (which the constructor accepts) \<open>_getSocket\<close> calls itself for ever.\<close>

theorem getSocket_diverges: "new_transport [] min_interval max_interval u = None"
proof -
  have "tr_sockets t \<noteq> []" if "getSocket u t = Some t'" for t t'
    using that
    by (rule getSocket.raw_induct [where P = "\<lambda>_ t _. tr_sockets t \<noteq> []", rotated])
      (fastforce simp: candidates_of_def Let_def split: if_splits)
  then show ?thesis by (fastforce simp: new_transport_def)
qed

section \<open>Invariants\<close>

lemma recovery_delay_bounds:
  assumes "mn \<le> mx"
  shows "mn \<le> recovery_delay u n mn mx" "recovery_delay u n mn mx \<le> mx"
  using assms by (auto simp: recovery_delay_def Let_def)

text \<open>The events by which the transport uses its socket or passes on what it received.\<close>

fun tr_active :: "tr_event \<Rightarrow> bool" where
  "tr_active (Sock_connect _) = True"
| "tr_active (Sock_send _ _) = True"
| "tr_active (Tr_ondata _) = True"
| "tr_active Tr_onconnect = True"
| "tr_active _ = False"

definition tr_armed :: "transport \<Rightarrow> bool" where
  "tr_armed t = (\<exists>h d. tr_recovery_timer t = Some h \<and> (h, d) \<in> set (tr_pending t)
     \<and> tr_min_interval t * 1000 \<le> d \<and> d \<le> tr_max_interval t * 1000)"

definition tr_inv :: "transport \<Rightarrow> bool" where
  "tr_inv t \<longleftrightarrow> tr_sockets t \<noteq> [] \<and> tr_min_interval t \<le> tr_max_interval t
     \<and> (tr_close_requested t \<longrightarrow> tr_status t = STATUS_DISCONNECTED \<and> \<not> tr_bound t)
     \<and> (tr_status t \<noteq> STATUS_DISCONNECTED \<longrightarrow> tr_bound t)
     \<and> (tr_bound t \<and> tr_status t = STATUS_DISCONNECTED \<longrightarrow> tr_armed t)"

lemmas tr_ops = tr_emit_def tr_clear_timer_def tr_disconnect_def tr_connect_def tr_send_def
  tr_onConnect_def tr_onDisconnect_def tr_onData_def Let_def

lemma tr_inv_disconnect: "tr_inv t \<Longrightarrow> tr_inv (tr_disconnect t)"
  by (auto simp: tr_inv_def tr_ops split: option.splits)

lemma tr_inv_connect: "tr_inv t \<Longrightarrow> tr_inv (tr_connect closes t)"
  by (auto simp: tr_inv_def tr_ops split: option.splits)

lemma tr_armed_reconnect:
  "tr_min_interval t \<le> tr_max_interval t \<Longrightarrow> tr_armed (tr_reconnect u t)"
  by (auto simp: tr_armed_def tr_reconnect_def Let_def recovery_delay_bounds)

lemma tr_reconnect_fields [simp]:
  "tr_sockets (tr_reconnect u t) = tr_sockets t" "tr_min_interval (tr_reconnect u t) = tr_min_interval t"
  "tr_max_interval (tr_reconnect u t) = tr_max_interval t" "tr_close_requested (tr_reconnect u t) = tr_close_requested t"
  "tr_status (tr_reconnect u t) = tr_status t" "tr_bound (tr_reconnect u t) = tr_bound t"
  "tr_socket (tr_reconnect u t) = tr_socket t" "tr_log (tr_reconnect u t) = tr_log t"
  by (simp_all add: tr_reconnect_def Let_def)

lemma tr_inv_reconnect:
  assumes "tr_sockets t \<noteq> []" "tr_min_interval t \<le> tr_max_interval t" "\<not> tr_close_requested t"
    "tr_status t = STATUS_DISCONNECTED"
  shows "tr_inv (tr_reconnect u t)"
  using assms by (simp add: tr_inv_def tr_armed_reconnect)

lemma tr_inv_onDisconnect: "tr_inv t \<Longrightarrow> tr_inv (tr_onDisconnect u closes error t)"
proof (cases closes)
  case True
  assume "tr_inv t"
  then have "tr_inv (tr_disconnect (tr_emit (Tr_ondisconnect (tr_socket t) error) (t\<lparr>tr_status := STATUS_DISCONNECTED\<rparr>)))"
    by (auto simp: tr_inv_def tr_ops split: option.splits)
  moreover have "tr_close_requested (tr_disconnect s)" for s by (simp add: tr_ops split: option.splits)
  ultimately show ?thesis using True by (simp add: tr_onDisconnect_def Let_def tr_emit_def)
next
  case False
  assume i: "tr_inv t"
  show ?thesis
  proof (cases "tr_close_requested t")
    case True
    then show ?thesis using i False by (simp add: tr_inv_def tr_onDisconnect_def tr_emit_def Let_def)
  next
    case c: False
    show ?thesis
      using i False c by (auto simp: tr_onDisconnect_def tr_emit_def Let_def tr_inv_def[of t] intro!: tr_inv_reconnect)
  qed
qed

lemma tr_inv_onConnect: "tr_inv t \<Longrightarrow> tr_bound t \<Longrightarrow> tr_inv (tr_onConnect t)"
  by (auto simp: tr_inv_def tr_ops split: option.splits)

lemma tr_log_irrelevant [simp]: "tr_inv (t\<lparr>tr_log := l\<rparr>) = tr_inv t"
  by (simp add: tr_inv_def tr_armed_def)

lemma tr_inv_onData: "tr_inv t \<Longrightarrow> tr_inv (tr_onData decode d t)"
  by (auto simp: tr_onData_def tr_emit_def split: ws_data.splits option.splits)

lemma tr_inv_send: "tr_inv t \<Longrightarrow> tr_inv (snd (tr_send sent m t))"
  by (auto simp: tr_send_def tr_emit_def)

lemma tr_inv_getSocket:
  assumes "tr_inv t" "getSocket u t = Some t'"
  shows "tr_inv t'" and "tr_close_requested t' = tr_close_requested t" and "tr_log t' = tr_log t"
    and "tr_status t' = tr_status t" and "tr_bound t' = tr_bound t"
proof -
  have "tr_sockets t \<noteq> []" using assms(1) by (simp add: tr_inv_def)
  from getSocket_eq [OF this, of u] assms show "tr_inv t'" "tr_close_requested t' = tr_close_requested t"
      "tr_log t' = tr_log t" "tr_status t' = tr_status t" "tr_bound t' = tr_bound t"
    by (auto simp: Let_def tr_inv_def tr_armed_def)
qed

lemma tr_bound_connect:
  assumes "tr_status t = STATUS_DISCONNECTED"
  shows "tr_bound (tr_connect closes t) = (\<not> closes)"
    and "tr_status (tr_connect closes t) = (if closes then STATUS_DISCONNECTED else STATUS_CONNECTING)"
  using assms by (auto simp: tr_ops split: option.splits)

lemma tr_inv_fired:
  assumes "tr_status t = STATUS_DISCONNECTED" "tr_sockets t \<noteq> []" "tr_min_interval t \<le> tr_max_interval t"
  shows "tr_inv (tr_connect closes t)"
  using assms by (auto simp: tr_inv_def tr_ops split: option.splits)

lemma tr_inv_fire:
  assumes i: "tr_inv t" and f: "tr_fire u closes h t = Some t'"
  shows "tr_inv t'"
proof -
  let ?t = "t\<lparr>tr_pending := filter (\<lambda>(k, _). k \<noteq> h) (tr_pending t)\<rparr>"
  have ss: "tr_sockets ?t \<noteq> []" using i by (simp add: tr_inv_def)
  show ?thesis
  proof (cases "\<not> tr_close_requested t \<and> \<not> (tr_status t = STATUS_CONNECTED \<or> tr_status t = STATUS_CONNECTING)")
    case True
    then have d: "tr_status t = STATUS_DISCONNECTED" by (cases "tr_status t") auto
    obtain t1 where g: "getSocket u ?t = Some t1" and t': "t' = tr_connect closes t1"
      using True f by (auto simp: tr_fire_def Let_def)
    have "tr_status t1 = STATUS_DISCONNECTED" "tr_sockets t1 \<noteq> []" "tr_min_interval t1 \<le> tr_max_interval t1"
      using g d i getSocket_eq [OF ss, of u] by (auto simp: Let_def tr_inv_def)
    then show ?thesis unfolding t' by (rule tr_inv_fired)
  next
    case False
    then have "t' = ?t" using f by (simp only: tr_fire_def Let_def) (simp split: if_splits)
    then show ?thesis using i False by (cases "tr_status t") (auto simp: tr_inv_def)
  qed
qed

lemma tr_inv_step: "tr_step t t' \<Longrightarrow> tr_inv t \<Longrightarrow> tr_inv t'"
  by (erule tr_stepE)
    (auto simp: tr_inv_connect tr_inv_disconnect tr_inv_send tr_inv_onConnect tr_inv_onDisconnect tr_inv_onData
      intro: tr_inv_fire)

lemma tr_inv_run: "tr_run t t' \<Longrightarrow> tr_inv t \<Longrightarrow> tr_inv t'"
  by (induction rule: rtranclp_induct) (auto intro: tr_inv_step)

lemma tr_inv_new:
  assumes "new_transport sockets mn mx u = Some t" "sockets \<noteq> []" "mn \<le> mx"
  shows "tr_inv t"
  using assms(1) getSocket_eq [of "\<lparr>tr_status = STATUS_DISCONNECTED, tr_socket = 0,
        tr_sockets = map (\<lambda>(s, w). \<lparr>so_socket = s, so_weight = w, so_error = False\<rparr>) sockets,
        tr_min_interval = mn, tr_max_interval = mx, tr_recover_attempts = 0,
        tr_recovery_timer = None, tr_close_requested = False, tr_bound = False, tr_pending = [],
        tr_next = 0, tr_log = []\<rparr>" u] assms(2,3)
  by (auto simp: new_transport_def Let_def tr_inv_def)

text \<open>A step that leaves a closed transport closed: no connection, no message and no event but the report of closing.\<close>

lemma tr_closed_step:
  assumes "tr_step t t'" "tr_inv t" "tr_close_requested t" "tr_close_requested t'"
  shows "filter tr_active (tr_log t') = filter tr_active (tr_log t)"
  using assms(1)
proof (cases rule: tr_step.cases)
  case (tr_step_connect closes)
  then show ?thesis using assms(2-4)
    by (auto simp: tr_inv_def tr_ops split: option.splits if_splits)
next
  case (tr_step_timer h u closes)
  then show ?thesis using assms(2-4) by (auto simp: tr_fire_def Let_def)
qed (use assms(2-4) in \<open>auto simp: tr_inv_def tr_ops split: option.splits\<close>)

text \<open>A bound transport without a connection has its timer pending, which selects a socket and connects it.\<close>

lemma tr_inv_recovers:
  assumes i: "tr_inv t" and b: "tr_bound t" and d: "tr_status t = STATUS_DISCONNECTED"
  shows "\<exists>h d. tr_recovery_timer t = Some h \<and> (h, d) \<in> set (tr_pending t)
    \<and> tr_min_interval t * 1000 \<le> d \<and> d \<le> tr_max_interval t * 1000
    \<and> (\<exists>t'. tr_fire v False h t = Some t' \<and> tr_status t' = STATUS_CONNECTING \<and> tr_bound t'
          \<and> last (tr_log t') = Sock_connect (tr_socket t'))"
proof -
  obtain h d where hd: "tr_recovery_timer t = Some h" "(h, d) \<in> set (tr_pending t)"
      "tr_min_interval t * 1000 \<le> d" "d \<le> tr_max_interval t * 1000"
    using assms by (auto simp: tr_inv_def tr_armed_def)
  let ?t = "t\<lparr>tr_pending := filter (\<lambda>(k, _). k \<noteq> h) (tr_pending t)\<rparr>"
  have "tr_sockets ?t \<noteq> []" "\<not> tr_close_requested t" using i b by (auto simp: tr_inv_def)
  then have "\<exists>t'. tr_fire v False h t = Some t' \<and> tr_status t' = STATUS_CONNECTING \<and> tr_bound t'
          \<and> last (tr_log t') = Sock_connect (tr_socket t')"
    using d getSocket_eq [of ?t v] by (auto simp: tr_fire_def Let_def tr_connect_def tr_emit_def)
  with hd show ?thesis by blast
qed

section \<open>Properties\<close>

text \<open>Once \<open>disconnect()\<close> was called, and until \<open>connect()\<close> is called again, no pending timer, socket
  event or send makes the transport use a socket or pass on a message, however the calls
  were ordered before.\<close>

theorem tr_closed_silent:
  assumes "new_transport sockets mn mx u = Some t0" "sockets \<noteq> []" "mn \<le> mx"
    and "tr_run t0 t" "tr_close_requested t" "tr_step t t'" "tr_close_requested t'"
  shows "filter tr_active (tr_log t') = filter tr_active (tr_log t)
    \<and> tr_status t = STATUS_DISCONNECTED \<and> \<not> tr_bound t"
  using tr_inv_run [OF assms(4) tr_inv_new [OF assms(1-3)]] tr_closed_step assms(5-7)
  by (auto simp: tr_inv_def)

definition demo_new :: transport where
  "demo_new = the (new_transport [(7, 10), (8, 5)] 2 30 (1 / 2))"

lemma demo_new_eq: "new_transport [(7, 10), (8, 5)] 2 30 (1 / 2) = Some demo_new"
  by (simp add: demo_new_def new_transport_def getSocket_eq Let_def sockets_after_def)

theorem tr_closed_silent_witness:
  "filter tr_active (tr_log (snd (tr_send True ''x'' (tr_disconnect (tr_connect False demo_new)))))
   = filter tr_active (tr_log (tr_disconnect (tr_connect False demo_new)))"
proof -
  let ?t = "tr_disconnect (tr_connect False demo_new)"
  have r: "tr_run demo_new ?t"
    by (rule rtranclp_trans [OF r_into_rtranclp r_into_rtranclp]) (rule tr_step.intros)+
  have c: "tr_close_requested (tr_disconnect s)" for s by (simp add: tr_ops split: option.splits)
  have c': "tr_close_requested (snd (tr_send True ''x'' s)) = tr_close_requested s" for s by (simp add: tr_ops)
  show ?thesis
    by (rule tr_closed_silent [OF demo_new_eq _ _ r c tr_step_send, THEN conjunct1]) (simp_all add: c' c)
qed

text \<open>A transport that lost its connection, and was not closed, has the recovery timer pending with
  a delay between the two configured intervals, and when the timer fires it selects a socket and
  connects it.\<close>

theorem tr_recovers:
  assumes "new_transport sockets mn mx u = Some t0" "sockets \<noteq> []" "mn \<le> mx"
    and "tr_run t0 t" "tr_bound t" "tr_status t = STATUS_DISCONNECTED"
  shows "\<exists>h d. tr_recovery_timer t = Some h \<and> (h, d) \<in> set (tr_pending t)
    \<and> tr_min_interval t * 1000 \<le> d \<and> d \<le> tr_max_interval t * 1000
    \<and> (\<exists>t'. tr_fire v False h t = Some t' \<and> tr_status t' = STATUS_CONNECTING \<and> tr_bound t'
          \<and> last (tr_log t') = Sock_connect (tr_socket t'))"
  by (rule tr_inv_recovers [OF tr_inv_run [OF assms(4) tr_inv_new [OF assms(1-3)]] assms(5,6)])

theorem tr_recovers_witness:
  "\<exists>h. tr_recovery_timer (tr_onDisconnect 0 False True (tr_connect False demo_new)) = Some h"
proof -
  let ?t = "tr_onDisconnect 0 False True (tr_connect False demo_new)"
  have d: "tr_status demo_new = STATUS_DISCONNECTED" "\<not> tr_close_requested demo_new"
    by (simp_all add: demo_new_def new_transport_def getSocket_eq Let_def)
  have b: "tr_bound (tr_connect False demo_new)" using d by (simp add: tr_bound_connect)
  have "tr_step (tr_connect False demo_new) ?t" by (rule tr_step_close) (simp_all add: b is_random_def)
  then have r: "tr_run demo_new ?t"
    using tr_step_connect [of demo_new False] by (meson converse_rtranclp_into_rtranclp rtranclp.rtrancl_refl)
  show ?thesis
    using tr_recovers [OF demo_new_eq _ _ r] b d by (auto simp: tr_ops tr_reconnect_def)
qed

end
