(* ===== verification/Js_Number.thy ===== *)
theory Js_Number
  imports Complex_Main Sip_Utils
begin

text \<open>
  The functions \<open>Number(s)\<close> and \<open>parseInt(s)\<close> of the language on strings, for the header values the
  program converts.  A finite number is the exact real the literal denotes: the rounding to
  binary64 is not modelled, and a number is printed with at most 17 decimals and never with an exponent.
\<close>

datatype js_num = NaN | Num real | Infinite bool

definition all_digits :: "string \<Rightarrow> bool" where
  "all_digits s = (s \<noteq> [] \<and> list_all is_digit s)"

definition radix_literal :: "nat \<Rightarrow> string \<Rightarrow> js_num" where
  "radix_literal b s =
     (if s \<noteq> [] \<and> list_all (\<lambda>c. digit_val (lower_char c) < b) s
      then Num (real (value_in b (to_lower s))) else NaN)"

text \<open>The exponent part, \<open>None\<close> when it is no such part.\<close>

definition exponent_part :: "string \<Rightarrow> int option" where
  "exponent_part s =
     (case s of
        [] \<Rightarrow> Some 0
      | c # t \<Rightarrow>
          if c \<noteq> CHR ''e'' \<and> c \<noteq> CHR ''E'' then None
          else (case t of
              CHR ''-'' # d \<Rightarrow> if all_digits d then Some (- int (value_in 10 d)) else None
            | CHR ''+'' # d \<Rightarrow> if all_digits d then Some (int (value_in 10 d)) else None
            | d \<Rightarrow> if all_digits d then Some (int (value_in 10 d)) else None))"

definition decimal_literal :: "string \<Rightarrow> js_num" where
  "decimal_literal s =
     (let ip = takeWhile is_digit s; r = dropWhile is_digit s;
          (fp, r) = (case r of CHR ''.'' # t \<Rightarrow> (takeWhile is_digit t, dropWhile is_digit t) | _ \<Rightarrow> ([], r))
      in if ip = [] \<and> fp = [] then NaN
         else case exponent_part r of
             None \<Rightarrow> NaN
           | Some e \<Rightarrow>
               (let m = real (value_in 10 (ip @ fp)) / 10 ^ length fp in
                Num (if 0 \<le> e then m * 10 ^ nat e else m / 10 ^ nat (- e))))"

fun num_neg :: "js_num \<Rightarrow> js_num" where
  "num_neg NaN = NaN"
| "num_neg (Num x) = Num (- x)"
| "num_neg (Infinite p) = Infinite (\<not> p)"

definition unsigned_literal :: "string \<Rightarrow> js_num" where
  "unsigned_literal s = (if s = ''Infinity'' then Infinite True else decimal_literal s)"

definition js_Number :: "string \<Rightarrow> js_num" where
  "js_Number str =
     (let s = js_trim str; p = to_lower (take 2 s) in
      if s = [] then Num 0
      else if p = ''0x'' then radix_literal 16 (drop 2 s)
      else if p = ''0o'' then radix_literal 8 (drop 2 s)
      else if p = ''0b'' then radix_literal 2 (drop 2 s)
      else if hd s = CHR ''-'' then num_neg (unsigned_literal (tl s))
      else if hd s = CHR ''+'' then unsigned_literal (tl s)
      else unsigned_literal s)"

text \<open>\<open>parseInt(s)\<close> without a radix; \<open>None\<close> is \<open>NaN\<close>.\<close>

definition js_parseInt :: "string \<Rightarrow> int option" where
  "js_parseInt str =
     (let s = dropWhile is_space str;
          (neg, s) = (case s of CHR ''-'' # t \<Rightarrow> (True, t) | CHR ''+'' # t \<Rightarrow> (False, t) | _ \<Rightarrow> (False, s));
          (b, s) = (if to_lower (take 2 s) = ''0x'' then (16, drop 2 s) else (10, s));
          d = takeWhile (\<lambda>c. digit_val (lower_char c) < b) s
      in if d = [] then None
         else Some (if neg then - int (value_in b (to_lower d)) else int (value_in b (to_lower d))))"

section \<open>Comparison and printing\<close>

fun num_less :: "js_num \<Rightarrow> js_num \<Rightarrow> bool" where
  "num_less (Num x) (Num y) = (x < y)"
| "num_less (Num x) (Infinite p) = p"
| "num_less (Infinite p) (Num y) = (\<not> p)"
| "num_less (Infinite p) (Infinite q) = (\<not> p \<and> q)"
| "num_less _ _ = False"

fun decimals :: "nat \<Rightarrow> real \<Rightarrow> string" where
  "decimals 0 x = []"
| "decimals (Suc n) x =
     (if x = 0 then []
      else (let d = nat \<lfloor>10 * x\<rfloor> in digit_char d # decimals n (10 * x - real d)))"

definition positive_text :: "real \<Rightarrow> string" where
  "positive_text x =
     (let n = nat \<lfloor>x\<rfloor>; f = x - real n in num_str n @ (if f = 0 then [] else ''.'' @ decimals 17 f))"

fun num_text :: "js_num \<Rightarrow> string" where
  "num_text NaN = ''NaN''"
| "num_text (Num x) = (if x < 0 then ''-'' @ positive_text (- x) else positive_text x)"
| "num_text (Infinite p) = (if p then ''Infinity'' else ''-Infinity'')"

lemma num_text_nat [simp]: "num_text (Num (real n)) = num_str n"
  by (simp add: positive_text_def)

section \<open>Conversion of digit strings\<close>

lemma digit_char_is_digit: "d < 10 \<Longrightarrow> is_digit (digit_char d)"
  by (simp add: is_digit_def digit_char_def)

lemma num_str_digits: "all_digits (num_str n)"
proof -
  have "is_digit c" if "c \<in> set (num_str n)" for c
    using digits_in_chars [of 10 c n] that by (auto simp: num_str_def digit_char_is_digit)
  then show ?thesis by (simp add: all_digits_def list_all_iff)
qed

lemma digit_not_space: "is_digit c \<Longrightarrow> \<not> is_space c"
  by (auto simp: is_digit_def is_space_def)

lemma digits_dropWhile: "all_digits s \<Longrightarrow> dropWhile is_space s = s"
  by (cases s) (auto simp: all_digits_def digit_not_space)

lemma digits_trim: "all_digits s \<Longrightarrow> js_trim s = s"
  by (cases s rule: rev_cases) (auto simp: js_trim_def digits_dropWhile all_digits_def digit_not_space)

lemma decimal_digits: "all_digits s \<Longrightarrow> decimal_literal s = Num (real (value_in 10 s))"
  by (auto simp: decimal_literal_def all_digits_def exponent_part_def list_all_iff
      takeWhile_eq_all_conv [THEN iffD2] dropWhile_eq_Nil_conv [THEN iffD2])

text \<open>A string of decimal digits converts to the number it spells.\<close>

lemma Number_digits:
  assumes "all_digits s"
  shows "js_Number s = Num (real (value_in 10 s))"
proof -
  from assms obtain c t where s: "s = c # t" and c: "is_digit c" and t: "list_all is_digit t"
    by (cases s) (auto simp: all_digits_def)
  have x: "\<not> is_digit (CHR ''x'')" "\<not> is_digit (CHR ''o'')" "\<not> is_digit (CHR ''b'')" "\<not> is_digit (CHR ''X'')"
    "\<not> is_digit (CHR ''I'')" "\<not> is_digit (CHR ''-'')" "\<not> is_digit (CHR ''+'')"
    by (simp_all add: is_digit_def char_code_def)
  have low: "is_digit d \<Longrightarrow> lower_char d = d" for d
    by (auto simp: is_digit_def lower_char_def)
  have pre: "to_lower (take 2 s) \<notin> {''0x'', ''0o'', ''0b''}"
    using t x low by (cases t) (auto simp: s to_lower_def numeral_2_eq_2)
  have "s \<noteq> ''Infinity''" using c x by (auto simp: s)
  with pre c x s digits_trim [OF assms] decimal_digits [OF assms] show ?thesis
    by (auto simp: js_Number_def Let_def unsigned_literal_def)
qed

lemma Number_num_str: "js_Number (num_str n) = Num (real n)"
  using Number_digits [OF num_str_digits] by (simp add: num_str_def value_digits_in)

end
