(* ===== verification/Registrator.thy ===== *)
theory Registrator
  imports Js_Number Sip_Message
begin

text \<open>
  The class \<open>Registrator\<close> (lines 21223-21588 of \<open>frontend/static/js/jssip-3.10.0.js\<close>).  Its calls to the
  user agent and the requests it hands to a new \<open>RequestSender\<close> are the log \<open>rg_log\<close>; the handlers it
  gives the sender are operations of their own.  An operation returns the exception it ends with,
  if any, and the state it leaves.
\<close>

section \<open>State\<close>

datatype rg_event =
    Rg_Request out_request
  | Rg_Registered in_response
  | Rg_RegistrationFailed "in_response option" cause
  | Rg_Unregistered "in_response option" "cause option"
  | Rg_Expiring

record registrator =
  rg_registrar :: uri
  rg_expires :: js_num
  rg_call_id :: string
  rg_cseq :: nat
  rg_to_uri :: uri
  rg_registrationTimer :: "nat option"
  rg_registering :: bool
  rg_registered :: bool
  rg_contact :: string
  rg_extraHeaders :: "string list"
  rg_extraContactParams :: string
  rg_sipInstance :: string
  rg_pub_gruu :: "string option"
  rg_temp_gruu :: "string option"
  rg_contact_user :: "string option"
  rg_pending :: "(nat \<times> js_num) list"
  rg_next :: nat
  rg_log :: "rg_event list"

definition reg_id :: int where "reg_id = 1"

definition MIN_REGISTER_EXPIRES :: js_num where "MIN_REGISTER_EXPIRES = Num 10"

text \<open>
  What one call reads of its surroundings: the agent, the random draws, whether the agent is
  closed by the user and whether the transport takes the request (in the other case the sender
  calls \<open>onTransportError\<close> before its constructor, or \<open>send()\<close>, returns), and the
  number of listeners of \<open>registrationExpiring\<close>.
\<close>

record rg_env =
  re_cfg :: ua_config
  re_draws :: draws
  re_random :: real
  re_user_closed :: bool
  re_sent :: bool
  re_listeners :: nat

definition new_registrator ::
    "ua_config \<Rightarrow> uri \<Rightarrow> nat \<Rightarrow> string \<Rightarrow> string \<Rightarrow> string option \<Rightarrow> (nat \<Rightarrow> real) \<Rightarrow> registrator" where
  "new_registrator cfg registrar register_expires instance_id contact contact_user rnd =
     (let sipInstance = ''\"<urn:uuid:'' @ instance_id @ ''>\"'' in
      \<lparr>rg_registrar = registrar, rg_expires = Num (real register_expires),
       rg_call_id = createRandomToken 22 32 rnd, rg_cseq = 0, rg_to_uri = cfg_uri cfg,
       rg_registrationTimer = None, rg_registering = False, rg_registered = False,
       rg_contact = contact @ '';+sip.ice'' @ '';reg-id='' @ ''1'' @ '';+sip.instance='' @ sipInstance,
       rg_extraHeaders = [], rg_extraContactParams = [], rg_sipInstance = sipInstance,
       rg_pub_gruu = ua_pub_gruu cfg, rg_temp_gruu = ua_temp_gruu cfg, rg_contact_user = contact_user,
       rg_pending = [], rg_next = 0, rg_log = []\<rparr>)"

definition rg_emit :: "rg_event \<Rightarrow> registrator \<Rightarrow> registrator" where
  "rg_emit e s = s\<lparr>rg_log := rg_log s @ [e]\<rparr>"

definition rg_clear_timer :: "registrator \<Rightarrow> registrator" where
  "rg_clear_timer s =
     (case rg_registrationTimer s of
        None \<Rightarrow> s
      | Some h \<Rightarrow> s\<lparr>rg_pending := filter (\<lambda>(k, _). k \<noteq> h) (rg_pending s), rg_registrationTimer := None\<rparr>)"

text \<open>\<open>None\<close> for an argument that is not an array, or not an object.\<close>

definition setExtraHeaders :: "string list option \<Rightarrow> registrator \<Rightarrow> registrator" where
  "setExtraHeaders extraHeaders s = s\<lparr>rg_extraHeaders := cloneArray extraHeaders\<rparr>"

definition contact_param :: "string \<times> string option \<Rightarrow> string" where
  "contact_param kv = '';'' @ fst kv @ (if truthy (snd kv) then ''='' @ the (snd kv) else [])"

definition setExtraContactParams :: "string option js_object option \<Rightarrow> registrator \<Rightarrow> registrator" where
  "setExtraContactParams ps s =
     s\<lparr>rg_extraContactParams := concat (map contact_param (case ps of None \<Rightarrow> [] | Some ob \<Rightarrow> ob))\<rparr>"

section \<open>Outcomes\<close>

definition registrationFailure :: "in_response option \<Rightarrow> cause \<Rightarrow> registrator \<Rightarrow> registrator" where
  "registrationFailure response cause s =
     (let s = s\<lparr>rg_registering := False\<rparr>;
          s = rg_emit (Rg_RegistrationFailed response cause) s
      in if rg_registered s
         then rg_emit (Rg_Unregistered response (Some cause)) (s\<lparr>rg_registered := False\<rparr>)
         else s)"

definition rg_unregistered :: "in_response option \<Rightarrow> cause option \<Rightarrow> registrator \<Rightarrow> registrator" where
  "rg_unregistered response cause s =
     rg_emit (Rg_Unregistered response cause) (s\<lparr>rg_registering := False, rg_registered := False\<rparr>)"

section \<open>Requests\<close>

definition rg_params :: "registrator \<Rightarrow> req_params" where
  "rg_params s = no_params\<lparr>p_to_uri := Some (rg_to_uri s), p_call_id := Some (rg_call_id s), p_cseq := Some (rg_cseq s)\<rparr>"

definition rg_make_request :: "rg_env \<Rightarrow> string list \<Rightarrow> registrator \<Rightarrow> js_error + out_request" where
  "rg_make_request env extraHeaders s =
     new_out_request (re_cfg env) (re_draws env) REGISTER (rg_registrar s) (rg_params s) (Some extraHeaders) None"

definition register_headers :: "registrator \<Rightarrow> string list" where
  "register_headers s =
     rg_extraHeaders s
     @ [''Contact: '' @ rg_contact s @ '';expires='' @ num_text (rg_expires s) @ rg_extraContactParams s,
        ''Expires: '' @ num_text (rg_expires s)]"

definition register :: "rg_env \<Rightarrow> registrator \<Rightarrow> js_error option \<times> registrator" where
  "register env s =
     (if rg_registering s then (None, s)
      else
        (let extraHeaders = register_headers s; s = s\<lparr>rg_cseq := rg_cseq s + 1\<rparr> in
         case rg_make_request env extraHeaders s of
           Inl e \<Rightarrow> (Some e, s)
         | Inr request \<Rightarrow>
             (let s = (if re_user_closed env then registrationFailure None C_CONNECTION_ERROR s else s);
                  s = s\<lparr>rg_registering := True\<rparr>;
                  s = rg_emit (Rg_Request request) s
              in (None, if re_sent env then s else registrationFailure None C_CONNECTION_ERROR s))))"

definition unregister_headers :: "bool \<Rightarrow> registrator \<Rightarrow> string list" where
  "unregister_headers all s =
     rg_extraHeaders s
     @ [if all then ''Contact: *'' @ rg_extraContactParams s
        else ''Contact: '' @ rg_contact s @ '';expires=0'' @ rg_extraContactParams s,
        ''Expires: 0'']"

definition unregister :: "rg_env \<Rightarrow> bool \<Rightarrow> registrator \<Rightarrow> js_error option \<times> registrator" where
  "unregister env all s =
     (if \<not> rg_registered s then (None, s)
      else
        (let s = s\<lparr>rg_registered := False\<rparr>;
             s = rg_clear_timer s;
             extraHeaders = unregister_headers all s;
             s = s\<lparr>rg_cseq := rg_cseq s + 1\<rparr>
         in case rg_make_request env extraHeaders s of
              Inl e \<Rightarrow> (Some e, s)
            | Inr request \<Rightarrow>
                (let s = (if re_user_closed env then rg_unregistered None (Some C_CONNECTION_ERROR) s else s);
                     s = rg_emit (Rg_Request request) s
                 in (None, if re_sent env then s else rg_unregistered None (Some C_CONNECTION_ERROR) s))))"

definition rg_close :: "rg_env \<Rightarrow> registrator \<Rightarrow> js_error option \<times> registrator" where
  "rg_close env s = (if rg_registered s then unregister env False s else (None, s))"

definition onTransportClosed :: "registrator \<Rightarrow> registrator" where
  "onTransportClosed s =
     (let s = s\<lparr>rg_registering := False\<rparr>;
          s = rg_clear_timer s
      in if rg_registered s
         then rg_emit (Rg_Unregistered None None) (s\<lparr>rg_registered := False\<rparr>)
         else s)"

text \<open>\<open>onAuthenticated\<close> of both requests: the authenticated copy has the next sequence number.\<close>

definition rg_onAuthenticated :: "registrator \<Rightarrow> registrator" where
  "rg_onAuthenticated s = s\<lparr>rg_cseq := rg_cseq s + 1\<rparr>"

definition register_onRequestTimeout :: "registrator \<Rightarrow> registrator" where
  "register_onRequestTimeout s = registrationFailure None C_REQUEST_TIMEOUT s"

definition register_onTransportError :: "registrator \<Rightarrow> registrator" where
  "register_onTransportError s = registrationFailure None C_CONNECTION_ERROR s"

definition unregister_onRequestTimeout :: "registrator \<Rightarrow> registrator" where
  "unregister_onRequestTimeout s = rg_unregistered None (Some C_REQUEST_TIMEOUT) s"

definition unregister_onTransportError :: "registrator \<Rightarrow> registrator" where
  "unregister_onTransportError s = rg_unregistered None (Some C_CONNECTION_ERROR) s"

section \<open>Responses\<close>

definition is_1xx :: "nat \<Rightarrow> bool" where "is_1xx c = (100 \<le> c \<and> c \<le> 199)"

definition is_2xx :: "nat \<Rightarrow> bool" where "is_2xx c = (200 \<le> c \<and> c \<le> 299)"

text \<open>\<open>contacts.find\<close>: an element that is no name-addr has no \<open>getParam\<close> and no \<open>uri\<close>.\<close>

fun find_contact :: "(name_addr \<Rightarrow> bool) \<Rightarrow> parsed option list \<Rightarrow> js_error + name_addr option" where
  "find_contact P [] = Inr None"
| "find_contact P (Some (P_NameAddr c) # cs) = (if P c then Inr (Some c) else find_contact P cs)"
| "find_contact P (_ # cs) = Inl (TypeError ''getParam is not a function'')"

definition contacts_of :: "in_response \<Rightarrow> parsed option list" where
  "contacts_of response =
     (case obj_get (im_headers response) ''Contact'' of None \<Rightarrow> [] | Some hs \<Rightarrow> map hf_parsed hs)"

definition instance_matches :: "registrator \<Rightarrow> name_addr \<Rightarrow> bool" where
  "instance_matches s c =
     (na_getParam ''+sip.instance'' c = Some (Some (rg_sipInstance s))
      \<and> (case na_getParam ''reg-id'' c of Some (Some v) \<Rightarrow> js_parseInt v = Some reg_id | _ \<Rightarrow> False))"

definition user_matches :: "registrator \<Rightarrow> name_addr \<Rightarrow> bool" where
  "user_matches s c = (uri_user (na_uri c) = rg_contact_user s)"

definition own_contact :: "in_response \<Rightarrow> registrator \<Rightarrow> js_error + name_addr option" where
  "own_contact response s =
     bind_result (find_contact (instance_matches s) (contacts_of response)) (\<lambda>c.
       case c of
         Some c \<Rightarrow> Inr (Some c)
       | None \<Rightarrow> find_contact (user_matches s) (contacts_of response))"

definition clamp_expires :: "js_num \<Rightarrow> js_num" where
  "clamp_expires e = (if num_less e MIN_REGISTER_EXPIRES then MIN_REGISTER_EXPIRES else e)"

definition granted_expires :: "in_response \<Rightarrow> name_addr \<Rightarrow> registrator \<Rightarrow> js_num" where
  "granted_expires response c s =
     (let expires = (case na_getParam ''expires'' c of Some v \<Rightarrow> v | None \<Rightarrow> None);
          expires = (if \<not> truthy expires \<and> im_hasHeader ''expires'' response then im_getHeader ''expires'' response else expires);
          e = (if \<not> truthy expires then rg_expires s else js_Number (the expires))
      in clamp_expires e)"

text \<open>The delay of the refresh.  \<open>Infinity * 0\<close> is \<open>NaN\<close>.\<close>

fun refresh_timeout :: "real \<Rightarrow> js_num \<Rightarrow> js_num" where
  "refresh_timeout u NaN = NaN"
| "refresh_timeout u (Infinite p) = (if p then if u = 0 then NaN else Infinite True else Infinite False)"
| "refresh_timeout u (Num e) =
     Num (if e > 64 then e * 1000 / 2 + of_int \<lfloor>(e / 2 - 32) * 1000 * u\<rfloor> else e * 1000 - 5000)"

definition rg_setTimeout :: "js_num \<Rightarrow> registrator \<Rightarrow> registrator" where
  "rg_setTimeout d s =
     s\<lparr>rg_pending := rg_pending s @ [(rg_next s, d)], rg_registrationTimer := Some (rg_next s),
       rg_next := Suc (rg_next s)\<rparr>"

definition no_quotes :: "string \<Rightarrow> string" where
  "no_quotes s = filter (\<lambda>c. c \<noteq> CHR 0x22) s"

text \<open>The two gruu values of the contact; a parameter without a value has no \<open>replace\<close>.\<close>

definition gruu_of :: "string \<Rightarrow> name_addr \<Rightarrow> string option \<Rightarrow> js_error + string option" where
  "gruu_of name c old =
     (if na_hasParam name c
      then (case na_getParam name c of
              Some (Some v) \<Rightarrow> Inr (Some (no_quotes v))
            | _ \<Rightarrow> Inl (TypeError ''Cannot read property replace''))
      else Inr old)"

definition save_gruu :: "name_addr \<Rightarrow> registrator \<Rightarrow> js_error option \<times> registrator" where
  "save_gruu c s =
     (case gruu_of ''temp-gruu'' c (rg_temp_gruu s) of
        Inl e \<Rightarrow> (Some e, s)
      | Inr t \<Rightarrow>
          (let s = s\<lparr>rg_temp_gruu := t\<rparr> in
           case gruu_of ''pub-gruu'' c (rg_pub_gruu s) of
             Inl e \<Rightarrow> (Some e, s)
           | Inr p \<Rightarrow> (None, s\<lparr>rg_pub_gruu := p\<rparr>)))"

definition register_2xx :: "rg_env \<Rightarrow> in_response \<Rightarrow> registrator \<Rightarrow> js_error option \<times> registrator" where
  "register_2xx env response s =
     (let s = s\<lparr>rg_registering := False\<rparr> in
      if \<not> im_hasHeader ''Contact'' response then (None, s)
      else case own_contact response s of
          Inl e \<Rightarrow> (Some e, s)
        | Inr None \<Rightarrow> (None, s)
        | Inr (Some c) \<Rightarrow>
            (let s = rg_setTimeout (refresh_timeout (re_random env) (granted_expires response c s)) s in
             case save_gruu c s of
               (Some e, s) \<Rightarrow> (Some e, s)
             | (None, s) \<Rightarrow>
                 (None, if \<not> rg_registered s then rg_emit (Rg_Registered response) (s\<lparr>rg_registered := True\<rparr>) else s)))"

definition register_423 :: "rg_env \<Rightarrow> in_response \<Rightarrow> registrator \<Rightarrow> js_error option \<times> registrator" where
  "register_423 env response s =
     (if im_hasHeader ''min-expires'' response
      then register env (s\<lparr>rg_expires := clamp_expires (js_Number (text_of (im_getHeader ''min-expires'' response)))\<rparr>)
      else (None, registrationFailure (Some response) C_SIP_FAILURE_CODE s))"

definition register_onReceiveResponse :: "rg_env \<Rightarrow> in_response \<Rightarrow> registrator \<Rightarrow> js_error option \<times> registrator" where
  "register_onReceiveResponse env response s =
     (if im_cseq response \<noteq> rg_cseq s then (None, s)
      else
        (let s = rg_clear_timer s; code = im_status_code response in
         if is_1xx code then (None, s)
         else if is_2xx code then register_2xx env response s
         else if code = 423 then register_423 env response s
         else (None, registrationFailure (Some response) (sipErrorCause code) s)))"

definition unregister_onReceiveResponse :: "in_response \<Rightarrow> registrator \<Rightarrow> registrator" where
  "unregister_onReceiveResponse response s =
     (let code = im_status_code response in
      if is_1xx code then s
      else if is_2xx code then rg_unregistered (Some response) None s
      else rg_unregistered (Some response) (Some (sipErrorCause code)) s)"

definition rg_fire :: "rg_env \<Rightarrow> nat \<Rightarrow> registrator \<Rightarrow> js_error option \<times> registrator" where
  "rg_fire env h s =
     (let s = s\<lparr>rg_pending := filter (\<lambda>(k, _). k \<noteq> h) (rg_pending s), rg_registrationTimer := None\<rparr> in
      if re_listeners env = 0 then register env s else (None, rg_emit Rg_Expiring s))"

section \<open>Steps\<close>

inductive rg_step :: "registrator \<Rightarrow> registrator \<Rightarrow> bool" where
  rg_step_headers: "rg_step s (setExtraHeaders hs s)"
| rg_step_params: "rg_step s (setExtraContactParams ps s)"
| rg_step_register: "rg_step s (snd (register env s))"
| rg_step_unregister: "rg_step s (snd (unregister env all s))"
| rg_step_close: "rg_step s (snd (rg_close env s))"
| rg_step_transport: "rg_step s (onTransportClosed s)"
| rg_step_authenticated: "rg_step s (rg_onAuthenticated s)"
| rg_step_reg_timeout: "rg_step s (register_onRequestTimeout s)"
| rg_step_reg_error: "rg_step s (register_onTransportError s)"
| rg_step_unreg_timeout: "rg_step s (unregister_onRequestTimeout s)"
| rg_step_unreg_error: "rg_step s (unregister_onTransportError s)"
| rg_step_response: "is_random (re_random env) \<Longrightarrow> rg_step s (snd (register_onReceiveResponse env r s))"
| rg_step_unreg_response: "rg_step s (unregister_onReceiveResponse r s)"
| rg_step_timer: "h \<in> fst ` set (rg_pending s) \<Longrightarrow> rg_step s (snd (rg_fire env h s))"

inductive_cases rg_stepE: "rg_step s s'"

abbreviation rg_run :: "registrator \<Rightarrow> registrator \<Rightarrow> bool" where
  "rg_run \<equiv> rg_step\<^sup>*\<^sup>*"

section \<open>Invariants\<close>

fun requests_of :: "rg_event list \<Rightarrow> out_request list" where
  "requests_of [] = []"
| "requests_of (Rg_Request r # es) = r # requests_of es"
| "requests_of (_ # es) = requests_of es"

lemma requests_of_append [simp]: "requests_of (es @ fs) = requests_of es @ requests_of fs"
  by (induction es rule: requests_of.induct) auto

definition timers_ok :: "registrator \<Rightarrow> bool" where
  "timers_ok s = (map fst (rg_pending s) = (case rg_registrationTimer s of None \<Rightarrow> [] | Some h \<Rightarrow> [h]))"

definition numbers_ok :: "string \<Rightarrow> registrator \<Rightarrow> bool" where
  "numbers_ok ci s = (rg_call_id s = ci \<and> ci \<noteq> []
     \<and> sorted_wrt (\<lambda>r q. or_cseq r < or_cseq q) (requests_of (rg_log s))
     \<and> list_all (\<lambda>r. or_cseq r \<le> rg_cseq s \<and> or_call_id r = ci \<and> or_method r = REGISTER) (requests_of (rg_log s)))"

definition rg_inv :: "string \<Rightarrow> registrator \<Rightarrow> bool" where
  "rg_inv ci s = (timers_ok s \<and> numbers_ok ci s)"

lemma rg_inv_fields [simp]:
  "rg_inv ci (s\<lparr>rg_registering := b\<rparr>) = rg_inv ci s" "rg_inv ci (s\<lparr>rg_registered := b\<rparr>) = rg_inv ci s"
  "rg_inv ci (s\<lparr>rg_expires := e\<rparr>) = rg_inv ci s" "rg_inv ci (s\<lparr>rg_temp_gruu := g\<rparr>) = rg_inv ci s"
  "rg_inv ci (s\<lparr>rg_pub_gruu := g\<rparr>) = rg_inv ci s" "rg_inv ci (s\<lparr>rg_extraHeaders := hs\<rparr>) = rg_inv ci s"
  "rg_inv ci (s\<lparr>rg_extraContactParams := ps\<rparr>) = rg_inv ci s"
  by (simp_all add: rg_inv_def timers_ok_def numbers_ok_def)

lemma rg_inv_emit [simp]:
  "requests_of [e] = [] \<Longrightarrow> rg_inv ci (rg_emit e s) = rg_inv ci s"
  by (simp add: rg_inv_def timers_ok_def numbers_ok_def rg_emit_def)

lemma rg_inv_failure [simp]: "rg_inv ci (registrationFailure r c s) = rg_inv ci s"
  by (simp add: registrationFailure_def Let_def)

lemma rg_inv_unregistered [simp]: "rg_inv ci (rg_unregistered r c s) = rg_inv ci s"
  by (simp add: rg_unregistered_def)

lemma timers_cleared: "timers_ok s \<Longrightarrow> rg_pending (rg_clear_timer s) = [] \<and> rg_registrationTimer (rg_clear_timer s) = None"
  by (auto simp: timers_ok_def rg_clear_timer_def split: option.splits)

lemma clear_fields [simp]:
  "rg_log (rg_clear_timer s) = rg_log s" "rg_cseq (rg_clear_timer s) = rg_cseq s"
  "rg_call_id (rg_clear_timer s) = rg_call_id s" "rg_registered (rg_clear_timer s) = rg_registered s"
  "rg_registering (rg_clear_timer s) = rg_registering s" "rg_expires (rg_clear_timer s) = rg_expires s"
  "rg_sipInstance (rg_clear_timer s) = rg_sipInstance s" "rg_contact_user (rg_clear_timer s) = rg_contact_user s"
  by (simp_all add: rg_clear_timer_def split: option.splits)

lemma rg_inv_clear [simp]: "rg_inv ci s \<Longrightarrow> rg_inv ci (rg_clear_timer s)"
  using timers_cleared [of s] by (simp add: rg_inv_def timers_ok_def numbers_ok_def)

lemma rg_inv_next: "rg_inv ci s \<Longrightarrow> rg_inv ci (s\<lparr>rg_cseq := rg_cseq s + 1\<rparr>)"
  by (auto simp: rg_inv_def timers_ok_def numbers_ok_def list_all_iff)

text \<open>A request made after the sequence number was increased keeps the invariant.\<close>

lemma rg_request_fields:
  assumes "rg_make_request env hs s = Inr r" "rg_call_id s \<noteq> []" "0 < rg_cseq s"
  shows "or_cseq r = rg_cseq s" "or_call_id r = rg_call_id s" "or_method r = REGISTER"
  using assms unfolding rg_make_request_def
  by (auto elim!: new_out_request_headers simp: new_cseq_def new_call_id_def rg_params_def no_params_def str_or_def)

definition fresh_number :: "registrator \<Rightarrow> bool" where
  "fresh_number s = list_all (\<lambda>r. or_cseq r < rg_cseq s) (requests_of (rg_log s))"

lemma fresh_next: "rg_inv ci s \<Longrightarrow> fresh_number (s\<lparr>rg_cseq := rg_cseq s + 1\<rparr>)"
  by (auto simp: rg_inv_def numbers_ok_def fresh_number_def list_all_iff less_Suc_eq_le)

lemma fresh_fields [simp]:
  "fresh_number (s\<lparr>rg_registering := b\<rparr>) = fresh_number s" "fresh_number (s\<lparr>rg_registered := b\<rparr>) = fresh_number s"
  "requests_of [e] = [] \<Longrightarrow> fresh_number (rg_emit e s) = fresh_number s"
  by (simp_all add: fresh_number_def rg_emit_def)

lemma fresh_outcome [simp]:
  "fresh_number (registrationFailure r c s) = fresh_number s" "fresh_number (rg_unregistered r c' s) = fresh_number s"
  by (simp_all add: registrationFailure_def rg_unregistered_def Let_def)

lemma rg_inv_request:
  assumes "rg_inv ci s" "fresh_number s" "or_cseq r = rg_cseq s" "or_call_id r = ci" "or_method r = REGISTER"
  shows "rg_inv ci (rg_emit (Rg_Request r) s)"
  using assms
  by (auto simp: rg_inv_def timers_ok_def numbers_ok_def rg_emit_def fresh_number_def sorted_wrt_append list_all_iff)

lemma outcome_fields [simp]:
  "rg_cseq (registrationFailure r c s) = rg_cseq s" "rg_call_id (registrationFailure r c s) = rg_call_id s"
  "rg_cseq (rg_unregistered r c' s) = rg_cseq s" "rg_call_id (rg_unregistered r c' s) = rg_call_id s"
  "rg_pending (registrationFailure r c s) = rg_pending s" "rg_pending (rg_unregistered r c' s) = rg_pending s"
  by (simp_all add: registrationFailure_def rg_unregistered_def rg_emit_def Let_def)

lemma rg_inv_register: "rg_inv ci s \<Longrightarrow> rg_inv ci (snd (register env s))"
proof -
  assume i: "rg_inv ci s"
  let ?s = "s\<lparr>rg_cseq := rg_cseq s + 1\<rparr>"
  have n: "rg_inv ci ?s" "fresh_number ?s" "rg_call_id ?s \<noteq> []" "0 < rg_cseq ?s" "rg_call_id ?s = ci"
    using i rg_inv_next [OF i] fresh_next [OF i] by (auto simp: rg_inv_def numbers_ok_def)
  show ?thesis
  proof (cases "rg_make_request env (register_headers s) ?s")
    case (Inl e)
    then show ?thesis using i n by (auto simp: register_def Let_def)
  next
    case (Inr r)
    let ?q = "(if re_user_closed env then registrationFailure None C_CONNECTION_ERROR ?s else ?s)\<lparr>rg_registering := True\<rparr>"
    have "rg_inv ci (rg_emit (Rg_Request r) ?q)"
      by (rule rg_inv_request) (use n rg_request_fields [OF Inr n(3,4)] in auto)
    then show ?thesis using i Inr by (auto simp: register_def Let_def)
  qed
qed

lemma rg_inv_unregister: "rg_inv ci s \<Longrightarrow> rg_inv ci (snd (unregister env all s))"
proof -
  assume i: "rg_inv ci s"
  define c where "c = rg_clear_timer (s\<lparr>rg_registered := False\<rparr>)"
  have ic: "rg_inv ci c" using i by (simp add: c_def)
  let ?s = "c\<lparr>rg_cseq := rg_cseq c + 1\<rparr>"
  have n: "rg_inv ci ?s" "fresh_number ?s" "rg_call_id ?s \<noteq> []" "0 < rg_cseq ?s" "rg_call_id ?s = ci"
    using ic rg_inv_next [OF ic] fresh_next [OF ic] by (auto simp: rg_inv_def numbers_ok_def)
  have u: "unregister env all s =
     (if \<not> rg_registered s then (None, s)
      else case rg_make_request env (unregister_headers all c) ?s of
              Inl e \<Rightarrow> (Some e, ?s)
            | Inr request \<Rightarrow>
                (let s = (if re_user_closed env then rg_unregistered None (Some C_CONNECTION_ERROR) ?s else ?s);
                     s = rg_emit (Rg_Request request) s
                 in (None, if re_sent env then s else rg_unregistered None (Some C_CONNECTION_ERROR) s)))"
    unfolding unregister_def c_def Let_def by (rule refl)
  show ?thesis
  proof (cases "rg_make_request env (unregister_headers all c) ?s")
    case (Inl e)
    then show ?thesis using i n by (simp add: u)
  next
    case (Inr r)
    let ?q = "if re_user_closed env then rg_unregistered None (Some C_CONNECTION_ERROR) ?s else ?s"
    have "rg_inv ci (rg_emit (Rg_Request r) ?q)"
      by (rule rg_inv_request) (use n rg_request_fields [OF Inr n(3,4)] in auto)
    then show ?thesis using i Inr by (simp add: u Let_def)
  qed
qed

lemma rg_inv_setTimeout:
  "rg_inv ci s \<Longrightarrow> rg_pending s = [] \<Longrightarrow> rg_inv ci (rg_setTimeout d s)"
  by (auto simp: rg_inv_def timers_ok_def numbers_ok_def rg_setTimeout_def)

lemma rg_inv_gruu: "save_gruu c s = (e, s') \<Longrightarrow> rg_inv ci s' = rg_inv ci s"
  by (auto simp: save_gruu_def Let_def split: sum.splits)

lemma rg_inv_2xx:
  assumes "rg_inv ci s" "rg_pending s = []"
  shows "rg_inv ci (snd (register_2xx env r s))"
proof -
  have "rg_inv ci (rg_setTimeout d (s\<lparr>rg_registering := False\<rparr>))" for d
    using assms by (simp add: rg_inv_setTimeout)
  then show ?thesis using assms(1)
    by (auto simp: register_2xx_def Let_def split: sum.splits option.splits prod.splits dest: rg_inv_gruu)
qed

lemma rg_inv_423: "rg_inv ci s \<Longrightarrow> rg_inv ci (snd (register_423 env r s))"
  by (simp add: register_423_def rg_inv_register)

lemma rg_inv_response: "rg_inv ci s \<Longrightarrow> rg_inv ci (snd (register_onReceiveResponse env r s))"
  using timers_cleared [of s]
  by (auto simp: register_onReceiveResponse_def Let_def rg_inv_def [of ci s] rg_inv_423 intro!: rg_inv_2xx rg_inv_423 rg_inv_clear)

lemma rg_inv_fire:
  assumes "rg_inv ci s" "h \<in> fst ` set (rg_pending s)"
  shows "rg_inv ci (snd (rg_fire env h s))"
proof -
  have "map fst (rg_pending s) = [h]"
    using assms by (auto simp: rg_inv_def timers_ok_def split: option.splits)
  then have "filter (\<lambda>(k, _). k \<noteq> h) (rg_pending s) = []" by (cases "rg_pending s") auto
  then have "rg_inv ci (s\<lparr>rg_pending := filter (\<lambda>(k, _). k \<noteq> h) (rg_pending s), rg_registrationTimer := None\<rparr>)"
    using assms(1) by (simp add: rg_inv_def timers_ok_def numbers_ok_def)
  then show ?thesis by (simp add: rg_fire_def Let_def rg_inv_register)
qed

lemma rg_inv_step: "rg_step s s' \<Longrightarrow> rg_inv ci s \<Longrightarrow> rg_inv ci s'"
  by (erule rg_stepE)
    (auto simp: rg_inv_register rg_inv_unregister rg_inv_response rg_inv_next rg_inv_fire setExtraHeaders_def
      setExtraContactParams_def rg_close_def onTransportClosed_def rg_onAuthenticated_def register_onRequestTimeout_def
      register_onTransportError_def unregister_onRequestTimeout_def unregister_onTransportError_def
      unregister_onReceiveResponse_def Let_def
      simp del: Suc_eq_plus1 One_nat_def add_Suc_right)

lemma rg_inv_run: "rg_run s s' \<Longrightarrow> rg_inv ci s \<Longrightarrow> rg_inv ci s'"
  by (induction rule: rtranclp_induct) (auto intro: rg_inv_step)

lemma rg_inv_new:
  "rg_inv (createRandomToken 22 32 rnd) (new_registrator cfg registrar e ii c u rnd)"
  by (simp add: rg_inv_def timers_ok_def numbers_ok_def new_registrator_def Let_def createRandomToken_not_Nil)

section \<open>Properties\<close>

text \<open>Whatever the order of calls, responses and timers, the REGISTER requests of a registrator
  have strictly increasing sequence numbers and one Call-ID, as RFC 3261 10.2 asks of a client, and
  at most one refresh timer is pending; none is once the transport is closed.\<close>

theorem register_sequence:
  assumes "rg_run (new_registrator cfg registrar e ii contact user rnd) s"
  shows "sorted_wrt (\<lambda>r q. or_cseq r < or_cseq q) (requests_of (rg_log s))
    \<and> list_all (\<lambda>r. or_call_id r = createRandomToken 22 32 rnd \<and> or_method r = REGISTER) (requests_of (rg_log s))
    \<and> length (rg_pending s) \<le> 1 \<and> rg_pending (onTransportClosed s) = []"
proof -
  have i: "rg_inv (createRandomToken 22 32 rnd) s" by (rule rg_inv_run [OF assms rg_inv_new])
  then have "map fst (rg_pending s) = (case rg_registrationTimer s of None \<Rightarrow> [] | Some h \<Rightarrow> [h])"
    by (simp add: rg_inv_def timers_ok_def)
  from arg_cong [OF this, of length] have "length (rg_pending s) \<le> 1" by (simp split: option.splits)
  moreover have "timers_ok (s\<lparr>rg_registering := False\<rparr>)" using i by (simp add: rg_inv_def timers_ok_def)
  then have "rg_pending (onTransportClosed s) = []"
    by (simp add: onTransportClosed_def Let_def timers_cleared rg_emit_def)
  ultimately show ?thesis using i by (auto simp: rg_inv_def numbers_ok_def list_all_iff)
qed

definition demo_registrator :: registrator where
  "demo_registrator = new_registrator demo_cfg demo_uri 600 ''i'' ''<sip:h>'' None (\<lambda>i. 0)"

definition demo_rg_env :: rg_env where
  "demo_rg_env = \<lparr>re_cfg = demo_cfg, re_draws = demo_draws, re_random = 1 / 2, re_user_closed = False,
     re_sent = True, re_listeners = 0\<rparr>"

theorem register_sequence_witness:
  "length (rg_pending (snd (register demo_rg_env demo_registrator))) \<le> 1"
  using register_sequence [of demo_cfg demo_uri 600 "''i''" "''<sip:h>''" None "\<lambda>i. 0"
      "snd (register demo_rg_env demo_registrator)"] rg_step_register [of demo_registrator demo_rg_env]
  by (simp add: demo_registrator_def r_into_rtranclp)

lemma own_contact_cong:
  "rg_sipInstance s' = rg_sipInstance s \<Longrightarrow> rg_contact_user s' = rg_contact_user s \<Longrightarrow>
    own_contact r s' = own_contact r s"
proof -
  assume "rg_sipInstance s' = rg_sipInstance s" "rg_contact_user s' = rg_contact_user s"
  then have "instance_matches s' = instance_matches s" "user_matches s' = user_matches s"
    by (auto simp: fun_eq_iff instance_matches_def user_matches_def)
  then show ?thesis by (simp add: own_contact_def cong: option.case_cong)
qed

lemma granted_expires_cong: "rg_expires s' = rg_expires s \<Longrightarrow> granted_expires r c s' = granted_expires r c s"
  by (simp add: granted_expires_def Let_def)

lemma granted_ge: "granted_expires r c s = Num e \<Longrightarrow> 10 \<le> e"
  by (auto simp: granted_expires_def clamp_expires_def MIN_REGISTER_EXPIRES_def Let_def not_less split: if_splits)

lemma refresh_bounds:
  assumes "10 \<le> e" "is_random u"
  shows "\<exists>d. refresh_timeout u (Num e) = Num d \<and> 5000 \<le> d \<and> d \<le> e * 1000 - 5000 \<and> (if 64 < e then e * 500 \<le> d else True)"
proof (cases "64 < e")
  case True
  let ?x = "(e / 2 - 32) * 1000"
  define k where "k = \<lfloor>?x * u\<rfloor>"
  have x: "0 \<le> ?x * u" "?x * u \<le> ?x"
    using True assms(2) by (auto simp: is_random_def intro!: mult_left_le)
  have "(0 :: real) \<le> of_int k" using x(1) unfolding k_def by (simp only: zero_le_floor of_int_0_le_iff)
  moreover have "of_int k \<le> ?x" using x(2) of_int_floor_le [of "?x * u"] unfolding k_def by linarith
  moreover have "refresh_timeout u (Num e) = Num (e * 1000 / 2 + of_int k)" using True by (simp only: refresh_timeout.simps k_def if_True)
  ultimately show ?thesis using True by (intro exI [of _ "e * 1000 / 2 + of_int k"]) auto
next
  case False
  then show ?thesis using assms(1) by simp
qed

lemma gruu_timers: "save_gruu c s = (e, s') \<Longrightarrow> rg_pending s' = rg_pending s \<and> rg_registrationTimer s' = rg_registrationTimer s"
  by (auto simp: save_gruu_def Let_def split: sum.splits)


definition demo_200 :: in_response where
  "demo_200 =
     \<lparr>im_headers = [(''Contact'', [\<lparr>hf_raw = ''<sip:h>;expires=100'',
        hf_parsed = Some (P_NameAddr \<lparr>na_uri = demo_uri, na_display_name = None, na_parameters = [(''expires'', Some ''100'')]\<rparr>)\<rparr>])], im_data = [], im_method = REGISTER, im_via_branch = Some ''z'', im_call_id = ''c'', im_cseq = 0, im_from_tag = Some ''f'',
      im_to_tag = Some ''t'', im_body = None, im_from = None, im_to = None, im_session_expires = None, im_session_expires_refresher = None,
      im_refer_to = None, im_replaces = None, im_event = None, im_status_code = 200, im_reason_phrase = ''OK''\<rparr>"


text \<open>The code means to register again with the longer interval a 423 response asks for, but the
  registrator still counts the refused request as in progress: nothing is sent, and every later
  \<open>register()\<close> is ignored as well.\<close>

theorem interval_too_brief_stuck:
  assumes "rg_registering s" "im_cseq r = rg_cseq s" "im_status_code r = 423" "im_hasHeader ''min-expires'' r"
  shows "rg_log (snd (register_onReceiveResponse env r s)) = rg_log s
    \<and> rg_registering (snd (register_onReceiveResponse env r s))
    \<and> register env' (snd (register_onReceiveResponse env r s)) = (None, snd (register_onReceiveResponse env r s))"
  using assms by (simp add: register_onReceiveResponse_def register_423_def register_def is_1xx_def is_2xx_def Let_def)

definition demo_423 :: in_response where
  "demo_423 = demo_200\<lparr>im_headers := [(''Min-Expires'', [raw_field ''900''])], im_cseq := 1, im_status_code := 423\<rparr>"

theorem interval_too_brief_stuck_witness:
  "register demo_rg_env (snd (register_onReceiveResponse demo_rg_env demo_423 (demo_registrator\<lparr>rg_registering := True, rg_cseq := 1\<rparr>)))
   = (None, snd (register_onReceiveResponse demo_rg_env demo_423 (demo_registrator\<lparr>rg_registering := True, rg_cseq := 1\<rparr>)))"
proof -
  have h: "headerize ''min-expires'' = ''Min-Expires''" by code_simp
  show ?thesis
    by (rule interval_too_brief_stuck [THEN conjunct2, THEN conjunct2])
      (simp_all add: demo_423_def demo_200_def im_hasHeader_def h obj_has_def)
qed

end
