(* ===== verification/Parser.thy ===== *)
theory Parser
  imports Js_Number Sip_Message
begin

text \<open>
  The module \<open>Parser\<close> (lines 17000-17330 of \<open>frontend/static/js/jssip-3.10.0.js\<close>): the framing of a
  SIP message into lines, and what is done with each header.  The generated grammar is the
  parameter \<open>sip_grammar\<close>.  A message under construction has its fields \<open>null\<close>, here
  \<open>None\<close>, until their header was parsed.
\<close>

section \<open>The grammar\<close>

text \<open>
  What the rule of the first line returns, and one element of the lists that the rules
  \<open>Contact\<close> and \<open>Record_Route\<close> return (with the key spelt \<open>possition\<close> in the source).
\<close>

record first_line =
  fl_method :: "string option"
  fl_uri :: "uri option"
  fl_status_code :: "nat option"
  fl_reason_phrase :: "string option"

record multi_header =
  mh_possition :: nat
  mh_offset :: nat
  mh_parsed :: "parsed option"

record sip_grammar =
  g_first_line :: "string \<Rightarrow> first_line option"
  g_header :: grammar
  g_contact :: "string \<Rightarrow> multi_header list option"
  g_record_route :: "string \<Rightarrow> multi_header list option"

section \<open>A message under construction\<close>

record raw_message = in_table +
  rm_is_response :: bool
  rm_data :: string
  rm_method :: "string option"
  rm_ruri :: "uri option"
  rm_status_code :: "nat option"
  rm_reason_phrase :: "string option"
  rm_via :: "parsed option"
  rm_via_branch :: "string option"
  rm_call_id :: "string option"
  rm_cseq :: "nat option"
  rm_from :: "parsed option"
  rm_from_tag :: "string option"
  rm_to :: "parsed option"
  rm_to_tag :: "string option"
  rm_body :: "string option"
  rm_session_expires :: "nat option"
  rm_session_expires_refresher :: "string option"
  rm_refer_to :: "parsed option"
  rm_replaces :: "parsed option"
  rm_event :: "parsed option"

definition new_message :: "first_line \<Rightarrow> string \<Rightarrow> raw_message" where
  "new_message fl data =
     (let request = (fl_status_code fl = None \<or> fl_status_code fl = Some 0) in
      \<lparr>im_headers = [], rm_is_response = (\<not> request), rm_data = data,
       rm_method = (if request then fl_method fl else None),
       rm_ruri = (if request then fl_uri fl else None),
       rm_status_code = (if request then None else fl_status_code fl),
       rm_reason_phrase = (if request then None else fl_reason_phrase fl),
       rm_via = None, rm_via_branch = None, rm_call_id = None, rm_cseq = None, rm_from = None,
       rm_from_tag = None, rm_to = None, rm_to_tag = None, rm_body = None, rm_session_expires = None,
       rm_session_expires_refresher = None, rm_refer_to = None, rm_replaces = None, rm_event = None\<rparr>)"

section \<open>The end of a header\<close>

datatype header_end = Malformed | End_of_message | Header_end nat

definition at_crlf :: "string \<Rightarrow> nat \<Rightarrow> bool" where
  "at_crlf data i = (js_substring data i (i + 2) = crlf)"

definition at_space :: "string \<Rightarrow> nat \<Rightarrow> bool" where
  "at_space data i = (i < length data \<and> is_space (data ! i))"

lemma index_from_length: "index_from p i s = Some k \<Longrightarrow> k + length p \<le> i + length s"
proof (induction p i s rule: index_from.induct)
  case (2 p i c cs)
  then show ?case by (auto simp: starts_with_iff split: if_splits dest: arg_cong [where f = length])
qed (auto split: if_splits)

lemma index_crlf:
  "index_of data crlf start = Some p \<Longrightarrow> start \<le> p \<and> p + 2 \<le> length data"
proof -
  assume i: "index_of data crlf start = Some p"
  then have "drop start data \<noteq> []" by (auto simp: index_of_def crlf_def)
  then have "start < length data" by simp
  with i index_from_length [of crlf start "drop start data" p] show ?thesis
    by (auto simp: index_of_def crlf_def dest: index_from_ge)
qed

text \<open>The loop of \<open>getHeader\<close>: a line break before white space, but not before an empty line, folds the header.\<close>

function header_end_from :: "string \<Rightarrow> nat \<Rightarrow> header_end" where
  "header_end_from data start =
     (case index_of data crlf start of
        None \<Rightarrow> Malformed
      | Some partialEnd \<Rightarrow>
          if \<not> at_crlf data (partialEnd + 2) \<and> at_space data (partialEnd + 2)
          then header_end_from data (partialEnd + 2)
          else Header_end partialEnd)"
  by auto
termination
  by (relation "measure (\<lambda>(data, start). length data - start)") (auto dest: index_crlf)

declare header_end_from.simps [simp del]

definition parser_getHeader :: "string \<Rightarrow> nat \<Rightarrow> header_end" where
  "parser_getHeader data headerStart =
     (if at_crlf data headerStart then End_of_message else header_end_from data headerStart)"

lemma header_end_bounds: "header_end_from data start = Header_end e \<Longrightarrow> start \<le> e \<and> e + 2 \<le> length data"
proof (induction data start rule: header_end_from.induct)
  case (1 data start)
  then show ?case
    by (subst (asm) (2) header_end_from.simps)
      (auto split: option.splits if_splits dest: index_crlf)
qed

section \<open>One header\<close>

text \<open>What \<open>if (parsed)\<close> tells of a parsed header.\<close>

fun parsed_truthy :: "parsed \<Rightarrow> bool" where
  "parsed_truthy (P_Number n) = (n \<noteq> 0)"
| "parsed_truthy (P_Text t) = (t \<noteq> [])"
| "parsed_truthy _ = True"

fun parsed_branch :: "parsed \<Rightarrow> string option" where
  "parsed_branch (P_Via branch _ _) = branch"
| "parsed_branch _ = None"

text \<open>\<open>parsed.getParam('tag')\<close>; no value and no parameter are both \<open>None\<close>.\<close>

fun parsed_tag :: "parsed \<Rightarrow> js_error + string option" where
  "parsed_tag (P_NameAddr h) = Inr (case na_getParam ''tag'' h of None \<Rightarrow> None | Some v \<Rightarrow> v)"
| "parsed_tag _ = Inl (TypeError ''parsed.getParam is not a function'')"

fun parsed_cseq :: "parsed \<Rightarrow> nat option" where
  "parsed_cseq (P_CSeq n _) = Some n"
| "parsed_cseq _ = None"

fun parsed_method :: "parsed \<Rightarrow> string option" where
  "parsed_method (P_CSeq _ m) = Some m"
| "parsed_method _ = None"

fun parsed_expires :: "parsed \<Rightarrow> nat option \<times> string option" where
  "parsed_expires (P_SessionExpires e r) = (Some e, r)"
| "parsed_expires _ = (None, None)"

text \<open>\<open>setHeader\<close> and \<open>parseHeader\<close> of a header that may appear once.\<close>

definition put_header ::
    "sip_grammar \<Rightarrow> string \<Rightarrow> string \<Rightarrow> raw_message \<Rightarrow> parsed option \<times> raw_message" where
  "put_header g name value m = im_parseHeader (g_header g) name 0 (im_setHeader name value m)"

definition put_via :: "sip_grammar \<Rightarrow> string \<Rightarrow> raw_message \<Rightarrow> bool \<times> raw_message" where
  "put_via g value m =
     (let m = im_addHeader ''via'' value m in
      if length (im_getHeaders ''via'' m) = 1
      then (case im_parseHeader (g_header g) ''Via'' 0 m of
              (None, m) \<Rightarrow> (False, m)
            | (Some p, m) \<Rightarrow>
                (True, if parsed_truthy p then m\<lparr>rm_via := Some p, rm_via_branch := parsed_branch p\<rparr> else m))
      else (True, m))"

definition put_from :: "sip_grammar \<Rightarrow> string \<Rightarrow> raw_message \<Rightarrow> js_error + bool \<times> raw_message" where
  "put_from g value m =
     (case put_header g ''from'' value m of
        (None, m) \<Rightarrow> Inr (False, m)
      | (Some p, m) \<Rightarrow>
          if parsed_truthy p
          then bind_result (parsed_tag p) (\<lambda>t. Inr (True, m\<lparr>rm_from := Some p, rm_from_tag := t\<rparr>))
          else Inr (True, m))"

definition put_to :: "sip_grammar \<Rightarrow> string \<Rightarrow> raw_message \<Rightarrow> js_error + bool \<times> raw_message" where
  "put_to g value m =
     (case put_header g ''to'' value m of
        (None, m) \<Rightarrow> Inr (False, m)
      | (Some p, m) \<Rightarrow>
          if parsed_truthy p
          then bind_result (parsed_tag p) (\<lambda>t. Inr (True, m\<lparr>rm_to := Some p, rm_to_tag := t\<rparr>))
          else Inr (True, m))"

text \<open>One element of a Contact or Record-Route header.\<close>

definition put_element :: "string \<Rightarrow> string \<Rightarrow> multi_header \<Rightarrow> raw_message \<Rightarrow> raw_message" where
  "put_element name value h m =
     (let m = im_addHeader name (js_substring value (mh_possition h) (mh_offset h)) m;
          hs = (case obj_get (im_headers m) (headerize name) of None \<Rightarrow> [] | Some hs \<Rightarrow> hs);
          i = length (im_getHeaders name m) - 1
      in m\<lparr>im_headers := obj_put (headerize name) (hs[i := (hs ! i)\<lparr>hf_parsed := mh_parsed h\<rparr>]) (im_headers m)\<rparr>)"

definition put_multi ::
    "(string \<Rightarrow> multi_header list option) \<Rightarrow> string \<Rightarrow> string \<Rightarrow> raw_message \<Rightarrow> bool \<times> raw_message" where
  "put_multi parse name value m =
     (case parse value of
        None \<Rightarrow> (False, m)
      | Some hs \<Rightarrow> (True, fold (put_element name value) hs m))"

definition put_call_id :: "sip_grammar \<Rightarrow> string \<Rightarrow> raw_message \<Rightarrow> bool \<times> raw_message" where
  "put_call_id g value m =
     (case put_header g ''call-id'' value m of
        (None, m) \<Rightarrow> (False, m)
      | (Some p, m) \<Rightarrow> (True, if parsed_truthy p then m\<lparr>rm_call_id := Some value\<rparr> else m))"

text \<open>A response reads \<open>parsed.method\<close> even when the header did not parse.\<close>

definition put_cseq :: "sip_grammar \<Rightarrow> string \<Rightarrow> raw_message \<Rightarrow> js_error + bool \<times> raw_message" where
  "put_cseq g value m =
     (case put_header g ''cseq'' value m of
        (None, m) \<Rightarrow>
          if rm_is_response m then Inl (TypeError ''Cannot read property method of undefined'') else Inr (False, m)
      | (Some p, m) \<Rightarrow>
          (let m = (if parsed_truthy p then m\<lparr>rm_cseq := parsed_cseq p\<rparr> else m) in
           Inr (True, if rm_is_response m then m\<lparr>rm_method := parsed_method p\<rparr> else m)))"

definition put_checked :: "sip_grammar \<Rightarrow> string \<Rightarrow> string \<Rightarrow> (parsed \<Rightarrow> raw_message \<Rightarrow> raw_message) \<Rightarrow> raw_message \<Rightarrow> bool \<times> raw_message" where
  "put_checked g name value store m =
     (case put_header g name value m of
        (None, m) \<Rightarrow> (False, m)
      | (Some p, m) \<Rightarrow> (True, if parsed_truthy p then store p m else m))"

text \<open>The \<open>switch\<close> of \<open>parseHeader\<close>; the flag says that \<open>parsed\<close> is not \<open>undefined\<close>.\<close>

definition put_field :: "sip_grammar \<Rightarrow> string \<Rightarrow> string \<Rightarrow> raw_message \<Rightarrow> js_error + bool \<times> raw_message" where
  "put_field g name value m =
     (let n = to_lower name in
      if n = ''via'' \<or> n = ''v'' then Inr (put_via g value m)
      else if n = ''from'' \<or> n = ''f'' then put_from g value m
      else if n = ''to'' \<or> n = ''t'' then put_to g value m
      else if n = ''record-route'' then Inr (put_multi (g_record_route g) ''record-route'' value m)
      else if n = ''call-id'' \<or> n = ''i'' then Inr (put_call_id g value m)
      else if n = ''contact'' \<or> n = ''m'' then Inr (put_multi (g_contact g) ''contact'' value m)
      else if n = ''content-length'' \<or> n = ''l'' then Inr (put_checked g ''content-length'' value (\<lambda>p m. m) m)
      else if n = ''content-type'' \<or> n = ''c'' then Inr (put_checked g ''content-type'' value (\<lambda>p m. m) m)
      else if n = ''cseq'' then put_cseq g value m
      else if n = ''max-forwards'' \<or> n = ''www-authenticate'' \<or> n = ''proxy-authenticate''
        then Inr (put_checked g n value (\<lambda>p m. m) m)
      else if n = ''session-expires'' \<or> n = ''x'' then
        Inr (put_checked g ''session-expires'' value
          (\<lambda>p m. m\<lparr>rm_session_expires := fst (parsed_expires p), rm_session_expires_refresher := snd (parsed_expires p)\<rparr>) m)
      else if n = ''refer-to'' \<or> n = ''r'' then
        Inr (put_checked g ''refer-to'' value (\<lambda>p m. m\<lparr>rm_refer_to := Some p\<rparr>) m)
      else if n = ''replaces'' then
        Inr (put_checked g ''replaces'' value (\<lambda>p m. m\<lparr>rm_replaces := Some p\<rparr>) m)
      else if n = ''event'' \<or> n = ''o'' then
        Inr (put_checked g ''event'' value (\<lambda>p m. m\<lparr>rm_event := Some p\<rparr>) m)
      else Inr (True, im_addHeader name value m))"

text \<open>
  \<open>indexOf\<close> returns -1 where there is no colon; \<open>substring\<close> takes that as 0 and exchanges its
  arguments when the first is the greater.
\<close>

definition parser_parseHeader ::
    "sip_grammar \<Rightarrow> string \<Rightarrow> nat \<Rightarrow> nat \<Rightarrow> raw_message \<Rightarrow> js_error + bool \<times> raw_message" where
  "parser_parseHeader g data headerStart headerEnd m =
     (let hcolonIndex = index_of data '':'' headerStart;
          headerName = js_trim (js_substring data headerStart (case hcolonIndex of None \<Rightarrow> 0 | Some i \<Rightarrow> i));
          headerValue = js_trim (js_substring data (case hcolonIndex of None \<Rightarrow> 0 | Some i \<Rightarrow> Suc i) headerEnd)
      in put_field g headerName headerValue m)"

section \<open>The message\<close>

text \<open>The loop over the headers: where the body starts, with the message.  \<open>Inr None\<close> is \<open>undefined\<close>.\<close>

function parse_headers ::
    "sip_grammar \<Rightarrow> string \<Rightarrow> nat \<Rightarrow> raw_message \<Rightarrow> js_error + (nat \<times> raw_message) option" where
  "parse_headers g data headerStart m =
     (case parser_getHeader data headerStart of
        End_of_message \<Rightarrow> Inr (Some (headerStart + 2, m))
      | Malformed \<Rightarrow> Inr None
      | Header_end headerEnd \<Rightarrow>
          (case parser_parseHeader g data headerStart headerEnd m of
             Inl e \<Rightarrow> Inl e
           | Inr (False, m) \<Rightarrow> Inr None
           | Inr (True, m) \<Rightarrow> parse_headers g data (headerEnd + 2) m))"
  by auto
termination
  by (relation "measure (\<lambda>(g, data, start, m). length data - start)")
    (auto simp: parser_getHeader_def dest!: header_end_bounds split: if_splits)

declare parse_headers.simps [simp del]

text \<open>\<open>data.substr(bodyStart, contentLength)\<close> with the string of the header.\<close>

definition cut_body :: "string option \<Rightarrow> string \<Rightarrow> string" where
  "cut_body contentLength rest =
     (case contentLength of
        None \<Rightarrow> rest
      | Some s \<Rightarrow>
          (case js_Number s of
             NaN \<Rightarrow> []
           | Num x \<Rightarrow> take (nat \<lfloor>x\<rfloor>) rest
           | Infinite p \<Rightarrow> if p then rest else []))"

definition set_body :: "string \<Rightarrow> nat \<Rightarrow> raw_message \<Rightarrow> raw_message" where
  "set_body data bodyStart m =
     m\<lparr>rm_body := Some (if im_hasHeader ''content-length'' m
        then cut_body (im_getHeader ''content-length'' m) (drop bodyStart data) else drop bodyStart data)\<rparr>"

definition parseMessage :: "sip_grammar \<Rightarrow> string \<Rightarrow> js_error + raw_message option" where
  "parseMessage g data =
     (case index_of data crlf 0 of
        None \<Rightarrow> Inr None
      | Some headerEnd \<Rightarrow>
          (case g_first_line g (js_substring data 0 headerEnd) of
             None \<Rightarrow> Inr None
           | Some fl \<Rightarrow>
               bind_result (parse_headers g data (headerEnd + 2) (new_message fl data)) (\<lambda>r.
                 Inr (case r of None \<Rightarrow> None | Some (bodyStart, m) \<Rightarrow> Some (set_body data bodyStart m)))))"

section \<open>Reading back the frame of a message\<close>

definition field_text :: "string \<times> string \<Rightarrow> string" where
  "field_text f = fst f @ '': '' @ snd f @ crlf"

lemma field_text_pair: "field_text (n, v) = n @ '': '' @ v @ crlf"
  by (simp add: field_text_def)

lemma length_crlf: "length crlf = 2"
  by (simp add: crlf_def)

definition message_text :: "string \<Rightarrow> (string \<times> string) list \<Rightarrow> string \<Rightarrow> string" where
  "message_text first fs body = first @ crlf @ concat (map field_text fs) @ crlf @ body"

definition cr :: char where "cr = CHR 0x0D"

text \<open>A field that can be put on a line: a name without space or colon, a trimmed value without carriage return.\<close>

definition line_ok :: "string \<times> string \<Rightarrow> bool" where
  "line_ok f = (header_name (fst f) \<and> cr \<notin> set (snd f) \<and> js_trim (snd f) = snd f)"

fun put_fields :: "sip_grammar \<Rightarrow> (string \<times> string) list \<Rightarrow> raw_message \<Rightarrow> js_error + raw_message option" where
  "put_fields g [] m = Inr (Some m)"
| "put_fields g ((n, v) # fs) m =
     (case put_field g n v m of
        Inl e \<Rightarrow> Inl e
      | Inr (False, m) \<Rightarrow> Inr None
      | Inr (True, m) \<Rightarrow> put_fields g fs m)"

lemma index_from_crlf: "cr \<notin> set l \<Longrightarrow> index_from crlf i (l @ crlf @ r) = Some (i + length l)"
  by (induction l arbitrary: i) (auto simp: crlf_def cr_def)

lemma index_of_crlf:
  "cr \<notin> set l \<Longrightarrow> index_of (pre @ l @ crlf @ r) crlf (length pre) = Some (length pre + length l)"
  by (simp add: index_of_def index_from_crlf)

lemma index_from_colon: "CHR '':'' \<notin> set n \<Longrightarrow> index_from '':'' i (n @ CHR '':'' # r) = Some (i + length n)"
  by (induction n arbitrary: i) auto

lemma cr_is_space: "is_space cr"
  by (simp add: cr_def is_space_def char_code_def)

lemma header_name_chars:
  assumes "header_name n"
  shows "cr \<notin> set n" "CHR '':'' \<notin> set n" "js_trim n = n" "n \<noteq> []" "\<not> is_space (hd n)"
proof -
  have all: "\<And>c. c \<in> set n \<Longrightarrow> \<not> is_space c \<and> c \<noteq> CHR '':''" and n: "n \<noteq> []"
    using assms by (auto simp: header_name_def name_char_def list_all_iff)
  show "cr \<notin> set n" "CHR '':'' \<notin> set n" using all cr_is_space by auto
  show "n \<noteq> []" by (rule n)
  show "\<not> is_space (hd n)" using all n by auto
  have d: "dropWhile is_space xs = xs" if "\<And>c. c \<in> set xs \<Longrightarrow> \<not> is_space c" for xs
    using that by (cases xs) auto
  show "js_trim n = n" using d [of n] d [of "rev n"] all by (auto simp: js_trim_def)
qed

lemma at_crlf_app: "at_crlf (pre @ crlf @ r) (length pre)"
  by (simp add: at_crlf_def js_substring_def crlf_def)

lemma at_crlf_hd: "s \<noteq> [] \<Longrightarrow> hd s \<noteq> cr \<Longrightarrow> \<not> at_crlf (pre @ s) (length pre)"
  by (cases s) (auto simp: at_crlf_def js_substring_def crlf_def cr_def)

lemma at_space_app: "at_space (pre @ s) (length pre) = (s \<noteq> [] \<and> is_space (hd s))"
  by (cases s) (auto simp: at_space_def nth_append)

text \<open>The text after a header line: the next field or the empty line.\<close>

definition not_folding :: "string \<Rightarrow> bool" where
  "not_folding s = (starts_with crlf s \<or> s \<noteq> [] \<and> \<not> is_space (hd s))"

lemma header_end_line:
  assumes "cr \<notin> set l" "not_folding r"
  shows "header_end_from (pre @ l @ crlf @ r) (length pre) = Header_end (length pre + length l)"
proof -
  let ?pre = "pre @ l @ crlf"
  have p: "length ?pre = length pre + length l + 2" by (simp add: crlf_def)
  have "at_crlf (?pre @ r) (length ?pre) \<or> \<not> at_space (?pre @ r) (length ?pre)"
    using assms(2) by (auto simp: not_folding_def at_space_app at_crlf_app starts_with_iff simp del: append_assoc length_append)
  then show ?thesis
    unfolding header_end_from.simps [of _ "length pre"] index_of_crlf [OF assms(1)] p by auto
qed

lemma trim_Cons_space: "is_space c \<Longrightarrow> js_trim (c # s) = js_trim s"
  by (simp add: js_trim_def)

lemma parseHeader_line:
  assumes "line_ok (n, v)"
  shows "parser_parseHeader g (pre @ (n @ '': '' @ v) @ crlf @ r) (length pre)
     (length pre + length (n @ '': '' @ v)) m = put_field g n v m"
proof -
  have n: "CHR '':'' \<notin> set n" "js_trim n = n" and v: "js_trim v = v"
    using assms header_name_chars by (auto simp: line_ok_def)
  have i: "index_of (pre @ n @ CHR '':'' # CHR '' '' # v @ crlf @ r) '':'' (length pre) = Some (length pre + length n)"
    using index_from_colon [OF n(1), of "length pre" "CHR '' '' # v @ crlf @ r"] by (simp add: index_of_def)
  have "is_space (CHR '' '')" by (simp add: is_space_def char_code_def)
  then show ?thesis
    by (simp add: parser_parseHeader_def i js_substring_def n v trim_Cons_space)
qed

lemma not_folding_fields:
  "list_all line_ok fs \<Longrightarrow> not_folding (concat (map field_text fs) @ crlf @ body)"
  by (cases fs) (auto simp: not_folding_def field_text_def line_ok_def header_name_chars)

lemma parse_headers_fields:
  assumes "list_all line_ok fs"
  shows "parse_headers g (pre @ concat (map field_text fs) @ crlf @ body) (length pre) m =
    bind_result (put_fields g fs m) (\<lambda>r. Inr (map_option (Pair (length pre + length (concat (map field_text fs)) + 2)) r))"
  using assms
proof (induction fs arbitrary: pre m)
  case Nil
  then show ?case by (simp add: parse_headers.simps [of _ _ "length pre"] parser_getHeader_def at_crlf_app)
next
  case (Cons f fs)
  obtain n v where f: "f = (n, v)" by (cases f)
  let ?l = "n @ '': '' @ v" and ?r = "concat (map field_text fs) @ crlf @ body"
  let ?d = "pre @ ?l @ crlf @ ?r"
  have ok: "line_ok (n, v)" using Cons.prems f by simp
  then have l: "cr \<notin> set ?l" "?l \<noteq> []" "hd ?l \<noteq> cr"
    using header_name_chars [of n] by (auto simp: line_ok_def cr_def hd_append dest: hd_in_set)
  have "hd (?l @ crlf @ ?r) \<noteq> cr" using l by (cases n) auto
  then have "\<not> at_crlf ?d (length pre)" by (intro at_crlf_hd) simp_all
  then have g: "parser_getHeader ?d (length pre) = Header_end (length pre + length ?l)"
    using header_end_line [OF l(1) not_folding_fields, of fs pre body] Cons.prems by (simp add: parser_getHeader_def)
  have s: "length pre + length ?l + 2 = length (pre @ ?l @ crlf)" by (simp add: crlf_def)
  have IH: "parse_headers g ?d (length pre + length ?l + 2) m' =
    bind_result (put_fields g fs m') (\<lambda>r. Inr (map_option (Pair (length (pre @ ?l @ crlf) + length (concat (map field_text fs)) + 2)) r))"
    for m'
    unfolding s using Cons.IH [of "pre @ ?l @ crlf" m'] Cons.prems by simp
  have "parse_headers g ?d (length pre) m =
    (case put_field g n v m of Inl e \<Rightarrow> Inl e | Inr (False, m) \<Rightarrow> Inr None
     | Inr (True, m) \<Rightarrow> parse_headers g ?d (length pre + length ?l + 2) m)"
    unfolding parse_headers.simps [of g ?d "length pre"] g parseHeader_line [OF ok] header_end.case by (rule refl)
  also have "\<dots> = bind_result (put_fields g (f # fs) m)
      (\<lambda>r. Inr (map_option (Pair (length (pre @ ?l @ crlf) + length (concat (map field_text fs)) + 2)) r))"
    unfolding IH f put_fields.simps by (simp split: sum.split prod.split bool.split)
  finally have "parse_headers g ?d (length pre) m = \<dots>" .
  then show ?case by (simp add: f field_text_pair length_crlf ac_simps)
qed

lemma js_substring_0 [simp]: "js_substring s 0 n = take n s"
  by (simp add: js_substring_def)

text \<open>The framing of a message loses nothing: a message put together from a first line, header
  fields and a body, in the form both message classes print, is read as exactly these fields, each
  with its own name and value and in their order, and the rest is the body.\<close>

theorem parse_frame:
  assumes "cr \<notin> set first" "g_first_line g first = Some fl" "list_all line_ok fs"
  shows "parseMessage g (message_text first fs body) =
    bind_result (put_fields g fs (new_message fl (message_text first fs body))) (\<lambda>r. Inr (map_option
      (\<lambda>m. m\<lparr>rm_body := Some (if im_hasHeader ''content-length'' m
         then cut_body (im_getHeader ''content-length'' m) body else body)\<rparr>) r))"
proof -
  let ?d = "message_text first fs body"
  have i: "index_of ?d crlf 0 = Some (length first)"
    using index_of_crlf [OF assms(1), of "[]"] by (simp add: message_text_def)
  have t: "js_substring ?d 0 (length first) = first" by (simp add: message_text_def)
  have "parse_headers g ?d (length first + 2) m = bind_result (put_fields g fs m)
      (\<lambda>r. Inr (map_option (Pair (length first + 2 + length (concat (map field_text fs)) + 2)) r))" for m
    using parse_headers_fields [OF assms(3), of g "first @ crlf" body m] by (simp add: message_text_def length_crlf)
  moreover have "drop (length first + 2 + length (concat (map field_text fs)) + 2) ?d = body"
    by (simp add: message_text_def length_crlf)
  ultimately show ?thesis
    unfolding parseMessage_def i option.case t assms(2)
    by (cases "put_fields g fs (new_message fl ?d)") (auto simp: set_body_def split: option.splits)
qed

text \<open>A grammar that takes every header for a name-addr.\<close>

definition demo_grammar :: sip_grammar where
  "demo_grammar = \<lparr>g_first_line = (\<lambda>s. Some \<lparr>fl_method = Some ''OPTIONS'', fl_uri = Some demo_uri, fl_status_code = None,
       fl_reason_phrase = None\<rparr>), g_header = (\<lambda>r s. Some (P_NameAddr (new_name_addr demo_uri None []))),
     g_contact = (\<lambda>s. Some []), g_record_route = (\<lambda>s. Some [])\<rparr>"

lemma put_header_accepted:
  assumes "\<And>s. g_header g (rule_name (headerize name)) s = Some p"
  shows "put_header g name value m =
    (Some p, m\<lparr>im_headers := obj_put (headerize name) [\<lparr>hf_raw = value, hf_parsed = Some p\<rparr>] (im_headers m)\<rparr>)"
  using assms
  by (simp add: put_header_def im_parseHeader_def im_setHeader_def Let_def raw_field_def obj_put_twice)

text \<open>A field the switch accepts without an exception or a parsing error.\<close>

definition accepted :: "js_error + bool \<times> raw_message \<Rightarrow> bool" where
  "accepted r = (case r of Inr (True, _) \<Rightarrow> True | _ \<Rightarrow> False)"

lemma demo_header: "g_header demo_grammar r s = Some (P_NameAddr (new_name_addr demo_uri None []))"
  by (simp add: demo_grammar_def)

lemma demo_via: "accepted (Inr (put_via demo_grammar v m))"
proof -
  have "\<exists>p q. im_parseHeader (g_header demo_grammar) ''Via'' 0 n = (Some p, q)"
    if "length (im_getHeaders ''via'' n) = 1" for n :: raw_message
  proof -
    have "headerize ''via'' = ''Via''" "headerize ''Via'' = ''Via''" by code_simp+
    then show ?thesis using that
      by (auto simp: im_getHeaders_def im_parseHeader_def demo_header Let_def split: option.splits)
  qed
  then show ?thesis by (auto simp: accepted_def put_via_def Let_def split: prod.split option.split) fastforce
qed

lemma demo_accepts: "accepted (put_field demo_grammar n v m)"
proof -
  note [simp] = put_header_accepted [OF demo_header]
  have c: "accepted (Inr (put_checked demo_grammar n v f m))" "accepted (Inr (put_call_id demo_grammar v m))"
    "accepted (put_from demo_grammar v m)" "accepted (put_to demo_grammar v m)" "accepted (put_cseq demo_grammar v m)"
    for n f by (simp_all add: accepted_def put_checked_def put_call_id_def put_from_def put_to_def put_cseq_def Let_def)
  have "accepted (Inr (put_multi (g_contact demo_grammar) n v m))" "accepted (Inr (put_multi (g_record_route demo_grammar) n v m))"
    for n by (simp_all add: accepted_def put_multi_def demo_grammar_def)
  then show ?thesis
    unfolding put_field_def Let_def by (simp add: c demo_via) (simp add: accepted_def)
qed

lemma demo_put_fields: "\<exists>m'. put_fields demo_grammar fs m = Inr (Some m')"
proof (induction fs arbitrary: m)
  case (Cons f fs)
  obtain n v where f: "f = (n, v)" by (cases f)
  from demo_accepts [of n v m] obtain m' where "put_field demo_grammar n v m = Inr (True, m')"
    by (auto simp: accepted_def split: sum.splits prod.splits bool.splits)
  with Cons.IH [of m'] show ?case by (simp add: f)
qed simp

theorem parse_frame_witness:
  "\<exists>m. parseMessage demo_grammar (message_text ''OPTIONS sip:h SIP/2.0'' [(''Foo'', ''a:b''), (''To'', ''<sip:h>'')] ''x'') = Inr (Some m)"
proof -
  have ok: "list_all line_ok [(''Foo'', ''a:b''), (''To'', ''<sip:h>'')]" "cr \<notin> set ''OPTIONS sip:h SIP/2.0''" by code_simp+
  obtain fl where fl: "g_first_line demo_grammar ''OPTIONS sip:h SIP/2.0'' = Some fl" by (simp add: demo_grammar_def)
  let ?t = "message_text ''OPTIONS sip:h SIP/2.0'' [(''Foo'', ''a:b''), (''To'', ''<sip:h>'')] ''x''"
  obtain m where "put_fields demo_grammar [(''Foo'', ''a:b''), (''To'', ''<sip:h>'')] (new_message fl ?t) = Inr (Some m)"
    using demo_put_fields by blast
  then show ?thesis using parse_frame [OF ok(2) fl ok(1), of "''x''"] by simp
qed

section \<open>Reading what the program prints\<close>

definition request_line :: "string \<Rightarrow> 'a out_request_scheme \<Rightarrow> string" where
  "request_line ruri r = method_str (or_method r) @ '' '' @ ruri @ '' SIP/2.0''"

definition request_fields :: "ua_config \<Rightarrow> 'a out_request_scheme \<Rightarrow> (string \<times> string) list" where
  "request_fields cfg r =
     concat (map (\<lambda>(n, vals). map (Pair n) vals) (or_headers r))
     @ [(''Allow'', ALLOWED_METHODS), (''Supported'', js_join '','' (or_supported cfg (or_method r))),
        (''User-Agent'', str_or (cfg_user_agent cfg) USER_AGENT),
        (''Content-Length'', num_str (str_utf8_length (str_or (or_body r) [])))]"

lemma headers_text_fields:
  "headers_text hs = concat (map field_text (concat (map (\<lambda>(n, vals). map (Pair n) vals) hs)))"
proof -
  have v: "concat (map (\<lambda>v. n @ '': '' @ v @ crlf) vals) = concat (map field_text (map (Pair n) vals))"
    for n :: string and vals
    by (induction vals) (simp_all add: field_text_pair)
  show ?thesis unfolding headers_text_def v by (induction hs) auto
qed

lemma body_text_field:
  "body_text b = field_text (''Content-Length'', num_str (str_utf8_length (str_or b []))) @ crlf @ str_or b []"
proof -
  have "num_str 0 = ''0''" by code_simp
  then show ?thesis
    by (auto simp: body_text_def str_or_def str_utf8_length_def field_text_pair split: option.splits)
qed

lemma or_toString_message:
  assumes "or_toString cfg r = Inr t" "or_extraHeaders r = []"
  obtains ruri where "uri_toString (or_ruri r) = Inr ruri"
    "t = message_text (request_line ruri r) (request_fields cfg r) (str_or (or_body r) [])"
proof -
  from assms obtain ruri where u: "uri_toString (or_ruri r) = Inr ruri"
    and t: "t = request_line ruri r @ crlf @ headers_text (or_headers r)
         @ ''Allow: '' @ ALLOWED_METHODS @ crlf
         @ ''Supported: '' @ js_join '','' (or_supported cfg (or_method r)) @ crlf
         @ ''User-Agent: '' @ str_or (cfg_user_agent cfg) USER_AGENT @ crlf @ body_text (or_body r)"
    by (auto simp: or_toString_def bind_result_Inr extra_text_def request_line_def)
  have "t = message_text (request_line ruri r) (request_fields cfg r) (str_or (or_body r) [])"
    by (simp add: t message_text_def request_fields_def headers_text_fields body_text_field field_text_pair)
  with u show thesis by (rule that)
qed

lemma put_fields_append:
  "put_fields g (fs @ gs) m = bind_result (put_fields g fs m) (\<lambda>r. case r of None \<Rightarrow> Inr None | Some m \<Rightarrow> put_fields g gs m)"
  by (induction g fs m rule: put_fields.induct) (auto split: sum.splits prod.splits bool.splits)

lemma utf8_length_ge: "length s \<le> str_utf8_length s"
  by (induction s) (auto simp: str_utf8_length_def)

lemma cut_body_own: "cut_body (Some (num_str (str_utf8_length b))) b = b"
  by (simp add: cut_body_def Number_num_str utf8_length_ge)

lemma content_length_kept:
  assumes "put_fields g (fs @ [(''Content-Length'', v)]) m = Inr (Some q)"
  shows "im_hasHeader ''content-length'' q" "im_getHeader ''content-length'' q = Some v"
proof -
  have h: "headerize ''content-length'' = ''Content-Length''" "to_lower ''Content-Length'' = ''content-length''" by code_simp+
  from assms obtain n where n: "put_fields g [(''Content-Length'', v)] n = Inr (Some q)"
    by (auto simp: put_fields_append bind_result_Inr simp del: put_fields.simps split: option.splits)
  then have "put_field g ''Content-Length'' v n = Inr (True, q)" by (auto split: sum.splits prod.splits bool.splits)
  then obtain p where "put_header g ''content-length'' v n = (Some p, q)"
    by (auto simp: put_field_def h put_checked_def split: prod.splits option.splits)
  then show "im_hasHeader ''content-length'' q" "im_getHeader ''content-length'' q = Some v"
    by (auto simp: put_header_def im_parseHeader_def im_setHeader_def im_hasHeader_def im_getHeader_def raw_field_def
        obj_has_def h Let_def split: option.splits)
qed

text \<open>C33.  A request printed by \<open>toString\<close>, without extra headers, is read back by \<open>parseMessage\<close> as exactly
  its header fields in their order, and its body is recovered whole although the parser cuts it
  at Content-Length characters and the printer counts UTF-8 bytes.\<close>

theorem request_read_back:
  assumes "or_toString cfg r = Inr t" "or_extraHeaders r = []" "list_all line_ok (request_fields cfg r)"
    and "uri_toString (or_ruri r) = Inr ruri" "cr \<notin> set (request_line ruri r)"
    and "g_first_line g (request_line ruri r) = Some fl"
    and "put_fields g (request_fields cfg r) (new_message fl t) = Inr (Some m)"
  shows "parseMessage g t = Inr (Some (m\<lparr>rm_body := Some (str_or (or_body r) [])\<rparr>))"
proof -
  have t: "t = message_text (request_line ruri r) (request_fields cfg r) (str_or (or_body r) [])"
    using or_toString_message [OF assms(1,2)] assms(4) by auto
  obtain fs where fs: "request_fields cfg r = fs @ [(''Content-Length'', num_str (str_utf8_length (str_or (or_body r) [])))]"
    by (auto simp: request_fields_def)
  have "im_hasHeader ''content-length'' m"
    "im_getHeader ''content-length'' m = Some (num_str (str_utf8_length (str_or (or_body r) [])))"
    using content_length_kept assms(7) unfolding fs by blast+
  then show ?thesis
    using parse_frame [OF assms(5,6,3), of "str_or (or_body r) []"] assms(7) by (simp add: cut_body_own flip: t)
qed

definition demo_out :: out_request where
  "demo_out = \<lparr>or_method = OPTIONS, or_ruri = demo_uri, or_headers = [(''Via'', [''a'', ''b'']), (''CSeq'', [''1 OPTIONS''])],
     or_extraHeaders = [], or_body = Some ''hi'', or_to = new_name_addr demo_uri None [],
     or_from = new_name_addr demo_uri None [], or_call_id = ''c'', or_cseq = 1\<rparr>"

theorem request_read_back_witness:
  "\<exists>m. map_option rm_body (projr (parseMessage demo_grammar (projr (or_toString demo_cfg demo_out)))) = Some m \<and> m = Some ''hi''"
proof -
  have o: "or_extraHeaders demo_out = []" "or_ruri demo_out = demo_uri" by (simp_all add: demo_out_def)
  have t: "or_toString demo_cfg demo_out = Inr (projr (or_toString demo_cfg demo_out))"
    by (simp add: or_toString_def o demo_uri_str)
  have l: "request_line ''sip:h'' demo_out = ''OPTIONS sip:h SIP/2.0''" "list_all line_ok (request_fields demo_cfg demo_out)"
    by code_simp+
  have c: "cr \<notin> set (request_line ''sip:h'' demo_out)" by (simp add: l cr_def)
  obtain fl where fl: "g_first_line demo_grammar (request_line ''sip:h'' demo_out) = Some fl" by (simp add: demo_grammar_def)
  obtain m where m: "put_fields demo_grammar (request_fields demo_cfg demo_out)
      (new_message fl (projr (or_toString demo_cfg demo_out))) = Inr (Some m)"
    using demo_put_fields by blast
  show ?thesis
    using request_read_back [OF t o(1) l(2) _ c fl m] by (simp add: o demo_uri_str) (simp add: demo_out_def str_or_def)
qed

text \<open>A response whose CSeq does not parse makes \<open>parseMessage\<close> throw instead of rejecting the message,
  because the method is read from the missing result.\<close>

theorem bad_cseq_throws:
  assumes "rm_is_response m" "to_lower name = ''cseq''" "g_header g ''CSeq'' value = None"
  shows "put_field g name value m = Inl (TypeError ''Cannot read property method of undefined'')"
proof -
  have h: "headerize ''cseq'' = ''CSeq''" "rule_name ''CSeq'' = ''CSeq''" by code_simp+
  show ?thesis using assms
    by (simp add: put_field_def put_cseq_def put_header_def im_parseHeader_def im_setHeader_def raw_field_def h Let_def)
qed

theorem bad_cseq_throws_witness:
  "put_field (demo_grammar\<lparr>g_header := \<lambda>r s. None\<rparr>) ''CSeq'' ''x''
     (new_message \<lparr>fl_method = None, fl_uri = None, fl_status_code = Some 200, fl_reason_phrase = Some ''OK''\<rparr> [])
   = Inl (TypeError ''Cannot read property method of undefined'')"
proof -
  have "to_lower ''CSeq'' = ''cseq''" by code_simp
  then show ?thesis by (intro bad_cseq_throws) (simp_all add: new_message_def Let_def)
qed

end
