(* ===== verification/Sanity_Check.thy ===== *)
theory Sanity_Check
  imports Parser
begin

text \<open>
  The module \<open>sanityCheck\<close> (lines 25924-26175 of \<open>frontend/static/js/jssip-3.10.0.js\<close>): the checks every
  parsed message passes before the user agent looks at it.  The module's variables \<open>message\<close>,
  \<open>ua\<close> and \<open>transport\<close> are arguments; a check returns whether the next one is made, with
  the replies it handed to the transport.
\<close>

section \<open>Verdicts\<close>

type_synonym verdict = "js_error + bool \<times> string list"

record sc_ua =
  sc_jssip_id :: string
  sc_ist :: "in_request js_object"
  sc_nist :: "in_request js_object"

text \<open>A \<open>null\<close> printed into a string.\<close>

definition or_null :: "string option \<Rightarrow> string" where
  "or_null s = (case s of None \<Rightarrow> ''null'' | Some t \<Rightarrow> t)"

definition sc_reply_text :: "(nat \<Rightarrow> real) \<Rightarrow> nat \<Rightarrow> raw_message \<Rightarrow> string" where
  "sc_reply_text rnd status_code m =
     ''SIP/2.0 '' @ num_str status_code @ '' '' @ reason_phrase status_code @ crlf
     @ field_lines ''Via'' (im_getHeaders ''via'' m)
     @ ''To: '' @ text_of (im_getHeader ''To'' m)
     @ (if \<not> truthy (rm_to_tag m) then '';tag='' @ newTag rnd else []) @ crlf
     @ ''From: '' @ text_of (im_getHeader ''From'' m) @ crlf
     @ ''Call-ID: '' @ or_null (rm_call_id m) @ crlf
     @ ''CSeq: '' @ or_null (map_option num_str (rm_cseq m)) @ '' '' @ or_null (rm_method m) @ crlf
     @ crlf"

definition pass :: verdict where "pass = Inr (True, [])"

definition silent_drop :: verdict where "silent_drop = Inr (False, [])"

definition sc_reply :: "(nat \<Rightarrow> real) \<Rightarrow> nat \<Rightarrow> raw_message \<Rightarrow> verdict" where
  "sc_reply rnd code m = Inr (False, [sc_reply_text rnd code m])"

text \<open>The loop over a list of checks.\<close>

fun run_checks :: "verdict list \<Rightarrow> verdict" where
  "run_checks [] = pass"
| "run_checks (v # vs) =
     (case v of
        Inl e \<Rightarrow> Inl e
      | Inr (False, out) \<Rightarrow> Inr (False, out)
      | Inr (True, out) \<Rightarrow> bind_result (run_checks vs) (\<lambda>(b, out'). Inr (b, out @ out')))"

section \<open>The checks\<close>

definition mandatoryHeaders :: "string list" where
  "mandatoryHeaders = [''from'', ''to'', ''call_id'', ''cseq'', ''via'']"

definition minimumHeaders :: "raw_message \<Rightarrow> verdict" where
  "minimumHeaders m = (if list_all (\<lambda>h. im_hasHeader h m) mandatoryHeaders then pass else silent_drop)"

definition rfc3261_8_2_2_1 :: "grammar \<Rightarrow> (nat \<Rightarrow> real) \<Rightarrow> raw_message \<Rightarrow> verdict" where
  "rfc3261_8_2_2_1 parse rnd m =
     (case fst (im_parseHeader parse ''to'' 0 m) of
        Some (P_NameAddr h) \<Rightarrow> if uri_scheme (na_uri h) \<noteq> ''sip'' then sc_reply rnd 416 m else pass
      | _ \<Rightarrow> Inl (TypeError ''Cannot read property of undefined''))"

definition rfc3261_16_3_4 :: "(nat \<Rightarrow> real) \<Rightarrow> sc_ua \<Rightarrow> raw_message \<Rightarrow> verdict" where
  "rfc3261_16_3_4 rnd ua m =
     (if truthy (rm_to_tag m) then pass
      else case rm_call_id m of
          None \<Rightarrow> Inl (TypeError ''Cannot read property substr of null'')
        | Some call_id \<Rightarrow> if take 5 call_id = sc_jssip_id ua then sc_reply rnd 482 m else pass)"

text \<open>\<open>len < contentLength\<close> with the string of the header, or \<open>undefined\<close>.\<close>

definition body_too_short :: "raw_message \<Rightarrow> bool" where
  "body_too_short m =
     (case im_getHeader ''content-length'' m of
        None \<Rightarrow> False
      | Some s \<Rightarrow> num_less (Num (real (str_utf8_length (or_null (rm_body m))))) (js_Number s))"

definition rfc3261_18_3_request :: "(nat \<Rightarrow> real) \<Rightarrow> raw_message \<Rightarrow> verdict" where
  "rfc3261_18_3_request rnd m = (if body_too_short m then sc_reply rnd 400 m else pass)"

definition merged :: "raw_message \<Rightarrow> in_request \<Rightarrow> bool" where
  "merged m r =
     (im_from_tag r = rm_from_tag m \<and> Some (im_call_id r) = rm_call_id m \<and> Some (im_cseq r) = rm_cseq m)"

definition check_table :: "(nat \<Rightarrow> real) \<Rightarrow> in_request js_object \<Rightarrow> raw_message \<Rightarrow> verdict" where
  "check_table rnd table m =
     (if obj_has table (text_of (rm_via_branch m)) then silent_drop
      else if list_ex (\<lambda>(_, r). merged m r) table then sc_reply rnd 482 m
      else pass)"

definition rfc3261_8_2_2_2 :: "(nat \<Rightarrow> real) \<Rightarrow> sc_ua \<Rightarrow> raw_message \<Rightarrow> verdict" where
  "rfc3261_8_2_2_2 rnd ua m =
     (if truthy (rm_to_tag m) then pass
      else if rm_method m = Some (method_str INVITE) then check_table rnd (sc_ist ua) m
      else check_table rnd (sc_nist ua) m)"

definition rfc3261_8_1_3_3 :: "raw_message \<Rightarrow> verdict" where
  "rfc3261_8_1_3_3 m = (if length (im_getHeaders ''via'' m) > 1 then silent_drop else pass)"

definition rfc3261_18_3_response :: "raw_message \<Rightarrow> verdict" where
  "rfc3261_18_3_response m = (if body_too_short m then silent_drop else pass)"

definition request_checks :: "grammar \<Rightarrow> (nat \<Rightarrow> real) \<Rightarrow> sc_ua \<Rightarrow> raw_message \<Rightarrow> verdict list" where
  "request_checks parse rnd ua m =
     [rfc3261_8_2_2_1 parse rnd m, rfc3261_16_3_4 rnd ua m, rfc3261_18_3_request rnd m, rfc3261_8_2_2_2 rnd ua m]"

definition response_checks :: "raw_message \<Rightarrow> verdict list" where
  "response_checks m = [rfc3261_8_1_3_3 m, rfc3261_18_3_response m]"

definition sanityCheck :: "grammar \<Rightarrow> (nat \<Rightarrow> real) \<Rightarrow> sc_ua \<Rightarrow> raw_message \<Rightarrow> verdict" where
  "sanityCheck parse rnd ua m =
     run_checks (minimumHeaders m #
       (if \<not> rm_is_response m then request_checks parse rnd ua m else response_checks m))"

lemmas check_defs = minimumHeaders_def rfc3261_8_2_2_1_def rfc3261_16_3_4_def rfc3261_18_3_request_def
  rfc3261_8_2_2_2_def check_table_def rfc3261_8_1_3_3_def rfc3261_18_3_response_def
  pass_def silent_drop_def sc_reply_def

section \<open>Properties\<close>

text \<open>A message is passed on without any reply, or dropped with at most one reply, which is then one
  of the three codes and only ever answers a request.\<close>

theorem one_reply_at_most:
  assumes "sanityCheck parse rnd ua m = Inr (ok, out)"
  shows "if ok \<or> rm_is_response m then out = []
    else out \<in> {[], [sc_reply_text rnd 416 m], [sc_reply_text rnd 482 m], [sc_reply_text rnd 400 m]}"
  using assms
  by (auto simp: sanityCheck_def request_checks_def response_checks_def check_defs split: if_splits option.splits parsed.splits)


section \<open>Complete messages\<close>

text \<open>What the rules of the grammar for the mandatory headers return.\<close>

definition grammar_kinds :: "grammar \<Rightarrow> bool" where
  "grammar_kinds parse =
     (\<forall>s p. (parse ''From'' s = Some p \<or> parse ''To'' s = Some p \<longrightarrow> (\<exists>h. p = P_NameAddr h))
        \<and> (parse ''CSeq'' s = Some p \<longrightarrow> (\<exists>n k. p = P_CSeq n k))
        \<and> (parse ''Call_ID'' s = Some p \<longrightarrow> parsed_truthy p)
        \<and> (parse ''Via'' s = Some p \<longrightarrow> parsed_truthy p))"

lemma CSeq_kind: "grammar_kinds parse \<Longrightarrow> parse ''CSeq'' s = Some p \<Longrightarrow> \<exists>n k. p = P_CSeq n k"
  unfolding grammar_kinds_def by blast

definition complete :: "raw_message \<Rightarrow> bool" where
  "complete m =
     ((\<exists>h. rm_from m = Some (P_NameAddr h)) \<and> (\<exists>h. rm_to m = Some (P_NameAddr h)) \<and> rm_call_id m \<noteq> None
      \<and> rm_cseq m \<noteq> None \<and> rm_via m \<noteq> None \<and> (rm_is_response m \<longrightarrow> rm_method m \<noteq> None))"

text \<open>While the message is read: a header that is there was parsed.\<close>

definition parsed_so_far :: "raw_message \<Rightarrow> bool" where
  "parsed_so_far m =
     ((obj_has (im_headers m) ''From'' \<longrightarrow> (\<exists>h. rm_from m = Some (P_NameAddr h)))
      \<and> (obj_has (im_headers m) ''To'' \<longrightarrow> (\<exists>h. rm_to m = Some (P_NameAddr h)))
      \<and> (obj_has (im_headers m) ''Call-ID'' \<longrightarrow> rm_call_id m \<noteq> None)
      \<and> (obj_has (im_headers m) ''CSeq'' \<longrightarrow> rm_cseq m \<noteq> None \<and> (rm_is_response m \<longrightarrow> rm_method m \<noteq> None))
      \<and> (obj_has (im_headers m) ''Via'' \<longrightarrow> rm_via m \<noteq> None))"

lemma mandatory_names:
  "headerize ''from'' = ''From''" "headerize ''to'' = ''To''" "headerize ''call-id'' = ''Call-ID''"
  "headerize ''call_id'' = ''Call-ID''"
  "headerize ''cseq'' = ''CSeq''" "headerize ''via'' = ''Via''" "headerize ''Via'' = ''Via''"
  "rule_name ''From'' = ''From''" "rule_name ''To'' = ''To''" "rule_name ''Call-ID'' = ''Call_ID''"
  "rule_name ''CSeq'' = ''CSeq''" "rule_name ''Via'' = ''Via''"
  by code_simp+

lemma complete_if_parsed:
  "parsed_so_far m \<Longrightarrow> minimumHeaders m = pass \<Longrightarrow> complete m"
  by (auto simp: parsed_so_far_def complete_def minimumHeaders_def mandatoryHeaders_def im_hasHeader_def mandatory_names
      pass_def silent_drop_def split: if_splits)

text \<open>The only fields a step of the parser changes.\<close>

lemma put_header_result:
  assumes "put_header g name v m = (r, m')"
  shows "\<exists>hs. m' = m\<lparr>im_headers := obj_put (headerize name) hs (im_headers m)\<rparr>"
    and "g_header g (rule_name (headerize name)) v = r"
  using assms
  by (auto simp: put_header_def im_parseHeader_def im_setHeader_def raw_field_def Let_def obj_put_twice split: option.splits)

lemma hyphenate_eq:
  "hyphenate s = ''from'' \<Longrightarrow> s = ''from''" "hyphenate s = ''to'' \<Longrightarrow> s = ''to''"
  "hyphenate s = ''cseq'' \<Longrightarrow> s = ''cseq''" "hyphenate s = ''via'' \<Longrightarrow> s = ''via''"
  "hyphenate s = ''call-id'' \<Longrightarrow> s = ''call-id'' \<or> s = ''call_id''"
  by (auto simp: hyphenate_def map_eq_Cons_conv split: if_splits)

lemma headerize_mandatory:
  "headerize n = ''From'' \<Longrightarrow> to_lower n = ''from''" "headerize n = ''To'' \<Longrightarrow> to_lower n = ''to''"
  "headerize n = ''CSeq'' \<Longrightarrow> to_lower n = ''cseq''" "headerize n = ''Via'' \<Longrightarrow> to_lower n = ''via''"
  "headerize n = ''Call-ID'' \<Longrightarrow> to_lower n = ''call-id'' \<or> to_lower n = ''call_id''"
proof -
  have "to_lower ''From'' = ''from''" "to_lower ''To'' = ''to''" "to_lower ''CSeq'' = ''cseq''" "to_lower ''Via'' = ''via''"
    "to_lower ''Call-ID'' = ''call-id''" by code_simp+
  then show "headerize n = ''From'' \<Longrightarrow> to_lower n = ''from''" "headerize n = ''To'' \<Longrightarrow> to_lower n = ''to''"
    "headerize n = ''CSeq'' \<Longrightarrow> to_lower n = ''cseq''" "headerize n = ''Via'' \<Longrightarrow> to_lower n = ''via''"
    "headerize n = ''Call-ID'' \<Longrightarrow> to_lower n = ''call-id'' \<or> to_lower n = ''call_id''"
    using lower_headerize [of n] hyphenate_eq [of "to_lower n"] by (simp_all add: canon_def)
qed

definition mandatory_key :: "string \<Rightarrow> bool" where
  "mandatory_key k = (k \<in> {''From'', ''To'', ''Call-ID'', ''CSeq'', ''Via''})"

lemma parsed_so_far_other:
  "\<not> mandatory_key k \<Longrightarrow> parsed_so_far (m\<lparr>im_headers := obj_put k hs (im_headers m)\<rparr>) = parsed_so_far m"
proof -
  assume "\<not> mandatory_key k"
  then have h: "obj_has (obj_put k hs (im_headers m)) x = obj_has (im_headers m) x"
    if "x \<in> {''From'', ''To'', ''Call-ID'', ''CSeq'', ''Via''}" for x
    using that unfolding mandatory_key_def obj_has_put by blast
  show ?thesis unfolding parsed_so_far_def by (simp add: h del: obj_has_put)
qed

lemma parsed_so_far_fields [simp]:
  "parsed_so_far (m\<lparr>rm_session_expires := a, rm_session_expires_refresher := b\<rparr>) = parsed_so_far m"
  "parsed_so_far (m\<lparr>rm_refer_to := c\<rparr>) = parsed_so_far m" "parsed_so_far (m\<lparr>rm_replaces := c\<rparr>) = parsed_so_far m"
  "parsed_so_far (m\<lparr>rm_event := c\<rparr>) = parsed_so_far m"
  by (simp_all add: parsed_so_far_def)

lemma put_checked_keeps:
  assumes "put_checked g name v f m = (b, m')" "\<not> mandatory_key (headerize name)" "parsed_so_far m"
    and "\<And>p m. parsed_so_far (f p m) = parsed_so_far m"
  shows "parsed_so_far m'"
proof -
  obtain r q where q: "put_header g name v m = (r, q)" by (cases "put_header g name v m")
  obtain hs where "q = m\<lparr>im_headers := obj_put (headerize name) hs (im_headers m)\<rparr>"
    using put_header_result(1) [OF q] by blast
  then have "parsed_so_far q" using assms(2,3) by (simp add: parsed_so_far_other)
  then show ?thesis using assms(1) q by (cases r) (auto simp: put_checked_def assms(4))
qed

lemma addHeader_result: "\<exists>hs. im_addHeader name v m = m\<lparr>im_headers := obj_put (headerize name) hs (im_headers m)\<rparr>"
  by (auto simp: im_addHeader_def Let_def split: option.splits)

lemma put_multi_keeps:
  assumes "put_multi parse name v m = (b, m')" "\<not> mandatory_key (headerize name)" "parsed_so_far m"
  shows "parsed_so_far m'"
proof -
  have e: "parsed_so_far (put_element name v h n) = parsed_so_far n" for h n
  proof -
    obtain hs where "im_addHeader name (js_substring v (mh_possition h) (mh_offset h)) n
        = n\<lparr>im_headers := obj_put (headerize name) hs (im_headers n)\<rparr>" using addHeader_result by blast
    then show ?thesis using assms(2) by (simp add: put_element_def Let_def obj_put_twice parsed_so_far_other)
  qed
  have "parsed_so_far (fold (put_element name v) hs n) = parsed_so_far n" for hs n
    by (induction hs arbitrary: n) (simp_all add: e)
  then show ?thesis using assms by (auto simp: put_multi_def split: option.splits)
qed

lemma parsed_so_far_from:
  assumes "parsed_so_far m"
  shows "parsed_so_far (m\<lparr>im_headers := obj_put ''From'' hs (im_headers m), rm_from := Some (P_NameAddr h), rm_from_tag := t\<rparr>)"
proof -
  have h: "obj_has (obj_put ''From'' hs (im_headers m)) x = obj_has (im_headers m) x"
    if "x \<in> {''To'', ''Call-ID'', ''CSeq'', ''Via''}" for x
    using that by auto
  show ?thesis using assms unfolding parsed_so_far_def by (simp add: h del: obj_has_put)
qed

lemma parsed_so_far_to:
  assumes "parsed_so_far m"
  shows "parsed_so_far (m\<lparr>im_headers := obj_put ''To'' hs (im_headers m), rm_to := Some (P_NameAddr h), rm_to_tag := t\<rparr>)"
proof -
  have h: "obj_has (obj_put ''To'' hs (im_headers m)) x = obj_has (im_headers m) x"
    if "x \<in> {''From'', ''Call-ID'', ''CSeq'', ''Via''}" for x
    using that by auto
  show ?thesis using assms unfolding parsed_so_far_def by (simp add: h del: obj_has_put)
qed

lemma parsed_so_far_call_id:
  assumes "parsed_so_far m"
  shows "parsed_so_far (m\<lparr>im_headers := obj_put ''Call-ID'' hs (im_headers m), rm_call_id := Some v\<rparr>)"
proof -
  have h: "obj_has (obj_put ''Call-ID'' hs (im_headers m)) x = obj_has (im_headers m) x"
    if "x \<in> {''From'', ''To'', ''CSeq'', ''Via''}" for x
    using that by auto
  show ?thesis using assms unfolding parsed_so_far_def by (simp add: h del: obj_has_put)
qed

lemma parsed_so_far_via:
  assumes "parsed_so_far m"
  shows "parsed_so_far (m\<lparr>im_headers := obj_put ''Via'' hs (im_headers m), rm_via := Some p, rm_via_branch := b\<rparr>)"
proof -
  have h: "obj_has (obj_put ''Via'' hs (im_headers m)) x = obj_has (im_headers m) x"
    if "x \<in> {''From'', ''To'', ''Call-ID'', ''CSeq''}" for x
    using that by auto
  show ?thesis using assms unfolding parsed_so_far_def by (simp add: h del: obj_has_put)
qed

lemma put_via_keeps:
  assumes "put_via g v m = (True, m')" "parsed_so_far m" "grammar_kinds (g_header g)"
  shows "parsed_so_far m'"
proof -
  define old where "old = (case obj_get (im_headers m) ''Via'' of None \<Rightarrow> [] | Some hs \<Rightarrow> hs)"
  let ?m = "m\<lparr>im_headers := obj_put ''Via'' (old @ [raw_field v]) (im_headers m)\<rparr>"
  have a: "im_addHeader ''via'' v m = ?m"
    by (auto simp: im_addHeader_def mandatory_names old_def Let_def split: option.splits)
  have l: "length (im_getHeaders ''via'' ?m) = Suc (length old)" by (simp add: im_getHeaders_def mandatory_names)
  show ?thesis
  proof (cases "old = []")
    case True
    obtain p where p: "g_header g ''Via'' v = Some p"
      and m': "m' = (let q = m\<lparr>im_headers := obj_put ''Via'' [(raw_field v)\<lparr>hf_parsed := Some p\<rparr>] (im_headers m)\<rparr> in
        if parsed_truthy p then q\<lparr>rm_via := Some p, rm_via_branch := parsed_branch p\<rparr> else q)"
      using assms(1) a l True
      by (auto simp: put_via_def im_parseHeader_def mandatory_names Let_def obj_put_twice raw_field_def split: option.splits)
    have "parsed_truthy p" using assms(3) p by (auto simp: grammar_kinds_def)
    then show ?thesis using parsed_so_far_via [OF assms(2)] m' by (simp add: Let_def)
  next
    case False
    then have "m' = ?m" using assms(1) a l by (auto simp: put_via_def Let_def split: if_splits)
    moreover have "obj_has (im_headers m) ''Via''" using False by (auto simp: old_def obj_has_def split: option.splits)
    ultimately show ?thesis using assms(2) by (auto simp: parsed_so_far_def)
  qed
qed

lemma put_from_keeps:
  assumes "put_from g v m = Inr (True, m')" "parsed_so_far m" "grammar_kinds (g_header g)"
  shows "parsed_so_far m'"
proof -
  obtain p q where q: "put_header g ''from'' v m = (Some p, q)"
    using assms(1) by (cases "put_header g ''from'' v m") (auto simp: put_from_def split: option.splits)
  obtain hs where "q = m\<lparr>im_headers := obj_put ''From'' hs (im_headers m)\<rparr>"
    using put_header_result(1) [OF q] by (auto simp: mandatory_names)
  moreover obtain h where "p = P_NameAddr h"
    using put_header_result(2) [OF q] assms(3) by (auto simp: mandatory_names grammar_kinds_def)
  ultimately show ?thesis using assms(1,2) q using parsed_so_far_from [OF assms(2)] by (auto simp: put_from_def bind_result_Inr)
qed

lemma put_to_keeps:
  assumes "put_to g v m = Inr (True, m')" "parsed_so_far m" "grammar_kinds (g_header g)"
  shows "parsed_so_far m'"
proof -
  obtain p q where q: "put_header g ''to'' v m = (Some p, q)"
    using assms(1) by (cases "put_header g ''to'' v m") (auto simp: put_to_def split: option.splits)
  obtain hs where "q = m\<lparr>im_headers := obj_put ''To'' hs (im_headers m)\<rparr>"
    using put_header_result(1) [OF q] by (auto simp: mandatory_names)
  moreover obtain h where "p = P_NameAddr h"
    using put_header_result(2) [OF q] assms(3) by (auto simp: mandatory_names grammar_kinds_def)
  ultimately show ?thesis using assms(1,2) q using parsed_so_far_to [OF assms(2)] by (auto simp: put_to_def bind_result_Inr)
qed

lemma put_call_id_keeps:
  assumes "put_call_id g v m = (True, m')" "parsed_so_far m" "grammar_kinds (g_header g)"
  shows "parsed_so_far m'"
proof -
  obtain p q where q: "put_header g ''call-id'' v m = (Some p, q)"
    using assms(1) by (cases "put_header g ''call-id'' v m") (auto simp: put_call_id_def split: option.splits)
  obtain hs where "q = m\<lparr>im_headers := obj_put ''Call-ID'' hs (im_headers m)\<rparr>"
    using put_header_result(1) [OF q] by (auto simp: mandatory_names)
  moreover have "parsed_truthy p"
    using put_header_result(2) [OF q] assms(3) by (auto simp: mandatory_names grammar_kinds_def)
  ultimately show ?thesis using assms(1,2) q using parsed_so_far_call_id [OF assms(2)] by (auto simp: put_call_id_def)
qed

lemma parsed_so_far_cseq:
  assumes "parsed_so_far m" "rm_is_response m \<longrightarrow> k \<noteq> None"
  shows "parsed_so_far (m\<lparr>im_headers := obj_put ''CSeq'' hs (im_headers m), rm_cseq := Some n, rm_method := k\<rparr>)"
proof -
  have h: "obj_has (obj_put ''CSeq'' hs (im_headers m)) x = obj_has (im_headers m) x"
    if "x \<in> {''From'', ''To'', ''Call-ID'', ''Via''}" for x
    using that by auto
  show ?thesis using assms unfolding parsed_so_far_def by (simp add: h del: obj_has_put)
qed

lemma put_cseq_keeps:
  assumes "put_cseq g v m = Inr (True, m')" "parsed_so_far m" "grammar_kinds (g_header g)"
  shows "parsed_so_far m'"
proof -
  obtain p q where q: "put_header g ''cseq'' v m = (Some p, q)"
    using assms(1) by (cases "put_header g ''cseq'' v m") (auto simp: put_cseq_def split: option.splits if_splits)
  obtain hs where hs: "q = m\<lparr>im_headers := obj_put ''CSeq'' hs (im_headers m)\<rparr>"
    using put_header_result(1) [OF q] by (auto simp: mandatory_names)
  have "g_header g ''CSeq'' v = Some p" using put_header_result(2) [OF q] by (simp add: mandatory_names)
  then obtain n k where p: "p = P_CSeq n k" using CSeq_kind [OF assms(3)] by blast
  have "m' = q\<lparr>rm_cseq := Some n, rm_method := (if rm_is_response m then Some k else rm_method m)\<rparr>"
    using assms(1) by (simp add: put_cseq_def q p hs Let_def split: if_splits)
  then show ?thesis using parsed_so_far_cseq [OF assms(2)] by (simp add: hs)
qed

text \<open>The keys of the other fields of the switch.\<close>

lemma other_keys:
  "\<not> mandatory_key (headerize ''record-route'')" "\<not> mandatory_key (headerize ''contact'')"
  "\<not> mandatory_key (headerize ''content-length'')" "\<not> mandatory_key (headerize ''content-type'')"
  "\<not> mandatory_key (headerize ''max-forwards'')" "\<not> mandatory_key (headerize ''www-authenticate'')"
  "\<not> mandatory_key (headerize ''proxy-authenticate'')" "\<not> mandatory_key (headerize ''session-expires'')"
  "\<not> mandatory_key (headerize ''refer-to'')" "\<not> mandatory_key (headerize ''replaces'')"
  "\<not> mandatory_key (headerize ''event'')"
  by code_simp+
text \<open>A branch of the switch that keeps what is parsed so far.\<close>

definition keeps :: "js_error + bool \<times> raw_message \<Rightarrow> bool" where
  "keeps r = (\<forall>m'. r = Inr (True, m') \<longrightarrow> parsed_so_far m')"

lemma keeps_if: "(c \<Longrightarrow> keeps a) \<Longrightarrow> (\<not> c \<Longrightarrow> keeps b) \<Longrightarrow> keeps (if c then a else b)"
  by simp

lemma keeps_checked:
  assumes "parsed_so_far m" "\<not> mandatory_key (headerize h)" "\<And>p m. parsed_so_far (st p m) = parsed_so_far m"
  shows "keeps (Inr (put_checked g h v st m))"
  using put_checked_keeps [OF _ assms(2,1,3)] by (simp add: keeps_def)

lemma keeps_default:
  assumes "parsed_so_far m" "\<not> mandatory_key (headerize n)"
  shows "keeps (Inr (True, im_addHeader n v m))"
  using addHeader_result [of n v m] assms by (auto simp: keeps_def parsed_so_far_other)

lemma put_field_keeps:
  assumes p: "parsed_so_far m" and k: "grammar_kinds (g_header g)" and n: "to_lower n \<noteq> ''call_id''"
  shows "keeps (put_field g n v m)"
proof -
  have K: "keeps (Inr (put_via g v m))" "keeps (put_from g v m)" "keeps (put_to g v m)" "keeps (Inr (put_call_id g v m))"
    "keeps (put_cseq g v m)"
    using p k by (auto simp: keeps_def intro: put_via_keeps put_from_keeps put_to_keeps put_call_id_keeps put_cseq_keeps)
  have M: "keeps (Inr (put_multi parse h v m))" if "\<not> mandatory_key (headerize h)" for parse h
    using put_multi_keeps that p by (auto simp: keeps_def)
  have C: "keeps (Inr (put_checked g h v st m))"
    if "\<not> mandatory_key (headerize h)" "\<And>p m. parsed_so_far (st p m) = parsed_so_far m" for h st
    using that by (rule keeps_checked [OF p])
  have A: "keeps (Inr (put_checked g h v (\<lambda>p m. m) m))"
    if "h = ''max-forwards'' \<or> h = ''www-authenticate'' \<or> h = ''proxy-authenticate''" for h
    using that other_keys by (intro C) auto
  have D: "keeps (Inr (True, im_addHeader n v m))"
    if "\<not> (to_lower n = ''via'' \<or> to_lower n = ''v'')" "\<not> (to_lower n = ''from'' \<or> to_lower n = ''f'')"
      "\<not> (to_lower n = ''to'' \<or> to_lower n = ''t'')" "\<not> (to_lower n = ''call-id'' \<or> to_lower n = ''i'')"
      "to_lower n \<noteq> ''cseq''"
  proof (rule keeps_default [OF p])
    show "\<not> mandatory_key (headerize n)"
      unfolding mandatory_key_def using headerize_mandatory [of n] n that by blast
  qed
  show ?thesis
    unfolding put_field_def Let_def
    by (intro keeps_if)
      (rule K M [OF other_keys(1)] M [OF other_keys(2)] C [OF other_keys(3)] C [OF other_keys(4)] C [OF other_keys(8)]
        C [OF other_keys(9)] C [OF other_keys(10)] C [OF other_keys(11)] parsed_so_far_fields refl
       | erule A | (rule D, assumption+))+
qed

lemma put_fields_keeps:
  "put_fields g fs m = Inr (Some m') \<Longrightarrow> parsed_so_far m \<Longrightarrow> grammar_kinds (g_header g) \<Longrightarrow>
    list_all (\<lambda>f. to_lower (fst f) \<noteq> ''call_id'') fs \<Longrightarrow> parsed_so_far m'"
proof (induction g fs m rule: put_fields.induct)
  case (2 g n v fs m)
  then obtain q where q: "put_field g n v m = Inr (True, q)" and r: "put_fields g fs q = Inr (Some m')"
    by (auto split: sum.splits prod.splits bool.splits)
  have "parsed_so_far q" using put_field_keeps [of m g n v] q 2 by (simp add: keeps_def)
  with 2 q r show ?case by auto
qed auto

lemma new_message_parsed: "parsed_so_far (new_message fl data)"
  by (simp add: parsed_so_far_def new_message_def Let_def)

lemma run_checks_pass: "run_checks (v # vs) = Inr (True, out) \<Longrightarrow> \<exists>out. v = Inr (True, out)"
  by (auto split: sum.splits prod.splits bool.splits)


text \<open>A grammar of fixed answers, and the fields of a response.\<close>

definition fixed_grammar :: sip_grammar where
  "fixed_grammar = demo_grammar\<lparr>g_header := \<lambda>r s. Some
     (if r = ''CSeq'' then P_CSeq 1 ''OPTIONS'' else if r = ''Call_ID'' then P_Text ''c'' else if r = ''Via'' then P_Via (Some ''z'') ''h'' None
      else P_NameAddr (new_name_addr demo_uri None []))\<rparr>"

definition demo_fields :: "string \<Rightarrow> (string \<times> string) list" where
  "demo_fields call_id = [(''Via'', ''v''), (''From'', ''f''), (''To'', ''t''), (''CSeq'', ''1 OPTIONS''), (call_id, ''c'')]"

definition demo_first :: "nat option \<Rightarrow> first_line" where
  "demo_first code = \<lparr>fl_method = Some ''OPTIONS'', fl_uri = Some demo_uri, fl_status_code = code, fl_reason_phrase = None\<rparr>"

definition demo_sc_ua :: sc_ua where
  "demo_sc_ua = \<lparr>sc_jssip_id = ''abcde'', sc_ist = [], sc_nist = []\<rparr>"

definition demo_message :: "string \<Rightarrow> nat option \<Rightarrow> raw_message" where
  "demo_message call_id code = the (projr (put_fields fixed_grammar (demo_fields call_id) (new_message (demo_first code) [])))"

lemma fixed_kinds: "grammar_kinds (g_header fixed_grammar)"
  by (auto simp: grammar_kinds_def fixed_grammar_def)



theorem one_reply_at_most_witness:
  "sanityCheck (g_header fixed_grammar) (\<lambda>i. 0) demo_sc_ua (demo_message ''Foo'' None) = Inr (False, []) \<and> [] = ([] :: string list)"
proof -
  have "sanityCheck (g_header fixed_grammar) (\<lambda>i. 0) demo_sc_ua (demo_message ''Foo'' None) = Inr (False, [])" by code_simp
  with one_reply_at_most [OF this] show ?thesis by simp
qed

text \<open>A request with the header Call_ID (a token of another header) and no Call-ID passes the check for the
  mandatory headers, and the next checks throw on the missing identifier.\<close>

theorem underscore_call_id_throws:
  "minimumHeaders (demo_message ''Call_ID'' None) = pass
   \<and> rm_call_id (demo_message ''Call_ID'' None) = None
   \<and> sanityCheck (g_header fixed_grammar) rnd ua (demo_message ''Call_ID'' None)
       = Inl (TypeError ''Cannot read property substr of null'')"
proof -
  have m: "minimumHeaders (demo_message ''Call_ID'' None) = pass" "rm_call_id (demo_message ''Call_ID'' None) = None"
    "\<not> rm_is_response (demo_message ''Call_ID'' None)" "\<not> truthy (rm_to_tag (demo_message ''Call_ID'' None))"
    "fst (im_parseHeader (g_header fixed_grammar) ''to'' 0 (demo_message ''Call_ID'' None))
       = Some (P_NameAddr (new_name_addr demo_uri None []))"
    "uri_scheme (na_uri (new_name_addr demo_uri None [])) = ''sip''" by code_simp+
  then show ?thesis
    by (simp add: sanityCheck_def request_checks_def rfc3261_8_2_2_1_def rfc3261_16_3_4_def pass_def)
qed

end
