(* ===== verification/Dialog.thy ===== *)
theory Dialog
  imports Sip_Message Tx_Base
begin

text \<open>
  The classes \<open>Dialog\<close> (lines 502-787 of \<open>frontend/static/js/jssip-3.10.0.js\<close>) and \<open>DialogRequestSender\<close>
  (lines 789-907).  A server transaction is named by a number; the listeners a dialog puts on its
  \<open>stateChanged\<close> event are the list \<open>dl_listeners\<close>.  The calls to the owner, to the user agent
  and of \<open>request.reply\<close> are the log \<open>dl_log\<close>.
\<close>

section \<open>State\<close>

datatype dialog_state = D_EARLY | D_CONFIRMED | D_TERMINATED

datatype dialog_type = UAS | UAC

record dialog_id =
  di_call_id :: string
  di_local_tag :: "string option"
  di_remote_tag :: "string option"

definition dialog_id_toString :: "dialog_id \<Rightarrow> string" where
  "dialog_id_toString i = di_call_id i @ text_of (di_local_tag i) @ text_of (di_remote_tag i)"

text \<open>
  What a listener does: the first kind clears the pending reply and removes itself, the others
  replace the remote target from the Contact of their request.
\<close>

datatype listener = Clear_uas_pending | Target_if_accepted in_request | Target_if_completed in_request

datatype dialog_event =
    Dl_New dialog_id
  | Dl_Destroy dialog_id
  | Dl_Reply nat nat "string list"
  | Dl_Deliver nat in_request
  | Dl_Created out_request

record dialog =
  dl_id :: dialog_id
  dl_state :: dialog_state
  dl_uac_pending_reply :: bool
  dl_uas_pending_reply :: bool
  dl_local_seqnum :: "nat option"
  dl_remote_seqnum :: "nat option"
  dl_ack_seqnum :: "nat option"
  dl_local_uri :: "uri option"
  dl_remote_uri :: "uri option"
  dl_remote_target :: "uri option"
  dl_route_set :: "string list"
  dl_listeners :: "(nat \<times> listener) list"
  dl_log :: "dialog_event list"

definition dl_emit :: "dialog_event \<Rightarrow> dialog \<Rightarrow> dialog" where
  "dl_emit e d = d\<lparr>dl_log := dl_log d @ [e]\<rparr>"

text \<open>\<open>message.parseHeader(name).uri\<close>: an exception without the header, \<open>None\<close> for an object that has no \<open>uri\<close>.\<close>

fun parsed_uri :: "parsed option \<Rightarrow> js_error + uri option" where
  "parsed_uri (Some (P_NameAddr h)) = Inr (Some (na_uri h))"
| "parsed_uri (Some _) = Inr None"
| "parsed_uri None = Inl (TypeError ''Cannot read property uri of undefined'')"

definition header_uri :: "grammar \<Rightarrow> string \<Rightarrow> 'a in_table_scheme \<Rightarrow> js_error + uri option" where
  "header_uri parse name m = parsed_uri (fst (im_parseHeader parse name 0 m))"

text \<open>\<open>status\<close>: the status code of a message that is a response.  \<open>Inr None\<close> is the returned error object.\<close>

definition initial_state :: "nat option \<Rightarrow> dialog_state \<Rightarrow> dialog_state" where
  "initial_state status st = (case status of None \<Rightarrow> st | Some c \<Rightarrow> if c < 200 then D_EARLY else D_CONFIRMED)"

definition new_dialog ::
    "grammar \<Rightarrow> 'a in_message_scheme \<Rightarrow> nat option \<Rightarrow> dialog_type \<Rightarrow> dialog_state \<Rightarrow> js_error + dialog option" where
  "new_dialog parse m status type st =
     (if \<not> im_hasHeader ''contact'' m then Inr None
      else
        bind_result (header_uri parse ''to'' m) (\<lambda>to_uri.
        bind_result (header_uri parse ''from'' m) (\<lambda>from_uri.
        bind_result (header_uri parse ''contact'' m) (\<lambda>target.
              (let tags = (im_to_tag m, im_from_tag m);
                   (l, r) = (if type = UAS then tags else prod.swap tags);
                   i = \<lparr>di_call_id = im_call_id m, di_local_tag = l, di_remote_tag = r\<rparr>;
                   rr = im_getHeaders ''record-route'' m
               in Inr (Some (dl_emit (Dl_New i)
                    \<lparr>dl_id = i, dl_state = initial_state status st,
                     dl_uac_pending_reply = False, dl_uas_pending_reply = False,
                     dl_local_seqnum = (if type = UAC then Some (im_cseq m) else None),
                     dl_remote_seqnum = (if type = UAS then Some (im_cseq m) else None),
                     dl_ack_seqnum = (if type = UAS then Some (im_cseq m) else None),
                     dl_local_uri = (if type = UAS then to_uri else from_uri),
                     dl_remote_uri = (if type = UAS then from_uri else to_uri),
                     dl_remote_target = target,
                     dl_route_set = (if type = UAS then rr else rev rr),
                     dl_listeners = [], dl_log = []\<rparr>)))))))"

text \<open>The class compares the field \<open>_status\<close>, which nothing sets, with \<open>STATUS_TERMINATED\<close>.\<close>

definition isTerminated :: "dialog \<Rightarrow> bool" where
  "isTerminated d = (None = Some D_TERMINATED)"

definition dl_update :: "'a in_message_scheme \<Rightarrow> dialog_type \<Rightarrow> dialog \<Rightarrow> dialog" where
  "dl_update m type d =
     (let d = d\<lparr>dl_state := D_CONFIRMED\<rparr> in
      if type = UAC then d\<lparr>dl_route_set := rev (im_getHeaders ''record-route'' m)\<rparr> else d)"

definition dl_terminate :: "dialog \<Rightarrow> dialog" where
  "dl_terminate d = (dl_emit (Dl_Destroy (dl_id d)) d)\<lparr>dl_state := D_TERMINATED\<rparr>"

section \<open>Requests sent in the dialog\<close>

definition seqnum_set :: "real \<Rightarrow> dialog \<Rightarrow> dialog" where
  "seqnum_set u d =
     (case dl_local_seqnum d of
        None \<Rightarrow> d\<lparr>dl_local_seqnum := Some (random_below u 10000)\<rparr>
      | Some n \<Rightarrow> if n = 0 then d\<lparr>dl_local_seqnum := Some (random_below u 10000)\<rparr> else d)"

definition dialog_params :: "nat \<Rightarrow> dialog \<Rightarrow> req_params" where
  "dialog_params cseq d =
     \<lparr>p_route_set = Some (dl_route_set d), p_to_uri = dl_remote_uri d, p_to_tag = di_remote_tag (dl_id d),
      p_to_display_name = None, p_from_uri = dl_local_uri d, p_from_tag = di_local_tag (dl_id d),
      p_from_display_name = None, p_call_id = Some (di_call_id (dl_id d)), p_cseq = Some cseq\<rparr>"

text \<open>A remote target that is \<open>undefined\<close> makes the constructor of the request throw.\<close>

definition createRequest ::
    "ua_config \<Rightarrow> draws \<Rightarrow> real \<Rightarrow> sip_method \<Rightarrow> string list option \<Rightarrow> string option \<Rightarrow> dialog \<Rightarrow>
      js_error + out_request \<times> dialog" where
  "createRequest cfg dr u method extraHeaders body d =
     (let d = seqnum_set u d;
          n = the (dl_local_seqnum d);
          cseq = (if method = CANCEL \<or> method = ACK then n else n + 1);
          d = d\<lparr>dl_local_seqnum := Some cseq\<rparr>
      in case dl_remote_target d of
           None \<Rightarrow> Inl (TypeError ''Not enough arguments'')
         | Some target \<Rightarrow>
             bind_result (new_out_request cfg dr method target (dialog_params cseq d) (Some (cloneArray extraHeaders)) body)
               (\<lambda>r. Inr (r, dl_emit (Dl_Created r) d)))"

text \<open>The handler given to the sender.\<close>

definition dl_onAuthenticated :: "dialog \<Rightarrow> dialog" where
  "dl_onAuthenticated d = d\<lparr>dl_local_seqnum := Some (the (dl_local_seqnum d) + 1)\<rparr>"

section \<open>Requests received in the dialog\<close>

definition is_reinvite :: "in_request \<Rightarrow> bool" where
  "is_reinvite r = (im_method r = INVITE \<or> im_method r = UPDATE \<and> truthy (im_body r))"

definition dl_reply :: "nat \<Rightarrow> nat \<Rightarrow> string list \<Rightarrow> dialog \<Rightarrow> dialog" where
  "dl_reply tx code extra d = dl_emit (Dl_Reply tx code extra) d"

definition listen :: "nat \<Rightarrow> listener \<Rightarrow> dialog \<Rightarrow> dialog" where
  "listen tx l d = d\<lparr>dl_listeners := dl_listeners d @ [(tx, l)]\<rparr>"

definition check_seqnum :: "nat \<Rightarrow> in_request \<Rightarrow> dialog \<Rightarrow> bool \<times> dialog" where
  "check_seqnum tx r d =
     (case dl_remote_seqnum d of
        None \<Rightarrow> (True, d\<lparr>dl_remote_seqnum := Some (im_cseq r)\<rparr>)
      | Some n \<Rightarrow>
          if n = 0 then (True, d\<lparr>dl_remote_seqnum := Some (im_cseq r)\<rparr>)
          else if im_cseq r < n then
            (if im_method r = ACK
             then (dl_ack_seqnum d = Some (im_cseq r), d)
             else (False, dl_reply tx 500 [] d))
          else if im_cseq r > n then (True, d\<lparr>dl_remote_seqnum := Some (im_cseq r)\<rparr>)
          else (True, d))"

text \<open>\<open>Retry-After\<close>: \<open>(Math.random() * 10 | 0) + 1\<close>.\<close>

definition check_pending :: "real \<Rightarrow> nat \<Rightarrow> in_request \<Rightarrow> dialog \<Rightarrow> bool \<times> dialog" where
  "check_pending u tx r d =
     (if is_reinvite r then
        (let target = (\<lambda>d. if im_hasHeader ''contact'' r then listen tx (Target_if_accepted r) d else d) in
         if dl_uac_pending_reply d then (True, target (dl_reply tx 491 [] d))
         else if dl_uas_pending_reply d
           then (False, dl_reply tx 500 [''Retry-After:'' @ num_str (random_below u 10 + 1)] d)
         else (True, target (listen tx Clear_uas_pending (d\<lparr>dl_uas_pending_reply := True\<rparr>))))
      else if im_method r = NOTIFY \<and> im_hasHeader ''contact'' r then (True, listen tx (Target_if_completed r) d)
      else (True, d))"

definition checkInDialogRequest :: "real \<Rightarrow> nat \<Rightarrow> in_request \<Rightarrow> dialog \<Rightarrow> bool \<times> dialog" where
  "checkInDialogRequest u tx r d =
     (case check_seqnum tx r d of
        (False, d) \<Rightarrow> (False, d)
      | (True, d) \<Rightarrow> check_pending u tx r d)"

definition dl_receiveRequest :: "real \<Rightarrow> nat \<Rightarrow> in_request \<Rightarrow> dialog \<Rightarrow> dialog" where
  "dl_receiveRequest u tx r d =
     (case checkInDialogRequest u tx r d of
        (False, d) \<Rightarrow> d
      | (True, d) \<Rightarrow>
          (let d = (if im_method r = ACK \<and> dl_ack_seqnum d \<noteq> None then d\<lparr>dl_ack_seqnum := None\<rparr>
                    else if im_method r = INVITE then d\<lparr>dl_ack_seqnum := Some (im_cseq r)\<rparr>
                    else d)
           in dl_emit (Dl_Deliver tx r) d))"

definition over_state :: "tx_state \<Rightarrow> bool" where
  "over_state st = (st \<in> {STATUS_ACCEPTED, STATUS_COMPLETED, STATUS_TERMINATED})"

text \<open>The listeners of one transaction, run in their order.\<close>

definition run_listener :: "grammar \<Rightarrow> tx_state \<Rightarrow> nat \<times> listener \<Rightarrow> dialog \<Rightarrow> js_error + dialog" where
  "run_listener parse st entry d =
     (case snd entry of
        Clear_uas_pending \<Rightarrow>
          Inr (if over_state st then d\<lparr>dl_listeners := remove1 entry (dl_listeners d), dl_uas_pending_reply := False\<rparr> else d)
      | Target_if_accepted r \<Rightarrow>
          if st = STATUS_ACCEPTED then bind_result (header_uri parse ''contact'' r) (\<lambda>u. Inr (d\<lparr>dl_remote_target := u\<rparr>)) else Inr d
      | Target_if_completed r \<Rightarrow>
          if st = STATUS_COMPLETED then bind_result (header_uri parse ''contact'' r) (\<lambda>u. Inr (d\<lparr>dl_remote_target := u\<rparr>)) else Inr d)"

fun run_listeners :: "grammar \<Rightarrow> tx_state \<Rightarrow> (nat \<times> listener) list \<Rightarrow> dialog \<Rightarrow> js_error + dialog" where
  "run_listeners parse st [] d = Inr d"
| "run_listeners parse st (l # ls) d = bind_result (run_listener parse st l d) (run_listeners parse st ls)"

definition dl_stateChanged :: "grammar \<Rightarrow> nat \<Rightarrow> tx_state \<Rightarrow> dialog \<Rightarrow> js_error + dialog" where
  "dl_stateChanged parse tx st d = run_listeners parse st (filter (\<lambda>(t, _). t = tx) (dl_listeners d)) d"

section \<open>The request sender of the dialog\<close>

datatype ds_event =
    Ds_Sent out_request
  | Ds_RequestTimeout
  | Ds_TransportError
  | Ds_Success in_response
  | Ds_Error in_response
  | Ds_DialogError in_response

record dialog_sender =
  ds_request :: out_request
  ds_reattempt :: bool
  ds_reattemptTimer :: bool
  ds_listening :: bool
  ds_log :: "ds_event list"

definition new_dialog_sender :: "out_request \<Rightarrow> dialog_sender" where
  "new_dialog_sender r = \<lparr>ds_request = r, ds_reattempt = False, ds_reattemptTimer = False, ds_listening = False, ds_log = []\<rparr>"

definition ds_emit :: "ds_event \<Rightarrow> dialog_sender \<Rightarrow> dialog_sender" where
  "ds_emit e s = s\<lparr>ds_log := ds_log s @ [e]\<rparr>"

text \<open>\<open>st\<close>: the state of the client transaction once the request was sent.\<close>

definition ds_send :: "tx_state \<Rightarrow> dialog_sender \<times> dialog \<Rightarrow> dialog_sender \<times> dialog" where
  "ds_send st sd =
     (case sd of (s, d) \<Rightarrow>
       (let s = ds_emit (Ds_Sent (ds_request s)) s in
        if (or_method (ds_request s) = INVITE \<or> or_method (ds_request s) = UPDATE \<and> truthy (or_body (ds_request s)))
           \<and> st \<noteq> STATUS_TERMINATED
        then (s\<lparr>ds_listening := True\<rparr>, d\<lparr>dl_uac_pending_reply := True\<rparr>)
        else (s, d)))"

definition ds_stateChanged :: "tx_state \<Rightarrow> dialog_sender \<times> dialog \<Rightarrow> dialog_sender \<times> dialog" where
  "ds_stateChanged st sd =
     (case sd of (s, d) \<Rightarrow>
       if ds_listening s \<and> over_state st then (s\<lparr>ds_listening := False\<rparr>, d\<lparr>dl_uac_pending_reply := False\<rparr>) else (s, d))"

definition ds_onRequestTimeout :: "dialog_sender \<Rightarrow> dialog_sender" where
  "ds_onRequestTimeout s = ds_emit Ds_RequestTimeout s"

definition ds_onTransportError :: "dialog_sender \<Rightarrow> dialog_sender" where
  "ds_onTransportError s = ds_emit Ds_TransportError s"

definition ds_final :: "in_response \<Rightarrow> dialog_sender \<Rightarrow> dialog_sender" where
  "ds_final response s =
     (if 200 \<le> im_status_code response \<and> im_status_code response < 300 then ds_emit (Ds_Success response) s
      else if 300 \<le> im_status_code response then ds_emit (Ds_Error response) s
      else s)"

definition ds_receiveResponse :: "in_response \<Rightarrow> dialog_sender \<times> dialog \<Rightarrow> dialog_sender \<times> dialog" where
  "ds_receiveResponse response sd =
     (case sd of (s, d) \<Rightarrow>
       if im_status_code response = 408 \<or> im_status_code response = 481 then (ds_emit (Ds_DialogError response) s, d)
       else if im_method response = INVITE \<and> im_status_code response = 491 then
         (if ds_reattempt s then (ds_final response s, d)
          else (let n = the (dl_local_seqnum d) + 1; r = ds_request s in
            (s\<lparr>ds_request := r\<lparr>or_cseq := n\<rparr>, ds_reattemptTimer := True\<rparr>, d\<lparr>dl_local_seqnum := Some n\<rparr>)))
       else (ds_final response s, d))"

definition ds_fire :: "tx_state \<Rightarrow> dialog_sender \<times> dialog \<Rightarrow> dialog_sender \<times> dialog" where
  "ds_fire st sd =
     (case sd of (s, d) \<Rightarrow>
       (let s = s\<lparr>ds_reattemptTimer := False\<rparr> in
        if \<not> isTerminated d then ds_send st (s\<lparr>ds_reattempt := True\<rparr>, d) else (s, d)))"

definition sendRequest ::
    "ua_config \<Rightarrow> draws \<Rightarrow> real \<Rightarrow> tx_state \<Rightarrow> sip_method \<Rightarrow> string list option \<Rightarrow> string option \<Rightarrow> dialog \<Rightarrow>
      js_error + out_request \<times> dialog_sender \<times> dialog" where
  "sendRequest cfg dr u st method extraHeaders body d =
     bind_result (createRequest cfg dr u method extraHeaders (if truthy body then body else None) d)
       (\<lambda>(r, d). Inr (r, ds_send st (new_dialog_sender r, d)))"

section \<open>Steps\<close>

inductive dl_step :: "dialog \<Rightarrow> dialog \<Rightarrow> bool" where
  dl_step_receive: "is_random u \<Longrightarrow> dl_step d (dl_receiveRequest u tx r d)"
| dl_step_update: "dl_step d (dl_update (m :: in_response) type d)"
| dl_step_terminate: "dl_step d (dl_terminate d)"
| dl_step_create: "createRequest cfg dr u meth eh body d = Inr (r, d') \<Longrightarrow> dl_step d d'"
| dl_step_auth: "dl_local_seqnum d \<noteq> None \<Longrightarrow> dl_step d (dl_onAuthenticated d)"
| dl_step_tx: "dl_stateChanged parse tx st d = Inr d' \<Longrightarrow> dl_step d d'"
| dl_step_sent: "dl_step d (snd (ds_send st (s, d)))"
| dl_step_sender: "dl_step d (snd (ds_stateChanged st (s, d)))"
| dl_step_response: "dl_local_seqnum d \<noteq> None \<Longrightarrow> dl_step d (snd (ds_receiveResponse response (s, d)))"
| dl_step_fire: "dl_step d (snd (ds_fire st (s, d)))"

inductive_cases dl_stepE: "dl_step d d'"

abbreviation dl_run :: "dialog \<Rightarrow> dialog \<Rightarrow> bool" where
  "dl_run \<equiv> dl_step\<^sup>*\<^sup>*"

fun delivered :: "dialog_event list \<Rightarrow> in_request list" where
  "delivered [] = []"
| "delivered (Dl_Deliver tx r # es) = (if im_method r = ACK then delivered es else r # delivered es)"
| "delivered (_ # es) = delivered es"

fun created :: "dialog_event list \<Rightarrow> out_request list" where
  "created [] = []"
| "created (Dl_Created r # es) = (if or_method r = ACK \<or> or_method r = CANCEL then created es else r # created es)"
| "created (_ # es) = created es"

lemma delivered_append [simp]: "delivered (es @ fs) = delivered es @ delivered fs"
  by (induction es rule: delivered.induct) auto

lemma created_append [simp]: "created (es @ fs) = created es @ created fs"
  by (induction es rule: created.induct) auto

section \<open>Invariants\<close>

definition in_order :: "dialog \<Rightarrow> bool" where
  "in_order d =
     (sorted (map im_cseq (delivered (dl_log d)))
      \<and> list_all (\<lambda>r. case dl_remote_seqnum d of None \<Rightarrow> False | Some n \<Rightarrow> im_cseq r \<le> n) (delivered (dl_log d)))"

definition out_order :: "dialog \<Rightarrow> bool" where
  "out_order d =
     (sorted_wrt (\<lambda>r q. or_cseq r < or_cseq q) (created (dl_log d))
      \<and> list_all (\<lambda>r. case dl_local_seqnum d of None \<Rightarrow> False | Some n \<Rightarrow> or_cseq r \<le> n) (created (dl_log d)))"

definition is_clear :: "nat \<times> listener \<Rightarrow> bool" where
  "is_clear e = (snd e = Clear_uas_pending)"

lemma is_clear_simps [simp]: "is_clear (t, Clear_uas_pending)" "\<not> is_clear (t, Target_if_accepted r)" "\<not> is_clear (t, Target_if_completed r)"
  by (simp_all add: is_clear_def)

text \<open>A reply is pending exactly while one transaction is watched for its end.\<close>

definition pending_watched :: "dialog \<Rightarrow> bool" where
  "pending_watched d =
     (length (filter is_clear (dl_listeners d)) = (if dl_uas_pending_reply d then 1 else 0))"

definition dl_inv :: "dialog \<Rightarrow> bool" where
  "dl_inv d = (in_order d \<and> out_order d \<and> pending_watched d)"

lemma dl_inv_new: "new_dialog parse m status type st = Inr (Some d) \<Longrightarrow> dl_inv d"
  by (auto simp: new_dialog_def bind_result_Inr dl_emit_def dl_inv_def in_order_def out_order_def pending_watched_def
      Let_def split: if_splits prod.splits)

lemma dl_inv_cong:
  assumes "delivered (dl_log e) = delivered (dl_log d)" "created (dl_log e) = created (dl_log d)"
    "dl_remote_seqnum e = dl_remote_seqnum d" "dl_local_seqnum e = dl_local_seqnum d"
    "filter is_clear (dl_listeners e) = filter is_clear (dl_listeners d)"
    "dl_uas_pending_reply e = dl_uas_pending_reply d"
  shows "dl_inv e = dl_inv d"
  using assms by (simp add: dl_inv_def in_order_def out_order_def pending_watched_def)

lemma dl_inv_raise:
  assumes "dl_inv d" "\<And>k. dl_remote_seqnum d = Some k \<Longrightarrow> k \<le> n"
  shows "dl_inv (d\<lparr>dl_remote_seqnum := Some n\<rparr>)"
proof -
  have "im_cseq r \<le> n" if "r \<in> set (delivered (dl_log d))" for r
    using that assms by (fastforce simp: dl_inv_def in_order_def list_all_iff split: option.splits)
  then show ?thesis using assms(1)
    by (simp add: dl_inv_def in_order_def out_order_def pending_watched_def list_all_iff)
qed

lemma dl_inv_reply [simp]: "dl_inv (dl_reply tx c x d) = dl_inv d"
  by (rule dl_inv_cong) (simp_all add: dl_reply_def dl_emit_def)

lemma check_seqnum_result:
  assumes "check_seqnum tx r d = (b, e)"
  shows "dl_inv d \<Longrightarrow> dl_inv e"
    and "b \<Longrightarrow> im_method r \<noteq> ACK \<Longrightarrow> dl_remote_seqnum e = Some (im_cseq r)"
    and "dl_uac_pending_reply e = dl_uac_pending_reply d" and "dl_uas_pending_reply e = dl_uas_pending_reply d"
proof -
  show "dl_inv d \<Longrightarrow> dl_inv e"
    using assms by (auto simp: check_seqnum_def intro!: dl_inv_raise split: option.splits if_splits)
qed (use assms in \<open>auto simp: check_seqnum_def dl_reply_def dl_emit_def split: option.splits if_splits\<close>)

lemma check_pending_result:
  assumes "check_pending u tx r d = (b, e)"
  shows "dl_inv d \<Longrightarrow> dl_inv e" and "dl_remote_seqnum e = dl_remote_seqnum d"
  using assms
  by (auto simp: check_pending_def dl_reply_def dl_emit_def listen_def Let_def dl_inv_def in_order_def out_order_def
      pending_watched_def split: if_splits)

lemma dl_inv_deliver:
  assumes "dl_inv d" "im_method r \<noteq> ACK \<longrightarrow> dl_remote_seqnum d = Some (im_cseq r)"
  shows "dl_inv (dl_emit (Dl_Deliver tx r) d)"
  using assms
  by (auto simp: dl_inv_def in_order_def out_order_def pending_watched_def dl_emit_def sorted_append list_all_iff)

lemma dl_inv_receive: "dl_inv d \<Longrightarrow> dl_inv (dl_receiveRequest u tx r d)"
proof -
  assume i: "dl_inv d"
  obtain b e where s: "check_seqnum tx r d = (b, e)" by (cases "check_seqnum tx r d")
  obtain c f where p: "check_pending u tx r e = (c, f)" by (cases "check_pending u tx r e")
  note e = check_seqnum_result [OF s] and f = check_pending_result [OF p]
  have k: "dl_inv (g\<lparr>dl_ack_seqnum := x\<rparr>) = dl_inv g" for g x by (rule dl_inv_cong) simp_all
  have "b \<Longrightarrow> im_method r \<noteq> ACK \<Longrightarrow> dl_remote_seqnum f = Some (im_cseq r)" using e(2) f(2) by simp
  then show ?thesis using e(1) f(1) i k
    by (auto simp: dl_receiveRequest_def checkInDialogRequest_def s p Let_def intro!: dl_inv_deliver split: bool.splits)
qed

lemma dl_inv_create:
  assumes i: "dl_inv d" and c: "createRequest cfg dr u meth eh body d = Inr (r, d')"
  shows "dl_inv d'"
proof -
  let ?e = "seqnum_set u d"
  let ?n = "the (dl_local_seqnum ?e)"
  let ?cseq = "if meth = CANCEL \<or> meth = ACK then ?n else ?n + 1"
  obtain target where n: "new_out_request cfg dr meth target (dialog_params ?cseq (?e\<lparr>dl_local_seqnum := Some ?cseq\<rparr>))
        (Some (cloneArray eh)) body = Inr r"
    and d': "d' = dl_emit (Dl_Created r) (?e\<lparr>dl_local_seqnum := Some ?cseq\<rparr>)"
    using c by (auto simp: createRequest_def Let_def bind_result_Inr split: option.splits)
  have m: "or_method r = meth" and q: "\<not> (meth = CANCEL \<or> meth = ACK) \<Longrightarrow> or_cseq r = ?n + 1"
    using n by (auto elim!: new_out_request_headers simp: new_cseq_def dialog_params_def)
  have le: "\<And>q. q \<in> set (created (dl_log d)) \<Longrightarrow> or_cseq q \<le> ?n"
    using i by (auto simp: dl_inv_def out_order_def list_all_iff seqnum_set_def split: option.splits)
  have s: "dl_log ?e = dl_log d" "dl_remote_seqnum ?e = dl_remote_seqnum d" "dl_listeners ?e = dl_listeners d"
    "dl_uas_pending_reply ?e = dl_uas_pending_reply d" by (simp_all add: seqnum_set_def split: option.splits)
  show ?thesis
    using i m q le s
    by (auto simp: d' dl_inv_def in_order_def out_order_def pending_watched_def dl_emit_def list_all_iff sorted_wrt_append
        less_Suc_eq_le le_SucI)
qed

lemma filter_remove1: "filter P (remove1 x xs) = (if P x then remove1 x (filter P xs) else filter P xs)"
  by (induction xs) auto

text \<open>What the listeners of a transaction leave as it is.\<close>

lemma run_listener_keeps:
  assumes "run_listener parse st l d = Inr e"
  shows "dl_log e = dl_log d" "dl_remote_seqnum e = dl_remote_seqnum d" "dl_local_seqnum e = dl_local_seqnum d"
  using assms by (auto simp: run_listener_def bind_result_Inr split: listener.splits if_splits)

abbreviation clears :: "(nat \<times> listener) list \<Rightarrow> (nat \<times> listener) list" where
  "clears ls \<equiv> filter is_clear ls"

lemma run_listener_pending:
  assumes "run_listener parse st l d = Inr e" "pending_watched d" "is_clear l \<longrightarrow> l \<in> set (dl_listeners d)"
  shows "pending_watched e"
    and "is_clear l \<Longrightarrow> over_state st \<Longrightarrow> \<not> dl_uas_pending_reply e"
    and "\<not> (is_clear l \<and> over_state st) \<Longrightarrow>
      dl_listeners e = dl_listeners d \<and> dl_uas_pending_reply e = dl_uas_pending_reply d"
proof -
  have r: "l \<in> set ls \<Longrightarrow> length ls = Suc 0 \<Longrightarrow> remove1 l ls = []" for ls by (cases ls) auto
  show "pending_watched e"
    using assms
    by (auto simp: run_listener_def pending_watched_def bind_result_Inr filter_remove1 r is_clear_def split: listener.splits if_splits prod.splits)
qed (use assms in \<open>auto simp: run_listener_def is_clear_def bind_result_Inr split: listener.splits if_splits\<close>)

lemma run_listeners_pending:
  assumes "run_listeners parse st ls d = Inr e" "pending_watched d" "set (clears ls) \<subseteq> set (dl_listeners d)" "length (clears ls) \<le> 1"
  shows "pending_watched e \<and> (dl_uas_pending_reply e \<longrightarrow> dl_uas_pending_reply d \<and> (clears ls = [] \<or> \<not> over_state st))
    \<and> dl_log e = dl_log d \<and> dl_remote_seqnum e = dl_remote_seqnum d \<and> dl_local_seqnum e = dl_local_seqnum d"
  using assms
proof (induction ls arbitrary: d)
  case Nil
  then show ?case by simp
next
  case (Cons l ls)
  obtain f where f: "run_listener parse st l d = Inr f" and r: "run_listeners parse st ls f = Inr e"
    using Cons.prems(1) by (auto simp: bind_result_Inr)
  have m: "is_clear l \<longrightarrow> l \<in> set (dl_listeners d)"
    using Cons.prems(3) by (cases l) auto
  note p = run_listener_pending [OF f Cons.prems(2) m] and k = run_listener_keeps [OF f]
  show ?case
  proof (cases "is_clear l \<and> over_state st")
    case True
    then have "clears ls = []" using Cons.prems(4) by (cases l) auto
    then show ?thesis using Cons.IH [OF r p(1)] p(2) True k by auto
  next
    case False
    then have x: "(clears ls = [] \<or> \<not> over_state st) \<longrightarrow> (clears (l # ls) = [] \<or> \<not> over_state st)"
      by (cases "is_clear l") simp_all
    have c: "length (clears ls) \<le> 1" "set (clears ls) \<subseteq> set (clears (l # ls))"
      using Cons.prems(4) by (cases "is_clear l"; simp)+
    have q: "dl_listeners f = dl_listeners d" "dl_uas_pending_reply f = dl_uas_pending_reply d" using p(3) [OF False] by simp_all
    have "set (clears ls) \<subseteq> set (dl_listeners f)" unfolding q(1) using c(2) Cons.prems(3) by (rule order_trans)
    from Cons.IH [OF r p(1) this c(1)] x show ?thesis unfolding q(2) k by blast
  qed
qed

lemma clears_filter: "clears (filter (\<lambda>(t, _). t = tx) ls) = filter (\<lambda>(t, _). t = tx) (clears ls)"
  by (simp add: conj_commute)

lemma stateChanged_pending:
  assumes "dl_stateChanged parse tx st d = Inr e" "pending_watched d"
  shows "pending_watched e \<and> (dl_uas_pending_reply e \<longrightarrow> dl_uas_pending_reply d
      \<and> (clears (filter (\<lambda>(t, _). t = tx) (dl_listeners d)) = [] \<or> \<not> over_state st))
    \<and> dl_log e = dl_log d \<and> dl_remote_seqnum e = dl_remote_seqnum d \<and> dl_local_seqnum e = dl_local_seqnum d"
proof (rule run_listeners_pending [OF assms(1) [unfolded dl_stateChanged_def] assms(2)])
  have "length (clears (dl_listeners d)) \<le> 1" using assms(2) by (simp add: pending_watched_def)
  then show "length (clears (filter (\<lambda>(t, _). t = tx) (dl_listeners d))) \<le> 1"
    using length_filter_le [of "\<lambda>(t, _). t = tx" "clears (dl_listeners d)"] unfolding clears_filter by linarith
qed auto

lemma dl_inv_stateChanged: "dl_stateChanged parse tx st d = Inr e \<Longrightarrow> dl_inv d \<Longrightarrow> dl_inv e"
  using stateChanged_pending [of parse tx st d e] by (auto simp: dl_inv_def in_order_def out_order_def)

lemma out_order_next:
  assumes "dl_inv d" "dl_local_seqnum d \<noteq> None"
  shows "dl_inv (d\<lparr>dl_local_seqnum := Some (the (dl_local_seqnum d) + 1)\<rparr>)"
  using assms by (auto simp: dl_inv_def in_order_def out_order_def pending_watched_def list_all_iff)

lemma dl_inv_flags [simp]:
  "dl_inv (d\<lparr>dl_uac_pending_reply := b\<rparr>) = dl_inv d" "dl_inv (d\<lparr>dl_state := st\<rparr>) = dl_inv d"
  "dl_inv (d\<lparr>dl_route_set := rs\<rparr>) = dl_inv d"
  by (rule dl_inv_cong; simp)+

lemma dl_inv_terminate: "dl_inv (dl_terminate d) = dl_inv d"
  by (rule dl_inv_cong) (simp_all add: dl_terminate_def dl_emit_def)

lemma dl_inv_sender:
  "dl_inv (snd (ds_send st sd)) = dl_inv (snd sd)" "dl_inv (snd (ds_stateChanged st sd)) = dl_inv (snd sd)"
  "dl_inv (snd (ds_fire st sd)) = dl_inv (snd sd)"
  by (cases sd; simp add: ds_send_def ds_stateChanged_def ds_fire_def Let_def)+

lemma dl_inv_response:
  "dl_inv d \<Longrightarrow> dl_local_seqnum d \<noteq> None \<Longrightarrow> dl_inv (snd (ds_receiveResponse r (s, d)))"
  using out_order_next [of d] by (simp add: ds_receiveResponse_def Let_def)

lemma dl_inv_update: "dl_inv (dl_update m type d) = dl_inv d"
  by (simp add: dl_update_def Let_def)

lemma dl_inv_step: "dl_step d d' \<Longrightarrow> dl_inv d \<Longrightarrow> dl_inv d'"
proof (induction rule: dl_step.induct)
  case (dl_step_create cfg dr u meth eh body d r d')
  then show ?case by (blast intro: dl_inv_create)
next
  case (dl_step_tx parse tx st d d')
  then show ?case by (blast intro: dl_inv_stateChanged)
next
  case (dl_step_auth d)
  then show ?case unfolding dl_onAuthenticated_def by (blast intro: out_order_next)
next
  case (dl_step_response d r s)
  then show ?case by (blast intro: dl_inv_response)
qed (simp_all only: dl_inv_receive out_order_next dl_inv_update dl_onAuthenticated_def dl_inv_sender dl_inv_response
    dl_inv_terminate snd_conv)

lemma dl_inv_run: "dl_run d d' \<Longrightarrow> dl_inv d \<Longrightarrow> dl_inv d'"
  by (induction rule: rtranclp_induct) (auto intro: dl_inv_step)

section \<open>Properties\<close>

text \<open>C13.  In every dialog, whatever the order of requests, responses and transaction events, the requests
  handed to its owner (ACKs apart) come in the order of their sequence numbers, and the requests
  made in it (ACKs and CANCELs apart) have strictly increasing ones.\<close>

theorem dialog_sequences:
  assumes "new_dialog parse m status type st = Inr (Some d0)" "dl_run d0 d"
  shows "sorted (map im_cseq (delivered (dl_log d)))
    \<and> sorted_wrt (\<lambda>r q. or_cseq r < or_cseq q) (created (dl_log d))"
  using dl_inv_run [OF assms(2) dl_inv_new [OF assms(1)]] by (simp add: dl_inv_def in_order_def out_order_def)

definition demo_na :: header_field where
  "demo_na = \<lparr>hf_raw = ''<sip:h>'', hf_parsed = Some (P_NameAddr \<lparr>na_uri = demo_uri, na_display_name = None, na_parameters = []\<rparr>)\<rparr>"

definition demo_in_dialog :: "sip_method \<Rightarrow> nat \<Rightarrow> in_request" where
  "demo_in_dialog meth n =
     \<lparr>im_headers = [(''Contact'', [demo_na]), (''To'', [demo_na]), (''From'', [demo_na])], im_data = [], im_method = meth,
      im_via_branch = Some ''z'', im_call_id = ''c'', im_cseq = n, im_from_tag = Some ''f'',
      im_to_tag = Some ''t'', im_body = None, im_from = None, im_to = None, im_session_expires = None,
      im_session_expires_refresher = None, im_refer_to = None, im_replaces = None, im_event = None, im_ruri = demo_uri\<rparr>"

definition demo_dialog :: dialog where
  "demo_dialog = the (projr (new_dialog (\<lambda>r s. None) (demo_in_dialog INVITE 5) None UAS D_CONFIRMED))"

lemma demo_dialog_new: "new_dialog (\<lambda>r s. None) (demo_in_dialog INVITE 5) None UAS D_CONFIRMED = Inr (Some demo_dialog)"
  by code_simp

text \<open>A re-INVITE with a higher number, and a request that was overtaken by it.\<close>

definition demo_dialog_2 :: dialog where
  "demo_dialog_2 = dl_receiveRequest 0 2 (demo_in_dialog INFO 4) (dl_receiveRequest 0 1 (demo_in_dialog INVITE 7) demo_dialog)"

lemma demo_dialog_run: "dl_run demo_dialog demo_dialog_2"
proof -
  have "is_random 0" by (simp add: is_random_def)
  then show ?thesis unfolding demo_dialog_2_def
    by (meson dl_step_receive rtranclp.rtrancl_into_rtrancl rtranclp.rtrancl_refl)
qed

theorem dialog_sequences_witness:
  "map im_cseq (delivered (dl_log demo_dialog_2)) = [7] \<and> sorted (map im_cseq (delivered (dl_log demo_dialog_2)))"
proof -
  have "map im_cseq (delivered (dl_log demo_dialog_2)) = [7]" by code_simp
  with dialog_sequences [OF demo_dialog_new demo_dialog_run] show ?thesis by blast
qed

lemma delivered_reply [simp]: "delivered (dl_log (dl_reply tx c x d)) = delivered (dl_log d)"
  by (simp add: dl_reply_def dl_emit_def)

lemma check_seqnum_delivered: "check_seqnum tx r d = (b, e) \<Longrightarrow> delivered (dl_log e) = delivered (dl_log d)"
  by (auto simp: check_seqnum_def split: option.splits if_splits)

lemma pending_refuses:
  assumes "dl_uas_pending_reply d" "\<not> dl_uac_pending_reply d" "is_reinvite r"
  shows "delivered (dl_log (dl_receiveRequest u tx r d)) = delivered (dl_log d)"
proof -
  obtain b e where s: "check_seqnum tx r d = (b, e)" by (cases "check_seqnum tx r d")
  have "check_pending u tx r e = (False, dl_reply tx 500 [''Retry-After:'' @ num_str (random_below u 10 + 1)] e)"
    using assms check_seqnum_result(3,4) [OF s] by (simp add: check_pending_def Let_def)
  then show ?thesis
    using check_seqnum_delivered [OF s] by (auto simp: dl_receiveRequest_def checkInDialogRequest_def s split: bool.splits)
qed



text \<open>A re-INVITE that crosses one of our own is answered 491 and, for want of a \<open>return\<close>, is still handed
  to the owner, which answers it a second time.\<close>

theorem glare_still_delivered:
  assumes "dl_uac_pending_reply d" "is_reinvite r" "dl_remote_seqnum d = Some n" "n < im_cseq r"
  shows "dl_log (dl_receiveRequest u tx r d) = dl_log d @ [Dl_Reply tx 491 [], Dl_Deliver tx r]"
  using assms
  by (auto simp: dl_receiveRequest_def checkInDialogRequest_def check_seqnum_def check_pending_def Let_def dl_reply_def dl_emit_def
      listen_def is_reinvite_def split: if_splits)

theorem glare_still_delivered_witness:
  "dl_log (dl_receiveRequest 0 3 (demo_in_dialog INVITE 9) (demo_dialog\<lparr>dl_uac_pending_reply := True\<rparr>))
   = dl_log demo_dialog @ [Dl_Reply 3 491 [], Dl_Deliver 3 (demo_in_dialog INVITE 9)]"
proof -
  have f: "dl_uac_pending_reply (demo_dialog\<lparr>dl_uac_pending_reply := True\<rparr>)" "is_reinvite (demo_in_dialog INVITE 9)"
    "dl_remote_seqnum (demo_dialog\<lparr>dl_uac_pending_reply := True\<rparr>) = Some 5" "5 < im_cseq (demo_in_dialog INVITE 9)"
    by code_simp+
  show ?thesis using glare_still_delivered [OF f, of 0 3] by simp
qed

text \<open>The second attempt of a re-INVITE refused with 491 is meant to have the next sequence number, but
  it prints as the refused request did; and it is sent even when the dialog was terminated meanwhile,
  because \<open>isTerminated\<close> looks at a field that nothing sets.\<close>

theorem reattempt_prints_same:
  assumes "im_method resp = INVITE" "im_status_code resp = 491" "\<not> ds_reattempt s"
  shows "\<exists>q. ds_log (fst (ds_fire st (fst (ds_receiveResponse resp (s, d)), dl_terminate (snd (ds_receiveResponse resp (s, d))))))
      = ds_log s @ [Ds_Sent q]
    \<and> or_toString cfg q = or_toString cfg (ds_request s) \<and> or_cseq q = the (dl_local_seqnum d) + 1"
proof -
  let ?q = "(ds_request s)\<lparr>or_cseq := the (dl_local_seqnum d) + 1\<rparr>"
  have "or_toString cfg ?q = or_toString cfg (ds_request s)" by (simp add: or_toString_def)
  then show ?thesis using assms
    by (intro exI [of _ ?q]) (simp add: ds_receiveResponse_def ds_fire_def ds_send_def isTerminated_def ds_emit_def Let_def)
qed

definition demo_491 :: in_response where
  "demo_491 = in_message.extend (in_message.truncate (demo_in_dialog INVITE 9)) \<lparr>im_status_code = 491, im_reason_phrase = []\<rparr>"

theorem reattempt_prints_same_witness:
  "\<exists>q. ds_log (fst (ds_fire STATUS_CALLING
        (fst (ds_receiveResponse demo_491 (new_dialog_sender demo_request, demo_dialog)),
         dl_terminate (snd (ds_receiveResponse demo_491 (new_dialog_sender demo_request, demo_dialog)))))) = [Ds_Sent q]
    \<and> or_toString demo_cfg q = or_toString demo_cfg demo_request"
proof -
  have f: "im_method demo_491 = INVITE" "im_status_code demo_491 = 491" "\<not> ds_reattempt (new_dialog_sender demo_request)"
    by (simp_all add: demo_491_def demo_in_dialog_def in_message.defs new_dialog_sender_def)
  show ?thesis
    using reattempt_prints_same [OF f, of STATUS_CALLING demo_dialog demo_cfg] by (auto simp: new_dialog_sender_def)
qed

end
