(* ===== verification/User_Agent.thy ===== *)
theory User_Agent
  imports Transport Sanity_Check Dialog
begin

text \<open>
  The class \<open>UA\<close> (lines 23901-24958 of \<open>frontend/static/js/jssip-3.10.0.js\<close>): its life cycle over the
  model of the transport, its tables, and the dispatch of messages.  Sessions, dialogs, applicants
  and transactions are named by numbers; the calls to them, to the registrator and to the
  application are the log \<open>ua_log\<close>.
\<close>

section \<open>State\<close>

datatype ua_status = UA_INIT | UA_READY | UA_USER_CLOSED | UA_NOT_READY

datatype ua_error = CONFIGURATION_ERROR | NETWORK_ERROR

datatype tx_type = NIST | NICT | IST | ICT

datatype ua_event =
    Ua_Emit string
  | Ua_Register
  | Ua_Unregister bool
  | Ua_Registrator_close
  | Ua_Registrator_transport_closed
  | Ua_Terminate_session nat
  | Ua_Tx_TransportError tx_type string
  | Ua_Tx_Response tx_type string in_response
  | Ua_Reply in_request nat
  | Ua_Reply_sl in_request nat
  | Ua_New_server_tx tx_type in_request
  | Ua_Init_options in_request
  | Ua_Init_message in_request
  | Ua_Init_session in_request
  | Ua_To_session nat in_request
  | Ua_To_dialog nat in_request

record ua =
  ua_status :: ua_status
  ua_error :: "ua_error option"
  ua_cfg_register :: bool
  ua_dyn_register :: bool
  ua_closeTimer :: bool
  ua_transport :: transport
  ua_dialogs :: "nat js_object"
  ua_sessions :: "nat js_object"
  ua_applicants :: "nat js_object"
  ua_transactions :: "tx_type \<Rightarrow> nat js_object"
  ua_log :: "ua_event list"

definition ua_emit :: "ua_event \<Rightarrow> ua \<Rightarrow> ua" where
  "ua_emit e u = u\<lparr>ua_log := ua_log u @ [e]\<rparr>"

definition new_ua :: "bool \<Rightarrow> transport \<Rightarrow> ua" where
  "new_ua register t =
     \<lparr>ua_status = UA_INIT, ua_error = None, ua_cfg_register = register, ua_dyn_register = False, ua_closeTimer = False,
      ua_transport = t, ua_dialogs = [], ua_sessions = [], ua_applicants = [], ua_transactions = (\<lambda>_. []), ua_log = []\<rparr>"

section \<open>Tables\<close>

definition newTransaction :: "tx_type \<Rightarrow> string \<Rightarrow> nat \<Rightarrow> ua \<Rightarrow> ua" where
  "newTransaction type i tx u =
     ua_emit (Ua_Emit ''newTransaction'')
       (u\<lparr>ua_transactions := (ua_transactions u)(type := obj_put i tx (ua_transactions u type))\<rparr>)"

definition destroyTransaction :: "tx_type \<Rightarrow> string \<Rightarrow> ua \<Rightarrow> ua" where
  "destroyTransaction type i u =
     ua_emit (Ua_Emit ''transactionDestroyed'')
       (u\<lparr>ua_transactions := (ua_transactions u)(type := obj_del i (ua_transactions u type))\<rparr>)"

definition newDialog :: "dialog_id \<Rightarrow> nat \<Rightarrow> ua \<Rightarrow> ua" where
  "newDialog i d u = u\<lparr>ua_dialogs := obj_put (dialog_id_toString i) d (ua_dialogs u)\<rparr>"

definition destroyDialog :: "dialog_id \<Rightarrow> ua \<Rightarrow> ua" where
  "destroyDialog i u = u\<lparr>ua_dialogs := obj_del (dialog_id_toString i) (ua_dialogs u)\<rparr>"

text \<open>The key of an applicant is the object itself, as a string.\<close>

definition object_key :: "nat \<Rightarrow> string" where
  "object_key message = ''[object Object]''"

definition newMessage :: "nat \<Rightarrow> ua \<Rightarrow> ua" where
  "newMessage message u =
     ua_emit (Ua_Emit ''newMessage'') (u\<lparr>ua_applicants := obj_put (object_key message) message (ua_applicants u)\<rparr>)"

definition newOptions :: "nat \<Rightarrow> ua \<Rightarrow> ua" where
  "newOptions message u =
     ua_emit (Ua_Emit ''newOptions'') (u\<lparr>ua_applicants := obj_put (object_key message) message (ua_applicants u)\<rparr>)"

definition destroyMessage :: "nat \<Rightarrow> ua \<Rightarrow> ua" where
  "destroyMessage message u = u\<lparr>ua_applicants := obj_del (object_key message) (ua_applicants u)\<rparr>"

definition newRTCSession :: "string \<Rightarrow> nat \<Rightarrow> ua \<Rightarrow> ua" where
  "newRTCSession i session u =
     ua_emit (Ua_Emit ''newRTCSession'') (u\<lparr>ua_sessions := obj_put i session (ua_sessions u)\<rparr>)"

definition destroyRTCSession :: "string \<Rightarrow> ua \<Rightarrow> ua" where
  "destroyRTCSession i u = u\<lparr>ua_sessions := obj_del i (ua_sessions u)\<rparr>"

definition ua_registered :: "ua \<Rightarrow> ua" where "ua_registered u = ua_emit (Ua_Emit ''registered'') u"

definition ua_unregistered :: "ua \<Rightarrow> ua" where "ua_unregistered u = ua_emit (Ua_Emit ''unregistered'') u"

definition ua_registrationFailed :: "ua \<Rightarrow> ua" where
  "ua_registrationFailed u = ua_emit (Ua_Emit ''registrationFailed'') u"

definition findSession :: "string \<Rightarrow> string option \<Rightarrow> string option \<Rightarrow> ua \<Rightarrow> nat option" where
  "findSession call_id from_tag to_tag u =
     (case obj_get (ua_sessions u) (call_id @ text_of from_tag) of
        Some s \<Rightarrow> Some s
      | None \<Rightarrow> obj_get (ua_sessions u) (call_id @ text_of to_tag))"

definition findDialog :: "string \<Rightarrow> string option \<Rightarrow> string option \<Rightarrow> ua \<Rightarrow> nat option" where
  "findDialog call_id from_tag to_tag u =
     (case obj_get (ua_dialogs u) (call_id @ text_of from_tag @ text_of to_tag) of
        Some d \<Rightarrow> Some d
      | None \<Rightarrow> obj_get (ua_dialogs u) (call_id @ text_of to_tag @ text_of from_tag))"

section \<open>The transport and its events\<close>

definition onTransportConnecting :: "ua \<Rightarrow> ua" where
  "onTransportConnecting u = ua_emit (Ua_Emit ''connecting'') u"

definition onTransportConnect :: "ua \<Rightarrow> ua" where
  "onTransportConnect u =
     (if ua_status u = UA_USER_CLOSED then u
      else
        (let u = u\<lparr>ua_status := UA_READY, ua_error := None\<rparr>;
             u = ua_emit (Ua_Emit ''connected'') u
         in if ua_dyn_register u then ua_emit Ua_Register u else u))"

definition tx_errors :: "ua \<Rightarrow> ua_event list" where
  "tx_errors u = concat (map (\<lambda>type. map (\<lambda>(i, _). Ua_Tx_TransportError type i) (ua_transactions u type)) [NICT, ICT, NIST, IST])"

definition onTransportDisconnect :: "ua \<Rightarrow> ua" where
  "onTransportDisconnect u =
     (let u = u\<lparr>ua_log := ua_log u @ tx_errors u\<rparr>;
          u = ua_emit (Ua_Emit ''disconnected'') u;
          u = ua_emit Ua_Registrator_transport_closed u
      in if ua_status u \<noteq> UA_USER_CLOSED then u\<lparr>ua_status := UA_NOT_READY, ua_error := Some NETWORK_ERROR\<rparr> else u)"

text \<open>The calls of the transport, which runs the handlers above.\<close>

definition transport_connect :: "ua \<Rightarrow> ua" where
  "transport_connect u =
     (let v = u\<lparr>ua_transport := tr_connect False (ua_transport u)\<rparr> in
      if tr_status (ua_transport u) = STATUS_DISCONNECTED then onTransportConnecting v else v)"

definition transport_disconnect :: "ua \<Rightarrow> ua" where
  "transport_disconnect u = onTransportDisconnect (u\<lparr>ua_transport := tr_disconnect (ua_transport u)\<rparr>)"

section \<open>Life cycle\<close>

definition ua_start :: "ua \<Rightarrow> ua" where
  "ua_start u =
     (let u = (if ua_status u = UA_INIT then transport_connect u
               else if ua_status u = UA_USER_CLOSED then
                 (let u = (if ua_closeTimer u then transport_disconnect (u\<lparr>ua_closeTimer := False\<rparr>) else u);
                      u = u\<lparr>ua_status := UA_INIT\<rparr>
                  in transport_connect u)
               else u)
      in u\<lparr>ua_dyn_register := ua_cfg_register u\<rparr>)"

definition ua_register :: "ua \<Rightarrow> ua" where
  "ua_register u = ua_emit Ua_Register (u\<lparr>ua_dyn_register := True\<rparr>)"

definition ua_unregister :: "bool \<Rightarrow> ua \<Rightarrow> ua" where
  "ua_unregister all u = ua_emit (Ua_Unregister all) (u\<lparr>ua_dyn_register := False\<rparr>)"

definition terminateSessions :: "(nat \<Rightarrow> bool) \<Rightarrow> ua \<Rightarrow> ua" where
  "terminateSessions ended u =
     u\<lparr>ua_log := ua_log u @ map (\<lambda>(_, s). Ua_Terminate_session s) (filter (\<lambda>(_, s). \<not> ended s) (ua_sessions u))\<rparr>"

text \<open>
  \<open>left\<close>: the transactions of the four tables once the registrator and the sessions were told to
  close (they may start and end some).  The method \<open>close\<close> called on every applicant does not exist
  (it is \<open>_close\<close>); the exception is caught and nothing happens to them.
\<close>

definition ua_stop :: "(tx_type \<Rightarrow> nat js_object) \<Rightarrow> ua \<Rightarrow> ua" where
  "ua_stop left u =
     (let u = u\<lparr>ua_dyn_register := False\<rparr> in
      if ua_status u = UA_USER_CLOSED then u
      else
        (let u = ua_emit Ua_Registrator_close u;
             num_sessions = length (ua_sessions u);
             u = u\<lparr>ua_log := ua_log u @ map (\<lambda>(_, s). Ua_Terminate_session s) (ua_sessions u),
                   ua_transactions := left, ua_status := UA_USER_CLOSED\<rparr>;
             num_transactions = length (left NICT) + length (left NIST) + length (left ICT) + length (left IST)
         in if num_transactions = 0 \<and> num_sessions = 0 then transport_disconnect u else u\<lparr>ua_closeTimer := True\<rparr>))"

definition ua_closeTimer_fires :: "ua \<Rightarrow> ua" where
  "ua_closeTimer_fires u = transport_disconnect (u\<lparr>ua_closeTimer := False\<rparr>)"

text \<open>What the socket and the recovery timer make the transport do.\<close>

definition ua_socket_open :: "ua \<Rightarrow> ua" where
  "ua_socket_open u = onTransportConnect (u\<lparr>ua_transport := tr_onConnect (ua_transport u)\<rparr>)"

definition ua_socket_closed :: "real \<Rightarrow> bool \<Rightarrow> ua \<Rightarrow> ua" where
  "ua_socket_closed r error u = onTransportDisconnect (u\<lparr>ua_transport := tr_onDisconnect r False error (ua_transport u)\<rparr>)"

definition ua_recovery_timer :: "real \<Rightarrow> nat \<Rightarrow> ua \<Rightarrow> ua option" where
  "ua_recovery_timer r h u =
     map_option (\<lambda>t. let v = u\<lparr>ua_transport := t\<rparr> in
         if tr_status (ua_transport u) = STATUS_DISCONNECTED \<and> tr_status t = STATUS_CONNECTING
         then onTransportConnecting v else v)
       (tr_fire r False h (ua_transport u))"

section \<open>Requests\<close>

text \<open>
  What the dispatch of one request reads: the user parts of the agent's two addresses, the number
  of listeners of the three events, whether WebRTC is there, whether \<open>checkTransaction\<close> takes the
  request, the owner of a dialog and whether a session has ended.
\<close>

record ua_env =
  ue_user :: "string option"
  ue_contact_user :: "string option"
  ue_newOptions :: nat
  ue_newMessage :: nat
  ue_newRTCSession :: nat
  ue_webrtc :: bool
  ue_absorbed :: bool
  ue_owner :: "nat \<Rightarrow> nat"
  ue_ended :: "nat \<Rightarrow> bool"

definition server_tx :: "in_request \<Rightarrow> ua \<Rightarrow> ua" where
  "server_tx r u =
     (if im_method r = INVITE then ua_emit (Ua_New_server_tx IST r) u
      else if im_method r \<noteq> ACK \<and> im_method r \<noteq> CANCEL then ua_emit (Ua_New_server_tx NIST r) u
      else u)"

definition initial_invite :: "ua_env \<Rightarrow> in_request \<Rightarrow> ua \<Rightarrow> js_error + ua" where
  "initial_invite env r u =
     (if \<not> ue_webrtc env then Inr (ua_emit (Ua_Reply r 488) u)
      else if im_hasHeader ''replaces'' r then
        (case im_replaces r of
           Some (P_Replaces call_id from_tag to_tag) \<Rightarrow>
             Inr (case findDialog call_id from_tag to_tag u of
                    Some d \<Rightarrow> if \<not> ue_ended env (ue_owner env d) then ua_emit (Ua_To_session (ue_owner env d) r) u
                               else ua_emit (Ua_Reply r 603) u
                  | None \<Rightarrow> ua_emit (Ua_Reply r 481) u)
         | _ \<Rightarrow> Inl (TypeError ''Cannot read property call_id''))
      else Inr (ua_emit (Ua_Init_session r) u))"

definition initial_request :: "ua_env \<Rightarrow> in_request \<Rightarrow> ua \<Rightarrow> js_error + ua" where
  "initial_request env r u =
     (case im_method r of
        INVITE \<Rightarrow> initial_invite env r u
      | BYE \<Rightarrow> Inr (ua_emit (Ua_Reply r 481) u)
      | CANCEL \<Rightarrow>
          Inr (case findSession (im_call_id r) (im_from_tag r) (im_to_tag r) u of
                 Some s \<Rightarrow> ua_emit (Ua_To_session s r) u
               | None \<Rightarrow> u)
      | ACK \<Rightarrow> Inr u
      | NOTIFY \<Rightarrow> Inr (ua_emit (Ua_Reply r 200) (ua_emit (Ua_Emit ''sipEvent'') u))
      | _ \<Rightarrow> Inr (ua_emit (Ua_Reply r 405) u))"

text \<open>\<open>reply\<close> needs the server transaction of the request, which a CANCEL does not have.\<close>

definition in_dialog_request :: "in_request \<Rightarrow> ua \<Rightarrow> js_error + ua" where
  "in_dialog_request r u =
     (case findDialog (im_call_id r) (im_from_tag r) (im_to_tag r) u of
        Some d \<Rightarrow> Inr (ua_emit (Ua_To_dialog d r) u)
      | None \<Rightarrow>
          if im_method r = NOTIFY then
            Inr (case findSession (im_call_id r) (im_from_tag r) (im_to_tag r) u of
                   Some s \<Rightarrow> ua_emit (Ua_To_session s r) u
                 | None \<Rightarrow> ua_emit (Ua_Reply r 481) u)
          else if im_method r = ACK then Inr u
          else if im_method r = CANCEL then Inl (TypeError ''Cannot read property receiveResponse of null'')
          else Inr (ua_emit (Ua_Reply r 481) u))"

text \<open>The part of \<open>receiveRequest\<close> after the server transaction was made; \<open>None\<close> when it returns early.\<close>

definition applicant_request :: "ua_env \<Rightarrow> in_request \<Rightarrow> ua \<Rightarrow> bool \<times> ua" where
  "applicant_request env r u =
     (if im_method r = OPTIONS then
        (if ue_newOptions env = 0 then (False, ua_emit (Ua_Reply r 200) u) else (True, ua_emit (Ua_Init_options r) u))
      else if im_method r = MESSAGE then
        (if ue_newMessage env = 0 then (False, ua_emit (Ua_Reply r 405) u) else (True, ua_emit (Ua_Init_message r) u))
      else if im_method r = INVITE \<and> \<not> truthy (im_to_tag r) \<and> ue_newRTCSession env = 0
        then (False, ua_emit (Ua_Reply r 405) u)
      else (True, u))"

definition ua_receiveRequest :: "ua_env \<Rightarrow> in_request \<Rightarrow> ua \<Rightarrow> js_error + ua" where
  "ua_receiveRequest env r u =
     (if uri_user (im_ruri r) \<noteq> ue_user env \<and> uri_user (im_ruri r) \<noteq> ue_contact_user env
      then Inr (if im_method r \<noteq> ACK then ua_emit (Ua_Reply_sl r 404) u else u)
      else if uri_scheme (im_ruri r) = ''sips'' then Inr (ua_emit (Ua_Reply_sl r 416) u)
      else if ue_absorbed env then Inr u
      else
        (case applicant_request env r (server_tx r u) of
           (False, u) \<Rightarrow> Inr u
         | (True, u) \<Rightarrow> if \<not> truthy (im_to_tag r) then initial_request env r u else in_dialog_request r u))"

section \<open>Messages\<close>

definition to_method :: "string \<Rightarrow> sip_method" where
  "to_method s =
     (case find (\<lambda>m. method_str m = s)
        [ACK, BYE, CANCEL, INFO, INVITE, MESSAGE, NOTIFY, OPTIONS, REGISTER, REFER, UPDATE, SUBSCRIBE] of
        Some m \<Rightarrow> m | None \<Rightarrow> OtherMethod s)"

text \<open>A message that passed the checks, with the fields they guarantee.\<close>

definition as_message :: "raw_message \<Rightarrow> in_message" where
  "as_message m =
     \<lparr>im_headers = im_headers m, im_data = rm_data m, im_method = to_method (or_null (rm_method m)),
      im_via_branch = rm_via_branch m, im_call_id = or_null (rm_call_id m), im_cseq = (case rm_cseq m of None \<Rightarrow> 0 | Some n \<Rightarrow> n),
      im_from_tag = rm_from_tag m, im_to_tag = rm_to_tag m, im_body = rm_body m, im_from = rm_from m, im_to = rm_to m,
      im_session_expires = rm_session_expires m, im_session_expires_refresher = rm_session_expires_refresher m,
      im_refer_to = rm_refer_to m, im_replaces = rm_replaces m, im_event = rm_event m\<rparr>"

definition as_response :: "raw_message \<Rightarrow> in_response" where
  "as_response m = in_message.extend (as_message m)
     (in_response.fields (case rm_status_code m of None \<Rightarrow> 0 | Some c \<Rightarrow> c) (text_of (rm_reason_phrase m)))"

definition to_client_tx :: "tx_type \<Rightarrow> in_response \<Rightarrow> ua \<Rightarrow> ua" where
  "to_client_tx type r u =
     (if obj_has (ua_transactions u type) (text_of (im_via_branch r))
      then ua_emit (Ua_Tx_Response type (text_of (im_via_branch r)) r) u else u)"

definition ua_receiveResponse :: "in_response \<Rightarrow> ua \<Rightarrow> ua" where
  "ua_receiveResponse r u =
     (if im_method r = INVITE then to_client_tx ICT r u
      else if im_method r = ACK then u
      else to_client_tx NICT r u)"

text \<open>
  \<open>sc\<close> is what the sanity check reads of the agent; its replies go to the transport.  A request
  whose first line has no URI makes \<open>request.ruri.user\<close> throw.
\<close>

definition onTransportData ::
    "sip_grammar \<Rightarrow> (nat \<Rightarrow> real) \<Rightarrow> sc_ua \<Rightarrow> ua_env \<Rightarrow> string \<Rightarrow> ua \<Rightarrow> js_error + string list \<times> ua" where
  "onTransportData g rnd sc env data u =
     bind_result (parseMessage g data) (\<lambda>m.
       case m of
         None \<Rightarrow> Inr ([], u)
       | Some m \<Rightarrow>
           if ua_status u = UA_USER_CLOSED \<and> \<not> rm_is_response m then Inr ([], u)
           else
             bind_result (sanityCheck (g_header g) rnd sc m) (\<lambda>(ok, out).
               if \<not> ok then Inr (out, u)
               else if \<not> rm_is_response m then
                 (case rm_ruri m of
                    None \<Rightarrow> Inl (TypeError ''Cannot read property user of undefined'')
                  | Some ruri \<Rightarrow>
                      bind_result (ua_receiveRequest env (in_message.extend (as_message m) (in_request.fields ruri)) u)
                        (\<lambda>u. Inr (out, u)))
               else Inr (out, ua_receiveResponse (as_response m) u)))"

section \<open>Steps\<close>

definition sends :: "bool \<Rightarrow> string list \<Rightarrow> transport \<Rightarrow> transport" where
  "sends sent out t = fold (\<lambda>m t. snd (tr_send sent m t)) out t"

text \<open>The message that \<open>_onData\<close> passes on, when it does.\<close>

definition ws_delivered :: "(8 word list \<Rightarrow> string option) \<Rightarrow> ws_data \<Rightarrow> string option" where
  "ws_delivered decode d =
     (if d = Text_data [CHR 0x0D, CHR 0x0A] then None
      else case d of Binary_data b \<Rightarrow> decode b | Text_data m \<Rightarrow> Some m)"

definition ua_socket_data :: "sip_grammar \<Rightarrow> (nat \<Rightarrow> real) \<Rightarrow> sc_ua \<Rightarrow> ua_env \<Rightarrow> (8 word list \<Rightarrow> string option)
    \<Rightarrow> bool \<Rightarrow> ws_data \<Rightarrow> ua \<Rightarrow> js_error + ua" where
  "ua_socket_data g rnd sc env decode sent d u =
     (let v = u\<lparr>ua_transport := tr_onData decode d (ua_transport u)\<rparr> in
      case ws_delivered decode d of
        None \<Rightarrow> Inr v
      | Some m \<Rightarrow>
          bind_result (onTransportData g rnd sc env m v)
            (\<lambda>(out, w). Inr (w\<lparr>ua_transport := sends sent out (ua_transport w)\<rparr>)))"

text \<open>The calls of the application, of the transport's socket and timers, and of the other components.\<close>

inductive ua_step :: "ua \<Rightarrow> ua \<Rightarrow> bool" where
  ua_step_start: "ua_step u (ua_start u)"
| ua_step_register: "ua_step u (ua_register u)"
| ua_step_unregister: "ua_step u (ua_unregister all u)"
| ua_step_terminate: "ua_step u (terminateSessions ended u)"
| ua_step_stop: "ua_step u (ua_stop left u)"
| ua_step_closeTimer: "ua_closeTimer u \<Longrightarrow> ua_step u (ua_closeTimer_fires u)"
| ua_step_open: "tr_bound (ua_transport u) \<Longrightarrow> tr_status (ua_transport u) = STATUS_CONNECTING \<Longrightarrow> ua_step u (ua_socket_open u)"
| ua_step_close: "tr_bound (ua_transport u) \<Longrightarrow> is_random r \<Longrightarrow> ua_step u (ua_socket_closed r error u)"
| ua_step_recovery: "h \<in> fst ` set (tr_pending (ua_transport u)) \<Longrightarrow> is_random r
    \<Longrightarrow> ua_recovery_timer r h u = Some u' \<Longrightarrow> ua_step u u'"
| ua_step_data: "tr_bound (ua_transport u) \<Longrightarrow> ua_socket_data g rnd sc env decode sent d u = Inr u' \<Longrightarrow> ua_step u u'"
| ua_step_send: "ua_step u (u\<lparr>ua_transport := snd (tr_send sent m (ua_transport u))\<rparr>)"
| ua_step_newTransaction: "ua_step u (newTransaction type i tx u)"
| ua_step_destroyTransaction: "ua_step u (destroyTransaction type i u)"
| ua_step_newDialog: "ua_step u (newDialog di d u)"
| ua_step_destroyDialog: "ua_step u (destroyDialog di u)"
| ua_step_newMessage: "ua_step u (newMessage a u)"
| ua_step_newOptions: "ua_step u (newOptions a u)"
| ua_step_destroyMessage: "ua_step u (destroyMessage a u)"
| ua_step_newRTCSession: "ua_step u (newRTCSession i s u)"
| ua_step_destroyRTCSession: "ua_step u (destroyRTCSession i u)"
| ua_step_registered: "ua_step u (ua_registered u)"
| ua_step_unregistered: "ua_step u (ua_unregistered u)"
| ua_step_registrationFailed: "ua_step u (ua_registrationFailed u)"

inductive_cases ua_stepE: "ua_step u u'"

abbreviation ua_run :: "ua \<Rightarrow> ua \<Rightarrow> bool" where
  "ua_run \<equiv> ua_step\<^sup>*\<^sup>*"

section \<open>Invariant\<close>

text \<open>How the agent's status and the transport's belong together between two events.\<close>

definition ua_inv :: "ua \<Rightarrow> bool" where
  "ua_inv u \<longleftrightarrow>
     tr_inv (ua_transport u)
     \<and> (ua_status u = UA_READY \<longrightarrow> tr_status (ua_transport u) = STATUS_CONNECTED \<and> ua_error u = None)
     \<and> (tr_status (ua_transport u) = STATUS_CONNECTED \<longrightarrow> ua_status u \<in> {UA_READY, UA_USER_CLOSED})
     \<and> (ua_status u = UA_NOT_READY \<longrightarrow> ua_error u = Some NETWORK_ERROR \<and> tr_bound (ua_transport u))
     \<and> (ua_closeTimer u \<longrightarrow> ua_status u = UA_USER_CLOSED)
     \<and> (ua_status u = UA_USER_CLOSED \<and> \<not> ua_closeTimer u \<longrightarrow> tr_close_requested (ua_transport u))
     \<and> length (ua_applicants u) \<le> 1
     \<and> (\<forall>k\<in>fst ` set (ua_applicants u). k = ''[object Object]'')"

text \<open>A call that leaves the fields of the invariant alone keeps it.\<close>

lemma ua_inv_cong:
  assumes "ua_status v = ua_status u" "ua_error v = ua_error u" "ua_closeTimer v = ua_closeTimer u"
    "ua_transport v = ua_transport u" "ua_applicants v = ua_applicants u"
  shows "ua_inv v = ua_inv u"
  by (simp add: ua_inv_def assms)

text \<open>The dispatch only adds to the log.\<close>

definition logs :: "ua_event list \<Rightarrow> ua \<Rightarrow> ua \<Rightarrow> bool" where
  "logs es u v \<longleftrightarrow> v = u\<lparr>ua_log := ua_log u @ es\<rparr>"

lemma logs_refl: "logs [] u u"
  by (simp add: logs_def)

lemma logs_emit: "logs es u v \<Longrightarrow> logs (es @ [e]) u (ua_emit e v)"
  by (simp add: logs_def ua_emit_def)

lemma logs_emit1: "logs [e] u (ua_emit e u)"
  by (simp add: logs_def ua_emit_def)

lemma logs_trans: "logs es u v \<Longrightarrow> logs fs v w \<Longrightarrow> logs (es @ fs) u w"
  by (simp add: logs_def)

lemma ua_inv_logs: "logs es u v \<Longrightarrow> ua_inv v = ua_inv u"
  unfolding logs_def by (rule ua_inv_cong) simp_all

lemma server_tx_logs: "\<exists>es. logs es u (server_tx r u)"
  by (auto simp: server_tx_def intro: logs_emit1 logs_refl)

lemma applicant_request_logs: "applicant_request env r u = (b, v) \<Longrightarrow> \<exists>es. logs es u v"
  by (auto simp: applicant_request_def intro: logs_emit1 logs_refl split: if_splits)

lemma initial_invite_logs: "initial_invite env r u = Inr v \<Longrightarrow> \<exists>es. logs es u v"
  by (auto simp: initial_invite_def intro: logs_emit1 split: if_splits option.splits parsed.splits)

lemma initial_request_logs: "initial_request env r u = Inr v \<Longrightarrow> \<exists>es. logs es u v"
  by (auto simp: initial_request_def intro: logs_emit1 logs_refl logs_emit [OF logs_emit1] dest: initial_invite_logs
      split: sip_method.splits option.splits)

lemma in_dialog_request_logs: "in_dialog_request r u = Inr v \<Longrightarrow> \<exists>es. logs es u v"
  by (auto simp: in_dialog_request_def intro: logs_emit1 logs_refl split: option.splits if_splits)

lemma ua_receiveRequest_logs:
  assumes "ua_receiveRequest env r u = Inr v" shows "\<exists>es. logs es u v"
proof -
  obtain b w where a: "applicant_request env r (server_tx r u) = (b, w)"
    by (cases "applicant_request env r (server_tx r u)")
  obtain es where w: "logs es u w"
    using server_tx_logs [of u r] applicant_request_logs [OF a] by (blast intro: logs_trans)
  have i: "\<exists>es. logs es u x" if "initial_request env r w = Inr x" for x
    using initial_request_logs [OF that] w by (blast intro: logs_trans)
  have d: "\<exists>es. logs es u x" if "in_dialog_request r w = Inr x" for x
    using in_dialog_request_logs [OF that] w by (blast intro: logs_trans)
  show ?thesis using assms w
    by (auto simp: ua_receiveRequest_def a intro: logs_emit1 logs_refl i d split: if_splits bool.splits)
qed

lemma ua_receiveResponse_logs: "\<exists>es. logs es u (ua_receiveResponse r u)"
  by (auto simp: ua_receiveResponse_def to_client_tx_def intro: logs_emit1 logs_refl)

lemma onTransportData_logs:
  assumes "onTransportData g rnd sc env data u = Inr (out, v)" shows "\<exists>es. logs es u v"
proof -
  obtain m where m: "parseMessage g data = Inr m" using assms
    by (cases "parseMessage g data") (auto simp: onTransportData_def)
  show ?thesis
  proof (cases m)
    case None
    then show ?thesis using assms m by (auto simp: onTransportData_def intro: logs_refl)
  next
    case (Some m')
    then show ?thesis using assms m
      by (auto simp: onTransportData_def bind_result_Inr intro: logs_refl ua_receiveResponse_logs ua_receiveRequest_logs
          split: if_splits option.splits)
  qed
qed

lemma sends_tr_inv: "tr_inv t \<Longrightarrow> tr_inv (sends sent out t)"
  by (induction out arbitrary: t) (simp_all add: sends_def tr_inv_send)

lemma tr_send_same [simp]:
  "tr_status (snd (tr_send b m t)) = tr_status t" "tr_bound (snd (tr_send b m t)) = tr_bound t"
  "tr_close_requested (snd (tr_send b m t)) = tr_close_requested t"
  by (simp_all add: tr_send_def tr_emit_def)

lemma sends_same [simp]:
  "tr_status (sends sent out t) = tr_status t" "tr_bound (sends sent out t) = tr_bound t"
  "tr_close_requested (sends sent out t) = tr_close_requested t"
  by (induction out arbitrary: t) (simp_all add: sends_def)

lemma tr_onData_same [simp]:
  "tr_status (tr_onData dec d t) = tr_status t" "tr_bound (tr_onData dec d t) = tr_bound t"
  "tr_close_requested (tr_onData dec d t) = tr_close_requested t"
  by (simp_all add: tr_onData_def tr_emit_def split: ws_data.split option.split)

lemma ua_inv_transport:
  assumes "ua_inv u" "tr_inv t" "tr_status t = tr_status (ua_transport u)" "tr_bound t = tr_bound (ua_transport u)"
    "tr_close_requested t = tr_close_requested (ua_transport u)"
  shows "ua_inv (u\<lparr>ua_transport := t\<rparr>)"
  using assms by (simp add: ua_inv_def)

lemma ua_inv_tr: "ua_inv u \<Longrightarrow> tr_inv (ua_transport u)"
  by (simp add: ua_inv_def)

lemma ua_inv_data:
  assumes "ua_inv u" "ua_socket_data g rnd sc env dec sent d u = Inr v" shows "ua_inv v"
proof -
  let ?u = "u\<lparr>ua_transport := tr_onData dec d (ua_transport u)\<rparr>"
  have i: "ua_inv ?u" using assms(1) by (intro ua_inv_transport) (simp_all add: ua_inv_tr tr_inv_onData)
  show ?thesis
  proof (cases "ws_delivered dec d")
    case None then show ?thesis using assms(2) i by (simp add: ua_socket_data_def)
  next
    case (Some m)
    then obtain out w where o: "onTransportData g rnd sc env m ?u = Inr (out, w)"
      and v: "v = w\<lparr>ua_transport := sends sent out (ua_transport w)\<rparr>"
      using assms(2) by (auto simp: ua_socket_data_def bind_result_Inr)
    have "ua_inv w" using onTransportData_logs [OF o] i ua_inv_logs by blast
    then show ?thesis unfolding v by (intro ua_inv_transport) (simp_all add: ua_inv_tr sends_tr_inv)
  qed
qed

lemma ua_inv_disconnected:
  assumes "tr_inv (ua_transport u)" "tr_status (ua_transport u) = STATUS_DISCONNECTED"
    and "ua_closeTimer u \<longrightarrow> ua_status u = UA_USER_CLOSED"
    and "ua_status u = UA_USER_CLOSED \<and> \<not> ua_closeTimer u \<longrightarrow> tr_close_requested (ua_transport u)"
    and "ua_status u \<noteq> UA_USER_CLOSED \<longrightarrow> tr_bound (ua_transport u)"
    and "length (ua_applicants u) \<le> 1" "\<forall>k\<in>fst ` set (ua_applicants u). k = ''[object Object]''"
  shows "ua_inv (onTransportDisconnect u)"
  using assms by (cases "ua_status u = UA_USER_CLOSED") (auto simp: onTransportDisconnect_def ua_emit_def Let_def ua_inv_def)

lemma tr_disconnect_status [simp]:
  "tr_status (tr_disconnect t) = STATUS_DISCONNECTED" "tr_close_requested (tr_disconnect t)"
  by (simp_all add: tr_ops split: option.splits)

lemma transport_disconnect_same [simp]:
  "ua_status (transport_disconnect u) = (if ua_status u = UA_USER_CLOSED then UA_USER_CLOSED else UA_NOT_READY)"
  "ua_closeTimer (transport_disconnect u) = ua_closeTimer u"
  "ua_applicants (transport_disconnect u) = ua_applicants u"
  "ua_transport (transport_disconnect u) = tr_disconnect (ua_transport u)"
  by (simp_all add: transport_disconnect_def onTransportDisconnect_def ua_emit_def Let_def)

text \<open>A closed agent that disconnects its transport.\<close>

lemma ua_inv_closing:
  assumes "tr_inv (ua_transport u)" "ua_status u = UA_USER_CLOSED" "length (ua_applicants u) \<le> 1"
    "\<forall>k\<in>fst ` set (ua_applicants u). k = ''[object Object]''"
  shows "ua_inv (transport_disconnect u)"
  unfolding transport_disconnect_def by (rule ua_inv_disconnected) (use assms in \<open>simp_all add: tr_inv_disconnect\<close>)

lemma tr_connect_status [simp]:
  "tr_status (tr_connect False t) = (if tr_status t = STATUS_CONNECTED then STATUS_CONNECTED else STATUS_CONNECTING)"
  by (cases "tr_status t") (simp_all add: tr_ops)

lemma transport_connect_same [simp]:
  "ua_status (transport_connect u) = ua_status u" "ua_closeTimer (transport_connect u) = ua_closeTimer u"
  "ua_applicants (transport_connect u) = ua_applicants u" "ua_error (transport_connect u) = ua_error u"
  "ua_transport (transport_connect u) = tr_connect False (ua_transport u)"
  by (simp_all add: transport_connect_def onTransportConnecting_def ua_emit_def Let_def)

lemma ua_inv_connect:
  assumes "tr_inv (ua_transport u)" "ua_status u = UA_INIT" "\<not> ua_closeTimer u" "tr_status (ua_transport u) \<noteq> STATUS_CONNECTED"
    "length (ua_applicants u) \<le> 1" "\<forall>k\<in>fst ` set (ua_applicants u). k = ''[object Object]''"
  shows "ua_inv (transport_connect u)"
  using assms by (simp add: ua_inv_def tr_inv_connect)

lemma ua_inv_start: "ua_inv u \<Longrightarrow> ua_inv (ua_start u)"
proof -
  assume i: "ua_inv u"
  have k: "ua_inv (v\<lparr>ua_dyn_register := b\<rparr>) = ua_inv v" for v b by (rule ua_inv_cong) simp_all
  consider "ua_status u = UA_INIT" | "ua_status u = UA_USER_CLOSED" | "ua_status u \<notin> {UA_INIT, UA_USER_CLOSED}" by blast
  then show ?thesis
  proof cases
    case 1
    have "ua_inv (transport_connect u)" by (rule ua_inv_connect) (use i 1 in \<open>auto simp: ua_inv_def\<close>)
    then show ?thesis using 1 by (simp add: ua_start_def k Let_def)
  next
    case 2
    let ?v = "(if ua_closeTimer u then transport_disconnect (u\<lparr>ua_closeTimer := False\<rparr>) else u)\<lparr>ua_status := UA_INIT\<rparr>"
    have "ua_inv (transport_connect ?v)" by (rule ua_inv_connect) (use i 2 in \<open>auto simp: ua_inv_def tr_inv_disconnect tr_inv_def [of "ua_transport u"]\<close>)
    then show ?thesis using 2 by (simp add: ua_start_def k Let_def)
  qed (use i in \<open>auto simp: ua_start_def k Let_def\<close>)
qed

lemma ua_inv_stop: "ua_inv u \<Longrightarrow> ua_inv (ua_stop left u)"
proof -
  assume i: "ua_inv u"
  have k: "ua_inv (v\<lparr>ua_dyn_register := b\<rparr>) = ua_inv v" for v b by (rule ua_inv_cong) simp_all
  show ?thesis
  proof (cases "ua_status u = UA_USER_CLOSED")
    case True then show ?thesis using i by (simp add: ua_stop_def k Let_def)
  next
    case False
    then show ?thesis using i unfolding ua_stop_def Let_def
      by (auto simp: ua_inv_tr ua_emit_def intro!: ua_inv_closing) (auto simp: ua_inv_def)
  qed
qed

lemma ua_inv_open:
  assumes "ua_inv u" "tr_bound (ua_transport u)" "tr_status (ua_transport u) = STATUS_CONNECTING"
  shows "ua_inv (ua_socket_open u)"
proof -
  have t: "tr_inv (tr_onConnect (ua_transport u))" "tr_status (tr_onConnect (ua_transport u)) = STATUS_CONNECTED"
    "tr_bound (tr_onConnect (ua_transport u)) = tr_bound (ua_transport u)"
    "tr_close_requested (tr_onConnect (ua_transport u)) = tr_close_requested (ua_transport u)"
    using assms by (simp add: ua_inv_tr tr_inv_onConnect, simp_all add: tr_ops split: option.splits)
  show ?thesis using assms t by (auto simp: ua_inv_def ua_socket_open_def onTransportConnect_def ua_emit_def Let_def)
qed

lemma tr_onDisconnect_status [simp]:
  "tr_status (tr_onDisconnect r False e t) = STATUS_DISCONNECTED" "tr_bound (tr_onDisconnect r False e t) = tr_bound t"
  "tr_close_requested (tr_onDisconnect r False e t) = tr_close_requested t"
  by (simp_all add: tr_onDisconnect_def tr_reconnect_def tr_emit_def Let_def)

lemma ua_inv_closed:
  assumes "ua_inv u" "tr_bound (ua_transport u)" shows "ua_inv (ua_socket_closed r error u)"
  unfolding ua_socket_closed_def
  by (rule ua_inv_disconnected) (use assms in \<open>auto simp: ua_inv_def tr_inv_onDisconnect\<close>)

lemma tr_fire_cases:
  assumes "tr_fire r False h t = Some t'" "tr_inv t"
  shows "t' = t\<lparr>tr_pending := filter (\<lambda>(k, _). k \<noteq> h) (tr_pending t)\<rparr>
    \<or> \<not> tr_close_requested t \<and> tr_status t = STATUS_DISCONNECTED \<and> tr_status t' = STATUS_CONNECTING"
proof (cases "\<not> tr_close_requested t \<and> \<not> (tr_status t = STATUS_CONNECTED \<or> tr_status t = STATUS_CONNECTING)")
  case True
  let ?t = "t\<lparr>tr_pending := filter (\<lambda>(k, _). k \<noteq> h) (tr_pending t)\<rparr>"
  have d: "tr_status t = STATUS_DISCONNECTED" using True by (cases "tr_status t") auto
  have "tr_sockets ?t \<noteq> []" using assms(2) by (simp add: tr_inv_def)
  then show ?thesis using assms(1) True d getSocket_eq [of ?t r] by (auto simp: tr_fire_def Let_def)
qed (use assms(1) in \<open>auto simp: tr_fire_def Let_def\<close>)

lemma ua_inv_recovery:
  assumes "ua_inv u" "ua_recovery_timer r h u = Some u'"
  shows "ua_inv u'"
proof -
  obtain t where f: "tr_fire r False h (ua_transport u) = Some t"
    and u': "u' = (let v = u\<lparr>ua_transport := t\<rparr> in
         if tr_status (ua_transport u) = STATUS_DISCONNECTED \<and> tr_status t = STATUS_CONNECTING
         then onTransportConnecting v else v)"
    using assms(2) by (auto simp: ua_recovery_timer_def)
  have i: "tr_inv t" by (rule tr_inv_fire [OF ua_inv_tr [OF assms(1)] f])
  have "ua_inv (u\<lparr>ua_transport := t\<rparr>)"
    using tr_fire_cases [OF f ua_inv_tr [OF assms(1)]] i assms(1) by (auto simp: ua_inv_def) (auto simp: tr_inv_def)
  then show ?thesis unfolding u' Let_def onTransportConnecting_def using ua_inv_logs [OF logs_emit1] by simp
qed

lemmas table_defs = newTransaction_def destroyTransaction_def newDialog_def destroyDialog_def newRTCSession_def
  destroyRTCSession_def ua_registered_def ua_unregistered_def ua_registrationFailed_def terminateSessions_def
  ua_register_def ua_unregister_def ua_emit_def

lemmas applicant_defs = newMessage_def newOptions_def destroyMessage_def object_key_def ua_emit_def

lemma one_applicant:
  assumes "length as \<le> 1" "\<forall>k\<in>fst ` set as. k = ''[object Object]''"
  shows "obj_put ''[object Object]'' a as = [(''[object Object]'', a)]" "obj_del ''[object Object]'' as = []"
  using assms by (cases as; auto simp: obj_put_def obj_del_def)+

lemma ua_inv_table:
  assumes "ua_inv u"
  shows "ua_inv (newTransaction type i tx u)" "ua_inv (destroyTransaction type i u)" "ua_inv (newDialog di d u)"
    "ua_inv (destroyDialog di u)" "ua_inv (newRTCSession i s u)" "ua_inv (destroyRTCSession i u)"
    "ua_inv (ua_registered u)" "ua_inv (ua_unregistered u)" "ua_inv (ua_registrationFailed u)"
    "ua_inv (terminateSessions ended u)" "ua_inv (ua_register u)" "ua_inv (ua_unregister all u)"
    "ua_inv (newMessage a u)" "ua_inv (newOptions a u)" "ua_inv (destroyMessage a u)"
  using assms by (simp_all add: table_defs ua_inv_def applicant_defs one_applicant)

lemma ua_inv_step: "ua_step u u' \<Longrightarrow> ua_inv u \<Longrightarrow> ua_inv u'"
proof (induction rule: ua_step.induct)
  case (ua_step_closeTimer u)
  show ?case unfolding ua_closeTimer_fires_def by (rule ua_inv_closing) (use ua_step_closeTimer in \<open>auto simp: ua_inv_def\<close>)
next
  case (ua_step_send u sent m)
  then show ?case by (intro ua_inv_transport) (simp_all add: ua_inv_tr tr_inv_send)
next
  case (ua_step_data u g rnd sc env decode sent d u')
  then show ?case by (rule_tac ua_inv_data)
next
  case (ua_step_recovery h u r u')
  then show ?case by (rule_tac ua_inv_recovery)
qed (simp_all only: ua_inv_table ua_inv_start ua_inv_stop ua_inv_open ua_inv_closed)

lemma ua_inv_run: "ua_run u u' \<Longrightarrow> ua_inv u \<Longrightarrow> ua_inv u'"
  by (induction rule: rtranclp_induct) (auto intro: ua_inv_step)

lemma ua_inv_new:
  assumes "new_transport sockets mn mx r = Some t" "sockets \<noteq> []" "mn \<le> mx"
  shows "ua_inv (new_ua reg t)"
proof -
  have "tr_status t = STATUS_DISCONNECTED"
    using assms(1,2) getSocket_eq [of "\<lparr>tr_status = STATUS_DISCONNECTED, tr_socket = 0,
        tr_sockets = map (\<lambda>(s, w). \<lparr>so_socket = s, so_weight = w, so_error = False\<rparr>) sockets,
        tr_min_interval = mn, tr_max_interval = mx, tr_recover_attempts = 0,
        tr_recovery_timer = None, tr_close_requested = False, tr_bound = False, tr_pending = [],
        tr_next = 0, tr_log = []\<rparr>" r]
    by (auto simp: new_transport_def Let_def)
  then show ?thesis using tr_inv_new [OF assms] by (simp add: new_ua_def ua_inv_def)
qed

section \<open>What becomes of a request\<close>

text \<open>The ways a request is answered or handed on.\<close>

fun disposes :: "in_request \<Rightarrow> ua_event \<Rightarrow> bool" where
  "disposes r (Ua_Reply q c) = (q = r)"
| "disposes r (Ua_Reply_sl q c) = (q = r)"
| "disposes r (Ua_Init_options q) = (q = r)"
| "disposes r (Ua_Init_message q) = (q = r)"
| "disposes r (Ua_Init_session q) = (q = r)"
| "disposes r (Ua_To_session s q) = (q = r)"
| "disposes r (Ua_To_dialog d q) = (q = r)"
| "disposes r e = False"

definition dispositions :: "in_request \<Rightarrow> ua_event list \<Rightarrow> ua_event list" where
  "dispositions r es = filter (disposes r) es"

lemma dispositions_simps [simp]:
  "dispositions r [] = []" "dispositions r (e # es) = (if disposes r e then e # dispositions r es else dispositions r es)"
  "dispositions r (es @ fs) = dispositions r es @ dispositions r fs"
  by (simp_all add: dispositions_def)

lemma ex_logs:
  "P [] \<Longrightarrow> \<exists>es. logs es u u \<and> P es" "P [e] \<Longrightarrow> \<exists>es. logs es u (ua_emit e u) \<and> P es"
  "P [e, f] \<Longrightarrow> \<exists>es. logs es u (ua_emit f (ua_emit e u)) \<and> P es"
  by (intro exI conjI, rule logs_refl logs_emit1 logs_emit [OF logs_emit1, simplified], assumption)+

lemma server_tx_events:
  "\<exists>es. logs es u (server_tx r u) \<and> dispositions r es = []
     \<and> (im_method r \<noteq> ACK \<and> im_method r \<noteq> CANCEL \<longrightarrow> (\<exists>ty. Ua_New_server_tx ty r \<in> set es))"
  by (auto simp: server_tx_def intro!: ex_logs)

lemma applicant_events:
  assumes "applicant_request env r u = (b, v)"
  shows "\<exists>es. logs es u v
    \<and> (if b then dispositions r es = (if im_method r = OPTIONS then [Ua_Init_options r]
                                      else if im_method r = MESSAGE then [Ua_Init_message r] else [])
       else im_method r \<in> {OPTIONS, MESSAGE, INVITE} \<and> (\<exists>c. dispositions r es = [Ua_Reply r c]))"
  using assms
  by (auto simp: applicant_request_def split: if_splits intro!: ex_logs)

lemma initial_events:
  assumes "initial_request env r u = Inr v"
  shows "\<exists>es. logs es u v
    \<and> (if im_method r = ACK then es = [] else length (dispositions r es) \<le> 1
        \<and> (im_method r \<noteq> CANCEL \<longrightarrow> dispositions r es \<noteq> []))"
  using assms
  by (auto simp: initial_request_def initial_invite_def split: sip_method.splits option.splits parsed.splits if_splits
      intro!: ex_logs logs_refl)

lemma in_dialog_events:
  assumes "in_dialog_request r u = Inr v"
  shows "\<exists>es. logs es u v \<and> length (dispositions r es) \<le> 1
    \<and> (im_method r \<noteq> ACK \<longrightarrow> dispositions r es \<noteq> [])
    \<and> (im_method r = ACK \<longrightarrow> (\<forall>e\<in>set es. \<exists>d. e = Ua_To_dialog d r))"
  using assms by (auto simp: in_dialog_request_def split: option.splits if_splits intro!: ex_logs)

text \<open>The whole of \<open>receiveRequest\<close>, for a request that no transaction took.\<close>

lemma receive_events:
  assumes "ua_receiveRequest env r u = Inr v" "\<not> ue_absorbed env" "im_method r \<noteq> ACK" "im_method r \<noteq> CANCEL"
  shows "\<exists>es pre o'. logs es u v \<and> dispositions r es = pre @ [o'] \<and> disposes r o'
    \<and> (pre = [] \<or> im_method r = OPTIONS \<and> pre = [Ua_Init_options r] \<or> im_method r = MESSAGE \<and> pre = [Ua_Init_message r])
    \<and> (pre \<noteq> [] \<or> (\<exists>c. o' = Ua_Reply r c) \<longrightarrow> (\<exists>ty. Ua_New_server_tx ty r \<in> set es))"
proof -
  have one: "\<exists>x. dispositions r es = [x] \<and> disposes r x" if l: "length (dispositions r es) \<le> 1" "dispositions r es \<noteq> []" for es
  proof -
    obtain x where x: "dispositions r es = [x]" using l by (cases "dispositions r es") auto
    then have "x \<in> set (filter (disposes r) es)" by (simp add: dispositions_def)
    with x show ?thesis by simp
  qed
  obtain b w where a: "applicant_request env r (server_tx r u) = (b, w)"
    by (cases "applicant_request env r (server_tx r u)")
  obtain fs where f: "logs fs u (server_tx r u)" "dispositions r fs = []" "\<exists>ty. Ua_New_server_tx ty r \<in> set fs"
    using server_tx_events [of u r] assms(3,4) by blast
  obtain gs where g: "logs gs (server_tx r u) w"
    and gb: "if b then dispositions r gs = (if im_method r = OPTIONS then [Ua_Init_options r]
                                      else if im_method r = MESSAGE then [Ua_Init_message r] else [])
       else im_method r \<in> {OPTIONS, MESSAGE, INVITE} \<and> (\<exists>c. dispositions r gs = [Ua_Reply r c])"
    using applicant_events [OF a] by blast
  consider (sl) c where "v = ua_emit (Ua_Reply_sl r c) u" | (early) "b = False" "v = w"
    | (rest) "b" "(if \<not> truthy (im_to_tag r) then initial_request env r w else in_dialog_request r w) = Inr v"
    using assms by (auto simp: ua_receiveRequest_def a split: if_splits bool.splits)
  then show ?thesis
  proof cases
    case (sl c)
    then show ?thesis by (intro exI [of _ "[Ua_Reply_sl r c]"] exI [of _ "[]"] exI [of _ "Ua_Reply_sl r c"]) (simp add: logs_emit1)
  next
    case early
    then obtain c where c: "dispositions r gs = [Ua_Reply r c]" using gb by auto
    show ?thesis
      by (intro exI [of _ "fs @ gs"] exI [of _ "[]"] exI [of _ "Ua_Reply r c"])
        (use f g early c logs_trans [OF f(1) g] in auto)
  next
    case rest
    obtain hs where h: "logs hs w v" "length (dispositions r hs) \<le> 1" "dispositions r hs \<noteq> []"
      using rest(2) initial_events [of env r w v] in_dialog_events [of r w v] assms(3,4) by (auto split: if_splits)
    obtain x where x: "dispositions r hs = [x]" "disposes r x" using one [OF h(2,3)] by blast
    show ?thesis
      by (intro exI [of _ "fs @ gs @ hs"] exI [of _ "dispositions r gs"] exI [of _ x])
        (use f rest(1) gb x logs_trans [OF f(1) logs_trans [OF g h(1)]] in auto)
  qed
qed

section \<open>Properties\<close>

text \<open>C21.  Whatever the application, the sockets, the timers and the peers do, between two events the agent is
  ready exactly when it was not closed and its transport is connected, an agent that is not ready
  has the network error, the closing timer runs only in a closed agent, and a closed agent without
  it has closed its transport.\<close>

theorem agent_life_cycle:
  assumes "new_transport sockets mn mx r = Some t0" "sockets \<noteq> []" "mn \<le> mx" and "ua_run (new_ua reg t0) u"
  shows "(ua_status u = UA_READY \<longleftrightarrow> tr_status (ua_transport u) = STATUS_CONNECTED \<and> ua_status u \<noteq> UA_USER_CLOSED)
    \<and> (ua_status u = UA_NOT_READY \<longrightarrow> ua_error u = Some NETWORK_ERROR)
    \<and> (ua_status u = UA_READY \<longrightarrow> ua_error u = None)
    \<and> (ua_closeTimer u \<longrightarrow> ua_status u = UA_USER_CLOSED)
    \<and> (ua_status u = UA_USER_CLOSED \<and> \<not> ua_closeTimer u
        \<longrightarrow> tr_close_requested (ua_transport u) \<and> tr_status (ua_transport u) = STATUS_DISCONNECTED)"
  using ua_inv_run [OF assms(4) ua_inv_new [OF assms(1-3)]] by (auto simp: ua_inv_def tr_inv_def)

lemma demo_start:
  "ua_run (new_ua True demo_new) (ua_socket_open (ua_start (new_ua True demo_new)))"
proof -
  let ?u = "new_ua True demo_new"
  have d: "tr_status demo_new = STATUS_DISCONNECTED" "\<not> tr_close_requested demo_new"
    by (simp_all add: demo_new_def new_transport_def getSocket_eq Let_def)
  have s: "ua_transport (ua_start ?u) = tr_connect False demo_new" by (simp add: ua_start_def new_ua_def Let_def)
  have "ua_step (ua_start ?u) (ua_socket_open (ua_start ?u))"
    by (rule ua_step_open) (use d in \<open>simp_all add: s tr_bound_connect\<close>)
  then show ?thesis using ua_step_start [of ?u] by (meson converse_rtranclp_into_rtranclp rtranclp.rtrancl_refl)
qed

lemma socket_open_status [simp]:
  "ua_status (ua_socket_open u) = (if ua_status u = UA_USER_CLOSED then UA_USER_CLOSED else UA_READY)"
  by (simp add: ua_socket_open_def onTransportConnect_def ua_emit_def Let_def)

lemma new_start_status [simp]: "ua_status (ua_start (new_ua reg t)) = UA_INIT"
  by (simp add: ua_start_def new_ua_def Let_def)

theorem agent_life_cycle_witness:
  "tr_status (ua_transport (ua_socket_open (ua_start (new_ua True demo_new)))) = STATUS_CONNECTED
   \<and> ua_error (ua_socket_open (ua_start (new_ua True demo_new))) = None"
  using agent_life_cycle [OF demo_new_eq _ _ demo_start] by simp


lemma closed_status [simp]:
  "ua_status (ua_socket_closed r e u) = (if ua_status u = UA_USER_CLOSED then UA_USER_CLOSED else UA_NOT_READY)"
  "ua_transport (ua_socket_closed r e u) = tr_onDisconnect r False e (ua_transport u)"
  by (simp_all add: ua_socket_closed_def onTransportDisconnect_def ua_emit_def Let_def)

lemma start_transport [simp]: "ua_transport (ua_start (new_ua reg t)) = tr_connect False t"
  by (simp add: ua_start_def new_ua_def Let_def)


text \<open>What the steps of a closed agent do to its transport.\<close>

lemma tr_log_onData_closed: "\<not> tr_bound t \<Longrightarrow> tr_status t = STATUS_DISCONNECTED \<Longrightarrow> sends sent out t = t"
  by (induction out arbitrary: t) (simp_all add: sends_def tr_send_def)

lemma table_transport [simp]:
  "ua_transport (newTransaction type i tx u) = ua_transport u" "ua_transport (destroyTransaction type i u) = ua_transport u"
  "ua_transport (newDialog di d u) = ua_transport u" "ua_transport (destroyDialog di u) = ua_transport u"
  "ua_transport (newRTCSession i s u) = ua_transport u" "ua_transport (destroyRTCSession i u) = ua_transport u"
  "ua_transport (ua_registered u) = ua_transport u" "ua_transport (ua_unregistered u) = ua_transport u"
  "ua_transport (ua_registrationFailed u) = ua_transport u" "ua_transport (terminateSessions ended u) = ua_transport u"
  "ua_transport (ua_register u) = ua_transport u" "ua_transport (ua_unregister all u) = ua_transport u"
  "ua_transport (newMessage a u) = ua_transport u" "ua_transport (newOptions a u) = ua_transport u"
  "ua_transport (destroyMessage a u) = ua_transport u"
  by (simp_all add: table_defs applicant_defs)

lemma closed_step_transport:
  assumes "ua_step u u'" "ua_inv u" "ua_status u = UA_USER_CLOSED" "\<not> ua_closeTimer u" "ua_status u' = UA_USER_CLOSED"
  shows "filter tr_active (tr_log (ua_transport u')) = filter tr_active (tr_log (ua_transport u))"
proof -
  have t: "tr_close_requested (ua_transport u)" "tr_status (ua_transport u) = STATUS_DISCONNECTED" "\<not> tr_bound (ua_transport u)"
    using assms(2-4) by (auto simp: ua_inv_def tr_inv_def)
  from assms(1) show ?thesis
  proof cases
    case ua_step_start
    then show ?thesis using assms(3,5) by (simp add: ua_start_def Let_def split: if_splits)
  next
    case (ua_step_recovery h r)
    then obtain w where w: "tr_fire r False h (ua_transport u) = Some w" "ua_transport u' = w"
      by (auto simp: ua_recovery_timer_def onTransportConnecting_def ua_emit_def Let_def)
    then show ?thesis using tr_fire_cases [OF w(1)] t ua_inv_tr [OF assms(2)] by auto
  qed (use assms(3,4) t in \<open>simp_all add: ua_stop_def tr_send_def Let_def\<close>)
qed

text \<open>C22.  An agent that was stopped, and has disconnected its transport, uses no socket and takes no message
  until \<open>start()\<close> is called, whatever timers, sends and calls of its users come.\<close>

theorem closed_agent_silent:
  assumes "new_transport sockets mn mx r = Some t0" "sockets \<noteq> []" "mn \<le> mx" and "ua_run (new_ua reg t0) u"
    and "ua_status u = UA_USER_CLOSED" "\<not> ua_closeTimer u" "ua_step u u'" "ua_status u' = UA_USER_CLOSED"
  shows "filter tr_active (tr_log (ua_transport u')) = filter tr_active (tr_log (ua_transport u))
    \<and> \<not> tr_bound (ua_transport u)"
proof -
  have i: "ua_inv u" by (rule ua_inv_run [OF assms(4) ua_inv_new [OF assms(1-3)]])
  then have "\<not> tr_bound (ua_transport u)" using assms(5,6) by (auto simp: ua_inv_def tr_inv_def)
  with closed_step_transport [OF assms(7) i assms(5,6,8)] show ?thesis by blast
qed

lemma stop_at_once [simp]:
  "ua_status (ua_stop (\<lambda>_. []) (ua_start (new_ua reg t))) = UA_USER_CLOSED"
  "ua_closeTimer (ua_stop (\<lambda>_. []) (ua_start (new_ua reg t))) = False"
  by (simp_all add: ua_stop_def ua_start_def new_ua_def ua_emit_def transport_connect_def onTransportConnecting_def Let_def)

theorem closed_agent_silent_witness:
  "let u = ua_stop (\<lambda>_. []) (ua_start (new_ua True demo_new)) in
   filter tr_active (tr_log (ua_transport (ua_register u))) = filter tr_active (tr_log (ua_transport u))
   \<and> \<not> tr_bound (ua_transport u)"
proof -
  let ?u = "ua_stop (\<lambda>_. []) (ua_start (new_ua True demo_new))"
  have r: "ua_run (new_ua True demo_new) ?u"
    using ua_step_start ua_step_stop by (meson converse_rtranclp_into_rtranclp rtranclp.rtrancl_refl)
  have "ua_status (ua_register ?u) = UA_USER_CLOSED" using stop_at_once(1) by (simp add: ua_register_def ua_emit_def)
  then show ?thesis unfolding Let_def
    by (intro closed_agent_silent [OF demo_new_eq _ _ r _ _ ua_step_register]) simp_all
qed


definition demo_env :: ua_env where
  "demo_env = \<lparr>ue_user = None, ue_contact_user = None, ue_newOptions = 1, ue_newMessage = 0, ue_newRTCSession = 1,
     ue_webrtc = True, ue_absorbed = False, ue_owner = id, ue_ended = (\<lambda>_. False)\<rparr>"

lemma demo_received:
  "im_method (demo_in_dialog m n) = m" "im_ruri (demo_in_dialog m n) = demo_uri"
  "im_to_tag (demo_in_dialog m n) = Some ''t''" "uri_user demo_uri = None" "uri_scheme demo_uri = ''sip''"
  by (simp_all add: demo_in_dialog_def demo_uri_def)


text \<open>A CANCEL for a pending INVITE that carries a To tag of no known dialog makes the agent throw: it has no
  server transaction to be answered by.\<close>

theorem cancel_unknown_dialog_throws:
  assumes "im_method r = CANCEL" "truthy (im_to_tag r)" "findDialog (im_call_id r) (im_from_tag r) (im_to_tag r) u = None"
    and "\<not> ue_absorbed env" "uri_user (im_ruri r) = ue_user env" "uri_scheme (im_ruri r) \<noteq> ''sips''"
  shows "ua_receiveRequest env r u = Inl (TypeError ''Cannot read property receiveResponse of null'')"
  using assms
  by (simp add: ua_receiveRequest_def applicant_request_def server_tx_def in_dialog_request_def findDialog_def ua_emit_def
      split: option.splits)

theorem cancel_unknown_dialog_throws_witness:
  "ua_receiveRequest demo_env (demo_in_dialog CANCEL 1) (new_ua True demo_new)
   = Inl (TypeError ''Cannot read property receiveResponse of null'')"
  by (rule cancel_unknown_dialog_throws) (simp_all add: demo_received demo_env_def truthy_def findDialog_def new_ua_def)

lemma ack_result:
  assumes "im_method r = ACK"
  shows "ua_receiveRequest env r u =
    Inr (if uri_user (im_ruri r) \<notin> {ue_user env, ue_contact_user env} then u
         else if uri_scheme (im_ruri r) = ''sips'' then ua_emit (Ua_Reply_sl r 416) u
         else if ue_absorbed env \<or> \<not> truthy (im_to_tag r) then u
         else case findDialog (im_call_id r) (im_from_tag r) (im_to_tag r) u of
                Some d \<Rightarrow> ua_emit (Ua_To_dialog d r) u | None \<Rightarrow> u)"
  using assms by (auto simp: ua_receiveRequest_def applicant_request_def server_tx_def in_dialog_request_def
      initial_request_def split: option.splits)

lemma ack_events:
  assumes "im_method r = ACK"
  shows "\<exists>es. logs es u (projr (ua_receiveRequest env r u))
    \<and> (if uri_user (im_ruri r) \<in> {ue_user env, ue_contact_user env} \<and> uri_scheme (im_ruri r) = ''sips''
       then es = [Ua_Reply_sl r 416] else es = [] \<or> (\<exists>d. es = [Ua_To_dialog d r]))"
  unfolding ack_result [OF assms] by (simp split: option.split) (auto intro!: ex_logs intro: logs_emit1 logs_refl)

text \<open>An ACK is never answered, except that one for a \<open>sips\<close> URI gets the reply 416.\<close>

theorem ack_answered_iff_sips:
  assumes "im_method r = ACK"
  shows "\<exists>v es. ua_receiveRequest env r u = Inr v \<and> v = u\<lparr>ua_log := ua_log u @ es\<rparr>
    \<and> (if uri_user (im_ruri r) \<in> {ue_user env, ue_contact_user env} \<and> uri_scheme (im_ruri r) = ''sips''
       then es = [Ua_Reply_sl r 416] else es = [] \<or> (\<exists>d. es = [Ua_To_dialog d r]))"
  using ack_events [OF assms, of u env] unfolding ack_result [OF assms] logs_def by simp

theorem ack_answered_iff_sips_witness:
  "let r = (demo_in_dialog ACK 1)\<lparr>im_ruri := demo_uri\<lparr>uri_scheme := ''sips''\<rparr>\<rparr>; u = new_ua True demo_new in
   ua_receiveRequest demo_env r u = Inr (u\<lparr>ua_log := [Ua_Reply_sl r 416]\<rparr>)"
proof -
  let ?r = "(demo_in_dialog ACK 1)\<lparr>im_ruri := demo_uri\<lparr>uri_scheme := ''sips''\<rparr>\<rparr>"
  have "im_method ?r = ACK" by (simp add: demo_in_dialog_def)
  from ack_answered_iff_sips [OF this, of demo_env "new_ua True demo_new"] show ?thesis
    unfolding Let_def by (simp add: demo_env_def demo_uri_def new_ua_def)
qed

text \<open>The agent knows at most one applicant, however many messages and requests for options are under
  way: all have the same key in its table, so the end of one removes the other, and \<open>stop()\<close> leaves them all
  open.\<close>

theorem one_applicant_known:
  assumes "new_transport sockets mn mx r = Some t0" "sockets \<noteq> []" "mn \<le> mx" and "ua_run (new_ua reg t0) u"
  shows "length (ua_applicants u) \<le> 1 \<and> ua_applicants (newMessage b (newMessage a u)) = ua_applicants (newMessage b u)
    \<and> ua_applicants (destroyMessage a (newMessage b u)) = [] \<and> ua_applicants (ua_stop left u) = ua_applicants u"
  using ua_inv_run [OF assms(4) ua_inv_new [OF assms(1-3)]]
  by (auto simp: ua_inv_def applicant_defs one_applicant ua_stop_def Let_def)

theorem one_applicant_known_witness:
  "ua_applicants (destroyMessage 1 (newMessage 2 (newMessage 1 (new_ua True demo_new)))) = []"
proof -
  have "ua_run (new_ua True demo_new) (newMessage 1 (new_ua True demo_new))" using ua_step_newMessage by blast
  from one_applicant_known [OF demo_new_eq _ _ this] show ?thesis by simp
qed

end
