(* ===== verification/Applicant.thy ===== *)
theory Applicant
  imports Request_Sender
begin

text \<open>
  The classes \<open>Message\<close> and \<open>Options\<close> (lines 16262-16556 and 16718-16998 of
  \<open>frontend/static/js/jssip-3.10.0.js\<close>): a request outside any dialog, sent through a
  \<open>RequestSender\<close> or received.  Both have the same code but for names and the parameters of the
  request, so an operation takes the class where it reads it, and the operations of \<open>Options\<close> are instances.
  The calls to the user agent, the events and the replies are the log \<open>ap_log\<close>.
\<close>

section \<open>State\<close>

datatype ap_class = Message_class | Options_class

fun ap_method :: "ap_class \<Rightarrow> sip_method" where
  "ap_method Message_class = MESSAGE"
| "ap_method Options_class = OPTIONS"

fun ap_name :: "ap_class \<Rightarrow> string" where
  "ap_name Message_class = ''Message''"
| "ap_name Options_class = ''Options''"

datatype ap_direction = Incoming | Outgoing

datatype ap_event =
    Ap_new ap_direction
  | Ap_destroy
  | Ap_succeeded in_response
  | Ap_failed "in_response option" cause
  | Ap_reply nat "string option" "string list" "string option"
  | Ap_sent out_request

record applicant =
  ap_request :: "(out_request + in_request) option"
  ap_closed :: bool
  ap_direction :: "ap_direction option"
  ap_local_identity :: "parsed option"
  ap_remote_identity :: "parsed option"
  ap_is_replied :: bool
  ap_log :: "ap_event list"

definition ap_emit :: "ap_event \<Rightarrow> applicant \<Rightarrow> applicant" where
  "ap_emit e a = a\<lparr>ap_log := ap_log a @ [e]\<rparr>"

definition new_applicant :: applicant where
  "new_applicant = \<lparr>ap_request = None, ap_closed = False, ap_direction = None, ap_local_identity = None,
     ap_remote_identity = None, ap_is_replied = False, ap_log = []\<rparr>"

text \<open>The options of \<open>send\<close>, \<open>accept\<close> and \<open>reject\<close>.\<close>

record ap_options =
  ao_extraHeaders :: "string list option"
  ao_contentType :: "string option"
  ao_fromUserName :: "string option"
  ao_fromDisplayName :: "string option"
  ao_body :: "string option"
  ao_status_code :: "nat option"
  ao_reason_phrase :: "string option"

section \<open>Callbacks\<close>

definition ap_close :: "applicant \<Rightarrow> applicant" where
  "ap_close a = ap_emit Ap_destroy (a\<lparr>ap_closed := True\<rparr>)"

definition ap_onfailed :: "in_response option \<Rightarrow> cause \<Rightarrow> applicant \<Rightarrow> applicant" where
  "ap_onfailed response cause a = ap_emit (Ap_failed response cause) (ap_close a)"

definition ap_onsucceeded :: "in_response \<Rightarrow> applicant \<Rightarrow> applicant" where
  "ap_onsucceeded response a = ap_emit (Ap_succeeded response) (ap_close a)"

definition ap_receiveResponse :: "in_response \<Rightarrow> applicant \<Rightarrow> applicant" where
  "ap_receiveResponse response a =
     (if ap_closed a then a
      else if 100 \<le> im_status_code response \<and> im_status_code response < 200 then a
      else if 200 \<le> im_status_code response \<and> im_status_code response < 300 then ap_onsucceeded response a
      else ap_onfailed (Some response) (sipErrorCause (im_status_code response)) a)"

definition ap_onRequestTimeout :: "applicant \<Rightarrow> applicant" where
  "ap_onRequestTimeout a = (if ap_closed a then a else ap_onfailed None C_REQUEST_TIMEOUT a)"

definition ap_onTransportError :: "applicant \<Rightarrow> applicant" where
  "ap_onTransportError a = (if ap_closed a then a else ap_onfailed None C_CONNECTION_ERROR a)"

definition ap_new_local :: "out_request \<Rightarrow> applicant \<Rightarrow> applicant" where
  "ap_new_local r a =
     ap_emit (Ap_new Outgoing)
       (a\<lparr>ap_direction := Some Outgoing, ap_local_identity := Some (P_NameAddr (or_from r)),
          ap_remote_identity := Some (P_NameAddr (or_to r))\<rparr>)"

definition ap_new_remote :: "in_request \<Rightarrow> applicant \<Rightarrow> applicant" where
  "ap_new_remote r a =
     ap_emit (Ap_new Incoming)
       (a\<lparr>ap_direction := Some Incoming, ap_local_identity := im_to r, ap_remote_identity := im_from r\<rparr>)"

section \<open>Outgoing\<close>

text \<open>The handlers given to the request sender.\<close>

fun ap_hear :: "rs_event \<Rightarrow> applicant \<Rightarrow> applicant" where
  "ap_hear Rs_Timeout a = ap_onRequestTimeout a"
| "ap_hear Rs_TransportError a = ap_onTransportError a"
| "ap_hear (Rs_Response response) a = ap_receiveResponse response a"
| "ap_hear (Rs_Authenticated r) a = a"
| "ap_hear (Rs_Send r) a = ap_emit (Ap_sent r) a"

definition message_params :: "ua_config \<Rightarrow> ap_options \<Rightarrow> js_error + req_params \<times> string list" where
  "message_params cfg opts =
     bind_result
       (case ao_fromUserName opts of
          Some user \<Rightarrow>
            if user = [] then Inr (no_params, cloneArray (ao_extraHeaders opts))
            else
              bind_result (new_uri ''sip'' (Some user) (uri_host (cfg_uri cfg)) None [] []) (\<lambda>u.
                bind_result (uri_toString (cfg_uri cfg)) (\<lambda>s.
                  Inr (no_params\<lparr>p_from_uri := Some u\<rparr>,
                       cloneArray (ao_extraHeaders opts) @ [''P-Preferred-Identity: '' @ s])))
        | None \<Rightarrow> Inr (no_params, cloneArray (ao_extraHeaders opts)))
       (\<lambda>(p, extra).
          Inr (if truthy (ao_fromDisplayName opts) then p\<lparr>p_from_display_name := Some (ao_fromDisplayName opts)\<rparr> else p, extra))"

definition options_params :: "ap_options \<Rightarrow> js_error + req_params \<times> string list" where
  "options_params opts = Inr (no_params, cloneArray (ao_extraHeaders opts))"

definition message_request ::
    "(string \<Rightarrow> uri option) \<Rightarrow> string \<Rightarrow> ua_config \<Rightarrow> draws \<Rightarrow> string option \<Rightarrow> string option \<Rightarrow> ap_options
      \<Rightarrow> js_error + out_request" where
  "message_request parse hostport cfg dr target body opts =
     (if target = None \<or> body = None then Inl (TypeError ''Not enough arguments'')
      else
        bind_result (normalizeTarget parse (the target) hostport) (\<lambda>t.
          case t of
            None \<Rightarrow> Inl (TypeError (''Invalid target: '' @ the target))
          | Some uri \<Rightarrow>
              bind_result (message_params cfg opts) (\<lambda>(params, extra).
                bind_result (new_out_request cfg dr MESSAGE uri params
                    (Some (extra @ [''Content-Type: '' @ str_or (ao_contentType opts) ''text/plain''])) None)
                  (\<lambda>r. Inr (if truthy body then r\<lparr>or_body := body\<rparr> else r)))))"

definition options_request ::
    "(string \<Rightarrow> uri option) \<Rightarrow> string \<Rightarrow> ua_config \<Rightarrow> draws \<Rightarrow> string option \<Rightarrow> string option \<Rightarrow> ap_options
      \<Rightarrow> js_error + out_request" where
  "options_request parse hostport cfg dr target body opts =
     (if target = None then Inl (TypeError ''A target is required for OPTIONS'')
      else
        bind_result (normalizeTarget parse (the target) hostport) (\<lambda>t.
          case t of
            None \<Rightarrow> Inl (TypeError (''Invalid target: '' @ the target))
          | Some uri \<Rightarrow>
              bind_result (options_params opts) (\<lambda>(params, extra).
                bind_result (new_out_request cfg dr OPTIONS uri params
                    (Some (extra @ [''Content-Type: '' @ str_or (ao_contentType opts) ''application/sdp''])) None)
                  (\<lambda>r. Inr (if truthy body then r\<lparr>or_body := body\<rparr> else r)))))"

text \<open>
  The end of \<open>send\<close>: the sender is made (it reports a transport error at once when the agent was
  closed), the message announced and the request sent.
\<close>

definition ap_start :: "rs_env \<Rightarrow> auth_config \<Rightarrow> bool \<Rightarrow> out_request \<Rightarrow> applicant \<Rightarrow> applicant \<times> sender \<times> client_tx" where
  "ap_start env ac user_closed r a =
     (let a = a\<lparr>ap_request := Some (Inl r)\<rparr>;
          s = new_sender user_closed r;
          a = fold ap_hear (rs_log s) a;
          a = ap_new_local r a;
          (tx, s') = rs_send env ac s;
          a = fold ap_hear (drop (length (rs_log s)) (rs_log s')) a
      in (a, s', tx))"

definition message_send ::
    "(string \<Rightarrow> uri option) \<Rightarrow> string \<Rightarrow> rs_env \<Rightarrow> auth_config \<Rightarrow> bool \<Rightarrow> string option \<Rightarrow> string option
      \<Rightarrow> ap_options \<Rightarrow> applicant \<Rightarrow> js_error + applicant \<times> sender \<times> client_tx" where
  "message_send parse hostport env ac user_closed target body opts a =
     bind_result (message_request parse hostport (env_cfg env) (env_draws env) target body opts)
       (\<lambda>r. Inr (ap_start env ac user_closed r a))"

definition options_send ::
    "(string \<Rightarrow> uri option) \<Rightarrow> string \<Rightarrow> rs_env \<Rightarrow> auth_config \<Rightarrow> bool \<Rightarrow> string option \<Rightarrow> string option
      \<Rightarrow> ap_options \<Rightarrow> applicant \<Rightarrow> js_error + applicant \<times> sender \<times> client_tx" where
  "options_send parse hostport env ac user_closed target body opts a =
     bind_result (options_request parse hostport (env_cfg env) (env_draws env) target body opts)
       (\<lambda>r. Inr (ap_start env ac user_closed r a))"

section \<open>Incoming\<close>

definition ap_accept :: "ap_class \<Rightarrow> ap_options \<Rightarrow> applicant \<Rightarrow> js_error option \<times> applicant" where
  "ap_accept c opts a =
     (if ap_direction a \<noteq> Some Incoming
      then (Some (NotSupportedError (''\"accept\" not supported for outgoing '' @ ap_name c)), a)
      else if ap_is_replied a then (Some (PlainError (''incoming '' @ ap_name c @ '' already replied'')), a)
      else (None, ap_emit (Ap_reply 200 None (cloneArray (ao_extraHeaders opts)) (ao_body opts)) (a\<lparr>ap_is_replied := True\<rparr>)))"

text \<open>A status code 0 counts as absent.\<close>

definition reject_code :: "ap_options \<Rightarrow> nat" where
  "reject_code opts = (case ao_status_code opts of None \<Rightarrow> 480 | Some n \<Rightarrow> if n = 0 then 480 else n)"

definition ap_reject :: "ap_class \<Rightarrow> ap_options \<Rightarrow> applicant \<Rightarrow> js_error option \<times> applicant" where
  "ap_reject c opts a =
     (let status_code = reject_code opts in
      if ap_direction a \<noteq> Some Incoming
      then (Some (NotSupportedError (''\"reject\" not supported for outgoing '' @ ap_name c)), a)
      else if ap_is_replied a then (Some (PlainError (''incoming '' @ ap_name c @ '' already replied'')), a)
      else if status_code < 300 \<or> status_code \<ge> 700 then (Some (TypeError (''Invalid status_code: '' @ num_str status_code)), a)
      else (None, ap_emit (Ap_reply status_code (ao_reason_phrase opts) (cloneArray (ao_extraHeaders opts)) (ao_body opts))
                    (a\<lparr>ap_is_replied := True\<rparr>)))"

text \<open>
  The calls the application makes from its listener for the new applicant, each with whether it
  catches the exception of the call.
\<close>

datatype ap_call = Accept ap_options | Reject ap_options

fun ap_run_call :: "ap_class \<Rightarrow> ap_call \<Rightarrow> applicant \<Rightarrow> js_error option \<times> applicant" where
  "ap_run_call c (Accept opts) a = ap_accept c opts a"
| "ap_run_call c (Reject opts) a = ap_reject c opts a"

fun ap_run_calls :: "ap_class \<Rightarrow> (ap_call \<times> bool) list \<Rightarrow> applicant \<Rightarrow> js_error option \<times> applicant" where
  "ap_run_calls c [] a = (None, a)"
| "ap_run_calls c ((call, caught) # calls) a =
     (case ap_run_call c call a of
        (Some e, a) \<Rightarrow> if caught then ap_run_calls c calls a else (Some e, a)
      | (None, a) \<Rightarrow> ap_run_calls c calls a)"

definition ap_init_incoming ::
    "ap_class \<Rightarrow> (ap_call \<times> bool) list \<Rightarrow> in_request \<Rightarrow> applicant \<Rightarrow> js_error option \<times> applicant" where
  "ap_init_incoming c calls r a =
     (case ap_run_calls c calls (ap_new_remote r (a\<lparr>ap_request := Some (Inr r)\<rparr>)) of
        (Some e, a) \<Rightarrow> (Some e, a)
      | (None, a) \<Rightarrow>
          (None, ap_close (if \<not> ap_is_replied a
                           then ap_emit (Ap_reply 200 None [] None) (a\<lparr>ap_is_replied := True\<rparr>) else a)))"

section \<open>Options\<close>

definition options_init_incoming :: "(ap_call \<times> bool) list \<Rightarrow> in_request \<Rightarrow> applicant \<Rightarrow> js_error option \<times> applicant" where
  "options_init_incoming = ap_init_incoming Options_class"

definition options_accept :: "ap_options \<Rightarrow> applicant \<Rightarrow> js_error option \<times> applicant" where
  "options_accept = ap_accept Options_class"

definition options_reject :: "ap_options \<Rightarrow> applicant \<Rightarrow> js_error option \<times> applicant" where
  "options_reject = ap_reject Options_class"

section \<open>Steps\<close>

text \<open>
  Every call the application, the request sender and the user agent make on an applicant; an
  exception leaves the applicant as the call left it.
\<close>

inductive ap_step :: "ap_class \<Rightarrow> applicant \<Rightarrow> applicant \<Rightarrow> bool" for c where
  ap_step_send: "ap_start env ac user_closed r a = (a', s, tx) \<Longrightarrow> ap_step c a a'"
| ap_step_hear: "ap_step c a (ap_hear e a)"
| ap_step_incoming: "ap_init_incoming c calls r a = (e, a') \<Longrightarrow> ap_step c a a'"
| ap_step_accept: "ap_accept c opts a = (e, a') \<Longrightarrow> ap_step c a a'"
| ap_step_reject: "ap_reject c opts a = (e, a') \<Longrightarrow> ap_step c a a'"

inductive_cases ap_stepE: "ap_step c a a'"

fun is_ap_outcome :: "ap_event \<Rightarrow> bool" where
  "is_ap_outcome (Ap_succeeded r) = True"
| "is_ap_outcome (Ap_failed r c) = True"
| "is_ap_outcome e = False"

fun is_ap_reply :: "ap_event \<Rightarrow> bool" where
  "is_ap_reply (Ap_reply code reason extra body) = True"
| "is_ap_reply e = False"

definition ap_outcomes :: "applicant \<Rightarrow> ap_event list" where
  "ap_outcomes a = filter is_ap_outcome (ap_log a)"

definition ap_replies :: "applicant \<Rightarrow> ap_event list" where
  "ap_replies a = filter is_ap_reply (ap_log a)"

definition ap_inv :: "applicant \<Rightarrow> bool" where
  "ap_inv a \<longleftrightarrow> length (ap_outcomes a) \<le> 1 \<and> (\<not> ap_closed a \<longrightarrow> ap_outcomes a = [])
     \<and> length (ap_replies a) = (if ap_is_replied a then 1 else 0)
     \<and> (\<forall>e\<in>set (ap_replies a). \<forall>code reason extra body. e = Ap_reply code reason extra body \<longrightarrow> 200 \<le> code \<and> code < 700)"

lemmas ap_views = ap_outcomes_def ap_replies_def ap_emit_def

lemma ap_inv_hear: "ap_inv a \<Longrightarrow> ap_inv (ap_hear e a)"
  by (cases e) (auto simp: ap_inv_def ap_views ap_onRequestTimeout_def ap_onTransportError_def ap_receiveResponse_def
      ap_onfailed_def ap_onsucceeded_def ap_close_def)

lemma ap_inv_hear_all: "ap_inv a \<Longrightarrow> ap_inv (fold ap_hear es a)"
  by (induction es arbitrary: a) (simp_all add: ap_inv_hear)

lemma ap_inv_new: "ap_inv (ap_new_local r a) = ap_inv a" "ap_inv (ap_new_remote q a) = ap_inv a"
    "ap_inv (a\<lparr>ap_request := x\<rparr>) = ap_inv a"
  by (simp_all add: ap_inv_def ap_views ap_new_local_def ap_new_remote_def)

lemma ap_inv_start: "ap_start env ac user_closed r a = (a', s, tx) \<Longrightarrow> ap_inv a \<Longrightarrow> ap_inv a'"
  by (auto simp: ap_start_def Let_def ap_inv_new intro!: ap_inv_hear_all split: prod.splits)

lemma ap_inv_accept: "ap_accept c opts a = (e, a') \<Longrightarrow> ap_inv a \<Longrightarrow> ap_inv a'"
  by (auto simp: ap_accept_def ap_inv_def ap_views split: if_splits)

lemma ap_inv_reject: "ap_reject c opts a = (e, a') \<Longrightarrow> ap_inv a \<Longrightarrow> ap_inv a'"
  by (auto simp: ap_reject_def ap_inv_def ap_views Let_def split: if_splits)

lemma ap_inv_call: "ap_run_call c call a = (e, a') \<Longrightarrow> ap_inv a \<Longrightarrow> ap_inv a'"
  by (cases call) (auto intro: ap_inv_accept ap_inv_reject)

lemma ap_inv_calls: "ap_run_calls c calls a = (e, a') \<Longrightarrow> ap_inv a \<Longrightarrow> ap_inv a'"
proof (induction c calls a arbitrary: e a' rule: ap_run_calls.induct)
  case (2 c call caught calls a)
  obtain x b where s: "ap_run_call c call a = (x, b)" by (cases "ap_run_call c call a")
  have "ap_inv b" using ap_inv_call [OF s] 2(4) by blast
  then show ?case using 2(1-3) s by (auto split: option.splits if_splits)
qed simp

lemma ap_inv_close: "ap_inv a \<Longrightarrow> ap_inv (ap_close a)"
  by (auto simp: ap_inv_def ap_views ap_close_def)

lemma ap_inv_incoming: "ap_init_incoming c calls r a = (e, a') \<Longrightarrow> ap_inv a \<Longrightarrow> ap_inv a'"
proof -
  assume i: "ap_inv a" and s: "ap_init_incoming c calls r a = (e, a')"
  obtain x b where c: "ap_run_calls c calls (ap_new_remote r (a\<lparr>ap_request := Some (Inr r)\<rparr>)) = (x, b)"
    by (cases "ap_run_calls c calls (ap_new_remote r (a\<lparr>ap_request := Some (Inr r)\<rparr>))")
  have "ap_inv b" using ap_inv_calls [OF c] i by (simp add: ap_inv_new)
  moreover have "\<not> ap_is_replied b \<Longrightarrow> ap_inv b \<Longrightarrow> ap_inv (ap_emit (Ap_reply 200 None [] None) (b\<lparr>ap_is_replied := True\<rparr>))"
    by (auto simp: ap_inv_def ap_views)
  ultimately show ?thesis using s by (auto simp: ap_init_incoming_def c intro!: ap_inv_close split: option.splits if_splits)
qed

lemma ap_inv_step: "ap_step c a a' \<Longrightarrow> ap_inv a \<Longrightarrow> ap_inv a'"
  by (erule ap_stepE) (auto simp: ap_inv_hear intro: ap_inv_start ap_inv_incoming ap_inv_accept ap_inv_reject)

lemma ap_inv_run: "(ap_step c)\<^sup>*\<^sup>* a a' \<Longrightarrow> ap_inv a \<Longrightarrow> ap_inv a'"
  by (induction rule: rtranclp_induct) (auto intro: ap_inv_step)

lemma ap_inv_init: "ap_inv new_applicant"
  by (simp add: ap_inv_def ap_views new_applicant_def)

section \<open>The reply of an incoming applicant\<close>

text \<open>The reply a call makes, if it makes one: a rejection with another status code throws.\<close>

fun call_reply :: "ap_call \<Rightarrow> ap_event option" where
  "call_reply (Accept opts) = Some (Ap_reply 200 None (cloneArray (ao_extraHeaders opts)) (ao_body opts))"
| "call_reply (Reject opts) =
     (if reject_code opts < 300 \<or> reject_code opts \<ge> 700 then None
      else Some (Ap_reply (reject_code opts) (ao_reason_phrase opts) (cloneArray (ao_extraHeaders opts)) (ao_body opts)))"

definition decided :: "ap_call list \<Rightarrow> ap_event option" where
  "decided calls = (case filter (\<lambda>c. call_reply c \<noteq> None) calls of [] \<Rightarrow> None | c # _ \<Rightarrow> call_reply c)"

lemma decided_simps [simp]:
  "decided [] = None" "decided (c # cs) = (case call_reply c of None \<Rightarrow> decided cs | Some e \<Rightarrow> Some e)"
  by (auto simp: decided_def)

lemma run_call_incoming:
  assumes "ap_direction a = Some Incoming" "ap_run_call c call a = (e, b)"
  shows "ap_direction b = Some Incoming"
    and "ap_is_replied a \<Longrightarrow> b = a"
    and "\<not> ap_is_replied a \<Longrightarrow> ap_replies b = ap_replies a @ (case call_reply call of None \<Rightarrow> [] | Some e \<Rightarrow> [e])
      \<and> ap_is_replied b = (call_reply call \<noteq> None)"
    and "ap_outcomes b = ap_outcomes a" "ap_closed b = ap_closed a"
  using assms by (cases call; auto simp: ap_accept_def ap_reject_def ap_views Let_def split: if_splits)+

lemma run_calls_incoming:
  "ap_run_calls c calls a = (None, b) \<Longrightarrow> ap_direction a = Some Incoming \<Longrightarrow>
    (if ap_is_replied a then b = a
     else ap_replies b = ap_replies a @ (case decided (map fst calls) of None \<Rightarrow> [] | Some e \<Rightarrow> [e])
       \<and> ap_is_replied b = (decided (map fst calls) \<noteq> None))
    \<and> ap_outcomes b = ap_outcomes a \<and> ap_closed b = ap_closed a"
proof (induction c calls a arbitrary: b rule: ap_run_calls.induct)
  case (2 c call caught calls a)
  obtain x d where s: "ap_run_call c call a = (x, d)" by (cases "ap_run_call c call a")
  have r: "ap_run_calls c calls d = (None, b)" using 2(3) s by (auto split: option.splits if_splits)
  note k = run_call_incoming [OF 2(4) s]
  have IH: "(if ap_is_replied d then b = d
     else ap_replies b = ap_replies d @ (case decided (map fst calls) of None \<Rightarrow> [] | Some e \<Rightarrow> [e])
       \<and> ap_is_replied b = (decided (map fst calls) \<noteq> None))
    \<and> ap_outcomes b = ap_outcomes d \<and> ap_closed b = ap_closed d"
    using 2(1) [OF s [symmetric] _ r k(1)] 2(2) [OF s [symmetric] _ _ r k(1)] 2(3) s by (cases x) (auto split: if_splits)
  show ?case
  proof (cases "ap_is_replied a")
    case True then show ?thesis using k(2) IH by simp
  next
    case False
    with k(3-5) IH show ?thesis by (cases "call_reply call") auto
  qed
qed simp

section \<open>Properties\<close>

text \<open>C25.  However often a message is sent, accepted, rejected or received and whatever its requests meet with, it
  reports at most one outcome, is closed when it has, and replies at most once, with a status
  code between 200 and 699.\<close>

theorem applicant_one_outcome:
  assumes "(ap_step c)\<^sup>*\<^sup>* new_applicant a"
  shows "length (ap_outcomes a) \<le> 1 \<and> (ap_outcomes a \<noteq> [] \<longrightarrow> ap_closed a) \<and> length (ap_replies a) \<le> 1
    \<and> (\<forall>code reason extra body. Ap_reply code reason extra body \<in> set (ap_log a) \<longrightarrow> 200 \<le> code \<and> code < 700)"
  using ap_inv_run [OF assms ap_inv_init] by (auto simp: ap_inv_def ap_replies_def)

theorem applicant_one_outcome_witness:
  "length (ap_outcomes (ap_hear Rs_TransportError (ap_hear Rs_Timeout new_applicant))) \<le> 1"
proof -
  have "(ap_step Message_class)\<^sup>*\<^sup>* new_applicant (ap_hear Rs_TransportError (ap_hear Rs_Timeout new_applicant))"
    by (meson ap_step_hear rtranclp.rtrancl_refl rtranclp.rtrancl_into_rtrancl)
  then show ?thesis by (rule applicant_one_outcome [THEN conjunct1])
qed

text \<open>An incoming message that is handled to the end was replied exactly once and is closed: with the first
  of the application's calls that has a valid status code, and with 200 when there is none.\<close>

theorem incoming_replied_once:
  assumes "ap_init_incoming c calls r new_applicant = (None, a)"
  shows "ap_replies a = [case decided (map fst calls) of None \<Rightarrow> Ap_reply 200 None [] None | Some e \<Rightarrow> e]
    \<and> ap_closed a \<and> ap_outcomes a = []"
proof -
  let ?a = "ap_new_remote r (new_applicant\<lparr>ap_request := Some (Inr r)\<rparr>)"
  obtain b where c: "ap_run_calls c calls ?a = (None, b)"
    and a: "a = ap_close (if \<not> ap_is_replied b then ap_emit (Ap_reply 200 None [] None) (b\<lparr>ap_is_replied := True\<rparr>) else b)"
    using assms by (auto simp: ap_init_incoming_def split: prod.splits option.splits)
  have d: "ap_direction ?a = Some Incoming" "\<not> ap_is_replied ?a" "ap_replies ?a = []" "ap_outcomes ?a = []"
    by (simp_all add: ap_new_remote_def new_applicant_def ap_views)
  show ?thesis using run_calls_incoming [OF c d(1)] d(2-4)
    by (cases "decided (map fst calls)") (auto simp: a ap_close_def ap_views)
qed

definition demo_options :: ap_options where
  "demo_options = \<lparr>ao_extraHeaders = None, ao_contentType = None, ao_fromUserName = None, ao_fromDisplayName = None,
     ao_body = None, ao_status_code = None, ao_reason_phrase = None\<rparr>"

text \<open>A rejection with a status code it may not have is caught, and the next one counts.\<close>

theorem incoming_replied_once_witness:
  "\<forall>r. \<exists>a. ap_init_incoming Message_class
        [(Reject (demo_options\<lparr>ao_status_code := Some 200\<rparr>), True), (Reject demo_options, False), (Accept demo_options, True)]
        r new_applicant = (None, a)
     \<and> ap_replies a = [Ap_reply 480 None [] None]"
proof
  fix r
  let ?calls = "[(Reject (demo_options\<lparr>ao_status_code := Some 200\<rparr>), True), (Reject demo_options, False), (Accept demo_options, True)]"
  obtain e a where s: "ap_init_incoming Message_class ?calls r new_applicant = (e, a)"
    by (cases "ap_init_incoming Message_class ?calls r new_applicant")
  have "e = None" using s
    by (auto simp: ap_init_incoming_def ap_reject_def ap_accept_def reject_code_def demo_options_def ap_new_remote_def
        ap_emit_def new_applicant_def)
  with s incoming_replied_once [of Message_class ?calls r a] show "\<exists>a. ap_init_incoming Message_class ?calls r new_applicant = (None, a)
     \<and> ap_replies a = [Ap_reply 480 None [] None]"
    by (auto simp: reject_code_def demo_options_def cloneArray_def)
qed

text \<open>What the sender reports of a request that is final.\<close>

definition is_final :: "rs_event \<Rightarrow> bool" where
  "is_final e = (case e of Rs_Timeout \<Rightarrow> True | Rs_TransportError \<Rightarrow> True
     | Rs_Response r \<Rightarrow> im_status_code r < 100 \<or> 200 \<le> im_status_code r | _ \<Rightarrow> False)"

lemma hear_closed: "ap_closed a \<Longrightarrow> ap_closed (ap_hear e a) \<and> ap_outcomes (ap_hear e a) = ap_outcomes a"
  by (cases e) (auto simp: ap_onRequestTimeout_def ap_onTransportError_def ap_receiveResponse_def ap_views)

lemma hear_closed_all: "ap_closed a \<Longrightarrow> ap_closed (fold ap_hear es a) \<and> ap_outcomes (fold ap_hear es a) = ap_outcomes a"
  by (induction es arbitrary: a) (auto simp: hear_closed)

lemma hear_open:
  assumes "\<not> ap_closed a"
  shows "is_final e \<Longrightarrow> ap_closed (ap_hear e a) \<and> (\<exists>x. ap_outcomes (ap_hear e a) = ap_outcomes a @ [x])"
    and "\<not> is_final e \<Longrightarrow> \<not> ap_closed (ap_hear e a) \<and> ap_outcomes (ap_hear e a) = ap_outcomes a"
  using assms by (cases e; auto simp: is_final_def ap_onRequestTimeout_def ap_onTransportError_def ap_receiveResponse_def
      ap_onfailed_def ap_onsucceeded_def ap_close_def ap_views)+

text \<open>In an agent that was stopped, a message fails first and is announced afterwards; it is in the
  agent's table for ever, since it is closed and destroys itself only once.\<close>

fun is_table_event :: "ap_event \<Rightarrow> bool" where
  "is_table_event (Ap_new d) = True"
| "is_table_event Ap_destroy = True"
| "is_table_event e = False"

lemma hear_closed_log: "ap_closed a \<Longrightarrow> filter is_table_event (ap_log (ap_hear e a)) = filter is_table_event (ap_log a)"
  by (cases e) (auto simp: ap_onRequestTimeout_def ap_onTransportError_def ap_receiveResponse_def ap_emit_def)

lemma hear_closed_logs:
  "ap_closed a \<Longrightarrow> filter is_table_event (ap_log (fold ap_hear es a)) = filter is_table_event (ap_log a)"
  by (induction es arbitrary: a) (simp_all add: hear_closed hear_closed_log)

text \<open>A message that is open reports exactly one outcome when its sender reports a final response, a timeout
  or a transport error, none when it does not, and nothing more afterwards.\<close>

theorem first_final_event_counts:
  assumes "\<not> ap_closed a"
  shows "\<exists>xs. ap_outcomes (fold ap_hear es a) = ap_outcomes a @ xs \<and> length xs = (if list_ex is_final es then 1 else 0)
    \<and> ap_closed (fold ap_hear es a) = list_ex is_final es"
  using assms
proof (induction es arbitrary: a)
  case (Cons e es)
  show ?case
  proof (cases "is_final e")
    case True
    then show ?thesis using hear_open(1) [OF Cons.prems True] hear_closed_all [of "ap_hear e a" es] by auto
  next
    case False
    then show ?thesis using hear_open(2) [OF Cons.prems False] Cons.IH [of "ap_hear e a"] by simp
  qed
qed simp

theorem first_final_event_counts_witness:
  "ap_closed (fold ap_hear [Rs_Timeout, Rs_TransportError] new_applicant)"
proof -
  have "\<not> ap_closed new_applicant" by (simp add: new_applicant_def)
  from first_final_event_counts [OF this, of "[Rs_Timeout, Rs_TransportError]"] show ?thesis
    by (auto simp: is_final_def)
qed

text \<open>In an agent that was stopped a message fails before it is announced, and it is never taken out of the
  agent's table afterwards.\<close>

theorem stopped_agent_message:
  "(case ap_start env ac True r new_applicant of
      (a, s, tx) \<Rightarrow> ap_outcomes a = [Ap_failed None C_CONNECTION_ERROR]
        \<and> filter is_table_event (ap_log a) = [Ap_destroy, Ap_new Outgoing]
        \<and> (\<forall>es. filter is_table_event (ap_log (fold ap_hear es a)) = [Ap_destroy, Ap_new Outgoing]))"
proof -
  obtain tx s where s: "rs_send env ac (new_sender True r) = (tx, s)" by (cases "rs_send env ac (new_sender True r)")
  have l: "rs_log (new_sender True r) = [Rs_TransportError]" by (auto simp: new_sender_def rs_emit_def Let_def)
  let ?b = "ap_new_local r (ap_hear Rs_TransportError (new_applicant\<lparr>ap_request := Some (Inl r)\<rparr>))"
  let ?a = "fold ap_hear (drop 1 (rs_log s)) ?b"
  have b: "ap_closed ?b" "ap_outcomes ?b = [Ap_failed None C_CONNECTION_ERROR]"
    "filter is_table_event (ap_log ?b) = [Ap_destroy, Ap_new Outgoing]"
    by (simp_all add: ap_new_local_def ap_onTransportError_def ap_onfailed_def ap_close_def ap_views new_applicant_def)
  have st: "ap_start env ac True r new_applicant = (?a, s, tx)" by (simp add: ap_start_def l s Let_def)
  have a: "ap_closed ?a" "ap_outcomes ?a = [Ap_failed None C_CONNECTION_ERROR]"
    "filter is_table_event (ap_log ?a) = [Ap_destroy, Ap_new Outgoing]"
    using hear_closed_all [OF b(1)] hear_closed_logs [OF b(1)] b by auto
  show ?thesis unfolding st prod.case by (intro conjI allI) (simp_all only: hear_closed_logs [OF a(1)] a)
qed

end
