(* ===== verification/Js_Value.thy ===== *)
theory Js_Value
  imports Js_Number Sip_Uri
begin

text \<open>
  Values of the language whose type the program looks at: the type tests of \<open>Utils.js\<close> (lines
  25243-25265 of \<open>frontend/static/js/jssip-3.10.0.js\<close>), \<open>Socket.isSocket\<close> (lines 22677-22722) and the
  conversions they use.  An object is its class tag (what \<open>Object.prototype.toString\<close> shows), the text
  \<open>String()\<close> gives for it, its own properties and those it inherits; functions and string objects
  are objects with the tags \<open>Function\<close> and \<open>String\<close>.  Properties are data properties (no getter
  runs) and the conversion of such an object to a string does not throw; \<open>J_uri\<close> is an object of the class
  \<open>URI\<close>.
\<close>

datatype js_value =
    J_undefined
  | J_null
  | J_bool bool
  | J_num js_num
  | J_str string
  | J_arr "js_value list"
  | J_obj (j_tag: string) (j_text: string) (j_own: "(string \<times> js_value) list") (j_proto: "(string \<times> js_value) list")
  | J_uri uri

abbreviation plain_object :: "js_value js_object \<Rightarrow> js_value" where
  "plain_object props \<equiv> J_obj ''Object'' ''[object Object]'' props []"

section \<open>Conversions\<close>

text \<open>
  A number from \<open>10 ^ 21\<close> on, or nearer to zero than \<open>10 ^ -6\<close>, is printed with an exponent (here with
  all its digits, where the language prints the fewest that determine it).  The least positive number
  of the language is \<open>5 * 10 ^ -324\<close>, so the search for the exponent needs at most 324 steps.
\<close>

definition exponent_text :: "nat \<Rightarrow> string" where
  "exponent_text n =
     (let d = num_str n; m = rev (dropWhile (\<lambda>c. c = CHR ''0'') (rev (tl d))) in
      [hd d] @ (if m = [] then [] else ''.'' @ m) @ ''e+'' @ num_str (length d - 1))"

fun small_text :: "nat \<Rightarrow> nat \<Rightarrow> real \<Rightarrow> string" where
  "small_text 0 e x = positive_text x @ ''e-'' @ num_str e"
| "small_text (Suc fuel) e x =
     (if 1 \<le> x then positive_text x @ ''e-'' @ num_str e else small_text fuel (Suc e) (10 * x))"

definition magnitude_text :: "real \<Rightarrow> string" where
  "magnitude_text x =
     (if x \<ge> 10 ^ 21 then exponent_text (nat \<lfloor>x\<rfloor>)
      else if 0 < x \<and> x < 1 / 10 ^ 6 then small_text 324 0 x
      else positive_text x)"

fun number_text :: "js_num \<Rightarrow> string" where
  "number_text (Num x) = (if x < 0 then ''-'' @ magnitude_text (- x) else magnitude_text x)"
| "number_text n = num_text n"

lemma number_text_nat [simp]: "n < 10 ^ 21 \<Longrightarrow> number_text (Num (real n)) = num_str n"
proof -
  have "0 < n \<Longrightarrow> \<not> real n * 1000000 < 1" by (cases n) auto
  then show "n < 10 ^ 21 \<Longrightarrow> ?thesis" by (auto simp: magnitude_text_def positive_text_def)
qed

text \<open>\<open>String(v)\<close>; an array prints its elements, \<open>null\<close> and \<open>undefined\<close> as nothing.\<close>

fun js_String :: "js_value \<Rightarrow> js_error + string"
  and js_elements :: "js_value list \<Rightarrow> js_error + string list" where
  "js_String J_undefined = Inr ''undefined''"
| "js_String J_null = Inr ''null''"
| "js_String (J_bool b) = Inr (if b then ''true'' else ''false'')"
| "js_String (J_num n) = Inr (number_text n)"
| "js_String (J_str s) = Inr s"
| "js_String (J_arr vs) = bind_result (js_elements vs) (\<lambda>ss. Inr (js_join '','' ss))"
| "js_String (J_obj tag t own proto) = Inr t"
| "js_String (J_uri u) = uri_toString u"
| "js_elements [] = Inr []"
| "js_elements (v # vs) =
     bind_result (if v = J_null \<or> v = J_undefined then Inr [] else js_String v) (\<lambda>s.
       bind_result (js_elements vs) (\<lambda>ss. Inr (s # ss)))"

fun js_ToNumber :: "js_value \<Rightarrow> js_error + js_num" where
  "js_ToNumber J_undefined = Inr NaN"
| "js_ToNumber J_null = Inr (Num 0)"
| "js_ToNumber (J_bool b) = Inr (Num (if b then 1 else 0))"
| "js_ToNumber (J_num n) = Inr n"
| "js_ToNumber v = bind_result (js_String v) (\<lambda>s. Inr (js_Number s))"

text \<open>\<open>parseInt(s, 10)\<close> and \<open>parseFloat(s)\<close> on the text of their argument.\<close>

definition split_sign :: "string \<Rightarrow> bool \<times> string" where
  "split_sign s = (case s of CHR ''-'' # t \<Rightarrow> (True, t) | CHR ''+'' # t \<Rightarrow> (False, t) | _ \<Rightarrow> (False, s))"

definition parse_int10 :: "string \<Rightarrow> js_num" where
  "parse_int10 str =
     (let (neg, s) = split_sign (dropWhile is_space str); d = takeWhile is_digit s in
      if d = [] then NaN else (if neg then num_neg (Num (real (value_in 10 d))) else Num (real (value_in 10 d))))"

definition float_exponent :: "string \<Rightarrow> string" where
  "float_exponent s =
     (case s of
        [] \<Rightarrow> []
      | c # t \<Rightarrow>
          if c \<noteq> CHR ''e'' \<and> c \<noteq> CHR ''E'' then []
          else
            (let (sg, d) = (case t of CHR ''-'' # d \<Rightarrow> (''-'', d) | CHR ''+'' # d \<Rightarrow> (''+'', d) | d \<Rightarrow> ([], d));
                 ds = takeWhile is_digit d
             in if ds = [] then [] else [c] @ sg @ ds))"

text \<open>The longest prefix that is a decimal literal; without one the result is \<open>NaN\<close>.\<close>

definition float_prefix :: "string \<Rightarrow> string" where
  "float_prefix s =
     (let ip = takeWhile is_digit s; r = dropWhile is_digit s;
          fp = (case r of CHR ''.'' # t \<Rightarrow> ''.'' @ takeWhile is_digit t | _ \<Rightarrow> [])
      in ip @ fp @ float_exponent (drop (length fp) r))"

definition parse_float :: "string \<Rightarrow> js_num" where
  "parse_float str =
     (let (neg, s) = split_sign (dropWhile is_space str);
          x = (if starts_with ''Infinity'' s then Infinite True else decimal_literal (float_prefix s))
      in if neg then num_neg x else x)"

text \<open>\<open>===\<close> on numbers.\<close>

definition num_eq :: "js_num \<Rightarrow> js_num \<Rightarrow> bool" where
  "num_eq x y = (x = y \<and> x \<noteq> NaN)"

fun js_truthy :: "js_value \<Rightarrow> bool" where
  "js_truthy J_undefined = False"
| "js_truthy J_null = False"
| "js_truthy (J_bool b) = b"
| "js_truthy (J_num n) = (n \<noteq> NaN \<and> n \<noteq> Num 0)"
| "js_truthy (J_str s) = (s \<noteq> [])"
| "js_truthy v = True"

section \<open>Properties\<close>

text \<open>\<open>v.key\<close>, for keys no primitive value, array or URI has.\<close>

fun js_member :: "js_value \<Rightarrow> string \<Rightarrow> js_error + js_value" where
  "js_member J_undefined k = Inl (TypeError k)"
| "js_member J_null k = Inl (TypeError k)"
| "js_member (J_obj tag t own proto) k =
     Inr (case obj_get own k of Some v \<Rightarrow> v | None \<Rightarrow> (case obj_get proto k of Some v \<Rightarrow> v | None \<Rightarrow> J_undefined))"
| "js_member v k = Inr J_undefined"

text \<open>\<open>Object.prototype.hasOwnProperty.call(v, key)\<close>, for the same keys.\<close>

fun js_hasOwn :: "js_value \<Rightarrow> string \<Rightarrow> js_error + bool" where
  "js_hasOwn J_undefined k = Inl (TypeError k)"
| "js_hasOwn J_null k = Inl (TypeError k)"
| "js_hasOwn (J_obj tag t own proto) k = Inr (obj_has own k)"
| "js_hasOwn v k = Inr False"

section \<open>Type tests\<close>

fun isFunction :: "js_value \<Rightarrow> bool" where
  "isFunction (J_obj tag t own proto) = (tag = ''Function'')"
| "isFunction v = False"

fun isString :: "js_value \<Rightarrow> bool" where
  "isString (J_str s) = True"
| "isString (J_obj tag t own proto) = (tag = ''String'')"
| "isString v = False"

definition isDecimal :: "js_value \<Rightarrow> js_error + bool" where
  "isDecimal num =
     bind_result (js_ToNumber num) (\<lambda>n.
       if n = NaN then Inr False
       else bind_result (js_String num) (\<lambda>s. Inr (num_eq (parse_float s) (parse_int10 s))))"

fun isEmpty :: "js_value \<Rightarrow> bool" where
  "isEmpty J_null = True"
| "isEmpty (J_str s) = (s = [])"
| "isEmpty J_undefined = True"
| "isEmpty (J_arr vs) = (vs = [])"
| "isEmpty (J_num n) = (n = NaN)"
| "isEmpty v = False"

text \<open>\<open>parse_uri\<close> is the generated grammar's rule \<open>SIP_URI\<close>: \<open>None\<close> for \<open>-1\<close>; on what is no string it may throw.\<close>

definition isSocket :: "(js_value \<Rightarrow> js_error + uri option) \<Rightarrow> js_value \<Rightarrow> bool" where
  "isSocket parse_uri socket =
     (case socket of
        J_arr _ \<Rightarrow> False
      | J_undefined \<Rightarrow> False
      | _ \<Rightarrow>
          (case bind_result (js_member socket ''url'') (\<lambda>url.
             if \<not> isString url then Inl (PlainError ''url'')
             else bind_result (js_member socket ''via_transport'') (\<lambda>via.
               if \<not> isString via then Inl (PlainError ''via_transport'')
               else bind_result (js_member socket ''sip_uri'') (\<lambda>su.
                 bind_result (parse_uri su) (\<lambda>p. if p = None then Inl (PlainError ''sip_uri'') else Inr ()))))
           of Inl _ \<Rightarrow> False
            | Inr _ \<Rightarrow>
                list_all (\<lambda>m. case js_member socket m of Inl _ \<Rightarrow> False | Inr f \<Rightarrow> isFunction f)
                  [''connect'', ''disconnect'', ''send'']))"

end
