(* ===== verification/Config.thy ===== *)
theory Config
  imports Js_Value Transport User_Agent
begin

text \<open>
  The module \<open>Config\<close> (lines 8-324 of \<open>frontend/static/js/jssip-3.10.0.js\<close>) and what the user agent
  does with a configuration: \<open>_loadConfig\<close>, \<open>get\<close>, \<open>set\<close>, the text of its contact and the checks
  of the transport's constructor.  A configuration is an object, so a table from names to values
  of the language; \<open>load\<close> writes into it and may stop with an exception in between, so it returns
  both.  The generated grammar is the parameter \<open>config_grammar\<close>.  In \<open>src\<close> the method \<open>hasOwnProperty\<close>
  is the inherited one.
\<close>

type_synonym config = "js_value js_object"

record config_grammar =
  cg_uri :: "js_value \<Rightarrow> js_error + uri option"
  cg_quoted :: "string \<Rightarrow> bool"
  cg_uuid :: "js_value \<Rightarrow> js_error + bool"

datatype config_exn = Config_error string js_value | Thrown js_error

text \<open>The message of a \<open>ConfigurationError\<close> says that the parameter is missing when its value is falsy.\<close>

definition says_missing :: "config_exn \<Rightarrow> bool" where
  "says_missing e = (case e of Config_error p v \<Rightarrow> \<not> js_truthy v | Thrown _ \<Rightarrow> False)"

section \<open>Default settings\<close>

definition default_via_host :: "(nat \<Rightarrow> real) \<Rightarrow> string" where
  "default_via_host rnd = createRandomToken 12 32 rnd @ ''.invalid''"

abbreviation j_nat :: "nat \<Rightarrow> js_value" where
  "j_nat n \<equiv> J_num (Num (real n))"

definition settings :: "(nat \<Rightarrow> real) \<Rightarrow> config" where
  "settings rnd =
     [(''authorization_user'', J_null), (''password'', J_null), (''realm'', J_null), (''ha1'', J_null),
      (''authorization_jwt'', J_null),
      (''display_name'', J_null), (''uri'', J_null), (''contact_uri'', J_null),
      (''instance_id'', J_null),
      (''use_preloaded_route'', J_bool False),
      (''session_timers'', J_bool True), (''session_timers_refresh_method'', J_str ''UPDATE''),
      (''session_timers_force_refresher'', J_bool False), (''no_answer_timeout'', j_nat 60),
      (''register'', J_bool True), (''register_expires'', j_nat 600), (''registrar_server'', J_null),
      (''sockets'', J_null),
      (''connection_recovery_max_interval'', j_nat CONNECTION_RECOVERY_MAX_INTERVAL),
      (''connection_recovery_min_interval'', j_nat CONNECTION_RECOVERY_MIN_INTERVAL),
      (''extra_headers'', J_null),
      (''via_host'', J_str (default_via_host rnd))]"

section \<open>Checks of the mandatory parameters\<close>

text \<open>A check returns \<open>None\<close> for \<open>undefined\<close>, or throws.\<close>

type_synonym check = "js_value \<Rightarrow> js_error + js_value option"

fun check_socket_list :: "config_grammar \<Rightarrow> js_value list \<Rightarrow> js_error + js_value list" where
  "check_socket_list g [] = Inr []"
| "check_socket_list g (socket # rest) =
     bind_result (js_hasOwn socket ''socket'') (\<lambda>own.
       bind_result (if own then js_member socket ''socket'' else Inr J_undefined) (\<lambda>inner.
         bind_result (check_socket_list g rest) (\<lambda>ss.
           Inr (if own \<and> isSocket (cg_uri g) inner then socket # ss
                else if isSocket (cg_uri g) socket then plain_object [(''socket'', socket)] # ss
                else ss))))"

definition check_sockets :: "config_grammar \<Rightarrow> check" where
  "check_sockets g sockets =
     (if isSocket (cg_uri g) sockets then Inr (Some (J_arr [plain_object [(''socket'', sockets)]]))
      else case sockets of
          J_arr (v # vs) \<Rightarrow> bind_result (check_socket_list g (v # vs)) (\<lambda>ss. Inr (Some (J_arr ss)))
        | _ \<Rightarrow> Inr None)"

text \<open>\<open>URI.parse\<close> of the value, with \<open>sip:\<close> before it when it does not begin so.\<close>

definition parse_with_scheme :: "config_grammar \<Rightarrow> js_value \<Rightarrow> js_error + uri option" where
  "parse_with_scheme g v =
     bind_result (js_String v) (\<lambda>s.
       cg_uri g (if starts_with ''sip:'' (to_lower s) then v else J_str (''sip:'' @ s)))"

definition check_uri :: "config_grammar \<Rightarrow> check" where
  "check_uri g v =
     bind_result (parse_with_scheme g v) (\<lambda>p.
       Inr (case p of
          None \<Rightarrow> None
        | Some u \<Rightarrow> if \<not> truthy (uri_user u) then None else Some (J_uri u)))"

section \<open>Checks of the optional parameters\<close>

definition check_authorization_user :: "config_grammar \<Rightarrow> check" where
  "check_authorization_user g v =
     bind_result (js_String v) (\<lambda>s. Inr (if \<not> cg_quoted g (''\"'' @ s @ ''\"'') then None else Some v))"

fun check_authorization_jwt :: check where
  "check_authorization_jwt (J_str s) = Inr (Some (J_str s))"
| "check_authorization_jwt v = Inr None"

fun check_user_agent :: check where
  "check_user_agent (J_str s) = Inr (Some (J_str s))"
| "check_user_agent v = Inr None"

text \<open>The check of the four numbers of seconds, the same code at each.\<close>

definition check_positive :: check where
  "check_positive v =
     bind_result (isDecimal v) (\<lambda>d.
       if d then bind_result (js_ToNumber v) (\<lambda>n. Inr (if num_less (Num 0) n then Some (J_num n) else None))
       else Inr None)"

fun check_contact_uri :: "config_grammar \<Rightarrow> check" where
  "check_contact_uri g (J_str s) = bind_result (cg_uri g (J_str s)) (\<lambda>p. Inr (map_option J_uri p))"
| "check_contact_uri g v = Inr None"

definition check_display_name :: check where
  "check_display_name v = Inr (Some v)"

text \<open>\<open>v.substr(5)\<close>: only strings and string objects have the method.\<close>

fun js_substr5 :: "js_value \<Rightarrow> js_error + js_value" where
  "js_substr5 (J_str s) = Inr (J_str (drop 5 s))"
| "js_substr5 (J_obj tag t own proto) =
     (if tag = ''String'' then Inr (J_str (drop 5 t)) else Inl (TypeError ''substr''))"
| "js_substr5 v = Inl (TypeError ''substr'')"

definition check_instance_id :: "config_grammar \<Rightarrow> check" where
  "check_instance_id g v =
     bind_result (js_String v) (\<lambda>s.
       bind_result (if starts_with ''uuid:'' (to_lower s) then js_substr5 v else Inr v) (\<lambda>i.
         bind_result (cg_uuid g i) (\<lambda>ok. Inr (if \<not> ok then None else Some i))))"

fun check_boolean :: check where
  "check_boolean (J_bool b) = Inr (Some (J_bool b))"
| "check_boolean v = Inr None"

fun check_session_timers_refresh_method :: check where
  "check_session_timers_refresh_method (J_str s) =
     (let m = to_upper s in Inr (if m = ''INVITE'' \<or> m = ''UPDATE'' then Some (J_str m) else None))"
| "check_session_timers_refresh_method v = Inr None"

definition check_text :: check where
  "check_text v = bind_result (js_String v) (\<lambda>s. Inr (Some (J_str s)))"

definition check_registrar_server :: "config_grammar \<Rightarrow> check" where
  "check_registrar_server g v =
     bind_result (parse_with_scheme g v) (\<lambda>p.
       Inr (case p of
          None \<Rightarrow> None
        | Some u \<Rightarrow> if truthy (uri_user u) then None else Some (J_uri u)))"

fun is_j_str :: "js_value \<Rightarrow> bool" where
  "is_j_str (J_str s) = True"
| "is_j_str v = False"

fun check_extra_headers :: check where
  "check_extra_headers (J_arr (v # vs)) = Inr (Some (J_arr (filter is_j_str (v # vs))))"
| "check_extra_headers v = Inr None"

section \<open>Loading\<close>

definition mandatory_checks :: "config_grammar \<Rightarrow> (string \<times> check) list" where
  "mandatory_checks g = [(''sockets'', check_sockets g), (''uri'', check_uri g)]"

definition optional_checks :: "config_grammar \<Rightarrow> (string \<times> check) list" where
  "optional_checks g =
     [(''authorization_user'', check_authorization_user g), (''authorization_jwt'', check_authorization_jwt),
      (''user_agent'', check_user_agent),
      (''connection_recovery_max_interval'', check_positive), (''connection_recovery_min_interval'', check_positive),
      (''contact_uri'', check_contact_uri g), (''display_name'', check_display_name),
      (''instance_id'', check_instance_id g), (''no_answer_timeout'', check_positive),
      (''session_timers'', check_boolean), (''session_timers_refresh_method'', check_session_timers_refresh_method),
      (''session_timers_force_refresher'', check_boolean),
      (''password'', check_text), (''realm'', check_text), (''ha1'', check_text),
      (''register'', check_boolean), (''register_expires'', check_positive),
      (''registrar_server'', check_registrar_server g), (''use_preloaded_route'', check_boolean),
      (''extra_headers'', check_extra_headers)]"

definition store_checked :: "string \<Rightarrow> check \<Rightarrow> js_value \<Rightarrow> config \<Rightarrow> config_exn option \<times> config" where
  "store_checked p chk v dst =
     (case chk v of
        Inl e \<Rightarrow> (Some (Thrown e), dst)
      | Inr None \<Rightarrow> (Some (Config_error p v), dst)
      | Inr (Some w) \<Rightarrow> (None, obj_put p w dst))"

fun load_mandatory :: "(string \<times> check) list \<Rightarrow> js_value \<Rightarrow> config \<Rightarrow> config_exn option \<times> config" where
  "load_mandatory [] src dst = (None, dst)"
| "load_mandatory ((p, chk) # rest) src dst =
     (case js_hasOwn src p of
        Inl e \<Rightarrow> (Some (Thrown e), dst)
      | Inr False \<Rightarrow> (Some (Config_error p J_undefined), dst)
      | Inr True \<Rightarrow>
          (case js_member src p of
             Inl e \<Rightarrow> (Some (Thrown e), dst)
           | Inr v \<Rightarrow>
               (case store_checked p chk v dst of
                  (None, dst) \<Rightarrow> load_mandatory rest src dst
                | stopped \<Rightarrow> stopped)))"

fun load_optional :: "(string \<times> check) list \<Rightarrow> js_value \<Rightarrow> config \<Rightarrow> config_exn option \<times> config" where
  "load_optional [] src dst = (None, dst)"
| "load_optional ((p, chk) # rest) src dst =
     (case js_hasOwn src p of
        Inl e \<Rightarrow> (Some (Thrown e), dst)
      | Inr False \<Rightarrow> load_optional rest src dst
      | Inr True \<Rightarrow>
          (case js_member src p of
             Inl e \<Rightarrow> (Some (Thrown e), dst)
           | Inr v \<Rightarrow>
               if isEmpty v then load_optional rest src dst
               else (case store_checked p chk v dst of
                  (None, dst) \<Rightarrow> load_optional rest src dst
                | stopped \<Rightarrow> stopped)))"

definition load_config :: "config_grammar \<Rightarrow> js_value \<Rightarrow> config \<Rightarrow> config_exn option \<times> config" where
  "load_config g src dst =
     (case load_mandatory (mandatory_checks g) src dst of
        (None, dst) \<Rightarrow> load_optional (optional_checks g) src dst
      | stopped \<Rightarrow> stopped)"

section \<open>The transport's constructor\<close>

text \<open>
  The checks of \<open>new Transport(sockets, ...)\<close>: the entries it keeps, each a socket and its weight, as
  given.  \<open>_getSocket\<close> calls itself without end when there is no entry, which the language stops with an
  exception.
\<close>

fun transport_entries :: "config_grammar \<Rightarrow> js_value list \<Rightarrow> js_error + (js_value \<times> js_value) list" where
  "transport_entries g [] = Inr []"
| "transport_entries g (s # rest) =
     bind_result (js_member s ''socket'') (\<lambda>inner.
       if \<not> isSocket (cg_uri g) inner then Inl (TypeError ''Invalid argument. invalid JsSIP.Socket instance'')
       else bind_result (js_member s ''weight'') (\<lambda>w.
         bind_result (if js_truthy w then bind_result (js_ToNumber w) (\<lambda>n. Inr (n = NaN \<or> n = Num 0)) else Inr False)
           (\<lambda>bad.
             if bad then Inl (TypeError ''Invalid argument. weight attribute is not a number'')
             else bind_result (transport_entries g rest) (\<lambda>es.
               Inr ((inner, if js_truthy w then w else j_nat 0) # es)))))"

definition construct_transport :: "config_grammar \<Rightarrow> js_value \<Rightarrow> js_error + (js_value \<times> js_value) list" where
  "construct_transport g sockets =
     (if sockets = J_undefined then Inl (TypeError ''Invalid argument. undefined sockets argument'')
      else
        bind_result (transport_entries g (case sockets of J_arr vs \<Rightarrow> vs | v \<Rightarrow> [v])) (\<lambda>es.
          if es = [] then Inl RangeError else Inr es))"

section \<open>\<open>_loadConfig\<close>\<close>

record contact =
  ct_pub_gruu :: "string option"
  ct_temp_gruu :: "string option"
  ct_uri :: uri

record configured =
  cf_config :: config
  cf_contact :: contact
  cf_sockets :: "(js_value \<times> js_value) list"

text \<open>The draws of \<open>Math.random()\<close>, one sequence for each random value.\<close>

record config_draws =
  cd_via_host :: "nat \<Rightarrow> real"
  cd_uuid :: "nat \<Rightarrow> real"
  cd_jssip_id :: "nat \<Rightarrow> real"
  cd_contact :: "nat \<Rightarrow> real"

definition cfg_value :: "config \<Rightarrow> string \<Rightarrow> js_value" where
  "cfg_value c p = (case obj_get c p of None \<Rightarrow> J_undefined | Some v \<Rightarrow> v)"

fun num_thousand :: "js_num \<Rightarrow> js_num" where
  "num_thousand (Num x) = Num (x * 1000)"
| "num_thousand n = n"

definition strip_sip :: "string \<Rightarrow> string" where
  "strip_sip s = (if starts_with ''sip:'' (to_lower s) then drop 4 s else s)"

fun as_uri :: "js_value \<Rightarrow> js_error + uri" where
  "as_uri (J_uri u) = Inr u"
| "as_uri v = Inl (TypeError ''clone'')"

text \<open>What comes before the transport: defaults that need no other parameter, and \<open>hostport_params\<close>.\<close>

definition config_identity :: "config_draws \<Rightarrow> config \<Rightarrow> js_error + config" where
  "config_identity d c =
     (let c = (if cfg_value c ''display_name'' = J_num (Num 0) then obj_put ''display_name'' (J_str ''0'') c else c);
          c = (if \<not> js_truthy (cfg_value c ''instance_id'')
               then obj_put ''instance_id'' (J_str (newUUID (cd_uuid d))) c else c);
          c = obj_put ''jssip_id'' (J_str (createRandomToken 5 32 (cd_jssip_id d))) c
      in bind_result (as_uri (cfg_value c ''uri'')) (\<lambda>u.
           bind_result (uri_clone u) (\<lambda>h.
             bind_result (uri_toString (uri_set_user None h)) (\<lambda>s.
               Inr (obj_put ''hostport_params'' (J_str (strip_sip s)) c)))))"

text \<open>The account's credentials user and registrar, when they are not given.\<close>

definition config_account :: "config \<Rightarrow> js_error + config" where
  "config_account c =
     bind_result (as_uri (cfg_value c ''uri'')) (\<lambda>u.
       let c = (if \<not> js_truthy (cfg_value c ''authorization_user'')
                then obj_put ''authorization_user'' (case uri_user u of None \<Rightarrow> J_null | Some s \<Rightarrow> J_str s) c else c)
       in if js_truthy (cfg_value c ''registrar_server'') then Inr c
          else bind_result (uri_clone u) (\<lambda>r.
            Inr (obj_put ''registrar_server'' (J_uri (uri_clearHeaders (uri_clearParams (uri_set_user None r)))) c)))"

text \<open>The time in milliseconds, the host of the Via headers and the contact address.\<close>

definition config_contact :: "config_draws \<Rightarrow> config \<Rightarrow> js_error + config" where
  "config_contact d c =
     bind_result (js_ToNumber (cfg_value c ''no_answer_timeout'')) (\<lambda>n.
       let c = obj_put ''no_answer_timeout'' (J_num (num_thousand n)) c in
       if js_truthy (cfg_value c ''contact_uri'')
       then bind_result (as_uri (cfg_value c ''contact_uri'')) (\<lambda>u. Inr (obj_put ''via_host'' (J_str (uri_host u)) c))
       else
         bind_result (js_String (cfg_value c ''via_host'')) (\<lambda>host.
           bind_result (new_uri ''sip'' (Some (createRandomToken 8 32 (cd_contact d))) host None
               [(''transport'', Some ''ws'')] []) (\<lambda>u.
             Inr (obj_put ''contact_uri'' (J_uri u) c))))"

text \<open>\<open>case r of Inl e \<Rightarrow> throw\<close>.\<close>

definition rethrow :: "js_error + 'a \<Rightarrow> config_exn + 'a" where
  "rethrow r = (case r of Inl e \<Rightarrow> Inl (Thrown e) | Inr a \<Rightarrow> Inr a)"

definition loadConfig :: "config_grammar \<Rightarrow> config_draws \<Rightarrow> js_value \<Rightarrow> config \<Rightarrow> config_exn + configured" where
  "loadConfig g d src cfg =
     (case load_config g src cfg of
        (Some e, _) \<Rightarrow> Inl e
      | (None, c) \<Rightarrow>
          bind_result (rethrow (config_identity d c)) (\<lambda>c.
            case construct_transport g (cfg_value c ''sockets'') of
              Inl _ \<Rightarrow> Inl (Config_error ''sockets'' (cfg_value c ''sockets''))
            | Inr es \<Rightarrow>
                bind_result (rethrow (config_account (obj_del ''sockets'' c))) (\<lambda>c.
                  bind_result (rethrow (config_contact d c)) (\<lambda>c.
                    bind_result (rethrow (as_uri (cfg_value c ''contact_uri''))) (\<lambda>u.
                      Inr \<lparr>cf_config = c, cf_contact = \<lparr>ct_pub_gruu = None, ct_temp_gruu = None, ct_uri = u\<rparr>,
                           cf_sockets = es\<rparr>)))))"

text \<open>The part of the constructor of \<open>UA\<close> that loads the configuration (the tables it starts with are \<open>new_ua\<close>).\<close>

definition construct_agent :: "config_grammar \<Rightarrow> config_draws \<Rightarrow> js_value \<Rightarrow> config_exn + configured" where
  "construct_agent g d configuration =
     (if configuration = J_undefined then Inl (Thrown (TypeError ''Not enough arguments''))
      else loadConfig g d configuration (settings (cd_via_host d)))"

section \<open>Reading and changing the configuration later\<close>

definition writable_parameters :: "string list" where
  "writable_parameters =
     [''authorization_user'', ''password'', ''realm'', ''ha1'', ''authorization_jwt'', ''display_name'', ''register'']"

definition ua_get :: "string \<Rightarrow> config \<Rightarrow> js_value" where
  "ua_get parameter c =
     (if parameter = ''authorization_user'' then cfg_value c ''authorization_user''
      else if parameter = ''realm'' then cfg_value c ''realm''
      else if parameter = ''ha1'' then cfg_value c ''ha1''
      else if parameter = ''authorization_jwt'' then cfg_value c ''authorization_jwt''
      else J_undefined)"

definition set_text :: "string \<Rightarrow> js_value \<Rightarrow> config \<Rightarrow> js_error + config" where
  "set_text p v c = bind_result (js_String v) (\<lambda>s. Inr (obj_put p (J_str s) c))"

definition ua_set :: "string \<Rightarrow> js_value \<Rightarrow> config \<Rightarrow> js_error + bool \<times> config" where
  "ua_set parameter v c =
     (if parameter = ''authorization_user'' then bind_result (set_text ''authorization_user'' v c) (\<lambda>c. Inr (True, c))
      else if parameter = ''password'' then bind_result (set_text ''password'' v c) (\<lambda>c. Inr (True, c))
      else if parameter = ''realm'' then bind_result (set_text ''realm'' v c) (\<lambda>c. Inr (True, c))
      else if parameter = ''ha1'' then
        bind_result (set_text ''ha1'' v c) (\<lambda>c. Inr (True, obj_put ''password'' J_null c))
      else if parameter = ''authorization_jwt'' then
        bind_result (set_text ''authorization_jwt'' v c) (\<lambda>c. Inr (True, c))
      else if parameter = ''display_name'' then Inr (True, obj_put ''display_name'' v c)
      else Inr (False, c))"

definition ua_normalizeTarget :: "(string \<Rightarrow> uri option) \<Rightarrow> string \<Rightarrow> config \<Rightarrow> js_error + uri option" where
  "ua_normalizeTarget parse target c =
     bind_result (js_String (cfg_value c ''hostport_params'')) (\<lambda>domain. normalizeTarget parse target domain)"

definition contact_toString :: "bool \<Rightarrow> bool \<Rightarrow> contact \<Rightarrow> js_error + string" where
  "contact_toString anonymous outbound c =
     bind_result
       (if anonymous
        then Inr (if truthy (ct_temp_gruu c) then the (ct_temp_gruu c)
                  else ''sip:anonymous@anonymous.invalid;transport=ws'')
        else if truthy (ct_pub_gruu c) then Inr (the (ct_pub_gruu c)) else uri_toString (ct_uri c)) (\<lambda>a.
       Inr (''<'' @ a
         @ (if outbound \<and> (if anonymous then \<not> truthy (ct_temp_gruu c) else \<not> truthy (ct_pub_gruu c))
            then '';ob'' else [])
         @ ''>''))"

section \<open>What a configuration holds\<close>

text \<open>The values a parameter may have once it is in the configuration.\<close>

fun null_or :: "(js_value \<Rightarrow> bool) \<Rightarrow> js_value \<Rightarrow> bool" where
  "null_or T J_null = True"
| "null_or T v = T v"

fun is_boolean :: "js_value \<Rightarrow> bool" where
  "is_boolean (J_bool b) = True"
| "is_boolean v = False"

fun is_positive :: "js_value \<Rightarrow> bool" where
  "is_positive (J_num n) = num_less (Num 0) n"
| "is_positive v = False"

fun is_uri_with :: "(uri \<Rightarrow> bool) \<Rightarrow> js_value \<Rightarrow> bool" where
  "is_uri_with P (J_uri u) = P u"
| "is_uri_with P v = False"

fun is_list_of :: "(js_value \<Rightarrow> bool) \<Rightarrow> js_value \<Rightarrow> bool" where
  "is_list_of P (J_arr vs) = list_all P vs"
| "is_list_of P v = False"

definition holds_socket :: "config_grammar \<Rightarrow> js_value \<Rightarrow> bool" where
  "holds_socket g v = (case js_member v ''socket'' of Inl _ \<Rightarrow> False | Inr s \<Rightarrow> isSocket (cg_uri g) s)"

definition refresh_methods :: "js_value list" where
  "refresh_methods = [J_str ''INVITE'', J_str ''UPDATE'']"

definition config_types :: "config_grammar \<Rightarrow> (string \<times> (js_value \<Rightarrow> bool)) list" where
  "config_types g =
     [(''sockets'', \<lambda>v. v = J_undefined \<or> null_or (is_list_of (holds_socket g)) v),
      (''uri'', null_or (is_uri_with (\<lambda>u. truthy (uri_user u)))),
      (''authorization_jwt'', null_or is_j_str),
      (''connection_recovery_max_interval'', is_positive), (''connection_recovery_min_interval'', is_positive),
      (''contact_uri'', null_or (is_uri_with (\<lambda>_. True))),
      (''no_answer_timeout'', is_positive),
      (''session_timers'', is_boolean), (''session_timers_refresh_method'', \<lambda>v. v \<in> set refresh_methods),
      (''session_timers_force_refresher'', is_boolean),
      (''password'', null_or is_j_str), (''realm'', null_or is_j_str), (''ha1'', null_or is_j_str),
      (''register'', is_boolean), (''register_expires'', is_positive),
      (''registrar_server'', null_or (is_uri_with (\<lambda>u. \<not> truthy (uri_user u)))),
      (''use_preloaded_route'', is_boolean),
      (''extra_headers'', null_or (is_list_of is_j_str)),
      (''via_host'', is_j_str)]"

definition config_typed :: "config_grammar \<Rightarrow> config \<Rightarrow> bool" where
  "config_typed g c = list_all (\<lambda>(p, T). T (cfg_value c p)) (config_types g)"

lemma cfg_value_put [simp]: "cfg_value (obj_put k v c) p = (if p = k then v else cfg_value c p)"
  by (simp add: cfg_value_def)

lemma cfg_value_del [simp]: "cfg_value (obj_del k c) p = (if p = k then J_undefined else cfg_value c p)"
  by (simp add: cfg_value_def)

lemma bind_result_Inr_iff: "bind_result r f = Inr y \<longleftrightarrow> (\<exists>x. r = Inr x \<and> f x = Inr y)"
  by (cases r) auto

text \<open>A check only lets through values its parameter may have.\<close>

definition check_sound :: "config_grammar \<Rightarrow> string \<times> check \<Rightarrow> bool" where
  "check_sound g = (\<lambda>(p, chk). \<forall>T v w. map_of (config_types g) p = Some T \<longrightarrow> chk v = Inr (Some w) \<longrightarrow> T w)"

lemma check_positive_sound: "check_positive v = Inr (Some w) \<Longrightarrow> is_positive w"
  by (auto simp: check_positive_def bind_result_Inr_iff split: if_splits)

lemma check_text_sound: "check_text v = Inr (Some w) \<Longrightarrow> null_or is_j_str w"
  by (auto simp: check_text_def bind_result_Inr_iff)

lemma check_boolean_sound: "check_boolean v = Inr (Some w) \<Longrightarrow> is_boolean w"
  by (cases v) auto

lemma check_jwt_sound: "check_authorization_jwt v = Inr (Some w) \<Longrightarrow> null_or is_j_str w"
  by (cases v) auto

lemma check_method_sound: "check_session_timers_refresh_method v = Inr (Some w) \<Longrightarrow> w \<in> set refresh_methods"
  by (cases v) (auto simp: refresh_methods_def Let_def split: if_splits)

lemma check_contact_sound: "check_contact_uri g v = Inr (Some w) \<Longrightarrow> null_or (is_uri_with (\<lambda>_. True)) w"
  by (cases v) (auto simp: bind_result_Inr_iff)

lemma check_registrar_sound:
  "check_registrar_server g v = Inr (Some w) \<Longrightarrow> null_or (is_uri_with (\<lambda>u. \<not> truthy (uri_user u))) w"
  by (auto simp: check_registrar_server_def bind_result_Inr_iff split: option.splits if_splits)

lemma check_uri_sound: "check_uri g v = Inr (Some w) \<Longrightarrow> null_or (is_uri_with (\<lambda>u. truthy (uri_user u))) w"
  by (auto simp: check_uri_def bind_result_Inr_iff split: option.splits if_splits)

lemma check_headers_sound: "check_extra_headers v = Inr (Some w) \<Longrightarrow> null_or (is_list_of is_j_str) w"
  by (induction v rule: check_extra_headers.induct) (auto simp: list_all_iff)

lemma isSocket_not_null: "isSocket p J_null = False" "isSocket p J_undefined = False" "isSocket p (J_arr vs) = False"
  by (simp_all add: isSocket_def)

lemma holds_own: "js_member v ''socket'' = Inr i \<Longrightarrow> isSocket (cg_uri g) i \<Longrightarrow> holds_socket g v"
  by (simp add: holds_socket_def)

lemma holds_plain: "isSocket (cg_uri g) v \<Longrightarrow> holds_socket g (plain_object [(''socket'', v)])"
  by (simp add: holds_socket_def)

lemma check_socket_list_sound: "check_socket_list g vs = Inr ss \<Longrightarrow> list_all (holds_socket g) ss"
proof (induction vs arbitrary: ss)
  case (Cons v vs)
  then obtain own i rest where own: "js_hasOwn v ''socket'' = Inr own"
    and i: "(if own then js_member v ''socket'' else Inr J_undefined) = Inr i"
    and rest: "check_socket_list g vs = Inr rest"
    and ss: "ss = (if own \<and> isSocket (cg_uri g) i then v # rest
      else if isSocket (cg_uri g) v then plain_object [(''socket'', v)] # rest else rest)"
    by (simp only: check_socket_list.simps bind_result_Inr_iff) blast
  have tl: "list_all (holds_socket g) rest" using Cons.IH [OF rest] .
  consider "own" "isSocket (cg_uri g) i" | "\<not> (own \<and> isSocket (cg_uri g) i)" "isSocket (cg_uri g) v"
    | "\<not> (own \<and> isSocket (cg_uri g) i)" "\<not> isSocket (cg_uri g) v" by blast
  then show ?case
  proof cases
    case 1
    with i have "js_member v ''socket'' = Inr i" by simp
    from holds_own [OF this 1(2)] 1 ss tl show ?thesis by simp
  next
    case 2
    from holds_plain [OF 2(2)] 2 ss tl show ?thesis by (simp only: if_True if_False list.pred_inject)
  next
    case 3
    from 3 tl show ?thesis unfolding ss by (simp only: if_False)
  qed
qed simp

lemma check_sockets_sound:
  assumes "check_sockets g v = Inr (Some w)"
  shows "null_or (is_list_of (holds_socket g)) w"
proof (cases "isSocket (cg_uri g) v")
  case True
  with assms holds_plain [OF True] show ?thesis by (auto simp: check_sockets_def)
next
  case False
  with assms obtain x xs ss where "v = J_arr (x # xs)" "check_socket_list g (x # xs) = Inr ss" "w = J_arr ss"
    by (auto simp: check_sockets_def bind_result_Inr_iff simp del: check_socket_list.simps split: js_value.splits list.splits)
  with check_socket_list_sound [OF this(2)] show ?thesis by (simp del: check_socket_list.simps)
qed

lemmas checks_sound = check_positive_sound check_text_sound check_boolean_sound check_jwt_sound check_method_sound
  check_contact_sound check_registrar_sound check_uri_sound check_headers_sound check_sockets_sound

lemma mandatory_sound: "list_all (check_sound g) (mandatory_checks g)"
  unfolding mandatory_checks_def list.pred_inject(2) list.pred_inject(1) check_sound_def config_types_def
  by (intro conjI TrueI) (simp_all add: checks_sound)

lemma optional_sound: "list_all (check_sound g) (optional_checks g)"
  unfolding optional_checks_def list.pred_inject(2) list.pred_inject(1) check_sound_def config_types_def
  by (intro conjI TrueI) (simp_all add: checks_sound)

lemma types_distinct: "distinct (map fst (config_types g))"
  by (simp add: config_types_def)

lemma config_typed_iff: "config_typed g c \<longleftrightarrow> (\<forall>p T. map_of (config_types g) p = Some T \<longrightarrow> T (cfg_value c p))"
  by (auto simp only: config_typed_def list_all_iff map_of_eq_Some_iff [OF types_distinct] split: prod.split)

lemma config_typed_put:
  assumes "config_typed g c" and "\<And>T. map_of (config_types g) p = Some T \<Longrightarrow> T v"
  shows "config_typed g (obj_put p v c)"
  unfolding config_typed_iff cfg_value_put
proof (intro allI impI)
  fix q T assume "map_of (config_types g) q = Some T"
  with assms show "T (if q = p then v else cfg_value c q)"
    unfolding config_typed_iff by (metis (mono_tags, lifting))
qed

lemma store_checked_typed:
  "store_checked p chk v c = (e, c') \<Longrightarrow> config_typed g c \<Longrightarrow> check_sound g (p, chk) \<Longrightarrow> config_typed g c'"
  by (auto simp: store_checked_def check_sound_def intro: config_typed_put split: sum.splits option.splits)

lemma load_mandatory_typed:
  "config_typed g c \<Longrightarrow> list_all (check_sound g) chks \<Longrightarrow> config_typed g (snd (load_mandatory chks src c))"
proof (induction chks arbitrary: c)
  case (Cons x chks)
  then show ?case
    by (cases x) (auto split: sum.split bool.split prod.split option.split dest: store_checked_typed)
qed simp

lemma load_optional_typed:
  "config_typed g c \<Longrightarrow> list_all (check_sound g) chks \<Longrightarrow> config_typed g (snd (load_optional chks src c))"
proof (induction chks arbitrary: c)
  case (Cons x chks)
  then show ?case
    by (cases x) (auto split: sum.split bool.split prod.split option.split dest: store_checked_typed)
qed simp

lemma load_config_typed: "config_typed g c \<Longrightarrow> config_typed g (snd (load_config g src c))"
  using load_mandatory_typed [OF _ mandatory_sound] load_optional_typed [OF _ optional_sound]
  by (auto simp: load_config_def split: prod.split option.split) (metis snd_conv)+

lemma settings_typed: "config_typed g (settings rnd)"
  unfolding config_typed_def config_types_def list.pred_inject prod.case
  by (simp add: settings_def cfg_value_def refresh_methods_def CONNECTION_RECOVERY_MAX_INTERVAL_def
      CONNECTION_RECOVERY_MIN_INTERVAL_def)

text \<open>The steps of \<open>_loadConfig\<close> after the load, and \<open>set\<close>.\<close>

lemmas config_lookup = config_types_def

lemma config_typed_value: "config_typed g c \<Longrightarrow> map_of (config_types g) p = Some T \<Longrightarrow> T (cfg_value c p)"
  unfolding config_typed_iff by metis

lemma config_typed_untyped:
  "config_typed g c \<Longrightarrow> map_of (config_types g) p = None \<Longrightarrow> config_typed g (obj_put p v c)"
  by (rule config_typed_put) simp_all

lemma typed_sockets_gone: "config_typed g c \<Longrightarrow> config_typed g (obj_del ''sockets'' c)"
  unfolding config_typed_iff cfg_value_del
proof (intro allI impI)
  fix p T
  assume a: "\<forall>p T. map_of (config_types g) p = Some T \<longrightarrow> T (cfg_value c p)" and p: "map_of (config_types g) p = Some T"
  show "T (if p = ''sockets'' then J_undefined else cfg_value c p)"
  proof (cases "p = ''sockets''")
    case True
    then have "T = (\<lambda>v. v = J_undefined \<or> null_or (is_list_of (holds_socket g)) v)"
      using p by (simp add: config_types_def)
    with True show ?thesis by simp
  next
    case False
    from a p have "T (cfg_value c p)" by metis
    with False show ?thesis by simp
  qed
qed

lemma config_identity_typed: "config_typed g c \<Longrightarrow> config_identity d c = Inr c' \<Longrightarrow> config_typed g c'"
  unfolding config_identity_def Let_def bind_result_Inr_iff
  by (auto intro!: config_typed_untyped simp: config_types_def)

lemma config_account_typed:
  assumes "config_typed g c" "config_account c = Inr c'"
  shows "config_typed g c'"
proof -
  have u: "config_typed g (obj_put ''authorization_user'' v c)" for v
    using assms(1) by (rule config_typed_untyped) (simp add: config_types_def)
  have r: "config_typed g (obj_put ''registrar_server'' (J_uri (uri_clearHeaders (uri_clearParams (uri_set_user None r)))) k)"
    if "config_typed g k" for r k
    using that by (rule config_typed_put)
      (auto simp: config_types_def uri_clearHeaders_def uri_clearParams_def uri_set_user_def truthy_def)
  show ?thesis
    using assms(2) u r assms(1) unfolding config_account_def Let_def bind_result_Inr_iff
    by (auto simp: bind_result_Inr_iff split: if_splits)
qed

lemma positive_thousand: "is_positive (J_num n) \<Longrightarrow> is_positive (J_num (num_thousand n))"
  by (cases n) auto

lemma config_contact_typed:
  assumes "config_typed g c" "config_contact d c = Inr c'"
  shows "config_typed g c'"
proof -
  from config_typed_value [OF assms(1), of "''no_answer_timeout''" is_positive]
  obtain n where n: "cfg_value c ''no_answer_timeout'' = J_num n" "is_positive (J_num n)"
    by (cases "cfg_value c ''no_answer_timeout''") (auto simp: config_types_def)
  let ?c = "obj_put ''no_answer_timeout'' (J_num (num_thousand n)) c"
  have t: "config_typed g ?c"
    using assms(1) by (rule config_typed_put) (use positive_thousand [OF n(2)] in \<open>auto simp: config_types_def\<close>)
  have v: "config_typed g (obj_put ''via_host'' (J_str s) ?c)" for s
    using t by (rule config_typed_put) (auto simp: config_types_def)
  have k: "config_typed g (obj_put ''contact_uri'' (J_uri u) ?c)" for u
    using t by (rule config_typed_put) (auto simp: config_types_def)
  show ?thesis
    using assms(2) v k unfolding config_contact_def n(1) js_ToNumber.simps Let_def
    by (auto simp: bind_result_Inr_iff split: if_splits)
qed

lemma rethrow_Inr: "rethrow r = Inr x \<longleftrightarrow> r = Inr x"
  by (cases r) (simp_all add: rethrow_def)

text \<open>The stages of a configuration that was accepted.\<close>

lemma loadConfig_stages:
  assumes "loadConfig g d src c = Inr r"
  obtains c1 c2 es c3 c4 u where
    "load_config g src c = (None, c1)" "config_identity d c1 = Inr c2"
    "construct_transport g (cfg_value c2 ''sockets'') = Inr es"
    "config_account (obj_del ''sockets'' c2) = Inr c3" "config_contact d c3 = Inr c4"
    "cfg_value c4 ''contact_uri'' = J_uri u"
    "r = \<lparr>cf_config = c4, cf_contact = \<lparr>ct_pub_gruu = None, ct_temp_gruu = None, ct_uri = u\<rparr>, cf_sockets = es\<rparr>"
proof -
  have uri: "as_uri v = Inr x \<longleftrightarrow> v = J_uri x" for v x by (cases v) auto
  obtain e c1 where l: "load_config g src c = (e, c1)" by (cases "load_config g src c")
  with assms have e: "e = None" by (cases e) (auto simp: loadConfig_def)
  with assms l obtain c2 where c2: "config_identity d c1 = Inr c2"
    by (auto simp: loadConfig_def bind_result_Inr_iff rethrow_Inr)
  with assms l e obtain es where es: "construct_transport g (cfg_value c2 ''sockets'') = Inr es"
    by (cases "construct_transport g (cfg_value c2 ''sockets'')")
      (auto simp: loadConfig_def bind_result_Inr_iff rethrow_Inr)
  from assms l e c2 es obtain c3 c4 u where "config_account (obj_del ''sockets'' c2) = Inr c3"
    "config_contact d c3 = Inr c4" "cfg_value c4 ''contact_uri'' = J_uri u"
    "r = \<lparr>cf_config = c4, cf_contact = \<lparr>ct_pub_gruu = None, ct_temp_gruu = None, ct_uri = u\<rparr>, cf_sockets = es\<rparr>"
    by (auto simp: loadConfig_def bind_result_Inr_iff rethrow_Inr uri)
  with l e c2 es that show thesis by blast
qed

lemma loadConfig_typed:
  assumes "config_typed g c" "loadConfig g d src c = Inr r"
  shows "config_typed g (cf_config r)"
  using assms(2)
proof (rule loadConfig_stages)
  fix c1 c2 es c3 c4 u
  assume l: "load_config g src c = (None, c1)" and c2: "config_identity d c1 = Inr c2"
    and c3: "config_account (obj_del ''sockets'' c2) = Inr c3" and c4: "config_contact d c3 = Inr c4"
    and r: "r = \<lparr>cf_config = c4, cf_contact = \<lparr>ct_pub_gruu = None, ct_temp_gruu = None, ct_uri = u\<rparr>, cf_sockets = es\<rparr>"
  from load_config_typed [OF assms(1), of src] have "config_typed g c1" by (simp add: l)
  from config_contact_typed [OF config_account_typed [OF typed_sockets_gone [OF config_identity_typed [OF this c2]] c3] c4]
  show ?thesis by (simp add: r)
qed

lemma ua_set_typed:
  assumes "config_typed g c" "ua_set p v c = Inr (b, c')"
  shows "config_typed g c'"
proof -
  have s: "config_typed g (obj_put q (J_str s) k)"
    if "q \<in> {''authorization_user'', ''password'', ''realm'', ''ha1'', ''authorization_jwt''}" "config_typed g k" for q s k
    using that(2) by (rule config_typed_put) (use that(1) in \<open>auto simp: config_types_def\<close>)
  have n: "config_typed g (obj_put ''password'' J_null k)" if "config_typed g k" for k
    using that by (rule config_typed_put) (auto simp: config_types_def)
  have d: "config_typed g (obj_put ''display_name'' v k)" if "config_typed g k" for k
    using that by (rule config_typed_untyped) (simp add: config_types_def)
  show ?thesis
    using assms s n d unfolding ua_set_def set_text_def
    by (auto simp: bind_result_Inr_iff simp del: list.inject split: if_split_asm)
qed

section \<open>Which configurations are accepted\<close>

text \<open>The value given for a parameter, and what its check makes of it when it accepts it.\<close>

definition supplied :: "js_value \<Rightarrow> string \<Rightarrow> js_value option" where
  "supplied src p =
     (if js_hasOwn src p = Inr True then (case js_member src p of Inl _ \<Rightarrow> None | Inr v \<Rightarrow> Some v) else None)"

definition checked :: "check \<Rightarrow> js_value \<Rightarrow> js_value option" where
  "checked chk v = (case chk v of Inl _ \<Rightarrow> None | Inr w \<Rightarrow> w)"

definition acceptable :: "config_grammar \<Rightarrow> js_value \<Rightarrow> bool" where
  "acceptable g src \<longleftrightarrow>
     list_all (\<lambda>(p, chk). case supplied src p of None \<Rightarrow> False | Some v \<Rightarrow> checked chk v \<noteq> None) (mandatory_checks g)
     \<and> list_all (\<lambda>(p, chk). case supplied src p of None \<Rightarrow> True | Some v \<Rightarrow> isEmpty v \<or> checked chk v \<noteq> None)
         (optional_checks g)"

text \<open>The value of a parameter after the load; \<open>old\<close> is the one before.\<close>

definition loaded_value :: "config_grammar \<Rightarrow> js_value \<Rightarrow> js_value option \<Rightarrow> string \<Rightarrow> js_value option" where
  "loaded_value g src old p =
     (case map_of (mandatory_checks g @ optional_checks g) p of
        None \<Rightarrow> old
      | Some chk \<Rightarrow>
          (case supplied src p of
             None \<Rightarrow> old
           | Some v \<Rightarrow> if isEmpty v \<and> p \<notin> fst ` set (mandatory_checks g) then old else checked chk v))"

fun is_object :: "js_value \<Rightarrow> bool" where
  "is_object (J_obj tag t own proto) = True"
| "is_object v = False"

lemma supplied_object: "supplied src p = Some v \<Longrightarrow> is_object src"
  by (cases src) (auto simp: supplied_def)

lemma object_own:
  "is_object src \<Longrightarrow> (case supplied src p of
      None \<Rightarrow> js_hasOwn src p = Inr False
    | Some v \<Rightarrow> js_hasOwn src p = Inr True \<and> js_member src p = Inr v)"
  by (cases src) (auto simp: supplied_def)

lemma store_checked_cases:
  "store_checked p chk v dst =
     (case checked chk v of
        Some w \<Rightarrow> (None, obj_put p w dst)
      | None \<Rightarrow> (Some (case chk v of Inl e \<Rightarrow> Thrown e | Inr _ \<Rightarrow> Config_error p v), dst))"
  by (auto simp: store_checked_def checked_def split: sum.split option.split)

lemma load_mandatory_step:
  "load_mandatory ((p, chk) # rest) src dst =
     (case supplied src p of
        None \<Rightarrow> (Some (case js_hasOwn src p of Inl e \<Rightarrow> Thrown e | Inr _ \<Rightarrow> Config_error p J_undefined), dst)
      | Some v \<Rightarrow> (case store_checked p chk v dst of (None, dst) \<Rightarrow> load_mandatory rest src dst | stopped \<Rightarrow> stopped))"
  by (cases src) (auto simp: supplied_def split: option.split bool.split)

lemma load_optional_step:
  assumes "is_object src"
  shows "load_optional ((p, chk) # rest) src dst =
     (case supplied src p of
        None \<Rightarrow> load_optional rest src dst
      | Some v \<Rightarrow>
          if isEmpty v then load_optional rest src dst
          else (case store_checked p chk v dst of (None, dst) \<Rightarrow> load_optional rest src dst | stopped \<Rightarrow> stopped))"
  using object_own [OF assms, of p] by (auto split: option.splits)

lemma load_mandatory_accepts:
  "fst (load_mandatory chks src dst) = None \<longleftrightarrow>
     list_all (\<lambda>(p, chk). case supplied src p of None \<Rightarrow> False | Some v \<Rightarrow> checked chk v \<noteq> None) chks"
proof (induction chks arbitrary: dst)
  case (Cons x chks)
  obtain p chk where x: "x = (p, chk)" by (cases x)
  show ?case
    unfolding x load_mandatory_step store_checked_cases
    by (cases "supplied src p"; cases "checked chk (the (supplied src p))") (simp_all add: Cons.IH)
qed simp

lemma load_optional_accepts:
  "is_object src \<Longrightarrow> fst (load_optional chks src dst) = None \<longleftrightarrow>
     list_all (\<lambda>(p, chk). case supplied src p of None \<Rightarrow> True | Some v \<Rightarrow> isEmpty v \<or> checked chk v \<noteq> None) chks"
proof (induction chks arbitrary: dst)
  case (Cons x chks)
  obtain p chk where x: "x = (p, chk)" by (cases x)
  show ?case
    unfolding x load_optional_step [OF Cons.prems] store_checked_cases
    by (cases "supplied src p"; cases "checked chk (the (supplied src p))") (simp_all add: Cons.IH Cons.prems)
qed simp

lemma load_mandatory_value:
  "load_mandatory chks src dst = (None, c) \<Longrightarrow> distinct (map fst chks) \<Longrightarrow>
     obj_get c k = (case map_of chks k of
        None \<Rightarrow> obj_get dst k
      | Some chk \<Rightarrow> (case supplied src k of None \<Rightarrow> None | Some v \<Rightarrow> checked chk v))"
proof (induction chks arbitrary: dst)
  case (Cons x chks)
  obtain p chk where x: "x = (p, chk)" by (cases x)
  from Cons.prems(1) obtain v w where v: "supplied src p = Some v" and w: "checked chk v = Some w"
    and l: "load_mandatory chks src (obj_put p w dst) = (None, c)"
    unfolding x load_mandatory_step store_checked_cases by (auto split: option.splits)
  from Cons.prems(2) have "map_of chks p = None" by (auto simp: x map_of_eq_None_iff)
  with Cons.IH [OF l] Cons.prems(2) v w show ?case by (auto simp: x split: option.splits)
qed simp

lemma load_optional_value:
  "load_optional chks src dst = (None, c) \<Longrightarrow> is_object src \<Longrightarrow> distinct (map fst chks) \<Longrightarrow>
     obj_get c k = (case map_of chks k of
        None \<Rightarrow> obj_get dst k
      | Some chk \<Rightarrow> (case supplied src k of
          None \<Rightarrow> obj_get dst k
        | Some v \<Rightarrow> if isEmpty v then obj_get dst k else checked chk v))"
proof (induction chks arbitrary: dst)
  case (Cons x chks)
  obtain p chk where x: "x = (p, chk)" by (cases x)
  from Cons.prems(3) have p: "map_of chks p = None" and d: "distinct (map fst chks)" by (auto simp: x map_of_eq_None_iff)
  consider "case supplied src p of None \<Rightarrow> True | Some v \<Rightarrow> isEmpty v" "load_optional chks src dst = (None, c)"
    | v w where "supplied src p = Some v" "\<not> isEmpty v" "checked chk v = Some w"
        "load_optional chks src (obj_put p w dst) = (None, c)"
    using Cons.prems(1) unfolding x load_optional_step [OF Cons.prems(2)] store_checked_cases
    by (auto split: option.splits if_splits)
  then show ?case
  proof cases
    case 1
    with Cons.IH [OF 1(2) Cons.prems(2) d] p show ?thesis by (auto simp: x split: option.splits)
  next
    case 2
    with Cons.IH [OF 2(4) Cons.prems(2) d] p show ?thesis by (auto simp: x split: option.splits)
  qed
qed simp

lemma checks_distinct: "distinct (map fst (mandatory_checks g))" "distinct (map fst (optional_checks g))"
    "distinct (map fst (mandatory_checks g @ optional_checks g))"
  by (simp_all add: mandatory_checks_def optional_checks_def)

lemma acceptable_object: "acceptable g src \<Longrightarrow> is_object src"
  using supplied_object by (auto simp: acceptable_def mandatory_checks_def split: option.splits)

lemma load_config_accepts: "fst (load_config g src c) = None \<longleftrightarrow> acceptable g src"
proof (cases "fst (load_mandatory (mandatory_checks g) src c)")
  case None
  then obtain c1 where l: "load_mandatory (mandatory_checks g) src c = (None, c1)" by (metis prod.collapse)
  have m: "list_all (\<lambda>(p, chk). case supplied src p of None \<Rightarrow> False | Some v \<Rightarrow> checked chk v \<noteq> None)
      (mandatory_checks g)" using None load_mandatory_accepts by metis
  then have "is_object src"
    using supplied_object by (auto simp: mandatory_checks_def split: option.splits)
  with m l show ?thesis by (simp add: load_config_def load_optional_accepts acceptable_def)
next
  case (Some e)
  then have "\<not> acceptable g src"
    using load_mandatory_accepts [of "mandatory_checks g" src c] by (simp add: acceptable_def)
  with Some show ?thesis by (auto simp: load_config_def split: prod.splits option.splits)
qed

lemma load_config_value:
  assumes "load_config g src c = (None, c')"
  shows "obj_get c' k = loaded_value g src (obj_get c k) k"
proof -
  obtain e c1 where m: "load_mandatory (mandatory_checks g) src c = (e, c1)" by (cases "load_mandatory (mandatory_checks g) src c")
  with assms have e: "e = None" and o: "load_optional (optional_checks g) src c1 = (None, c')"
    by (auto simp: load_config_def split: option.splits)
  have acc: "acceptable g src" using load_config_accepts [of g src c] assms by simp
  note ob = acceptable_object [OF acc]
  have given: "supplied src p \<noteq> None" if "(p, chk) \<in> set (mandatory_checks g)" for p chk
    using acc that by (auto simp: acceptable_def list_all_iff split: option.splits)
  note mv = load_mandatory_value [OF m [unfolded e] checks_distinct(1), of k]
  note ov = load_optional_value [OF o ob checks_distinct(2), of k]
  show ?thesis
  proof (cases "map_of (mandatory_checks g) k")
    case None
    then have "k \<notin> fst ` set (mandatory_checks g)" by (simp add: map_of_eq_None_iff)
    with None mv ov show ?thesis
      by (auto simp: loaded_value_def map_add_def split: option.splits)
  next
    case (Some chk)
    then have k: "(k, chk) \<in> set (mandatory_checks g)" by (rule map_of_SomeD)
    then have "map_of (optional_checks g) k = None"
      using checks_distinct(3) [of g] by (force simp: map_of_eq_None_iff)
    moreover obtain v where "supplied src k = Some v" using given [OF k] by blast
    moreover have "k \<in> fst ` set (mandatory_checks g)" using k by force
    ultimately show ?thesis using mv ov Some by (simp add: loaded_value_def map_add_def)
  qed
qed

section \<open>Building the agent's configuration\<close>

definition weight_ok :: "js_value \<Rightarrow> bool" where
  "weight_ok s =
     (case js_member s ''weight'' of
        Inl _ \<Rightarrow> False
      | Inr w \<Rightarrow> \<not> js_truthy w \<or> (case js_ToNumber w of Inl _ \<Rightarrow> False | Inr n \<Rightarrow> n \<noteq> NaN \<and> n \<noteq> Num 0))"

fun usable_sockets :: "js_value \<Rightarrow> bool" where
  "usable_sockets (J_arr vs) = (vs \<noteq> [] \<and> list_all weight_ok vs)"
| "usable_sockets v = False"

lemma js_member_not_null: "js_member v k = Inr x \<Longrightarrow> \<exists>y. js_member v k' = Inr y"
  by (cases v) auto

lemma transport_entries_ok:
  "list_all (holds_socket g) vs \<Longrightarrow>
     (case transport_entries g vs of
        Inl _ \<Rightarrow> \<not> list_all weight_ok vs
      | Inr es \<Rightarrow> list_all weight_ok vs \<and> length es = length vs \<and> list_all (\<lambda>(s, w). isSocket (cg_uri g) s) es)"
proof (induction vs)
  case (Cons v vs)
  from Cons.prems obtain i where i: "js_member v ''socket'' = Inr i" and s: "isSocket (cg_uri g) i"
    by (auto simp: holds_socket_def split: sum.splits)
  obtain w where w: "js_member v ''weight'' = Inr w" using js_member_not_null [OF i] by blast
  show ?case
    using Cons.IH Cons.prems
    by (cases "js_truthy w"; cases "js_ToNumber w"; cases "transport_entries g vs") (auto simp: i s w weight_ok_def)
qed simp

lemma construct_transport_ok:
  assumes "is_list_of (holds_socket g) v"
  shows "case construct_transport g v of
      Inl _ \<Rightarrow> \<not> usable_sockets v
    | Inr es \<Rightarrow> usable_sockets v \<and> es \<noteq> [] \<and> list_all (\<lambda>(s, w). isSocket (cg_uri g) s) es"
proof -
  from assms obtain vs where v: "v = J_arr vs" and vs: "list_all (holds_socket g) vs" by (cases v) auto
  show ?thesis
    using transport_entries_ok [OF vs] by (cases "transport_entries g vs") (auto simp: v construct_transport_def)
qed

lemma fold_setParam_host: "uri_host (fold (\<lambda>(k, v). uri_setParam k v) ps u) = uri_host u"
  by (induction ps arbitrary: u) (auto simp: uri_setParam_def split: prod.split)

lemma fold_setHeader_host: "uri_host (fold (\<lambda>(k, v). uri_setHeader k v) ps u) = uri_host u"
  by (induction ps arbitrary: u) (auto simp: uri_setHeader_def split: prod.split)

lemma new_uri_host: "new_uri sc us h p ps hs = Inr u \<Longrightarrow> uri_host u = h"
  by (auto simp: new_uri_def Let_def fold_setParam_host fold_setHeader_host split: if_splits)

lemma new_uri_returns: "h \<noteq> [] \<Longrightarrow> \<exists>u. new_uri sc us h p ps hs = Inr u"
  by (simp add: new_uri_def Let_def)

lemma uri_clone_returns: "uri_host u \<noteq> [] \<Longrightarrow> \<exists>v. uri_clone u = Inr v"
  by (simp add: uri_clone_def new_uri_returns)

lemma toString_without_user: "\<exists>s. uri_toString (uri_set_user None u) = Inr s"
  by (simp add: uri_toString_def uri_set_user_def user_str_def Let_def)

lemma newUUID_nonempty: "newUUID rnd \<noteq> []"
  by (simp add: newUUID_def uuid_template_def enumerate_eq_zip upt_rec)

text \<open>Each stage returns once the account and the times have their types.\<close>

lemma config_identity_returns:
  assumes "cfg_value c ''uri'' = J_uri u" "uri_host u \<noteq> []"
  shows "\<exists>c'. config_identity d c = Inr c' \<and> js_truthy (cfg_value c' ''instance_id'')
    \<and> (\<forall>p. p \<notin> {''display_name'', ''instance_id'', ''jssip_id'', ''hostport_params''} \<longrightarrow> cfg_value c' p = cfg_value c p)"
proof -
  obtain h s where "uri_clone u = Inr h" "uri_toString (uri_set_user None h) = Inr s"
    using uri_clone_returns [OF assms(2)] toString_without_user by blast
  then show ?thesis using assms(1) newUUID_nonempty by (simp add: config_identity_def Let_def)
qed

lemma config_account_returns:
  assumes "cfg_value c ''uri'' = J_uri u" "uri_host u \<noteq> []" "truthy (uri_user u)"
  shows "\<exists>c'. config_account c = Inr c' \<and> js_truthy (cfg_value c' ''authorization_user'')
    \<and> js_truthy (cfg_value c' ''registrar_server'')
    \<and> (\<forall>p. p \<notin> {''authorization_user'', ''registrar_server''} \<longrightarrow> cfg_value c' p = cfg_value c p)"
proof -
  obtain r where "uri_clone u = Inr r" using uri_clone_returns [OF assms(2)] by blast
  moreover obtain s where "uri_user u = Some s" "s \<noteq> []" using assms(3) by (auto simp: truthy_def)
  ultimately show ?thesis using assms(1) by (simp add: config_account_def Let_def)
qed

text \<open>The contact address is a URI at the host the Via headers name.\<close>

lemma config_contact_returns:
  assumes "config_typed g c" "cfg_value c ''via_host'' = J_str h" "h \<noteq> []"
  shows "\<exists>c' n u. config_contact d c = Inr c'
    \<and> cfg_value c ''no_answer_timeout'' = J_num n \<and> num_less (Num 0) n
    \<and> cfg_value c' ''no_answer_timeout'' = J_num (num_thousand n)
    \<and> cfg_value c' ''contact_uri'' = J_uri u \<and> cfg_value c' ''via_host'' = J_str (uri_host u)
    \<and> (\<forall>p. p \<notin> {''no_answer_timeout'', ''contact_uri'', ''via_host''} \<longrightarrow> cfg_value c' p = cfg_value c p)"
proof -
  from config_typed_value [OF assms(1), of "''no_answer_timeout''" is_positive]
  obtain n where n: "cfg_value c ''no_answer_timeout'' = J_num n" "num_less (Num 0) n"
    by (cases "cfg_value c ''no_answer_timeout''") (auto simp: config_types_def)
  from config_typed_value [OF assms(1), of "''contact_uri''" "null_or (is_uri_with (\<lambda>_. True))"]
  consider "cfg_value c ''contact_uri'' = J_null" | u where "cfg_value c ''contact_uri'' = J_uri u"
    by (cases "cfg_value c ''contact_uri''") (auto simp: config_types_def)
  then show ?thesis
  proof cases
    case 1
    obtain u where u: "new_uri ''sip'' (Some (createRandomToken 8 32 (cd_contact d))) h None [(''transport'', Some ''ws'')] [] = Inr u"
      using new_uri_returns [OF assms(3)] by blast
    from 1 u new_uri_host [OF u] n assms(2) show ?thesis by (simp add: config_contact_def Let_def)
  next
    case 2
    with n show ?thesis by (simp add: config_contact_def Let_def)
  qed
qed

text \<open>The stages after a load that found the account and its address.\<close>

lemma loadConfig_returns:
  assumes c: "config_typed g c" and l: "load_config g src c = (None, c1)"
    and via: "cfg_value c ''via_host'' = J_str h" "h \<noteq> []"
    and hosts: "\<forall>v u. cg_uri g v = Inr (Some u) \<longrightarrow> uri_host u \<noteq> []"
  shows "if usable_sockets (cfg_value c1 ''sockets'')
    then \<exists>r n u ru. loadConfig g d src c = Inr r
      \<and> cf_sockets r \<noteq> [] \<and> list_all (\<lambda>(s, w). isSocket (cg_uri g) s) (cf_sockets r)
      \<and> cfg_value (cf_config r) ''sockets'' = J_undefined
      \<and> js_truthy (cfg_value (cf_config r) ''authorization_user'') \<and> js_truthy (cfg_value (cf_config r) ''instance_id'')
      \<and> cfg_value (cf_config r) ''registrar_server'' = J_uri ru \<and> \<not> truthy (uri_user ru)
      \<and> num_less (Num 0) n \<and> cfg_value (cf_config r) ''no_answer_timeout'' = J_num (num_thousand n)
      \<and> cfg_value (cf_config r) ''contact_uri'' = J_uri u \<and> ct_uri (cf_contact r) = u
      \<and> cfg_value (cf_config r) ''via_host'' = J_str (uri_host u)
    else loadConfig g d src c = Inl (Config_error ''sockets'' (cfg_value c1 ''sockets''))"
proof -
  have acc: "acceptable g src" using load_config_accepts [of g src c] l by simp
  have t1: "config_typed g c1" using load_config_typed [OF c, of src] by (simp add: l)
  from acc obtain su v w where su: "supplied src ''sockets'' = Some v" "checked (check_sockets g) v = Some w"
    and uv: "\<exists>x y. supplied src ''uri'' = Some x \<and> checked (check_uri g) x = Some y"
    by (auto simp: acceptable_def mandatory_checks_def split: option.splits)
  have sock: "cfg_value c1 ''sockets'' = w"
    using load_config_value [OF l, of "''sockets''"] su
    by (simp add: cfg_value_def loaded_value_def mandatory_checks_def)
  from uv obtain x y where y: "supplied src ''uri'' = Some x" "checked (check_uri g) x = Some y" by blast
  then have ury: "cfg_value c1 ''uri'' = y"
    using load_config_value [OF l, of "''uri''"] by (simp add: cfg_value_def loaded_value_def mandatory_checks_def)
  from y(2) obtain a where a: "y = J_uri a" "truthy (uri_user a)" "\<exists>z. cg_uri g z = Inr (Some a)"
    by (auto simp: checked_def check_uri_def parse_with_scheme_def bind_result_Inr_iff
        split: sum.splits option.splits if_splits)
  have host: "uri_host a \<noteq> []" using a(3) hosts by blast
  have lst: "is_list_of (holds_socket g) w"
    using su(2) check_sockets_sound [of g v w]
    by (auto simp: checked_def check_sockets_def bind_result_Inr_iff simp del: check_socket_list.simps
        split: sum.splits if_splits js_value.splits list.splits)
  have via1: "cfg_value c1 ''via_host'' = J_str h"
    using load_config_value [OF l, of "''via_host''"] via(1)
    by (simp add: cfg_value_def loaded_value_def mandatory_checks_def optional_checks_def)
  from config_identity_returns [of c1 a d] ury a(1) host obtain c2 where
    c2: "config_identity d c1 = Inr c2" "js_truthy (cfg_value c2 ''instance_id'')"
    and same2: "\<forall>p. p \<notin> {''display_name'', ''instance_id'', ''jssip_id'', ''hostport_params''} \<longrightarrow> cfg_value c2 p = cfg_value c1 p"
    by auto
  have k2: "cfg_value c2 ''uri'' = J_uri a" "cfg_value c2 ''sockets'' = w" "cfg_value c2 ''via_host'' = J_str h"
    using ury a(1) sock via1 same2 [rule_format, of "''uri''"] same2 [rule_format, of "''sockets''"]
      same2 [rule_format, of "''via_host''"] by simp_all
  let ?c2 = "obj_del ''sockets'' c2"
  have "cfg_value ?c2 ''uri'' = J_uri a" using k2(1) by simp
  from config_account_returns [OF this host a(2)] obtain c3 where
    c3: "config_account ?c2 = Inr c3" "js_truthy (cfg_value c3 ''authorization_user'')"
      "js_truthy (cfg_value c3 ''registrar_server'')"
    and same3: "\<forall>p. p \<notin> {''authorization_user'', ''registrar_server''} \<longrightarrow> cfg_value c3 p = cfg_value ?c2 p"
    by (elim exE conjE) (rule that, assumption+)
  have t3: "config_typed g c3"
    by (rule config_account_typed [OF typed_sockets_gone [OF config_identity_typed [OF t1 c2(1)]] c3(1)])
  have s3: "cfg_value c3 ''via_host'' = cfg_value ?c2 ''via_host''" "cfg_value c3 ''sockets'' = cfg_value ?c2 ''sockets''"
      "cfg_value c3 ''instance_id'' = cfg_value ?c2 ''instance_id''"
    by (rule same3 [rule_format], simp)+
  have k3: "cfg_value c3 ''via_host'' = J_str h" "cfg_value c3 ''sockets'' = J_undefined"
      "cfg_value c3 ''instance_id'' = cfg_value c2 ''instance_id''"
    unfolding s3 by (simp_all add: k2(3))
  from config_contact_returns [OF t3 k3(1) via(2), of d] obtain c4 n u where
    c4: "config_contact d c3 = Inr c4" "num_less (Num 0) n" "cfg_value c4 ''no_answer_timeout'' = J_num (num_thousand n)"
      "cfg_value c4 ''contact_uri'' = J_uri u" "cfg_value c4 ''via_host'' = J_str (uri_host u)"
    and same4: "\<forall>p. p \<notin> {''no_answer_timeout'', ''contact_uri'', ''via_host''} \<longrightarrow> cfg_value c4 p = cfg_value c3 p"
    by (elim exE conjE) (rule that, assumption+)
  have s4: "cfg_value c4 ''sockets'' = cfg_value c3 ''sockets''"
      "cfg_value c4 ''authorization_user'' = cfg_value c3 ''authorization_user''"
      "cfg_value c4 ''instance_id'' = cfg_value c3 ''instance_id''"
      "cfg_value c4 ''registrar_server'' = cfg_value c3 ''registrar_server''"
    by (rule same4 [rule_format], simp)+
  have k4: "cfg_value c4 ''sockets'' = J_undefined" "js_truthy (cfg_value c4 ''authorization_user'')"
      "js_truthy (cfg_value c4 ''instance_id'')" "cfg_value c4 ''registrar_server'' = cfg_value c3 ''registrar_server''"
    unfolding s4 k3 by (simp_all add: c2(2) c3(2))
  from config_typed_value [OF t3, of "''registrar_server''" "null_or (is_uri_with (\<lambda>u. \<not> truthy (uri_user u)))"] c3(3)
  obtain ru where ru: "cfg_value c3 ''registrar_server'' = J_uri ru" "\<not> truthy (uri_user ru)"
    by (cases "cfg_value c3 ''registrar_server''") (auto simp: config_types_def)
  note tr = construct_transport_ok [OF lst]
  show ?thesis
  proof (cases "construct_transport g w")
    case (Inl e)
    with tr l c2(1) k2(2) sock show ?thesis by (simp add: loadConfig_def rethrow_def)
  next
    case (Inr es)
    have "loadConfig g d src c =
        Inr \<lparr>cf_config = c4, cf_contact = \<lparr>ct_pub_gruu = None, ct_temp_gruu = None, ct_uri = u\<rparr>, cf_sockets = es\<rparr>"
      using l c2(1) k2(2) Inr c3(1) c4(1,4) by (simp add: loadConfig_def rethrow_def)
    with tr Inr sock c4 k4 ru show ?thesis by simp blast
  qed
qed

lemma via_host_default: "cfg_value (settings rnd) ''via_host'' = J_str (default_via_host rnd)" "default_via_host rnd \<noteq> []"
  by (simp_all add: settings_def cfg_value_def default_via_host_def)

section \<open>Properties\<close>

text \<open>
  C27. The load accepts a configuration exactly when both mandatory parameters are own properties whose check
  passes and so does the check of every optional one that is given and not empty; then each of these
  parameters has the value its check returned and every other keeps the value it had.
\<close>

theorem load_functional:
  "(fst (load_config g src c) = None \<longleftrightarrow> acceptable g src)
   \<and> (fst (load_config g src c) = None \<longrightarrow>
       (\<forall>p. obj_get (snd (load_config g src c)) p = loaded_value g src (obj_get c p) p))"
  using load_config_accepts [of g src c] load_config_value [of g src c "snd (load_config g src c)"]
  by (cases "load_config g src c") auto

text \<open>
  C28. Whatever is given, also when the load stops with an exception half-way, every parameter in the table is of the
  type the rest of the program reads it at (the numbers positive, the account with a user, the registrar
  without one, the refresh method INVITE or UPDATE), and so it stays through \<open>_loadConfig\<close> and \<open>set\<close>.
\<close>

theorem configuration_typed:
  assumes "config_typed g c"
  shows "config_typed g (snd (load_config g src c))
    \<and> (\<forall>r. loadConfig g d src c = Inr r \<longrightarrow> config_typed g (cf_config r))
    \<and> (\<forall>p v b c'. ua_set p v c = Inr (b, c') \<longrightarrow> config_typed g c')"
  using load_config_typed [OF assms] loadConfig_typed [OF assms] ua_set_typed [OF assms] by blast

text \<open>
  C26. With a grammar whose URIs have a host, an agent is built exactly from an acceptable configuration whose
  list of sockets, after the check, is not empty and has usable weights; a list without any socket passes the check and only
  stops in the transport's constructor, reported as an error of the parameter \<open>sockets\<close>.  The agent
  then has sockets, a user to authenticate as, a registrar without user, a positive time in
  milliseconds, an instance id, and a contact address at the host its Via headers name.
\<close>

theorem agent_built_iff:
  assumes "\<forall>v u. cg_uri g v = Inr (Some u) \<longrightarrow> uri_host u \<noteq> []"
  shows "case load_config g src (settings (cd_via_host d)) of
      (Some e, _) \<Rightarrow> \<not> acceptable g src \<and> (src = J_undefined \<or> construct_agent g d src = Inl e)
    | (None, c1) \<Rightarrow> acceptable g src \<and>
        (if usable_sockets (cfg_value c1 ''sockets'')
         then \<exists>r n u ru. construct_agent g d src = Inr r
           \<and> cf_sockets r \<noteq> [] \<and> list_all (\<lambda>(s, w). isSocket (cg_uri g) s) (cf_sockets r)
           \<and> cfg_value (cf_config r) ''sockets'' = J_undefined
           \<and> js_truthy (cfg_value (cf_config r) ''authorization_user'') \<and> js_truthy (cfg_value (cf_config r) ''instance_id'')
           \<and> cfg_value (cf_config r) ''registrar_server'' = J_uri ru \<and> \<not> truthy (uri_user ru)
           \<and> num_less (Num 0) n \<and> cfg_value (cf_config r) ''no_answer_timeout'' = J_num (num_thousand n)
           \<and> cfg_value (cf_config r) ''contact_uri'' = J_uri u \<and> ct_uri (cf_contact r) = u
           \<and> cfg_value (cf_config r) ''via_host'' = J_str (uri_host u)
         else construct_agent g d src = Inl (Config_error ''sockets'' (cfg_value c1 ''sockets'')))"
proof -
  let ?s = "settings (cd_via_host d)"
  obtain e c1 where l: "load_config g src ?s = (e, c1)" by (cases "load_config g src ?s")
  have acc: "e = None \<longleftrightarrow> acceptable g src" using load_config_accepts [of g src ?s] l by simp
  show ?thesis
  proof (cases e)
    case None
    then have "is_object src" using acc acceptable_object by blast
    then have b: "construct_agent g d src = loadConfig g d src ?s" by (cases src) (auto simp: construct_agent_def)
    note built = loadConfig_returns [OF settings_typed l [unfolded None] via_host_default assms, of d]
    from None acc have "acceptable g src" by simp
    from this built show ?thesis unfolding l None b prod.case option.case by (rule conjI)
  next
    case (Some x)
    with acc l show ?thesis by (simp add: construct_agent_def loadConfig_def)
  qed
qed

section \<open>The properties at a concrete configuration\<close>

text \<open>A grammar that reads \<open>sip:user@host\<close> and \<open>sip:host\<close>.\<close>

definition demo_parse :: "js_value \<Rightarrow> js_error + uri option" where
  "demo_parse v =
     (case v of
        J_str s \<Rightarrow>
          Inr (case js_split (CHR ''@'') (drop 4 s) of
             [h] \<Rightarrow> if h = [] then None else Some \<lparr>uri_scheme = ''sip'', uri_user = None, uri_host = h, uri_port = None,
                          uri_parameters = [], uri_headers = []\<rparr>
           | [us, h] \<Rightarrow> if h = [] then None else Some \<lparr>uri_scheme = ''sip'', uri_user = Some us, uri_host = h, uri_port = None,
                          uri_parameters = [], uri_headers = []\<rparr>
           | _ \<Rightarrow> None)
      | _ \<Rightarrow> Inl (TypeError ''charCodeAt''))"

definition demo_cfg_grammar :: config_grammar where
  "demo_cfg_grammar = \<lparr>cg_uri = demo_parse, cg_quoted = (\<lambda>_. True), cg_uuid = (\<lambda>_. Inr True)\<rparr>"

definition demo_method :: js_value where
  "demo_method = J_obj ''Function'' ''function () {}'' [] []"

definition demo_socket :: js_value where
  "demo_socket = J_obj ''Object'' ''[object Object]''
     [(''url'', J_str ''wss://a.org''), (''sip_uri'', J_str ''sip:a.org'')]
     [(''via_transport'', J_str ''WSS''), (''connect'', demo_method), (''disconnect'', demo_method), (''send'', demo_method)]"

definition demo_configuration :: js_value where
  "demo_configuration = plain_object
     [(''sockets'', J_arr [demo_socket]), (''uri'', J_str ''alice@a.org''), (''password'', J_bool True),
      (''realm'', J_str []), (''register'', J_bool False), (''session_timers_refresh_method'', J_str ''invite'')]"

text \<open>The same with a list that holds no socket.\<close>

definition demo_socketless :: js_value where
  "demo_socketless = plain_object [(''sockets'', J_arr [J_str ''wss://a.org'']), (''uri'', J_str ''alice@a.org'')]"

definition demo_draws :: config_draws where
  "demo_draws = \<lparr>cd_via_host = (\<lambda>_. 0), cd_uuid = (\<lambda>_. 0), cd_jssip_id = (\<lambda>_. 0), cd_contact = (\<lambda>_. 0)\<rparr>"

lemma demo_is_socket: "isSocket demo_parse demo_socket"
  by (simp add: isSocket_def demo_socket_def demo_method_def demo_parse_def)

lemma demo_host: "cg_uri demo_cfg_grammar v = Inr (Some u) \<Longrightarrow> uri_host u \<noteq> []"
  by (auto simp: demo_cfg_grammar_def demo_parse_def split: js_value.splits list.splits if_splits)

lemma demo_own: "supplied (plain_object ps) p = obj_get ps p"
  by (simp add: supplied_def obj_has_def split: option.split)

lemma demo_sockets: "checked (check_sockets demo_cfg_grammar) (J_arr [demo_socket]) = Some (J_arr [plain_object [(''socket'', demo_socket)]])"
proof -
  have "js_hasOwn demo_socket ''socket'' = Inr False" by (simp add: demo_socket_def obj_has_def)
  then show ?thesis using demo_is_socket
    by (simp add: checked_def check_sockets_def isSocket_not_null demo_cfg_grammar_def)
qed

lemma demo_account: "\<exists>u. checked (check_uri demo_cfg_grammar) (J_str ''alice@a.org'') = Some (J_uri u)"
  by (simp add: checked_def check_uri_def parse_with_scheme_def demo_cfg_grammar_def demo_parse_def to_lower_def
      lower_char_def char_code_def truthy_def)

lemma demo_invite:
  "checked check_session_timers_refresh_method (J_str ''invite'') = Some (J_str ''INVITE'')"
proof -
  have "to_upper ''invite'' = ''INVITE''" by code_simp
  then show ?thesis by (simp add: checked_def Let_def)
qed

lemma demo_acceptable: "acceptable demo_cfg_grammar demo_configuration"
  using demo_sockets demo_account
  by (auto simp: acceptable_def demo_configuration_def demo_own mandatory_checks_def optional_checks_def demo_invite
      checked_def [of check_text] checked_def [of check_boolean] check_text_def)

theorem load_functional_witness:
  "\<forall>c p. obj_get (snd (load_config demo_cfg_grammar demo_configuration c)) p
     = loaded_value demo_cfg_grammar demo_configuration (obj_get c p) p"
  using load_functional [of demo_cfg_grammar demo_configuration] demo_acceptable by blast

theorem configuration_typed_witness:
  "\<forall>g src. config_typed g (snd (load_config g src (settings (\<lambda>_. 0))))"
  using configuration_typed [OF settings_typed] by blast

theorem agent_built_iff_witness:
  "construct_agent demo_cfg_grammar demo_draws demo_socketless = Inl (Config_error ''sockets'' (J_arr []))"
proof -
  have s: "checked (check_sockets demo_cfg_grammar) (J_arr [J_str ''wss://a.org'']) = Some (J_arr [])"
    by (simp add: checked_def check_sockets_def isSocket_def)
  then have a: "acceptable demo_cfg_grammar demo_socketless"
    using demo_account
    by (auto simp: acceptable_def demo_socketless_def demo_own mandatory_checks_def optional_checks_def)
  let ?s = "settings (cd_via_host demo_draws)"
  obtain c1 where l: "load_config demo_cfg_grammar demo_socketless ?s = (None, c1)"
    using a load_config_accepts [of demo_cfg_grammar demo_socketless ?s] by (metis prod.collapse)
  then have "cfg_value c1 ''sockets'' = J_arr []"
    using load_config_value [OF l, of "''sockets''"] s
    by (simp add: cfg_value_def loaded_value_def mandatory_checks_def demo_socketless_def demo_own)
  with agent_built_iff [of demo_cfg_grammar demo_socketless demo_draws] demo_host l show ?thesis by simp
qed

end
