(* ===== verification/Event_Emitter.thy ===== *)
theory Event_Emitter
  imports Complex_Main Sip_Utils
begin

text \<open>
  The class \<open>EventEmitter\<close> (lines 26198-26700 of \<open>frontend/static/js/jssip-3.10.0.js\<close>), from which the user
  agent, the sessions and the applicants inherit.  A listener is named by a number; \<open>once\<close> wraps it in a
  function of its own, which is numbered too.  The entry of a type is one function or an array, and arrays
  are objects that loops keep hold of while listeners change them: they live in the store
  \<open>em_arrays\<close>.  What is still to be run, the rest of every active loop and call, is the stack \<open>em_stack\<close>: a listener
  that runs is at its top, and whatever the application does in it comes before the rest.  All emitters here are
  constructed, so \<open>_events\<close> is always set, and listeners are functions.
\<close>

section \<open>State\<close>

datatype listener_fn = Plain nat | Once nat string nat

text \<open>\<open>listener.listener || listener\<close>.\<close>

fun original :: "listener_fn \<Rightarrow> nat" where
  "original (Plain n) = n"
| "original (Once w type n) = n"

datatype handler = Single listener_fn | Several nat

datatype em_arg = A_text string | A_listener nat | A_value nat

datatype em_task =
    T_call listener_fn string "em_arg list"
  | T_fire nat nat string "em_arg list"
  | T_add string listener_fn bool
  | T_loop string nat nat
  | T_keys "string list"
  | T_all string
  | T_reset

datatype em_event =
    E_call nat "nat option" string "em_arg list"
  | E_warn string nat

record emitter =
  em_events :: "handler js_object"
  em_count :: int
  em_arrays :: "listener_fn list list"
  em_warned :: "nat list"
  em_max :: "nat option"
  em_fired :: "nat list"
  em_next :: nat
  em_stack :: "em_task list"
  em_log :: "em_event list"

definition new_emitter :: emitter where
  "new_emitter = \<lparr>em_events = [], em_count = 0, em_arrays = [], em_warned = [], em_max = None, em_fired = [],
     em_next = 0, em_stack = [], em_log = []\<rparr>"

definition defaultMaxListeners :: nat where
  "defaultMaxListeners = 10"

definition setMaxListeners :: "nat \<Rightarrow> emitter \<Rightarrow> emitter" where
  "setMaxListeners n s = s\<lparr>em_max := Some n\<rparr>"

definition getMaxListeners :: "emitter \<Rightarrow> nat" where
  "getMaxListeners s = (case em_max s of None \<Rightarrow> defaultMaxListeners | Some n \<Rightarrow> n)"

definition push_tasks :: "em_task list \<Rightarrow> emitter \<Rightarrow> emitter" where
  "push_tasks ts s = s\<lparr>em_stack := ts @ em_stack s\<rparr>"

definition em_say :: "em_event \<Rightarrow> emitter \<Rightarrow> emitter" where
  "em_say e s = s\<lparr>em_log := em_log s @ [e]\<rparr>"

section \<open>Emission\<close>

text \<open>\<open>emitNone\<close>, ..., \<open>emitMany\<close>: one function, or a copy of the array, called in order.\<close>

definition handler_calls :: "string \<Rightarrow> em_arg list \<Rightarrow> handler \<Rightarrow> emitter \<Rightarrow> em_task list" where
  "handler_calls type args h s =
     (case h of
        Single l \<Rightarrow> [T_call l type args]
      | Several a \<Rightarrow> map (\<lambda>l. T_call l type args) (em_arrays s ! a))"

text \<open>The result is what \<open>emit\<close> returns once the calls have been made.\<close>

definition em_emit :: "string \<Rightarrow> em_arg list \<Rightarrow> emitter \<Rightarrow> (js_error + bool) \<times> emitter" where
  "em_emit type args s =
     (if type = ''error'' \<and> \<not> obj_has (em_events s) ''error''
      then (Inl (PlainError ''Unhandled \"error\" event.''), s)
      else case obj_get (em_events s) type of
          None \<Rightarrow> (Inr False, s)
        | Some h \<Rightarrow> (Inr True, push_tasks (handler_calls type args h s) s))"

section \<open>Adding listeners\<close>

definition check_leak :: "string \<Rightarrow> nat \<Rightarrow> emitter \<Rightarrow> emitter" where
  "check_leak type a s =
     (if a \<in> set (em_warned s) then s
      else
        (let m = getMaxListeners s in
         if m > 0 \<and> length (em_arrays s ! a) > m
         then em_say (E_warn type (length (em_arrays s ! a))) (s\<lparr>em_warned := a # em_warned s\<rparr>)
         else s))"

text \<open>The part of \<open>_addListener\<close> after the event \<open>newListener\<close>.\<close>

definition em_insert :: "string \<Rightarrow> listener_fn \<Rightarrow> bool \<Rightarrow> emitter \<Rightarrow> emitter" where
  "em_insert type l prepend s =
     (case obj_get (em_events s) type of
        None \<Rightarrow> s\<lparr>em_events := obj_put type (Single l) (em_events s), em_count := em_count s + 1\<rparr>
      | Some (Single e) \<Rightarrow>
          (let a = length (em_arrays s) in
           check_leak type a
             (s\<lparr>em_arrays := em_arrays s @ [if prepend then [l, e] else [e, l]],
                em_events := obj_put type (Several a) (em_events s)\<rparr>))
      | Some (Several a) \<Rightarrow>
          check_leak type a
            (s\<lparr>em_arrays := (em_arrays s)[a := (if prepend then l # em_arrays s ! a else em_arrays s ! a @ [l])]\<rparr>))"

definition addListener :: "string \<Rightarrow> listener_fn \<Rightarrow> bool \<Rightarrow> emitter \<Rightarrow> emitter" where
  "addListener type l prepend s =
     (case obj_get (em_events s) ''newListener'' of
        None \<Rightarrow> em_insert type l prepend s
      | Some h \<Rightarrow>
          push_tasks (handler_calls ''newListener'' [A_text type, A_listener (original l)] h s @ [T_add type l prepend]) s)"

text \<open>\<open>once\<close> and \<open>prependOnceListener\<close>: a fresh wrapper.\<close>

definition em_once :: "string \<Rightarrow> nat \<Rightarrow> bool \<Rightarrow> emitter \<Rightarrow> emitter" where
  "em_once type n prepend s = addListener type (Once (em_next s) type n) prepend (s\<lparr>em_next := Suc (em_next s)\<rparr>)"

section \<open>Removing listeners\<close>

text \<open>\<open>f === listener || f.listener === listener\<close>.\<close>

definition is_listener :: "listener_fn \<Rightarrow> listener_fn \<Rightarrow> bool" where
  "is_listener target f = (f = target \<or> (case f of Plain n \<Rightarrow> False | Once w type n \<Rightarrow> target = Plain n))"

text \<open>The loop from the last element.\<close>

fun last_position :: "('a \<Rightarrow> bool) \<Rightarrow> 'a list \<Rightarrow> nat option" where
  "last_position p [] = None"
| "last_position p (x # xs) =
     (case last_position p xs of Some i \<Rightarrow> Some (Suc i) | None \<Rightarrow> if p x then Some 0 else None)"

fun spliceOne :: "'a list \<Rightarrow> nat \<Rightarrow> 'a list" where
  "spliceOne [] i = []"
| "spliceOne (x # xs) 0 = xs"
| "spliceOne (x # xs) (Suc i) = x # spliceOne xs i"

text \<open>The change \<open>removeListener\<close> makes to the table, and the listener it took out (\<open>None\<close>: it returns early).\<close>

definition take_listener :: "string \<Rightarrow> listener_fn \<Rightarrow> emitter \<Rightarrow> listener_fn option \<times> emitter" where
  "take_listener type target s =
     (case obj_get (em_events s) type of
        None \<Rightarrow> (None, s)
      | Some (Single l) \<Rightarrow>
          if is_listener target l then
            (let s = s\<lparr>em_count := em_count s - 1\<rparr> in
             if em_count s = 0 then (None, s\<lparr>em_events := []\<rparr>)
             else (Some l, s\<lparr>em_events := obj_del type (em_events s)\<rparr>))
          else (None, s)
      | Some (Several a) \<Rightarrow>
          (let list = em_arrays s ! a in
           case last_position (is_listener target) list of
             None \<Rightarrow> (None, s)
           | Some position \<Rightarrow>
               (let l = list ! position; list = spliceOne list position;
                    s = s\<lparr>em_arrays := (em_arrays s)[a := list]\<rparr>
                in (Some l,
                    if length list = 1 then s\<lparr>em_events := obj_put type (Single (hd list)) (em_events s)\<rparr> else s))))"

definition removeListener :: "string \<Rightarrow> listener_fn \<Rightarrow> emitter \<Rightarrow> emitter" where
  "removeListener type target s =
     (case take_listener type target s of
        (None, s) \<Rightarrow> s
      | (Some l, s) \<Rightarrow>
          (case obj_get (em_events s) ''removeListener'' of
             None \<Rightarrow> s
           | Some h \<Rightarrow> push_tasks (handler_calls ''removeListener'' [A_text type, A_listener (original l)] h s) s))"

definition removeAllListeners :: "string \<Rightarrow> emitter \<Rightarrow> emitter" where
  "removeAllListeners type s =
     (if \<not> obj_has (em_events s) ''removeListener'' then
        (if obj_has (em_events s) type then
           (let s = s\<lparr>em_count := em_count s - 1\<rparr> in
            if em_count s = 0 then s\<lparr>em_events := []\<rparr> else s\<lparr>em_events := obj_del type (em_events s)\<rparr>)
         else s)
      else
        (case obj_get (em_events s) type of
           None \<Rightarrow> s
         | Some (Single l) \<Rightarrow> removeListener type l s
         | Some (Several a) \<Rightarrow> push_tasks [T_loop type a (length (em_arrays s ! a))] s))"

text \<open>\<open>removeAllListeners()\<close> without a type.\<close>

definition removeAllTypes :: "emitter \<Rightarrow> emitter" where
  "removeAllTypes s =
     (if \<not> obj_has (em_events s) ''removeListener'' then s\<lparr>em_events := [], em_count := 0\<rparr>
      else push_tasks [T_keys (map fst (em_events s)), T_all ''removeListener'', T_reset] s)"

section \<open>Running\<close>

text \<open>
  One task.  The wrapper of \<open>once\<close> first removes itself, which may call listeners of
  \<open>removeListener\<close>, and then marks itself as fired.  In the loop of \<open>removeAllListeners\<close> an element that is no
  longer there is \<open>undefined\<close>, which \<open>removeListener\<close> refuses.
\<close>

fun em_exec :: "em_task \<Rightarrow> emitter \<Rightarrow> js_error option \<times> emitter" where
  "em_exec (T_call (Plain n) type args) s = (None, em_say (E_call n None type args) s)"
| "em_exec (T_call (Once w wtype n) type args) s =
     (if w \<in> set (em_fired s) then (None, s)
      else (None, removeListener wtype (Once w wtype n) (push_tasks [T_fire w n type args] s)))"
| "em_exec (T_fire w n type args) s =
     (None, em_say (E_call n (Some w) type args) (s\<lparr>em_fired := w # em_fired s\<rparr>))"
| "em_exec (T_add type l prepend) s = (None, em_insert type l prepend s)"
| "em_exec (T_loop type a 0) s = (None, s)"
| "em_exec (T_loop type a (Suc i)) s =
     (if i < length (em_arrays s ! a)
      then (None, removeListener type (em_arrays s ! a ! i) (push_tasks [T_loop type a i] s))
      else (Some (TypeError ''\"listener\" argument must be a function''), s))"
| "em_exec (T_keys []) s = (None, s)"
| "em_exec (T_keys (k # ks)) s =
     (let s = push_tasks [T_keys ks] s in (None, if k = ''removeListener'' then s else removeAllListeners k s))"
| "em_exec (T_all type) s = (None, removeAllListeners type s)"
| "em_exec T_reset s = (None, s\<lparr>em_events := [], em_count := 0\<rparr>)"

section \<open>Reading\<close>

definition rawListeners :: "string \<Rightarrow> emitter \<Rightarrow> listener_fn list" where
  "rawListeners type s =
     (case obj_get (em_events s) type of
        None \<Rightarrow> []
      | Some (Single l) \<Rightarrow> [l]
      | Some (Several a) \<Rightarrow> em_arrays s ! a)"

definition em_listeners :: "string \<Rightarrow> emitter \<Rightarrow> nat list" where
  "em_listeners type s =
     (case obj_get (em_events s) type of
        None \<Rightarrow> []
      | Some (Single l) \<Rightarrow> [original l]
      | Some (Several a) \<Rightarrow> map original (em_arrays s ! a))"

definition listenerCount :: "string \<Rightarrow> emitter \<Rightarrow> nat" where
  "listenerCount type s =
     (case obj_get (em_events s) type of None \<Rightarrow> 0 | Some (Single l) \<Rightarrow> 1 | Some (Several a) \<Rightarrow> length (em_arrays s ! a))"

definition eventNames :: "emitter \<Rightarrow> string list" where
  "eventNames s = (if em_count s > 0 then map fst (em_events s) else [])"

section \<open>The table as a map to lists\<close>

text \<open>What the table promises: under each type the list of its listeners, in the order of their calls.\<close>

locale listener_table =
  fixes inv :: "'s \<Rightarrow> bool"
    and regs :: "'s \<Rightarrow> string \<Rightarrow> 'l list"
    and insert_one :: "string \<Rightarrow> 'l \<Rightarrow> bool \<Rightarrow> 's \<Rightarrow> 's"
    and take_one :: "string \<Rightarrow> 'l \<Rightarrow> 's \<Rightarrow> 's"
    and matches :: "'l \<Rightarrow> 'l \<Rightarrow> bool"
  assumes inv_insert: "inv s \<Longrightarrow> inv (insert_one type l p s)"
    and inv_take: "inv s \<Longrightarrow> inv (take_one type l s)"
    and regs_insert: "inv s \<Longrightarrow> regs (insert_one type l p s) =
      (regs s)(type := if p then l # regs s type else regs s type @ [l])"
    and regs_take: "inv s \<Longrightarrow> regs (take_one type l s) =
      (regs s)(type := case last_position (matches l) (regs s type) of
         None \<Rightarrow> regs s type | Some i \<Rightarrow> spliceOne (regs s type) i)"
    and matches_self: "matches l l"
begin

lemma take_absent: "inv s \<Longrightarrow> \<forall>k\<in>set (regs s type). \<not> matches l k \<Longrightarrow> regs (take_one type l s) = regs s"
proof -
  have "\<forall>k\<in>set xs. \<not> matches l k \<Longrightarrow> last_position (matches l) xs = None" for xs
    by (induction xs) auto
  then show "inv s \<Longrightarrow> \<forall>k\<in>set (regs s type). \<not> matches l k \<Longrightarrow> ?thesis" by (simp add: regs_take)
qed

text \<open>Adding a listener at the end and removing it at once leaves the table as it was.\<close>

lemma take_insert: "inv s \<Longrightarrow> regs (take_one type l (insert_one type l False s)) = regs s"
proof -
  have last: "last_position (matches l) (xs @ [l]) = Some (length xs)" for xs
    by (induction xs) (simp_all add: matches_self)
  have splice: "spliceOne (xs @ [l]) (length xs) = xs" for xs by (induction xs) simp_all
  show "inv s \<Longrightarrow> ?thesis" by (simp add: regs_take inv_insert regs_insert last splice)
qed

end

definition em_rep :: "emitter \<Rightarrow> bool" where
  "em_rep s \<longleftrightarrow>
     obj_wf (em_events s) \<and> em_count s = int (length (em_events s))
     \<and> (\<forall>type a. obj_get (em_events s) type = Some (Several a) \<longrightarrow> a < length (em_arrays s) \<and> 2 \<le> length (em_arrays s ! a))
     \<and> (\<forall>type type' a. obj_get (em_events s) type = Some (Several a) \<longrightarrow> obj_get (em_events s) type' = Some (Several a)
          \<longrightarrow> type = type')"

lemma check_leak_same [simp]:
  "em_events (check_leak type a s) = em_events s" "em_arrays (check_leak type a s) = em_arrays s"
  "em_count (check_leak type a s) = em_count s" "em_stack (check_leak type a s) = em_stack s"
  "em_fired (check_leak type a s) = em_fired s" "em_next (check_leak type a s) = em_next s"
  by (simp_all add: check_leak_def em_say_def Let_def)

lemma raw_same:
  "em_events s' = em_events s \<Longrightarrow> em_arrays s' = em_arrays s \<Longrightarrow> rawListeners t s' = rawListeners t s"
  by (auto simp: rawListeners_def split: option.split handler.split)

lemma rep_same:
  "em_events s' = em_events s \<Longrightarrow> em_arrays s' = em_arrays s \<Longrightarrow> em_count s' = em_count s \<Longrightarrow> em_rep s' = em_rep s"
  by (simp add: em_rep_def)

lemma length_put: "length (obj_put k v ob) = (if obj_has ob k then length ob else Suc (length ob))"
proof -
  have "length (AList.update k v xs) = (if k \<in> fst ` set xs then length xs else Suc (length xs))" for xs
    by (induction xs) auto
  then show ?thesis by (simp add: obj_put_def obj_has_iff)
qed

lemma length_del: "obj_wf ob \<Longrightarrow> obj_has ob k \<Longrightarrow> Suc (length (obj_del k ob)) = length ob"
proof -
  assume w: "obj_wf ob" and h: "obj_has ob k"
  have "length xs = Suc (length (AList.delete k xs))" if "distinct (map fst xs)" "k \<in> fst ` set xs" for xs :: "(string \<times> 'a) list"
    using that
  proof (induction xs)
    case (Cons x xs)
    show ?case
    proof (cases "fst x = k")
      case True
      with Cons.prems have "k \<notin> fst ` set xs" by auto
      then have "AList.delete k xs = xs" by (simp add: delete_id)
      with True show ?thesis by (cases x) simp
    next
      case False
      with Cons show ?thesis by (cases x) auto
    qed
  qed simp
  with w h show ?thesis by (simp add: obj_del_def obj_wf_def obj_has_iff)
qed

lemma rep_array:
  assumes "em_rep s" "obj_get (em_events s) type = Some (Several a)"
  shows "a < length (em_arrays s)" "2 \<le> length (em_arrays s ! a)" "rawListeners type s = em_arrays s ! a"
    "\<And>type'. obj_get (em_events s) type' = Some (Several a) \<Longrightarrow> type' = type"
  using assms by (auto simp: em_rep_def rawListeners_def)

lemma insert_rep: "em_rep s \<Longrightarrow> em_rep (em_insert type l p s)"
  unfolding em_rep_def [of s]
  by (auto simp: em_insert_def em_rep_def Let_def length_put obj_has_def nth_append nth_list_update obj_wf_put
      split: option.splits handler.splits if_splits) (force simp: nth_append split: if_splits)+

lemma raw_cases:
  "obj_get (em_events s) t = None \<Longrightarrow> rawListeners t s = []"
  "obj_get (em_events s) t = Some (Single l) \<Longrightarrow> rawListeners t s = [l]"
  "obj_get (em_events s) t = Some (Several a) \<Longrightarrow> rawListeners t s = em_arrays s ! a"
  by (simp_all add: rawListeners_def)

text \<open>The list of a type does not change when its entry and its array do not.\<close>

lemma raw_other:
  assumes "em_rep s" "obj_get (em_events s') t = obj_get (em_events s) t"
    and "\<And>a. obj_get (em_events s) t = Some (Several a) \<Longrightarrow> em_arrays s' ! a = em_arrays s ! a"
  shows "rawListeners t s' = rawListeners t s"
  using assms by (auto simp: rawListeners_def split: option.split handler.split)

lemma insert_raw:
  assumes "em_rep s"
  shows "rawListeners t (em_insert type l p s) =
    (if t = type then (if p then l # rawListeners t s else rawListeners t s @ [l]) else rawListeners t s)"
proof (cases "t = type")
  case True
  consider "obj_get (em_events s) type = None" | e where "obj_get (em_events s) type = Some (Single e)"
    | a where "obj_get (em_events s) type = Some (Several a)"
    by (metis handler.exhaust option.exhaust)
  then show ?thesis
  proof cases
    case 3
    note a = rep_array(1) [OF assms 3]
    show ?thesis unfolding True by (simp add: em_insert_def rawListeners_def 3 a)
  qed (simp_all add: True em_insert_def Let_def rawListeners_def)
next
  case False
  have "rawListeners t (em_insert type l p s) = rawListeners t s"
  proof (rule raw_other [OF assms])
    show "obj_get (em_events (em_insert type l p s)) t = obj_get (em_events s) t"
      using False by (auto simp: em_insert_def Let_def split: option.split handler.split)
    fix a assume a: "obj_get (em_events s) t = Some (Several a)"
    from rep_array [OF assms a] False show "em_arrays (em_insert type l p s) ! a = em_arrays s ! a"
      by (auto simp: em_insert_def Let_def nth_append split: option.split handler.split) (metis nth_list_update_neq)+
  qed
  with False show ?thesis by simp
qed

lemma last_position_Some: "last_position p xs = Some i \<Longrightarrow> i < length xs \<and> p (xs ! i)"
  by (induction xs arbitrary: i) (auto split: option.splits if_splits)

lemma length_spliceOne: "i < length xs \<Longrightarrow> Suc (length (spliceOne xs i)) = length xs"
  by (induction xs i rule: spliceOne.induct) auto

definition remove_last :: "('a \<Rightarrow> bool) \<Rightarrow> 'a list \<Rightarrow> 'a list" where
  "remove_last p xs = (case last_position p xs of None \<Rightarrow> xs | Some i \<Rightarrow> spliceOne xs i)"

lemma remove_last_single: "remove_last p [x] = (if p x then [] else [x])"
  by (simp add: remove_last_def)

text \<open>The cases of \<open>take_listener\<close>.\<close>

lemma take_cases:
  assumes "em_rep s"
  obtains (none) "take_listener type target s = (None, s)" "remove_last (is_listener target) (rawListeners type s) = rawListeners type s"
  | (last) l where "take_listener type target s = (None, s\<lparr>em_count := 0, em_events := []\<rparr>)"
      "em_events s = [(type, Single l)]" "is_listener target l"
  | (single) l where "take_listener type target s =
        (Some l, s\<lparr>em_count := em_count s - 1, em_events := obj_del type (em_events s)\<rparr>)"
      "obj_get (em_events s) type = Some (Single l)" "is_listener target l"
  | (several) a i where "obj_get (em_events s) type = Some (Several a)"
      "last_position (is_listener target) (em_arrays s ! a) = Some i" "i < length (em_arrays s ! a)"
      "take_listener type target s =
        (Some (em_arrays s ! a ! i),
         let xs = spliceOne (em_arrays s ! a) i; s = s\<lparr>em_arrays := (em_arrays s)[a := xs]\<rparr> in
         if length xs = 1 then s\<lparr>em_events := obj_put type (Single (hd xs)) (em_events s)\<rparr> else s)"
proof -
  consider "obj_get (em_events s) type = None" | e where "obj_get (em_events s) type = Some (Single e)"
    | a where "obj_get (em_events s) type = Some (Several a)"
    by (metis handler.exhaust option.exhaust)
  then show thesis
  proof cases
    case 1
    then show thesis by (intro none) (simp_all add: take_listener_def rawListeners_def remove_last_def)
  next
    case (2 e)
    show thesis
    proof (cases "is_listener target e")
      case False
      with 2 show thesis by (intro none) (simp_all add: take_listener_def rawListeners_def remove_last_def)
    next
      case True
      show thesis
      proof (cases "em_count s = 1")
        case one: True
        then have "length (em_events s) = 1" using assms by (simp add: em_rep_def)
        then obtain x where "em_events s = [x]" by (cases "em_events s") auto
        with 2 have "em_events s = [(type, Single e)]" by (cases x) (auto split: if_splits)
        moreover have "take_listener type target s = (None, s\<lparr>em_count := 0, em_events := []\<rparr>)"
          using 2 True one by (simp add: take_listener_def Let_def)
        ultimately show thesis using last True by blast
      next
        case False
        with 2 True have "take_listener type target s =
            (Some e, s\<lparr>em_count := em_count s - 1, em_events := obj_del type (em_events s)\<rparr>)"
          by (simp add: take_listener_def Let_def)
        with 2 True single show thesis by blast
      qed
    qed
  next
    case (3 a)
    show thesis
    proof (cases "last_position (is_listener target) (em_arrays s ! a)")
      case None
      with 3 show thesis by (intro none) (simp_all add: take_listener_def rawListeners_def remove_last_def)
    next
      case (Some i)
      from last_position_Some [OF this] have "i < length (em_arrays s ! a)" by blast
      with 3 Some show thesis by (intro several) (simp_all add: take_listener_def Let_def)
    qed
  qed
qed

lemma take_raw:
  assumes "em_rep s"
  shows "rawListeners t (snd (take_listener type target s)) =
    (if t = type then remove_last (is_listener target) (rawListeners t s) else rawListeners t s)"
proof (rule take_cases [OF assms, of type target])
  assume "take_listener type target s = (None, s)" "remove_last (is_listener target) (rawListeners type s) = rawListeners type s"
  then show ?thesis by simp
next
  fix l assume "take_listener type target s = (None, s\<lparr>em_count := 0, em_events := []\<rparr>)"
    "em_events s = [(type, Single l)]" "is_listener target l"
  then show ?thesis by (simp add: rawListeners_def remove_last_single)
next
  fix l assume a: "take_listener type target s =
        (Some l, s\<lparr>em_count := em_count s - 1, em_events := obj_del type (em_events s)\<rparr>)"
      "obj_get (em_events s) type = Some (Single l)" "is_listener target l"
  then show ?thesis by (auto simp: rawListeners_def remove_last_single split: option.split handler.split)
next
  fix a i assume g: "obj_get (em_events s) type = Some (Several a)"
    and i: "last_position (is_listener target) (em_arrays s ! a) = Some i" "i < length (em_arrays s ! a)"
    and tk: "take_listener type target s = (Some (em_arrays s ! a ! i),
         let xs = spliceOne (em_arrays s ! a) i; s = s\<lparr>em_arrays := (em_arrays s)[a := xs]\<rparr> in
         if length xs = 1 then s\<lparr>em_events := obj_put type (Single (hd xs)) (em_events s)\<rparr> else s)"
  note a = rep_array [OF assms g]
  have one: "length xs = Suc 0 \<Longrightarrow> [hd xs] = xs" for xs :: "listener_fn list" by (cases xs) auto
  show ?thesis
  proof (cases "t = type")
    case True
    show ?thesis unfolding True using one [of "spliceOne (em_arrays s ! a) i"]
      by (simp add: tk Let_def rawListeners_def remove_last_def g i a(1))
  next
    case False
    have "em_arrays (snd (take_listener type target s)) ! b = em_arrays s ! b"
      if b: "obj_get (em_events s) t = Some (Several b)" for b
    proof -
      have "a \<noteq> b" using a(4) b False by blast
      then show ?thesis by (simp add: tk Let_def)
    qed
    then have "rawListeners t (snd (take_listener type target s)) = rawListeners t s"
      using False by (intro raw_other [OF assms]) (simp_all add: tk Let_def)
    with False show ?thesis by simp
  qed
qed

lemma rep_array_update:
  "em_rep s \<Longrightarrow> obj_get (em_events s) type = Some (Several a) \<Longrightarrow> 2 \<le> length xs \<Longrightarrow>
    em_rep (s\<lparr>em_arrays := (em_arrays s)[a := xs]\<rparr>)"
  by (auto simp: em_rep_def nth_list_update)

lemma rep_single:
  assumes "em_rep s" "obj_get (em_events s) type = Some (Several a)"
  shows "em_rep (s\<lparr>em_arrays := (em_arrays s)[a := xs], em_events := obj_put type (Single l) (em_events s)\<rparr>)"
proof -
  have "length (obj_put type (Single l) (em_events s)) = length (em_events s)"
    using assms(2) by (simp add: length_put obj_has_def)
  moreover have "(em_arrays s)[a := xs] ! b = em_arrays s ! b"
    if "t \<noteq> type" "obj_get (em_events s) t = Some (Several b)" for t b
  proof -
    have "a \<noteq> b" using rep_array(4) [OF assms] that by blast
    then show ?thesis by simp
  qed
  ultimately show ?thesis using assms(1) by (auto simp: em_rep_def split: if_splits)
qed

lemma rep_empty [simp]: "em_rep (s\<lparr>em_events := [], em_count := 0\<rparr>)" "em_rep (s\<lparr>em_count := 0, em_events := []\<rparr>)"
  by (simp_all add: em_rep_def)

lemma take_rep:
  assumes "em_rep s"
  shows "em_rep (snd (take_listener type target s))"
proof (rule take_cases [OF assms, of type target])
  fix l assume "take_listener type target s =
        (Some l, s\<lparr>em_count := em_count s - 1, em_events := obj_del type (em_events s)\<rparr>)"
      "obj_get (em_events s) type = Some (Single l)"
  moreover from this length_del [of "em_events s" type] assms
  have "Suc (length (obj_del type (em_events s))) = length (em_events s)" by (simp add: em_rep_def obj_has_def)
  ultimately show ?thesis using assms by (auto simp: em_rep_def split: if_splits)
next
  fix a i assume g: "obj_get (em_events s) type = Some (Several a)"
    and i: "i < length (em_arrays s ! a)"
    and tk: "take_listener type target s = (Some (em_arrays s ! a ! i),
         let xs = spliceOne (em_arrays s ! a) i; s = s\<lparr>em_arrays := (em_arrays s)[a := xs]\<rparr> in
         if length xs = 1 then s\<lparr>em_events := obj_put type (Single (hd xs)) (em_events s)\<rparr> else s)"
  note a = rep_array [OF assms g] and len = length_spliceOne [OF i]
  let ?xs = "spliceOne (em_arrays s ! a) i"
  show ?thesis
  proof (cases "length ?xs = 1")
    case True
    then show ?thesis using rep_single [OF assms g] by (simp add: tk Let_def)
  next
    case False
    then have "2 \<le> length ?xs" using a(2) len by linarith
    from rep_array_update [OF assms g this] False show ?thesis by (simp add: tk Let_def)
  qed
qed (use assms in simp_all)

interpretation table: listener_table em_rep "\<lambda>s t. rawListeners t s" em_insert "\<lambda>t l s. snd (take_listener t l s)" is_listener
  by unfold_locales
    (auto simp: insert_rep take_rep insert_raw take_raw remove_last_def is_listener_def fun_eq_iff)

text \<open>Everything else the operations do to the table.\<close>

lemma push_same [simp]:
  "em_events (push_tasks ts s) = em_events s" "em_arrays (push_tasks ts s) = em_arrays s"
  "em_count (push_tasks ts s) = em_count s" "em_fired (push_tasks ts s) = em_fired s"
  "em_next (push_tasks ts s) = em_next s" "em_log (push_tasks ts s) = em_log s"
  "em_stack (push_tasks ts s) = ts @ em_stack s"
  by (simp_all add: push_tasks_def)

lemma raw_push [simp]: "rawListeners t (push_tasks ts s) = rawListeners t s"
  by (rule raw_same) simp_all

lemma rep_push [simp]: "em_rep (push_tasks ts s) = em_rep s"
  by (rule rep_same) simp_all

lemma handler_calls_raw:
  "obj_get (em_events s) t = Some h \<Longrightarrow> handler_calls type args h s = map (\<lambda>l. T_call l type args) (rawListeners t s)"
  by (auto simp: handler_calls_def rawListeners_def split: handler.split)

lemma take_push: "take_listener type tg (push_tasks ts s) = (fst (take_listener type tg s), push_tasks ts (snd (take_listener type tg s)))"
  by (auto simp: take_listener_def push_tasks_def Let_def split: option.split handler.split)

lemma removeListener_eq:
  "removeListener type tg s = (let (l, s') = take_listener type tg s in
     if l = None then s'
     else push_tasks (map (\<lambda>k. T_call k ''removeListener'' [A_text type, A_listener (original (the l))])
            (rawListeners ''removeListener'' s')) s')"
  by (auto simp: removeListener_def handler_calls_raw raw_cases(1) push_tasks_def split: prod.split option.split)

lemma addListener_eq:
  "addListener type l p s =
     (if obj_has (em_events s) ''newListener''
      then push_tasks (map (\<lambda>k. T_call k ''newListener'' [A_text type, A_listener (original l)]) (rawListeners ''newListener'' s)
             @ [T_add type l p]) s
      else em_insert type l p s)"
  by (auto simp: addListener_def handler_calls_raw obj_has_def split: option.split)

lemma remove_raw:
  "em_rep s \<Longrightarrow> rawListeners t (removeListener type tg s) =
    (if t = type then remove_last (is_listener tg) (rawListeners t s) else rawListeners t s)"
  using take_raw [of s t type tg] by (auto simp: removeListener_eq split: prod.split)

lemma remove_rep: "em_rep s \<Longrightarrow> em_rep (removeListener type tg s)"
  using take_rep [of s type tg] by (auto simp: removeListener_eq split: prod.split)

lemma rep_drop_type:
  assumes "em_rep s" "obj_has (em_events s) type"
  shows "em_rep (s\<lparr>em_count := em_count s - 1, em_events := obj_del type (em_events s)\<rparr>)"
proof -
  have "Suc (length (obj_del type (em_events s))) = length (em_events s)"
    using length_del [OF _ assms(2)] assms(1) by (simp add: em_rep_def)
  then show ?thesis using assms by (auto simp: em_rep_def split: if_splits)
qed

lemma rep_more [simp]: "em_rep (em_say e s) = em_rep s" "em_rep (s\<lparr>em_fired := ws\<rparr>) = em_rep s"
  "em_rep (s\<lparr>em_next := n\<rparr>) = em_rep s" "em_rep (s\<lparr>em_stack := ts\<rparr>) = em_rep s" "em_rep (s\<lparr>em_max := m\<rparr>) = em_rep s"
  by (simp_all add: em_rep_def em_say_def)

lemma removeAll_rep: "em_rep s \<Longrightarrow> em_rep (removeAllListeners type s)"
  using rep_drop_type [of s type]
  by (auto simp: removeAllListeners_def Let_def remove_rep split: option.split handler.split)

lemma exec_rep: "em_rep s \<Longrightarrow> em_exec t s = (None, s') \<Longrightarrow> em_rep s'"
  by (induction t s rule: em_exec.induct)
    (auto simp: remove_rep insert_rep removeAll_rep Let_def split: if_splits)

section \<open>Runs\<close>

text \<open>
  A step runs the next task, or unwinds the stack to some point when a listener or the emitter throws, or is an operation the
  application calls, at the top level or in the listener that runs.  It adds only functions of its own.
\<close>

inductive em_step :: "emitter \<Rightarrow> emitter \<Rightarrow> bool" where
  em_run_task: "em_stack s = t # ts \<Longrightarrow> em_exec t (s\<lparr>em_stack := ts\<rparr>) = (None, s') \<Longrightarrow> em_step s s'"
| em_throws: "em_step s (s\<lparr>em_stack := drop n (em_stack s)\<rparr>)"
| em_app_on: "em_step s (addListener type (Plain n) prepend s)"
| em_app_once: "em_step s (em_once type n prepend s)"
| em_app_remove: "em_step s (removeListener type target s)"
| em_app_removeAll: "em_step s (removeAllListeners type s)"
| em_app_removeTypes: "em_step s (removeAllTypes s)"
| em_app_emit: "em_step s (snd (em_emit type args s))"
| em_app_max: "em_step s (setMaxListeners n s)"

abbreviation em_run :: "emitter \<Rightarrow> emitter \<Rightarrow> bool" where
  "em_run \<equiv> em_step\<^sup>*\<^sup>*"

lemma step_rep: "em_step s s' \<Longrightarrow> em_rep s \<Longrightarrow> em_rep s'"
proof (induction rule: em_step.induct)
  case (em_run_task s t ts s')
  then show ?case using exec_rep [of "s\<lparr>em_stack := ts\<rparr>" t s'] by simp
qed (auto simp: addListener_eq em_once_def insert_rep remove_rep removeAll_rep removeAllTypes_def em_emit_def setMaxListeners_def
    split: option.split)

lemma run_rep: "em_run new_emitter s \<Longrightarrow> em_rep s"
proof (induction rule: rtranclp_induct)
  case base
  show ?case by (simp add: em_rep_def new_emitter_def)
qed (rule step_rep)

subsection \<open>One call for each \<open>once\<close>\<close>

text \<open>What the stack still holds for one wrapper, from the top: additions, calls and firings.\<close>

datatype token = Tok_add | Tok_call | Tok_fire

fun wrapper_no :: "listener_fn \<Rightarrow> nat option" where
  "wrapper_no (Plain n) = None"
| "wrapper_no (Once w type n) = Some w"

fun token_of :: "nat \<Rightarrow> em_task \<Rightarrow> token option" where
  "token_of w (T_call l type args) = (if wrapper_no l = Some w then Some Tok_call else None)"
| "token_of w (T_fire v n type args) = (if v = w then Some Tok_fire else None)"
| "token_of w (T_add type l prepend) = (if wrapper_no l = Some w then Some Tok_add else None)"
| "token_of w _ = None"

fun tokens :: "nat \<Rightarrow> em_task list \<Rightarrow> token list" where
  "tokens w [] = []"
| "tokens w (t # ts) = (case token_of w t of None \<Rightarrow> tokens w ts | Some k \<Rightarrow> k # tokens w ts)"

definition fired_calls :: "nat \<Rightarrow> em_event list \<Rightarrow> nat" where
  "fired_calls w l = length (filter (\<lambda>e. case e of E_call n v type args \<Rightarrow> v = Some w | _ \<Rightarrow> False) l)"

text \<open>\<open>home w\<close> is the function the wrapper \<open>w\<close> is, with the type it was made for.\<close>

fun at_home :: "(nat \<Rightarrow> string \<times> nat) \<Rightarrow> listener_fn \<Rightarrow> bool" where
  "at_home home (Plain n) = True"
| "at_home home (Once w type n) = (home w = (type, n))"

fun task_at_home :: "(nat \<Rightarrow> string \<times> nat) \<Rightarrow> em_task \<Rightarrow> bool" where
  "task_at_home home (T_call l type args) = at_home home l"
| "task_at_home home (T_add type l prepend) =
     (at_home home l \<and> (case l of Plain n \<Rightarrow> True | Once w t n \<Rightarrow> t = type))"
| "task_at_home home t = True"

definition occurs :: "nat \<Rightarrow> string \<Rightarrow> emitter \<Rightarrow> nat" where
  "occurs w type s = length (filter (\<lambda>l. wrapper_no l = Some w) (rawListeners type s))"

text \<open>The wrapper \<open>w\<close> is unused, or waits to be added, or is registered once with calls pending, or is firing, or has fired.\<close>

definition wrapper_ok :: "string \<Rightarrow> nat \<Rightarrow> emitter \<Rightarrow> bool" where
  "wrapper_ok type w s \<longleftrightarrow>
     (let toks = tokens w (em_stack s) in
      (\<forall>t. t \<noteq> type \<longrightarrow> occurs w t s = 0) \<and> occurs w type s \<le> 1
      \<and> (w \<ge> em_next s \<longrightarrow> toks = [] \<and> occurs w type s = 0 \<and> w \<notin> set (em_fired s))
      \<and> fired_calls w (em_log s) = (if w \<in> set (em_fired s) then 1 else 0)
      \<and> (w \<in> set (em_fired s) \<longrightarrow> occurs w type s = 0)
      \<and> (set toks \<subseteq> {Tok_call} \<or> w \<notin> set (em_fired s) \<and> occurs w type s = 0
           \<and> (toks = [Tok_add] \<or> (\<exists>ts. toks = Tok_fire # ts \<and> set ts \<subseteq> {Tok_call}))))"

definition once_inv :: "(nat \<Rightarrow> string \<times> nat) \<Rightarrow> emitter \<Rightarrow> bool" where
  "once_inv home s \<longleftrightarrow>
     em_rep s
     \<and> (\<forall>type. \<forall>l\<in>set (rawListeners type s). at_home home l)
     \<and> (\<forall>t\<in>set (em_stack s). task_at_home home t)
     \<and> (\<forall>w. wrapper_ok (fst (home w)) w s)"

lemma tokens_append [simp]: "tokens w (ts @ us) = tokens w ts @ tokens w us"
  by (induction ts) (auto split: option.split)

lemma tokens_drop: "\<exists>us. tokens w ts = us @ tokens w (drop n ts)"
  using tokens_append [of w "take n ts" "drop n ts"] by (metis append_take_drop_id)

lemma tokens_calls:
  "tokens w (map (\<lambda>l. T_call l type args) ls) = replicate (length (filter (\<lambda>l. wrapper_no l = Some w) ls)) Tok_call"
  by (induction ls) auto

lemma occurs_same: "em_events s' = em_events s \<Longrightarrow> em_arrays s' = em_arrays s \<Longrightarrow> occurs w t s' = occurs w t s"
  by (simp add: occurs_def raw_same [of s' s])

lemma raw_more [simp]: "rawListeners t (s\<lparr>em_next := k\<rparr>) = rawListeners t s" "rawListeners t (s\<lparr>em_fired := ws\<rparr>) = rawListeners t s"
  "rawListeners t (s\<lparr>em_stack := ts\<rparr>) = rawListeners t s" "rawListeners t (em_say e s) = rawListeners t s"
  by (rule raw_same; simp add: em_say_def)+

lemma occurs_more [simp]: "occurs w t (s\<lparr>em_next := k\<rparr>) = occurs w t s" "occurs w t (s\<lparr>em_fired := ws\<rparr>) = occurs w t s"
  "occurs w t (s\<lparr>em_stack := ts\<rparr>) = occurs w t s" "occurs w t (em_say e s) = occurs w t s"
  by (simp_all add: occurs_def)

lemma occurs_push [simp]: "occurs w t (push_tasks ts s) = occurs w t s"
  by (rule occurs_same) simp_all

text \<open>The invariant under each kind of change.\<close>

lemma wrapper_ok_cong:
  assumes "wrapper_ok type w s" "tokens w (em_stack s') = tokens w (em_stack s)" "\<And>t. occurs w t s' \<le> occurs w t s"
    "em_next s' = em_next s" "em_fired s' = em_fired s" "fired_calls w (em_log s') = fired_calls w (em_log s)"
  shows "wrapper_ok type w s'"
proof -
  have z: "occurs w t s = 0 \<Longrightarrow> occurs w t s' = 0" for t using assms(3) [of t] by simp
  have "occurs w type s \<le> 1 \<Longrightarrow> occurs w type s' \<le> 1" using assms(3) [of type] by linarith
  with assms(1) z show ?thesis unfolding wrapper_ok_def Let_def assms(2,4-6) by auto
qed

lemma once_inv_shrink:
  assumes "once_inv home s" "em_rep s'" "\<And>t. set (rawListeners t s') \<subseteq> set (rawListeners t s)"
    "\<And>w t. occurs w t s' \<le> occurs w t s"
    "em_stack s' = em_stack s" "em_next s' = em_next s" "em_fired s' = em_fired s" "em_log s' = em_log s"
  shows "once_inv home s'"
  using assms(1) wrapper_ok_cong [of _ _ s s'] assms(2-)
  unfolding once_inv_def by (metis (no_types, lifting) subsetD)

lemma once_inv_fresh:
  assumes "once_inv home s" "em_next s \<le> w"
  shows "tokens w (em_stack s) = []" "occurs w t s = 0" "w \<notin> set (em_fired s)"
  using assms by (auto simp: once_inv_def wrapper_ok_def Let_def) (metis not_less_eq_eq not_gr_zero)+

lemma registered:
  assumes "wrapper_ok type w s" "occurs w t s \<noteq> 0"
  shows "t = type" "set (tokens w (em_stack s)) \<subseteq> {Tok_call}" "w \<notin> set (em_fired s)" "w < em_next s"
proof -
  from assms(1) have "\<forall>t. t \<noteq> type \<longrightarrow> occurs w t s = 0" by (simp add: wrapper_ok_def Let_def)
  with assms(2) show t: "t = type" by metis
  show "set (tokens w (em_stack s)) \<subseteq> {Tok_call}" "w \<notin> set (em_fired s)" "w < em_next s"
    using assms unfolding t wrapper_ok_def Let_def by auto
qed

lemma push_calls_inv:
  assumes "once_inv home s"
  shows "once_inv home (push_tasks (map (\<lambda>l. T_call l t args) (rawListeners type s)) s)"
proof -
  let ?s = "push_tasks (map (\<lambda>l. T_call l t args) (rawListeners type s)) s"
  have "wrapper_ok (fst (home w)) w ?s" for w
  proof -
    have ok: "wrapper_ok (fst (home w)) w s" using assms by (simp add: once_inv_def)
    have tok: "tokens w (em_stack ?s) = replicate (occurs w type s) Tok_call @ tokens w (em_stack s)"
      by (simp add: tokens_calls occurs_def)
    show ?thesis
    proof (cases "occurs w type s = 0")
      case True
      then show ?thesis using ok tok by (simp add: wrapper_ok_def Let_def)
    next
      case False
      from registered [OF ok False] have "set (tokens w (em_stack ?s)) \<subseteq> {Tok_call}" "\<not> em_next s \<le> w"
        using tok by auto
      with ok show ?thesis unfolding wrapper_ok_def Let_def by simp
    qed
  qed
  with assms show ?thesis by (auto simp: once_inv_def)
qed

lemma push_silent_inv:
  assumes "once_inv home s" "\<And>w. tokens w ts = []" "\<forall>t\<in>set ts. task_at_home home t"
  shows "once_inv home (push_tasks ts s)"
  using assms wrapper_ok_cong [of _ _ s "push_tasks ts s"] by (auto simp: once_inv_def)

lemma set_spliceOne: "set (spliceOne xs i) \<subseteq> set xs"
  by (induction xs i rule: spliceOne.induct) auto

lemma filter_spliceOne: "length (filter p (spliceOne xs i)) \<le> length (filter p xs)"
  by (induction xs i rule: spliceOne.induct) auto

lemma filter_remove_last: "length (filter p (remove_last q xs)) \<le> length (filter p xs)"
  by (auto simp: remove_last_def filter_spliceOne split: option.split)

lemma set_remove_last: "set (remove_last q xs) \<subseteq> set xs"
  by (auto simp: remove_last_def split: option.split dest: subsetD [OF set_spliceOne])

lemma filter_splice_hit: "last_position p xs = Some i \<Longrightarrow> Suc (length (filter p (spliceOne xs i))) = length (filter p xs)"
proof (induction xs arbitrary: i)
  case (Cons x xs)
  show ?case
  proof (cases "last_position p xs")
    case None
    with Cons.prems show ?thesis by (auto split: if_splits)
  next
    case (Some j)
    with Cons show ?thesis by auto
  qed
qed simp

lemma filter_remove_hit: "length (filter p (remove_last p xs)) = length (filter p xs) - 1"
proof (cases "last_position p xs")
  case None
  then have "filter p xs = []" by (induction xs) (auto split: option.splits if_splits)
  with None show ?thesis by (simp add: remove_last_def)
next
  case (Some i)
  from filter_splice_hit [OF this] Some show ?thesis by (simp add: remove_last_def)
qed

lemma take_same:
  "em_stack (snd (take_listener type tg s)) = em_stack s" "em_next (snd (take_listener type tg s)) = em_next s"
  "em_fired (snd (take_listener type tg s)) = em_fired s" "em_log (snd (take_listener type tg s)) = em_log s"
  by (simp_all add: take_listener_def Let_def split: option.split handler.split)

lemma take_inv:
  assumes "once_inv home s"
  shows "once_inv home (snd (take_listener type tg s))"
proof -
  have r: "em_rep s" using assms by (simp add: once_inv_def)
  show ?thesis
    using filter_remove_last set_remove_last
    by (intro once_inv_shrink [OF assms] take_rep [OF r])
      (auto simp: take_same occurs_def take_raw [OF r] dest: subsetD [OF set_remove_last])
qed

lemma removeListener_inv: "once_inv home s \<Longrightarrow> once_inv home (removeListener type tg s)"
  using take_inv [of home s type tg] push_calls_inv
  by (auto simp: removeListener_eq split: prod.split)

lemma occurs_home:
  assumes "once_inv home s"
  shows "occurs w type s = length (filter (\<lambda>l. l = Once w (fst (home w)) (snd (home w))) (rawListeners type s))"
proof -
  have "filter (\<lambda>l. wrapper_no l = Some w) xs = filter (\<lambda>l. l = Once w (fst (home w)) (snd (home w))) xs"
    if "\<forall>l\<in>set xs. at_home home l" for xs
  proof (rule filter_cong [OF refl])
    fix l assume "l \<in> set xs"
    with that have "at_home home l" by blast
    then show "(wrapper_no l = Some w) = (l = Once w (fst (home w)) (snd (home w)))" by (cases l) auto
  qed
  with assms show ?thesis by (simp add: occurs_def once_inv_def)
qed

text \<open>The wrapper takes itself out of the table before it fires.\<close>

lemma fire_inv:
  assumes inv: "once_inv home s" and w: "w \<notin> set (em_fired s)" "w < em_next s" "home w = (wtype, n)"
    and tok: "set (tokens w (em_stack s)) \<subseteq> {Tok_call}"
  shows "once_inv home (removeListener wtype (Once w wtype n) (push_tasks [T_fire w n type args] s))"
proof -
  let ?l = "Once w wtype n"
  let ?s = "snd (take_listener wtype ?l s)"
  have i: "once_inv home ?s" by (rule take_inv [OF inv])
  have rep: "em_rep s" using inv by (simp add: once_inv_def)
  have hit: "is_listener ?l = (\<lambda>l. l = ?l)" by (auto simp: is_listener_def fun_eq_iff split: listener_fn.split)
  have "wrapper_ok (fst (home w)) w s" using inv by (simp add: once_inv_def)
  then have "occurs w wtype s \<le> 1" using w(3) by (simp add: wrapper_ok_def Let_def)
  then have "occurs w wtype ?s = 0"
    using occurs_home [OF inv, of w wtype] occurs_home [OF i, of w wtype] w(3)
    by (simp add: take_raw [OF rep] hit filter_remove_hit)
  moreover have ok: "wrapper_ok (fst (home v)) v ?s" for v using i by (simp add: once_inv_def)
  ultimately have "wrapper_ok (fst (home v)) v (push_tasks [T_fire w n type args] ?s)" for v
    using ok [of v] tok w by (cases "v = w") (auto simp: wrapper_ok_def Let_def take_same)
  then have fire: "once_inv home (push_tasks [T_fire w n type args] ?s)"
    using i by (auto simp: once_inv_def)
  then show ?thesis
    using push_calls_inv [OF fire] by (auto simp: removeListener_eq take_push split: prod.split)
qed

lemma check_leak_fired: "fired_calls w (em_log (check_leak type a s)) = fired_calls w (em_log s)"
  by (simp add: check_leak_def em_say_def Let_def fired_calls_def)

lemma insert_same:
  "em_stack (em_insert type l p s) = em_stack s" "em_next (em_insert type l p s) = em_next s"
  "em_fired (em_insert type l p s) = em_fired s"
  "fired_calls w (em_log (em_insert type l p s)) = fired_calls w (em_log s)"
  by (auto simp: em_insert_def Let_def check_leak_fired split: option.split handler.split)

lemma insert_inv:
  assumes "once_inv home (push_tasks [T_add type l p] s)"
  shows "once_inv home (em_insert type l p s)"
proof -
  have rep: "em_rep s" using assms by (simp add: once_inv_def)
  let ?s = "em_insert type l p s"
  have occ: "occurs w t ?s = occurs w t s + (if t = type \<and> wrapper_no l = Some w then 1 else 0)" for w t
    by (simp add: occurs_def insert_raw [OF rep])
  have "wrapper_ok (fst (home w)) w ?s" for w
  proof -
    have ok: "wrapper_ok (fst (home w)) w (push_tasks [T_add type l p] s)" using assms by (simp add: once_inv_def)
    show ?thesis
    proof (cases "wrapper_no l = Some w")
      case True
      then have "type = fst (home w)" using assms by (cases l) (auto simp: once_inv_def)
      with True ok occ [of w] show ?thesis by (auto simp: wrapper_ok_def Let_def insert_same split: if_splits)
    next
      case False
      with ok show ?thesis by (simp add: wrapper_ok_def Let_def insert_same occ)
    qed
  qed
  moreover have "\<forall>t. \<forall>k\<in>set (rawListeners t ?s). at_home home k"
    using assms by (auto simp: once_inv_def insert_raw [OF rep] split: if_splits)
  ultimately show ?thesis using assms insert_rep [OF rep] by (auto simp: once_inv_def insert_same)
qed

lemma addListener_inv:
  assumes "once_inv home (push_tasks [T_add type l p] s)"
  shows "once_inv home (addListener type l p s)"
proof (cases "obj_has (em_events s) ''newListener''")
  case True
  have "push_tasks (ts @ us) s = push_tasks ts (push_tasks us s)" for ts us by (simp add: push_tasks_def)
  with True push_calls_inv [OF assms] show ?thesis by (simp add: addListener_eq)
qed (simp add: addListener_eq insert_inv [OF assms])

lemma once_fresh_inv:
  fixes type :: string and n :: nat
  assumes inv: "once_inv home s"
  defines "home' \<equiv> home(em_next s := (type, n))"
  shows "once_inv home' (em_once type n p s)"
proof -
  let ?w = "em_next s"
  let ?s = "push_tasks [T_add type (Once ?w type n) p] (s\<lparr>em_next := Suc ?w\<rparr>)"
  note fresh = once_inv_fresh [OF inv order_refl]
  have occ: "occurs v t ?s = occurs v t s" for v t by (simp add: occurs_def)
  have "wrapper_ok (fst (home' v)) v ?s" for v
  proof (cases "v = ?w")
    case True
    have "fired_calls v (em_log s) = 0"
      using inv fresh(3) True by (auto simp: once_inv_def wrapper_ok_def Let_def)
    with True fresh show ?thesis by (simp add: home'_def wrapper_ok_def Let_def occ)
  next
    case False
    have "wrapper_ok (fst (home v)) v s" using inv by (simp add: once_inv_def)
    with False show ?thesis by (auto simp: home'_def wrapper_ok_def Let_def occ split: if_splits)
  qed
  moreover have "at_home home' l" if "at_home home l" "l \<in> set (rawListeners t s)" for l t
  proof (cases l)
    case (Once w u m)
    have "occurs w t s \<noteq> 0" using that(2) Once by (auto simp: occurs_def filter_empty_conv intro!: bexI [of _ l])
    then have "w \<noteq> ?w" using fresh(2) by auto
    with that(1) Once show ?thesis by (simp add: home'_def)
  qed simp
  moreover have "task_at_home home' t" if "task_at_home home t" "t \<in> set (em_stack s)" for t
  proof -
    have "tokens v ts \<noteq> []" if "t \<in> set ts" "token_of v t \<noteq> None" for v ts
      using that by (induction ts) (auto split: option.split)
    with that(2) fresh(1) have "token_of ?w t = None" by metis
    with that(1) show ?thesis
      by (cases "(home, t)" rule: task_at_home.cases) (auto simp: home'_def split: listener_fn.splits elim!: at_home.elims)
  qed
  moreover have "home' ?w = (type, n)" by (simp add: home'_def)
  ultimately have "once_inv home' ?s"
    using inv by (auto simp: once_inv_def)
  from addListener_inv [of home' type "Once ?w type n" p "s\<lparr>em_next := Suc ?w\<rparr>"] this
  show ?thesis by (simp add: em_once_def)
qed

lemma em_say_same [simp]: "em_stack (em_say e s) = em_stack s" "em_next (em_say e s) = em_next s"
  "em_fired (em_say e s) = em_fired s"
  by (simp_all add: em_say_def)

lemma em_say_inv:
  assumes "once_inv home s" "\<And>w. fired_calls w [e] = 0"
  shows "once_inv home (em_say e s)"
proof -
  have "fired_calls w (em_log (em_say e s)) = fired_calls w (em_log s)" for w
    using assms(2) [of w] by (simp add: em_say_def fired_calls_def split: if_splits)
  then have "wrapper_ok (fst (home w)) w (em_say e s)" for w
    using assms(1) wrapper_ok_cong [of _ w s "em_say e s"] by (simp add: once_inv_def)
  with assms(1) show ?thesis by (simp add: once_inv_def)
qed

lemma clear_inv:
  assumes "once_inv home s" "em_rep s'" "\<And>t. rawListeners t s' = rawListeners t s \<or> rawListeners t s' = []"
    "em_stack s' = em_stack s" "em_next s' = em_next s" "em_fired s' = em_fired s" "em_log s' = em_log s"
  shows "once_inv home s'"
proof (rule once_inv_shrink [OF assms(1,2) _ _ assms(4-7)])
  fix t w
  show "set (rawListeners t s') \<subseteq> set (rawListeners t s)" using assms(3) [of t] by auto
  show "occurs w t s' \<le> occurs w t s" using assms(3) [of t] by (auto simp: occurs_def)
qed

lemma raw_deleted: "rawListeners t (s\<lparr>em_count := k, em_events := obj_del type (em_events s)\<rparr>) =
    (if t = type then [] else rawListeners t s)"
  by (auto simp: rawListeners_def split: option.split handler.split)

lemma raw_nothing: "rawListeners t (s\<lparr>em_count := k, em_events := []\<rparr>) = []"
    "rawListeners t (s\<lparr>em_events := [], em_count := k\<rparr>) = []"
  by (simp_all add: rawListeners_def)

lemma removeAll_inv:
  assumes "once_inv home s"
  shows "once_inv home (removeAllListeners type s)"
proof -
  have rep: "em_rep s" using assms by (simp add: once_inv_def)
  have "once_inv home (s\<lparr>em_count := 0, em_events := []\<rparr>)"
    using assms by (rule clear_inv) (simp_all add: raw_nothing)
  moreover have "once_inv home (s\<lparr>em_count := em_count s - 1, em_events := obj_del type (em_events s)\<rparr>)"
    if "obj_has (em_events s) type"
    using assms rep_drop_type [OF rep that] by (rule clear_inv) (simp_all add: raw_deleted)
  moreover have "once_inv home (push_tasks [T_loop type a n] s)" for a n
    using assms by (rule push_silent_inv) simp_all
  ultimately show ?thesis using assms removeListener_inv [OF assms]
    by (auto simp: removeAllListeners_def Let_def split: option.split handler.split)
qed

lemma fired_inv:
  assumes inv: "once_inv home s" and st: "em_stack s = T_fire w n type args # ts"
  shows "once_inv home (em_say (E_call n (Some w) type args) (s\<lparr>em_stack := ts, em_fired := w # em_fired s\<rparr>))"
    (is "once_inv home ?s")
proof -
  have "wrapper_ok (fst (home v)) v ?s" for v
  proof -
    have ok: "wrapper_ok (fst (home v)) v s" using inv by (simp add: once_inv_def)
    have occ: "occurs v t ?s = occurs v t s" for t by (rule occurs_same) (simp_all add: em_say_def)
    show ?thesis
    proof (cases "v = w")
      case True
      with ok st show ?thesis unfolding wrapper_ok_def Let_def occ
        by (auto simp: em_say_def fired_calls_def)
    next
      case False
      with ok st show ?thesis unfolding wrapper_ok_def Let_def occ
        by (auto simp: em_say_def fired_calls_def)
    qed
  qed
  moreover have "rawListeners t ?s = rawListeners t s" for t by (rule raw_same) (simp_all add: em_say_def)
  moreover have "em_rep ?s = em_rep s" by (rule rep_same) (simp_all add: em_say_def)
  ultimately show ?thesis using inv st by (auto simp: once_inv_def em_say_def)
qed

lemma drop_inv: "once_inv home s \<Longrightarrow> once_inv home (s\<lparr>em_stack := drop n (em_stack s)\<rparr>)"
proof -
  assume inv: "once_inv home s"
  have "wrapper_ok (fst (home w)) w (s\<lparr>em_stack := drop n (em_stack s)\<rparr>)" for w
  proof -
    have ok: "wrapper_ok (fst (home w)) w s" using inv by (simp add: once_inv_def)
    obtain us where us: "tokens w (em_stack s) = us @ tokens w (drop n (em_stack s))" using tokens_drop by blast
    show ?thesis
    proof (cases us)
      case Nil
      with ok us show ?thesis by (simp add: wrapper_ok_def Let_def)
    next
      case (Cons u vs)
      with us ok have "set (tokens w (drop n (em_stack s))) \<subseteq> {Tok_call}"
        by (auto simp: wrapper_ok_def Let_def append_eq_Cons_conv)
      with ok us show ?thesis by (auto simp: wrapper_ok_def Let_def)
    qed
  qed
  with inv show ?thesis by (auto simp: once_inv_def dest: in_set_dropD)
qed

lemma pop_silent: "once_inv home s \<Longrightarrow> em_stack s = t # ts \<Longrightarrow> once_inv home (s\<lparr>em_stack := ts\<rparr>)"
  using drop_inv [of home s 1] by simp

lemma silent_then: "once_inv home s \<Longrightarrow> (\<And>w. token_of w t = None) \<Longrightarrow> task_at_home home t \<Longrightarrow> once_inv home (push_tasks [t] s)"
  by (rule push_silent_inv) simp_all

text \<open>Every task and every step keeps the invariant.\<close>

lemma exec_inv:
  assumes inv: "once_inv home s" and st: "em_stack s = t # ts"
    and ex: "em_exec t (s\<lparr>em_stack := ts\<rparr>) = (None, s')"
  shows "once_inv home s'"
proof -
  let ?s = "s\<lparr>em_stack := ts\<rparr>"
  have pop: "once_inv home ?s" by (rule pop_silent [OF inv st])
  show ?thesis
  proof (cases t)
    case (T_call l type args)
    show ?thesis
    proof (cases l)
      case (Plain n)
      with T_call ex em_say_inv [OF pop, of "E_call n None type args"] show ?thesis by (simp add: fired_calls_def)
    next
      case (Once w wtype n)
      have home: "home w = (wtype, n)" using inv st T_call Once by (simp add: once_inv_def)
      have ok: "wrapper_ok wtype w s" using inv home by (auto simp: once_inv_def dest: spec [of _ w])
      show ?thesis
      proof (cases "w \<in> set (em_fired s)")
        case True
        with T_call Once ex pop show ?thesis by simp
      next
        case False
        from ok st T_call Once have "\<not> em_next s \<le> w" "set (tokens w ts) \<subseteq> {Tok_call}"
          by (auto simp: wrapper_ok_def Let_def)
        with fire_inv [OF pop, of w wtype n type args] False home T_call Once ex show ?thesis by simp
      qed
    qed
  next
    case (T_fire w n type args)
    with fired_inv [OF inv, of w n type args ts] st ex show ?thesis by simp
  next
    case (T_add type l p)
    have "push_tasks [T_add type l p] ?s = s" using st T_add by (simp add: push_tasks_def)
    with insert_inv [of home type l p ?s] inv T_add ex show ?thesis by simp
  next
    case (T_loop type a i)
    show ?thesis
    proof (cases i)
      case 0
      with T_loop ex pop show ?thesis by simp
    next
      case (Suc j)
      have "once_inv home (push_tasks [T_loop type a j] ?s)" by (rule silent_then [OF pop]) simp_all
      from removeListener_inv [OF this] Suc T_loop ex show ?thesis by (auto split: if_splits)
    qed
  next
    case (T_keys ks)
    show ?thesis
    proof (cases ks)
      case Nil
      with T_keys ex pop show ?thesis by simp
    next
      case (Cons k js)
      have "once_inv home (push_tasks [T_keys js] ?s)" by (rule silent_then [OF pop]) simp_all
      with removeAll_inv [OF this] Cons T_keys ex show ?thesis by (auto simp: Let_def split: if_splits)
    qed
  next
    case (T_all type)
    with T_all removeAll_inv [OF pop, of type] ex show ?thesis by simp
  next
    case T_reset
    have "once_inv home (?s\<lparr>em_events := [], em_count := 0\<rparr>)"
      by (rule clear_inv [OF pop]) (simp_all add: raw_nothing)
    with T_reset ex show ?thesis by simp
  qed
qed

lemma plain_add_inv: "once_inv home s \<Longrightarrow> once_inv home (addListener type (Plain n) p s)"
  by (rule addListener_inv) (rule silent_then; simp)

lemma removeTypes_inv: "once_inv home s \<Longrightarrow> once_inv home (removeAllTypes s)"
proof -
  assume inv: "once_inv home s"
  have "once_inv home (s\<lparr>em_events := [], em_count := 0\<rparr>)"
    by (rule clear_inv [OF inv]) (simp_all add: raw_nothing)
  moreover have "once_inv home (push_tasks [T_keys ks, T_all k, T_reset] s)" for ks k
    by (rule push_silent_inv [OF inv]) simp_all
  ultimately show ?thesis by (simp add: removeAllTypes_def)
qed

lemma emit_eq:
  "em_emit type args s =
     (if type = ''error'' \<and> \<not> obj_has (em_events s) type then (Inl (PlainError ''Unhandled \"error\" event.''), s)
      else if \<not> obj_has (em_events s) type then (Inr False, s)
      else (Inr True, push_tasks (map (\<lambda>l. T_call l type args) (rawListeners type s)) s))"
  by (auto simp: em_emit_def handler_calls_raw obj_has_def split: option.split)

lemma step_inv:
  assumes "em_step s s'" "once_inv home s"
  shows "\<exists>home'. once_inv home' s'"
  using assms
proof (cases rule: em_step.cases)
  case (em_run_task t ts)
  with exec_inv assms(2) show ?thesis by blast
next
  case (em_app_once type n p)
  with once_fresh_inv [OF assms(2)] show ?thesis by blast
next
  case (em_app_emit type args)
  with push_calls_inv [OF assms(2)] assms(2) show ?thesis by (auto simp: emit_eq split: if_splits)
next
  case (em_app_max n)
  have "once_inv home (setMaxListeners n s)"
    by (rule clear_inv [OF assms(2)]) (use assms(2) in \<open>auto simp: setMaxListeners_def once_inv_def intro: raw_same\<close>)
  with em_app_max show ?thesis by blast
qed (use assms(2) drop_inv plain_add_inv removeListener_inv removeAll_inv removeTypes_inv in blast)+

lemma run_inv: "em_run new_emitter s \<Longrightarrow> \<exists>home. once_inv home s"
proof (induction rule: rtranclp_induct)
  case base
  have "once_inv (\<lambda>_. ([], 0)) new_emitter"
    by (simp add: once_inv_def em_rep_def new_emitter_def wrapper_ok_def rawListeners_def occurs_def fired_calls_def)
  then show ?case by blast
next
  case (step s s')
  then show ?case using step_inv by blast
qed

section \<open>Properties\<close>

text \<open>
  C16. In every run, with listeners that add, remove and emit while others are still to be called and with
  exceptions that unwind any number of them, a listener added by one call of \<open>once\<close> is called at most once for it, is in the
  table at most once, and is in it no more when it is called.
\<close>

theorem once_called_once:
  assumes "em_run new_emitter s"
  shows "\<forall>w. fired_calls w (em_log s) \<le> 1
    \<and> (\<exists>type. occurs w type s \<le> 1 \<and> (\<forall>t. t \<noteq> type \<longrightarrow> occurs w t s = 0)
        \<and> (0 < fired_calls w (em_log s) \<longrightarrow> occurs w type s = 0))"
proof -
  from run_inv [OF assms] obtain home where "once_inv home s" by blast
  then have "wrapper_ok (fst (home w)) w s" for w by (simp add: once_inv_def)
  then show ?thesis unfolding wrapper_ok_def Let_def by (metis le_numeral_extra(3) le_numeral_extra(4) less_irrefl zero_le)
qed

text \<open>
  C15. In every run the table, whose entries are single functions or arrays that are shared and changed in place, is the map from
  types to lists one expects: adding puts a listener at the end or the front, removing takes the last
  that matches, \<open>removeAllListeners\<close> without a listener of \<open>removeListener\<close> empties a type,
  \<open>emit\<close> calls exactly the listeners registered when it starts, in order, and the
  reading operations report that map.
\<close>

theorem emitter_is_map:
  assumes "em_run new_emitter s"
  shows "rawListeners t (em_insert type l p s) =
      (if t = type then if p then l # rawListeners t s else rawListeners t s @ [l] else rawListeners t s)
    \<and> rawListeners t (removeListener type l s) =
      (if t = type then remove_last (is_listener l) (rawListeners t s) else rawListeners t s)
    \<and> (rawListeners ''removeListener'' s = [] \<longrightarrow>
        rawListeners t (removeAllListeners type s) = (if t = type then [] else rawListeners t s)
        \<and> rawListeners t (removeAllTypes s) = [])
    \<and> em_emit type args s =
      (if rawListeners type s \<noteq> [] then (Inr True, push_tasks (map (\<lambda>l. T_call l type args) (rawListeners type s)) s)
       else if type = ''error'' then (Inl (PlainError ''Unhandled \"error\" event.''), s)
       else (Inr False, s))
    \<and> em_listeners t s = map original (rawListeners t s) \<and> listenerCount t s = length (rawListeners t s)
    \<and> set (eventNames s) = {k. rawListeners k s \<noteq> []}"
proof -
  have rep: "em_rep s" by (rule run_rep [OF assms])
  have has: "obj_has (em_events s) k \<longleftrightarrow> rawListeners k s \<noteq> []" for k
    using rep_array(2) [OF rep, of k] by (fastforce simp: obj_has_def rawListeners_def split: option.splits handler.splits)
  have all: "rawListeners t (removeAllListeners type s) = (if t = type then [] else rawListeners t s)
        \<and> rawListeners t (removeAllTypes s) = []"
    if "rawListeners ''removeListener'' s = []"
  proof -
    have one: "rawListeners t s = []" if "em_count s = 1" "obj_has (em_events s) type" "t \<noteq> type"
    proof -
      have "length (em_events s) = 1" using rep that(1) by (simp add: em_rep_def)
      then obtain x where "em_events s = [x]" by (cases "em_events s") auto
      with that(2,3) show ?thesis by (cases x) (auto simp: rawListeners_def obj_has_def split: if_splits)
    qed
    have "\<not> obj_has (em_events s) ''removeListener''" using that has by simp
    then show ?thesis using one has [of type]
      by (auto simp: removeAllListeners_def removeAllTypes_def Let_def raw_deleted raw_nothing)
  qed
  have names: "set (eventNames s) = {k. rawListeners k s \<noteq> []}"
  proof -
    have "set (eventNames s) = fst ` set (em_events s)" using rep by (cases "em_events s") (auto simp: eventNames_def em_rep_def)
    also have "\<dots> = {k. obj_has (em_events s) k}" by (auto simp: obj_has_iff)
    finally show ?thesis by (simp add: has)
  qed
  have read: "em_listeners t s = map original (rawListeners t s)" "listenerCount t s = length (rawListeners t s)"
    by (auto simp: em_listeners_def listenerCount_def rawListeners_def split: option.split handler.split)
  show ?thesis
    using all names read insert_raw [OF rep, of t type l p] remove_raw [OF rep, of t type l]
    by (simp add: emit_eq has)
qed

definition demo_emitter :: emitter where
  "demo_emitter = em_once ''ended'' 7 False (addListener ''ended'' (Plain 3) False new_emitter)"

lemma demo_emitter_run: "em_run new_emitter demo_emitter"
  unfolding demo_emitter_def by (rule rtranclp.rtrancl_into_rtrancl [OF r_into_rtranclp]) (rule em_app_on em_app_once)+

theorem once_called_once_witness: "\<forall>w. fired_calls w (em_log demo_emitter) \<le> 1"
  using once_called_once [OF demo_emitter_run] by blast

theorem emitter_is_map_witness:
  "rawListeners ''ended'' demo_emitter = [Plain 3, Once 0 ''ended'' 7]
   \<and> rawListeners ''ended'' (removeListener ''ended'' (Plain 7) demo_emitter) = [Plain 3]"
proof -
  have raw: "rawListeners ''ended'' demo_emitter = [Plain 3, Once 0 ''ended'' 7]"
    by (simp add: demo_emitter_def em_once_def addListener_def em_insert_def new_emitter_def rawListeners_def check_leak_def
        getMaxListeners_def defaultMaxListeners_def Let_def)
  then show ?thesis
    using emitter_is_map [OF demo_emitter_run, of "''ended''" "''ended''" "Plain 7"] raw
    by (simp add: remove_last_def is_listener_def)
qed

end
