(* ===== verification/Session_Base.thy ===== *)
theory Session_Base
  imports Dialog Js_Number
begin

text \<open>
  The class \<open>RTCSession\<close> (lines 17332-20629 of \<open>frontend/static/js/jssip-3.10.0.js\<close>): its state, the
  events it emits, how it closes, its timers, the local media status, the directions it offers
  while on hold and the session timers of RFC 4028.  An operation is an action: a function that
  takes the session and returns the exception it throws, if any, and the session as it leaves it.
  What it asks of others (replies, requests in the dialog, the user agent's table, events) is the log
  \<open>se_log\<close>; what it asks of the browser and waits for is a list of jobs.
\<close>

section \<open>State\<close>

datatype se_status =
    S_NULL | S_INVITE_SENT | S_1XX_RECEIVED | S_INVITE_RECEIVED | S_WAITING_FOR_ANSWER
  | S_ANSWERED | S_WAITING_FOR_ACK | S_CANCELED | S_TERMINATED | S_CONFIRMED

fun se_status_number :: "se_status \<Rightarrow> nat" where
  "se_status_number S_NULL = 0"
| "se_status_number S_INVITE_SENT = 1"
| "se_status_number S_1XX_RECEIVED = 2"
| "se_status_number S_INVITE_RECEIVED = 3"
| "se_status_number S_WAITING_FOR_ANSWER = 4"
| "se_status_number S_ANSWERED = 5"
| "se_status_number S_WAITING_FOR_ACK = 6"
| "se_status_number S_CANCELED = 7"
| "se_status_number S_TERMINATED = 8"
| "se_status_number S_CONFIRMED = 9"

datatype originator = Local | Remote | System

datatype se_direction = D_incoming | D_outgoing

text \<open>
  What the session emits, and what it asks of its user agent, its dialog and its transactions, in order.
  The end of an application's hold, unhold or renegotiation is told by the number of the operation.
\<close>

datatype se_event =
    Se_emit string
  | Se_connecting
  | Se_progress originator "in_response option"
  | Se_accepted originator "in_response option"
  | Se_confirmed originator
  | Se_private_failed originator "in_response option" cause
  | Se_ended originator cause
  | Se_failed originator cause
  | Se_hold originator
  | Se_unhold originator
  | Se_muted bool bool
  | Se_unmuted bool bool
  | Se_reply in_request nat "string option" "string list" "string option"
  | Se_request dialog_id sip_method "string list" "string option"
  | Se_send_invite out_request
  | Se_cancel "string option"
  | Se_new originator
  | Se_destroy
  | Se_dialog_new dialog_id
  | Se_dialog_terminate dialog_id
  | Se_done nat
  | Se_dtmf originator string nat
  | Se_insert_dtmf string nat nat
  | Se_info originator "string option" "string option"
  | Se_subscriber nat string

datatype se_timer =
    T_ack
  | T_expires in_request
  | T_invite2xx in_request "string option" nat
  | T_no_answer in_request
  | T_refresh
  | T_session_expired
  | T_dtmf nat nat nat "string list"

text \<open>The browser's peer connection: whether it was closed, and the \<open>enabled\<close> flags of the local tracks.\<close>

record peer_connection =
  pc_closed :: bool
  pc_audio :: "bool list"
  pc_video :: "bool list"

record session_timers =
  st_enabled :: bool
  st_refreshMethod :: sip_method
  st_defaultExpires :: nat
  st_currentExpires :: "nat option"
  st_running :: bool
  st_refresher :: bool
  st_timer :: "nat option"

text \<open>
  A request in the dialog that carries an offer, or an UPDATE without one: its method, whether it has an
  offer, whether the application's operation is told its end (a session refresh tells nobody)
  and whether a success was seen.
\<close>

record se_op =
  op_method :: sip_method
  op_offer :: bool
  op_handlers :: "string option"
  op_succeeded :: bool

text \<open>
  What waits for the browser.  The jobs marked in \<open>in_queue\<close> are links of the chain
  \<open>_connectionPromiseQueue\<close>: one starts once those before it have settled.  \<open>se_rejected\<close>: the chain
  was left rejected, so the next link goes straight to its handler of failures.
\<close>

datatype se_job =
    J_invite_media bool
  | J_invite_offer
  | J_progress in_response
  | J_accept_offer in_response
  | J_accept_remote in_response
  | J_answer_media in_request bool "string list"
  | J_answer_remote in_request "string list"
  | J_answer_desc in_request bool "string list"
  | J_ack_remote
  | J_offer_remote in_request bool
  | J_offer_desc in_request
  | J_late_desc in_request
  | J_reoffer nat "string list"
  | J_reanswer nat in_response

fun in_queue :: "se_job \<Rightarrow> bool" where
  "in_queue (J_progress r) = True"
| "in_queue (J_accept_offer r) = True"
| "in_queue (J_answer_remote r h) = True"
| "in_queue J_ack_remote = True"
| "in_queue (J_offer_remote r b) = True"
| "in_queue (J_offer_desc r) = True"
| "in_queue (J_late_desc r) = True"
| "in_queue (J_reoffer n h) = True"
| "in_queue (J_reanswer n r) = True"
| "in_queue j = False"

record session =
  se_id :: string
  se_status :: se_status
  se_direction :: "se_direction option"
  se_dialog :: "dialog option"
  se_early :: "dialog js_object"
  se_contact :: string
  se_from_tag :: "string option"
  se_to_tag :: "string option"
  se_connection :: "peer_connection option"
  se_incoming :: "in_request option"
  se_outgoing :: "out_request option"
  se_is_canceled :: bool
  se_cancel_reason :: "string option"
  se_is_confirmed :: bool
  se_late_sdp :: bool
  se_stream :: bool
  se_stream_generated :: bool
  se_stream_closed :: bool
  se_rtcReady :: bool
  se_iceReady :: bool
  se_ackTimer :: "nat option"
  se_expiresTimer :: "nat option"
  se_invite2xxTimer :: "nat option"
  se_noAnswerTimer :: "nat option"
  se_tones :: "string option"
  se_audioMuted :: bool
  se_videoMuted :: bool
  se_localHold :: bool
  se_remoteHold :: bool
  se_timers :: session_timers
  se_subscribers :: "nat js_object"
  se_bye_later :: "(string list \<times> string option) option"
  se_ops :: "se_op list"
  se_jobs :: "(se_job \<times> bool) list"
  se_rejected :: bool
  se_pending :: "(nat \<times> se_timer \<times> js_num) list"
  se_next :: nat
  se_log :: "se_event list"

record se_config =
  sc_session_timers :: bool
  sc_refresh_method :: sip_method
  sc_force_refresher :: bool
  sc_no_answer_timeout :: nat

definition new_session :: "se_config \<Rightarrow> session" where
  "new_session cfg =
     \<lparr>se_id = [], se_status = S_NULL, se_direction = None, se_dialog = None, se_early = [], se_contact = [],
      se_from_tag = None, se_to_tag = None, se_connection = None, se_incoming = None, se_outgoing = None,
      se_is_canceled = False, se_cancel_reason = Some [], se_is_confirmed = False, se_late_sdp = False,
      se_stream = False, se_stream_generated = False, se_stream_closed = False, se_rtcReady = True, se_iceReady = False,
      se_ackTimer = None, se_expiresTimer = None, se_invite2xxTimer = None, se_noAnswerTimer = None,
      se_tones = None, se_audioMuted = False, se_videoMuted = False, se_localHold = False, se_remoteHold = False,
      se_timers = \<lparr>st_enabled = sc_session_timers cfg, st_refreshMethod = sc_refresh_method cfg,
        st_defaultExpires = SESSION_EXPIRES, st_currentExpires = None, st_running = False, st_refresher = False,
        st_timer = None\<rparr>,
      se_subscribers = [], se_bye_later = None, se_ops = [], se_jobs = [], se_rejected = False, se_pending = [], se_next = 0, se_log = []\<rparr>"

section \<open>Actions\<close>

type_synonym se_act = "session \<Rightarrow> js_error option \<times> session"

definition upd :: "(session \<Rightarrow> session) \<Rightarrow> se_act" where
  "upd f s = (None, f s)"

definition throw :: "js_error \<Rightarrow> se_act" where
  "throw e s = (Some e, s)"

definition skip :: se_act where
  "skip s = (None, s)"

text \<open>The actions in turn, up to the first that throws.\<close>

fun run :: "se_act list \<Rightarrow> se_act" where
  "run [] s = (None, s)"
| "run (a # as) s = (case a s of (None, s) \<Rightarrow> run as s | (Some e, s) \<Rightarrow> (Some e, s))"

text \<open>\<open>try\<close> \<open>a\<close> \<open>catch\<close> \<open>b\<close>.\<close>

definition catch_act :: "se_act \<Rightarrow> se_act \<Rightarrow> se_act" where
  "catch_act a b s = (case a s of (None, s) \<Rightarrow> (None, s) | (Some e, s) \<Rightarrow> b s)"

definition when_act :: "bool \<Rightarrow> se_act \<Rightarrow> se_act" where
  "when_act c a = (if c then a else skip)"

definition say :: "se_event \<Rightarrow> se_act" where
  "say e = upd (\<lambda>s. s\<lparr>se_log := se_log s @ [e]\<rparr>)"

definition set_status :: "se_status \<Rightarrow> se_act" where
  "set_status st = upd (\<lambda>s. s\<lparr>se_status := st\<rparr>)"

text \<open>A job with whether it was started: a new one waits its turn, one that continues a chain does not.\<close>

definition add_job :: "se_job \<Rightarrow> se_act" where
  "add_job j = upd (\<lambda>s. s\<lparr>se_jobs := se_jobs s @ [(j, False)]\<rparr>)"

definition continue_job :: "se_job \<Rightarrow> se_act" where
  "continue_job j = upd (\<lambda>s. s\<lparr>se_jobs := (j, True) # se_jobs s\<rparr>)"

definition se_setTimeout :: "se_timer \<Rightarrow> js_num \<Rightarrow> (nat \<Rightarrow> session \<Rightarrow> session) \<Rightarrow> se_act" where
  "se_setTimeout k delay store =
     upd (\<lambda>s. store (se_next s) (s\<lparr>se_pending := se_pending s @ [(se_next s, k, delay)], se_next := Suc (se_next s)\<rparr>))"

definition clear_handles :: "nat option list \<Rightarrow> session \<Rightarrow> session" where
  "clear_handles hs s = s\<lparr>se_pending := filter (\<lambda>(h, _). Some h \<notin> set hs) (se_pending s)\<rparr>"

definition se_clearTimeout :: "(session \<Rightarrow> nat option) \<Rightarrow> se_act" where
  "se_clearTimeout field = upd (\<lambda>s. clear_handles [field s] s)"

section \<open>What the application may ask\<close>

definition isInProgress :: "session \<Rightarrow> bool" where
  "isInProgress s = (case se_status s of
     S_NULL \<Rightarrow> True | S_INVITE_SENT \<Rightarrow> True | S_1XX_RECEIVED \<Rightarrow> True | S_INVITE_RECEIVED \<Rightarrow> True
   | S_WAITING_FOR_ANSWER \<Rightarrow> True | _ \<Rightarrow> False)"

definition isEstablished :: "session \<Rightarrow> bool" where
  "isEstablished s = (case se_status s of
     S_ANSWERED \<Rightarrow> True | S_WAITING_FOR_ACK \<Rightarrow> True | S_CONFIRMED \<Rightarrow> True | _ \<Rightarrow> False)"

definition isEnded :: "session \<Rightarrow> bool" where
  "isEnded s = (case se_status s of S_CANCELED \<Rightarrow> True | S_TERMINATED \<Rightarrow> True | _ \<Rightarrow> False)"

definition isMuted :: "session \<Rightarrow> bool \<times> bool" where
  "isMuted s = (se_audioMuted s, se_videoMuted s)"

definition isOnHold :: "session \<Rightarrow> bool \<times> bool" where
  "isOnHold s = (se_localHold s, se_remoteHold s)"

section \<open>Closing\<close>

definition end_dialog :: "dialog \<Rightarrow> se_act" where
  "end_dialog d = say (Se_dialog_terminate (dl_id d))"

definition se_close :: se_act where
  "se_close s =
     run
       [when_act (se_stream s \<and> se_stream_generated s) (upd (\<lambda>s. s\<lparr>se_stream_closed := True\<rparr>)),
        (if se_status s = S_TERMINATED then skip
         else run
           [set_status S_TERMINATED,
            upd (\<lambda>s. s\<lparr>se_connection := map_option (\<lambda>c. c\<lparr>pc_closed := True\<rparr>) (se_connection s)\<rparr>),
            upd (\<lambda>s. clear_handles [se_ackTimer s, se_expiresTimer s, se_invite2xxTimer s, se_noAnswerTimer s] s),
            upd (\<lambda>s. clear_handles [st_timer (se_timers s)] s),
            (\<lambda>s. case se_dialog s of None \<Rightarrow> (None, s) | Some d \<Rightarrow> end_dialog d s),
            upd (\<lambda>s. s\<lparr>se_dialog := None\<rparr>),
            (\<lambda>s. run (map (\<lambda>(_, d). end_dialog d) (se_early s)) s),
            upd (\<lambda>s. s\<lparr>se_early := [], se_subscribers := []\<rparr>),
            say Se_destroy])] s"

definition se_new :: "originator \<Rightarrow> se_act" where
  "se_new originator = say (Se_new originator)"

definition se_connecting :: se_act where
  "se_connecting = say Se_connecting"

definition se_progress :: "originator \<Rightarrow> in_response option \<Rightarrow> se_act" where
  "se_progress originator response = say (Se_progress originator response)"

definition se_accepted :: "originator \<Rightarrow> in_response option \<Rightarrow> se_act" where
  "se_accepted originator response = say (Se_accepted originator response)"

definition se_confirmed :: "originator \<Rightarrow> se_act" where
  "se_confirmed originator = run [upd (\<lambda>s. s\<lparr>se_is_confirmed := True\<rparr>), say (Se_confirmed originator)]"

definition se_ended :: "originator \<Rightarrow> cause \<Rightarrow> se_act" where
  "se_ended originator cause = run [se_close, say (Se_ended originator cause)]"

definition se_failed :: "originator \<Rightarrow> in_response option \<Rightarrow> cause \<Rightarrow> se_act" where
  "se_failed originator response cause =
     run [say (Se_private_failed originator response cause), se_close, say (Se_failed originator cause)]"

section \<open>Running actions\<close>

named_theorems act_simps

lemma act_apply [simp, act_simps]:
  "say ev s = (None, s\<lparr>se_log := se_log s @ [ev]\<rparr>)" "set_status st s = (None, s\<lparr>se_status := st\<rparr>)"
  "upd f s = (None, f s)" "skip s = (None, s)" "throw x s = (Some x, s)"
  "add_job j s = (None, s\<lparr>se_jobs := se_jobs s @ [(j, False)]\<rparr>)"
  "continue_job j s = (None, s\<lparr>se_jobs := (j, True) # se_jobs s\<rparr>)"
  "when_act c a s = (if c then a s else (None, s))"
  "se_clearTimeout field s = (None, clear_handles [field s] s)"
  "catch_act a b s = (case a s of (None, s) \<Rightarrow> (None, s) | (Some x, s) \<Rightarrow> b s)"
  "se_setTimeout k delay store s =
    (None, store (se_next s) (s\<lparr>se_pending := se_pending s @ [(se_next s, k, delay)], se_next := Suc (se_next s)\<rparr>))"
  by (simp_all add: say_def set_status_def upd_def skip_def throw_def add_job_def continue_job_def when_act_def
      se_clearTimeout_def catch_act_def se_setTimeout_def)

lemma run_append: "run (as @ bs) s = (case run as s of (None, s) \<Rightarrow> run bs s | (Some e, s) \<Rightarrow> (Some e, s))"
proof (induction as arbitrary: s)
  case (Cons a as)
  then show ?case by (cases "a s"; cases "fst (a s)") auto
qed simp

lemma run_run [simp, act_simps]: "run (run as # bs) s = run (as @ bs) s"
  by (simp add: run_append)

lemma run_one [simp, act_simps]: "run [a] s = a s"
  by (simp split: prod.split option.split)

section \<open>Actions that keep a property\<close>

definition keeps :: "(session \<Rightarrow> bool) \<Rightarrow> se_act \<Rightarrow> bool" where
  "keeps P a \<longleftrightarrow> (\<forall>s. P s \<longrightarrow> P (snd (a s)))"

named_theorems keeps_intro

lemma keepsI: "(\<And>s. P s \<Longrightarrow> P (snd (a s))) \<Longrightarrow> keeps P a"
  by (simp add: keeps_def)

lemma keepsD: "keeps P a \<Longrightarrow> P s \<Longrightarrow> P (snd (a s))"
  by (simp add: keeps_def)

lemma keeps_run [keeps_intro]: "\<forall>a\<in>set as. keeps P a \<Longrightarrow> keeps P (run as)"
proof (rule keepsI)
  fix s assume "\<forall>a\<in>set as. keeps P a" "P s"
  then show "P (snd (run as s))"
  proof (induction as arbitrary: s)
    case (Cons a as)
    have "P (snd (a s))" using Cons.prems by (auto dest: keepsD)
    then show ?case using Cons by (auto split: prod.split option.split)
  qed simp
qed

lemma keeps_basic [keeps_intro]:
  "keeps P skip" "keeps P (throw e)" "(\<And>s. P s \<Longrightarrow> P (f s)) \<Longrightarrow> keeps P (upd f)" "keeps P a \<Longrightarrow> keeps P (when_act c a)"
  "keeps P a \<Longrightarrow> keeps P b \<Longrightarrow> keeps P (catch_act a b)"
  by (fastforce simp: keeps_def skip_def throw_def upd_def when_act_def catch_act_def split: prod.splits option.splits)+

text \<open>An action that first reads the session.\<close>

lemma keeps_read [keeps_intro]: "(\<And>t. P t \<Longrightarrow> keeps P (a t)) \<Longrightarrow> keeps P (\<lambda>s. a s s)"
  by (simp add: keeps_def)

lemma keeps_either [keeps_intro]: "(c \<Longrightarrow> keeps P a) \<Longrightarrow> (\<not> c \<Longrightarrow> keeps P b) \<Longrightarrow> keeps P (if c then a else b)"
  by simp

end
