(* ===== verification/Session_Media.thy ===== *)
theory Session_Media
  imports Session_Base
begin

text \<open>
  Muting and holding in \<open>RTCSession\<close>: the local tracks (lines 18309-18380, 20259-20286, 20380-20420 and
  20510-20560 of \<open>frontend/static/js/jssip-3.10.0.js\<close>) and the directions offered while on hold
  (\<open>_mangleOffer\<close>, lines 20169-20257).  The text of a description is read and written by the bundled
  library sdp-transform, a parameter where it is used; the model has the fields the session reads.
\<close>

section \<open>Local tracks\<close>

definition no_connection :: js_error where
  "no_connection = TypeError ''Cannot read property getSenders of null''"

definition toggleMuteAudio :: "bool \<Rightarrow> se_act" where
  "toggleMuteAudio mute s =
     (case se_connection s of
        None \<Rightarrow> (Some no_connection, s)
      | Some c \<Rightarrow> (None, s\<lparr>se_connection := Some (c\<lparr>pc_audio := map (\<lambda>_. \<not> mute) (pc_audio c)\<rparr>)\<rparr>))"

definition toggleMuteVideo :: "bool \<Rightarrow> se_act" where
  "toggleMuteVideo mute s =
     (case se_connection s of
        None \<Rightarrow> (Some no_connection, s)
      | Some c \<Rightarrow> (None, s\<lparr>se_connection := Some (c\<lparr>pc_video := map (\<lambda>_. \<not> mute) (pc_video c)\<rparr>)\<rparr>))"

definition setLocalMediaStatus :: se_act where
  "setLocalMediaStatus s =
     (let held = se_localHold s \<or> se_remoteHold s;
          enableAudio = \<not> held \<and> \<not> se_audioMuted s;
          enableVideo = \<not> held \<and> \<not> se_videoMuted s
      in run [toggleMuteAudio (\<not> enableAudio), toggleMuteVideo (\<not> enableVideo)] s)"

definition onhold :: "originator \<Rightarrow> se_act" where
  "onhold originator = run [setLocalMediaStatus, say (Se_hold originator)]"

definition onunhold :: "originator \<Rightarrow> se_act" where
  "onunhold originator = run [setLocalMediaStatus, say (Se_unhold originator)]"

definition onmute :: "bool \<Rightarrow> bool \<Rightarrow> se_act" where
  "onmute audio video = run [setLocalMediaStatus, say (Se_muted audio video)]"

definition onunmute :: "bool \<Rightarrow> bool \<Rightarrow> se_act" where
  "onunmute audio video = run [setLocalMediaStatus, say (Se_unmuted audio video)]"

definition mute :: "bool \<Rightarrow> bool \<Rightarrow> se_act" where
  "mute audio video s =
     (let audioMuted = \<not> se_audioMuted s \<and> audio; videoMuted = \<not> se_videoMuted s \<and> video in
      run
        [when_act audioMuted (run [upd (\<lambda>s. s\<lparr>se_audioMuted := True\<rparr>), toggleMuteAudio True]),
         when_act videoMuted (run [upd (\<lambda>s. s\<lparr>se_videoMuted := True\<rparr>), toggleMuteVideo True]),
         when_act (audioMuted \<or> videoMuted) (onmute audioMuted videoMuted)] s)"

definition unmute :: "bool \<Rightarrow> bool \<Rightarrow> se_act" where
  "unmute audio video s =
     (let audioUnMuted = se_audioMuted s \<and> audio; videoUnMuted = se_videoMuted s \<and> video in
      run
        [when_act audioUnMuted
           (run [upd (\<lambda>s. s\<lparr>se_audioMuted := False\<rparr>), when_act (\<not> se_localHold s) (toggleMuteAudio False)]),
         when_act videoUnMuted
           (run [upd (\<lambda>s. s\<lparr>se_videoMuted := False\<rparr>), when_act (\<not> se_localHold s) (toggleMuteVideo False)]),
         when_act (audioUnMuted \<or> videoUnMuted) (onunmute audioUnMuted videoUnMuted)] s)"

section \<open>Offered directions\<close>

record sdp_media =
  sm_type :: string
  sm_direction :: "string option"
  sm_rest :: string

record sdp =
  sdp_direction :: "string option"
  sdp_media :: "sdp_media list"
  sdp_rest :: string

definition holdMediaTypes :: "string list" where
  "holdMediaTypes = [''audio'', ''video'']"

text \<open>\<open>!m.direction\<close>: missing or empty.\<close>

definition hold_local :: "string option \<Rightarrow> string option" where
  "hold_local d =
     (if \<not> truthy d then Some ''sendonly''
      else if d = Some ''sendrecv'' then Some ''sendonly''
      else if d = Some ''recvonly'' then Some ''inactive''
      else d)"

definition hold_remote :: "string option \<Rightarrow> string option" where
  "hold_remote d =
     (if \<not> truthy d then Some ''recvonly''
      else if d = Some ''sendrecv'' then Some ''recvonly''
      else if d = Some ''recvonly'' then Some ''inactive''
      else d)"

definition mangle_direction :: "bool \<Rightarrow> bool \<Rightarrow> string option \<Rightarrow> string option" where
  "mangle_direction local remote d =
     (if local \<and> \<not> remote then hold_local d
      else if local \<and> remote then Some ''inactive''
      else if remote then hold_remote d
      else d)"

definition mangle_media :: "bool \<Rightarrow> bool \<Rightarrow> sdp_media \<Rightarrow> sdp_media" where
  "mangle_media local remote m =
     (if sm_type m \<notin> set holdMediaTypes then m
      else m\<lparr>sm_direction := mangle_direction local remote (sm_direction m)\<rparr>)"

definition mangleOffer :: "(string \<Rightarrow> sdp) \<Rightarrow> (sdp \<Rightarrow> string) \<Rightarrow> session \<Rightarrow> string \<Rightarrow> string" where
  "mangleOffer parse write s text =
     (if \<not> se_localHold s \<and> \<not> se_remoteHold s then text
      else
        (let d = parse text
         in write (d\<lparr>sdp_media := map (mangle_media (se_localHold s) (se_remoteHold s)) (sdp_media d)\<rparr>)))"

text \<open>The loop of \<open>_processInDialogSdpOffer\<close> that says whether an offer puts this side on hold.\<close>

fun offer_holds :: "string option \<Rightarrow> sdp_media list \<Rightarrow> bool \<Rightarrow> bool" where
  "offer_holds dflt [] hold = hold"
| "offer_holds dflt (m # ms) hold =
     (if sm_type m \<notin> set holdMediaTypes then offer_holds dflt ms hold
      else
        (let direction = str_or (sm_direction m) (str_or dflt ''sendrecv'') in
         if direction = ''sendonly'' \<or> direction = ''inactive'' then offer_holds dflt ms True else False))"

end
