(* ===== verification/Session_Timers.thy ===== *)
theory Session_Timers
  imports Session_Base
begin

text \<open>
  The timers of \<open>RTCSession\<close>: the session timers of RFC 4028 (lines 20288-20378 of
  \<open>frontend/static/js/jssip-3.10.0.js\<close>), the retransmission of the 2xx reply and the wait for its ACK
  (lines 18905-18958).
\<close>

section \<open>Session timers\<close>

definition runSessionTimer :: se_act where
  "runSessionTimer s =
     (let expires = (case st_currentExpires (se_timers s) of None \<Rightarrow> 0 | Some n \<Rightarrow> n);
          store = (\<lambda>h s. s\<lparr>se_timers := (se_timers s)\<lparr>st_timer := Some h\<rparr>\<rparr>)
      in run
        [upd (\<lambda>s. s\<lparr>se_timers := (se_timers s)\<lparr>st_running := True\<rparr>\<rparr>),
         se_clearTimeout (\<lambda>s. st_timer (se_timers s)),
         (if st_refresher (se_timers s)
          then se_setTimeout T_refresh (Num (real (expires * 500))) store
          else se_setTimeout T_session_expired (Num (real (expires * 1100))) store)] s)"

text \<open>\<open>session_expires && session_expires >= 60\<close>, else the default.\<close>

definition negotiated_expires :: "nat option \<Rightarrow> session \<Rightarrow> nat" where
  "negotiated_expires offered s =
     (case offered of
        None \<Rightarrow> st_defaultExpires (se_timers s)
      | Some n \<Rightarrow> if n \<noteq> 0 \<and> n \<ge> MIN_SESSION_EXPIRES then n else st_defaultExpires (se_timers s))"

definition negotiated_refresher :: "nat option \<Rightarrow> string option \<Rightarrow> string \<Rightarrow> string" where
  "negotiated_refresher offered refresher own =
     (case offered of
        None \<Rightarrow> own
      | Some n \<Rightarrow> if n \<noteq> 0 \<and> n \<ge> MIN_SESSION_EXPIRES then str_or refresher own else own)"

text \<open>The extra header of the 2xx reply, which the source pushes on its argument.\<close>

definition timer_headers :: "in_request \<Rightarrow> session \<Rightarrow> string list" where
  "timer_headers r s =
     (if \<not> st_enabled (se_timers s) then []
      else [''Session-Expires: '' @ num_str (negotiated_expires (im_session_expires r) s) @ '';refresher=''
            @ negotiated_refresher (im_session_expires r) (im_session_expires_refresher r) ''uas''])"

definition handleSessionTimersInIncomingRequest :: "in_request \<Rightarrow> se_act" where
  "handleSessionTimersInIncomingRequest r s =
     (if \<not> st_enabled (se_timers s) then (None, s)
      else run
        [upd (\<lambda>s. s\<lparr>se_timers := (se_timers s)
            \<lparr>st_currentExpires := Some (negotiated_expires (im_session_expires r) s),
             st_refresher := (negotiated_refresher (im_session_expires r) (im_session_expires_refresher r) ''uas'' = ''uas'')\<rparr>\<rparr>),
         runSessionTimer] s)"

definition handleSessionTimersInIncomingResponse :: "in_response \<Rightarrow> se_act" where
  "handleSessionTimersInIncomingResponse r s =
     (if \<not> st_enabled (se_timers s) then (None, s)
      else run
        [upd (\<lambda>s. s\<lparr>se_timers := (se_timers s)
            \<lparr>st_currentExpires := Some (negotiated_expires (im_session_expires r) s),
             st_refresher := (negotiated_refresher (im_session_expires r) (im_session_expires_refresher r) ''uac'' = ''uac'')\<rparr>\<rparr>),
         runSessionTimer] s)"

text \<open>
  The application's \<open>sessionTimersExpires\<close>, a whole number when it is given: the default interval of
  this session.
\<close>

definition set_default_expires :: "nat option \<Rightarrow> se_act" where
  "set_default_expires expires s =
     (if \<not> st_enabled (se_timers s) then (None, s)
      else case expires of
          None \<Rightarrow> (None, s)
        | Some n \<Rightarrow>
            (None, s\<lparr>se_timers := (se_timers s)\<lparr>st_defaultExpires := (if n \<ge> MIN_SESSION_EXPIRES then n else SESSION_EXPIRES)\<rparr>\<rparr>))"

section \<open>The 2xx reply\<close>

definition start_invite2xx :: "in_request \<Rightarrow> string option \<Rightarrow> nat \<Rightarrow> se_act" where
  "start_invite2xx r body timeout =
     se_setTimeout (T_invite2xx r body timeout) (Num (real timeout)) (\<lambda>h s. s\<lparr>se_invite2xxTimer := Some h\<rparr>)"

definition setInvite2xxTimer :: "in_request \<Rightarrow> string option \<Rightarrow> se_act" where
  "setInvite2xxTimer r body = start_invite2xx r body T1"

definition next_timeout :: "nat \<Rightarrow> nat" where
  "next_timeout timeout =
     (if timeout < T2 then (if timeout * 2 > T2 then T2 else timeout * 2) else timeout)"

definition invite2xxRetransmission :: "in_request \<Rightarrow> string option \<Rightarrow> nat \<Rightarrow> se_act" where
  "invite2xxRetransmission r body timeout s =
     (if se_status s \<noteq> S_WAITING_FOR_ACK then (None, s)
      else run
        [say (Se_reply r 200 None [''Contact: '' @ se_contact s] body),
         start_invite2xx r body (next_timeout timeout)] s)"

definition setACKTimer :: se_act where
  "setACKTimer = se_setTimeout T_ack (Num (real TIMER_H)) (\<lambda>h s. s\<lparr>se_ackTimer := Some h\<rparr>)"

text \<open>\<open>se_sendRequest\<close>: through the dialog, which may be gone.\<close>

definition se_sendRequest :: "sip_method \<Rightarrow> string list \<Rightarrow> string option \<Rightarrow> se_act" where
  "se_sendRequest meth extraHeaders body s =
     (case se_dialog s of
        None \<Rightarrow> (Some (TypeError ''Cannot read property sendRequest of null''), s)
      | Some d \<Rightarrow> say (Se_request (dl_id d) meth extraHeaders body) s)"

definition ack_timer_fires :: se_act where
  "ack_timer_fires s =
     (if se_status s \<noteq> S_WAITING_FOR_ACK then (None, s)
      else run
        [se_clearTimeout se_invite2xxTimer, se_sendRequest BYE [] None, se_ended Remote C_NO_ACK] s)"

end
