(* ===== verification/Session_End.thy ===== *)
theory Session_End
  imports Session_Media Session_Timers
begin

text \<open>
  How a call ends in \<open>RTCSession\<close>: \<open>terminate\<close> (lines 18047-18166 of \<open>frontend/static/js/jssip-3.10.0.js\<close>),
  the callbacks of failing requests that use it, the creation of dialogs (lines 19096-19146) and
  \<open>_acceptAndTerminate\<close> (lines 20143-20164).
\<close>

section \<open>What an operation reads of its surroundings\<close>

datatype reply_outcome = Reply_sent | Reply_failed | Reply_dropped

record se_env =
  ev_parse :: grammar
  ev_uri :: "string \<Rightarrow> uri option"
  ev_hostport :: string
  ev_cfg :: ua_config
  ev_session_cfg :: se_config
  ev_draws :: draws
  ev_contact :: "bool \<Rightarrow> bool \<Rightarrow> string"
  ev_webrtc :: bool
  ev_user_closed :: bool
  ev_ist_terminated :: bool
  ev_reply :: reply_outcome
  ev_sdp_parse :: "string \<Rightarrow> sdp"
  ev_sdp_write :: "sdp \<Rightarrow> string"

section \<open>Terminating\<close>

record terminate_options =
  to_cause :: cause
  to_extraHeaders :: "string list option"
  to_body :: "string option"
  to_status_code :: nat
  to_reason_phrase :: "string option"

text \<open>A status code 0 stands for none.\<close>

definition reason_text :: "nat \<Rightarrow> string option \<Rightarrow> string" where
  "reason_text code phrase = str_or phrase (reason_phrase code)"

definition terminate_uac :: "terminate_options \<Rightarrow> se_act" where
  "terminate_uac opts s =
     (let code = to_status_code opts;
          cancel_reason = (if code \<noteq> 0
            then Some (''SIP ;cause='' @ num_str code @ '' ;text=\"'' @ reason_text code (to_reason_phrase opts) @ ''\"'') else None)
      in
      if code \<noteq> 0 \<and> (code < 200 \<or> code \<ge> 700) then (Some (TypeError (''Invalid status_code: '' @ num_str code)), s)
      else run
        [(if se_status s = S_NULL \<or> se_status s = S_INVITE_SENT
          then upd (\<lambda>s. s\<lparr>se_is_canceled := True, se_cancel_reason := cancel_reason\<rparr>)
          else if se_status s = S_1XX_RECEIVED then say (Se_cancel cancel_reason)
          else skip),
         set_status S_CANCELED,
         se_failed Local None C_CANCELED] s)"

definition reply_initial :: "nat \<Rightarrow> string option \<Rightarrow> string list \<Rightarrow> string option \<Rightarrow> se_act" where
  "reply_initial code reason extraHeaders body s =
     (case se_incoming s of
        None \<Rightarrow> (Some (TypeError ''this._request.reply is not a function''), s)
      | Some r \<Rightarrow> say (Se_reply r code reason extraHeaders body) s)"

definition terminate_uas :: "terminate_options \<Rightarrow> se_act" where
  "terminate_uas opts s =
     (let code = (if to_status_code opts = 0 then 480 else to_status_code opts) in
      if code < 300 \<or> code \<ge> 700 then (Some (TypeError (''Invalid status_code: '' @ num_str code)), s)
      else run
        [reply_initial code (to_reason_phrase opts) (cloneArray (to_extraHeaders opts)) (to_body opts),
         se_failed Local None C_REJECTED] s)"

text \<open>
  The callee waits for the ACK, or the end of the server transaction, before its BYE: the session
  ends, keeps its dialog, and only these two events reach it.
\<close>

definition terminate_waiting :: "string list \<Rightarrow> string option \<Rightarrow> cause \<Rightarrow> se_act" where
  "terminate_waiting extraHeaders body cause s =
     (let dialog = se_dialog s in
      run
        [upd (\<lambda>s. s\<lparr>se_bye_later := Some (extraHeaders, body)\<rparr>),
         se_ended Local cause,
         upd (\<lambda>s. s\<lparr>se_dialog := dialog\<rparr>),
         (case dialog of
            None \<Rightarrow> throw (TypeError ''Cannot read property id of null'')
          | Some d \<Rightarrow> say (Se_dialog_new (dl_id d)))] s)"

definition terminate_established :: "se_env \<Rightarrow> terminate_options \<Rightarrow> se_act" where
  "terminate_established env opts s =
     (let code = to_status_code opts;
          extraHeaders = cloneArray (to_extraHeaders opts)
            @ (if code \<noteq> 0 then [''Reason: SIP ;cause='' @ num_str code @ ''; text=\"'' @ reason_text code (to_reason_phrase opts) @ ''\"''] else [])
      in
      if code \<noteq> 0 \<and> (code < 200 \<or> code \<ge> 700) then (Some (TypeError (''Invalid status_code: '' @ num_str code)), s)
      else if se_status s = S_WAITING_FOR_ACK \<and> se_direction s = Some D_incoming \<and> \<not> ev_ist_terminated env
      then terminate_waiting extraHeaders (to_body opts) (to_cause opts) s
      else run [se_sendRequest BYE extraHeaders (to_body opts), se_ended Local (to_cause opts)] s)"

definition se_terminate :: "se_env \<Rightarrow> terminate_options \<Rightarrow> se_act" where
  "se_terminate env opts s =
     (if se_status s = S_TERMINATED then (Some (InvalidStateError (se_status_number S_TERMINATED)), s)
      else case se_status s of
          S_NULL \<Rightarrow> terminate_uac opts s
        | S_INVITE_SENT \<Rightarrow> terminate_uac opts s
        | S_1XX_RECEIVED \<Rightarrow> terminate_uac opts s
        | S_WAITING_FOR_ANSWER \<Rightarrow> terminate_uas opts s
        | S_ANSWERED \<Rightarrow> terminate_uas opts s
        | S_WAITING_FOR_ACK \<Rightarrow> terminate_established env opts s
        | S_CONFIRMED \<Rightarrow> terminate_established env opts s
        | _ \<Rightarrow> (None, s))"

text \<open>The BYE that was put off: once the ACK comes, and once the server transaction is terminated.\<close>

definition send_late_bye :: se_act where
  "send_late_bye s =
     (case se_bye_later s of
        None \<Rightarrow> (None, s)
      | Some (extraHeaders, body) \<Rightarrow>
          run [se_sendRequest BYE extraHeaders body,
               (\<lambda>s. case se_dialog s of None \<Rightarrow> (None, s) | Some d \<Rightarrow> end_dialog d s)] s)"

definition plain_terminate :: terminate_options where
  "plain_terminate = \<lparr>to_cause = C_BYE, to_extraHeaders = None, to_body = None, to_status_code = 0, to_reason_phrase = None\<rparr>"

definition terminate_with :: "cause \<Rightarrow> nat \<Rightarrow> string option \<Rightarrow> terminate_options" where
  "terminate_with cause code reason =
     \<lparr>to_cause = cause, to_extraHeaders = None, to_body = None, to_status_code = code, to_reason_phrase = reason\<rparr>"

definition se_onTransportError :: "se_env \<Rightarrow> se_act" where
  "se_onTransportError env s =
     (if se_status s \<noteq> S_TERMINATED
      then se_terminate env (terminate_with C_CONNECTION_ERROR 500 (Some ''Connection Error'')) s else (None, s))"

definition se_onRequestTimeout :: "se_env \<Rightarrow> se_act" where
  "se_onRequestTimeout env s =
     (if se_status s \<noteq> S_TERMINATED
      then se_terminate env (terminate_with C_REQUEST_TIMEOUT 408 (Some ''Request Timeout'')) s else (None, s))"

definition se_onDialogError :: "se_env \<Rightarrow> se_act" where
  "se_onDialogError env s =
     (if se_status s \<noteq> S_TERMINATED
      then se_terminate env (terminate_with C_DIALOG_ERROR 500 (Some ''Dialog Error'')) s else (None, s))"

section \<open>Dialogs\<close>

text \<open>
  \<open>status\<close>: the status code of a message that is a response.  Whether the dialog is there; when it
  cannot be made the session fails (the message it tells is kept when it is a response).
\<close>

definition dialog_key :: "dialog_type \<Rightarrow> 'a in_message_scheme \<Rightarrow> string" where
  "dialog_key type m =
     (let (local_tag, remote_tag) = (if type = UAS then (im_to_tag m, im_from_tag m) else (im_from_tag m, im_to_tag m))
      in im_call_id m @ text_of local_tag @ text_of remote_tag)"

definition fail_dialog :: "in_response option \<Rightarrow> se_act" where
  "fail_dialog response = se_failed Remote response C_INTERNAL_ERROR"

definition createDialog ::
    "grammar \<Rightarrow> dialog_type \<Rightarrow> bool \<Rightarrow> nat option \<Rightarrow> in_response option \<Rightarrow> 'a in_message_scheme \<Rightarrow>
      session \<Rightarrow> (js_error + bool) \<times> session" where
  "createDialog parse type early status response m s =
     (let key = dialog_key type m; s = (if early then s else s\<lparr>se_from_tag := im_from_tag m, se_to_tag := im_to_tag m\<rparr>) in
      case obj_get (se_early s) key of
        Some d \<Rightarrow>
          if early then (Inr True, s)
          else (Inr True, s\<lparr>se_dialog := Some (dl_update m type d), se_early := obj_del key (se_early s)\<rparr>)
      | None \<Rightarrow>
          (case new_dialog parse m status type (if early then D_EARLY else D_CONFIRMED) of
             Inl e \<Rightarrow> (Inl e, s)
           | Inr None \<Rightarrow> (Inr False, snd (fail_dialog response s))
           | Inr (Some d) \<Rightarrow>
               (let s = s\<lparr>se_log := se_log s @ [Se_dialog_new (dl_id d)]\<rparr> in
                (Inr True, if early then s\<lparr>se_early := obj_put key d (se_early s)\<rparr> else s\<lparr>se_dialog := Some d\<rparr>))))"

text \<open>The two ways on after \<open>_createDialog\<close>.\<close>

definition with_dialog ::
    "grammar \<Rightarrow> dialog_type \<Rightarrow> bool \<Rightarrow> nat option \<Rightarrow> in_response option \<Rightarrow> 'a in_message_scheme \<Rightarrow> se_act \<Rightarrow> se_act \<Rightarrow> se_act" where
  "with_dialog parse type early status response m good bad s =
     (case createDialog parse type early status response m s of
        (Inl e, s) \<Rightarrow> (Some e, s)
      | (Inr True, s) \<Rightarrow> good s
      | (Inr False, s) \<Rightarrow> bad s)"

definition acceptAndTerminate :: "se_env \<Rightarrow> in_response \<Rightarrow> nat \<Rightarrow> string option \<Rightarrow> se_act" where
  "acceptAndTerminate env response code phrase s =
     (let extraHeaders =
            (if code \<noteq> 0 then [''Reason: SIP ;cause='' @ num_str code @ ''; text=\"'' @ reason_text code phrase @ ''\"''] else []);
          bye = run [se_sendRequest ACK [] None, se_sendRequest BYE extraHeaders None]
      in run
        [(\<lambda>s. if se_dialog s \<noteq> None then bye s
              else with_dialog (ev_parse env) UAC False (Some (im_status_code response)) (Some response) response bye skip s),
         set_status S_TERMINATED] s)"

end
