(* ===== verification/Session_Info.thy ===== *)
theory Session_Info
  imports Session_End
begin

text \<open>
  INFO requests of a call: \<open>RTCSession.sendDTMF\<close> and \<open>sendInfo\<close> (lines 18173-18305 of
  \<open>frontend/static/js/jssip-3.10.0.js\<close>) with the classes \<open>DTMF\<close> (lines 20631-20830) and \<open>Info\<close> (lines
  20832-20966), and the reading of incoming ones.
\<close>

section \<open>Constants\<close>

definition MIN_DURATION :: int where "MIN_DURATION = 70"

definition MAX_DURATION :: int where "MAX_DURATION = 6000"

definition DEFAULT_DURATION :: nat where "DEFAULT_DURATION = 100"

definition MIN_INTER_TONE_GAP :: int where "MIN_INTER_TONE_GAP = 50"

definition DEFAULT_INTER_TONE_GAP :: nat where "DEFAULT_INTER_TONE_GAP = 500"

section \<open>DTMF.send and Info.send\<close>

definition established_for_info :: "session \<Rightarrow> bool" where
  "established_for_info s = (se_status s = S_CONFIRMED \<or> se_status s = S_WAITING_FOR_ACK)"

definition wrong_state :: se_act where
  "wrong_state s = (Some (InvalidStateError (se_status_number (se_status s))), s)"

definition is_tone :: "char \<Rightarrow> bool" where
  "is_tone c = (is_digit c \<or> c \<in> set ''ABCDR#*'')"

definition dtmf_send :: "char \<Rightarrow> nat \<Rightarrow> string list \<Rightarrow> se_act" where
  "dtmf_send tone duration extraHeaders s =
     (if \<not> established_for_info s then wrong_state s
      else
        (let t = upper_char tone in
         if \<not> is_tone t then (Some (TypeError (''Invalid tone: '' @ [t])), s)
         else run
           [say (Se_dtmf Local [t] duration),
            se_sendRequest INFO (extraHeaders @ [''Content-Type: application/dtmf-relay''])
              (Some (''Signal='' @ [t] @ crlf @ ''Duration='' @ num_str duration))] s))"

definition info_send :: "string option \<Rightarrow> string option \<Rightarrow> string list \<Rightarrow> se_act" where
  "info_send contentType body extraHeaders s =
     (case contentType of
        None \<Rightarrow> (Some (TypeError ''Not enough arguments''), s)
      | Some ct \<Rightarrow>
          if \<not> established_for_info s then wrong_state s
          else run
            [say (Se_info Local (Some ct) body),
             se_sendRequest INFO (extraHeaders @ [''Content-Type: '' @ ct]) body] s)"

definition can_signal :: "session \<Rightarrow> bool" where
  "can_signal s = (se_status s = S_CONFIRMED \<or> se_status s = S_WAITING_FOR_ACK \<or> se_status s = S_1XX_RECEIVED)"

definition sendInfo :: "string option \<Rightarrow> string option \<Rightarrow> string list option \<Rightarrow> se_act" where
  "sendInfo contentType body extraHeaders s =
     (if \<not> can_signal s then wrong_state s else info_send contentType body (cloneArray extraHeaders) s)"

section \<open>RTCSession.sendDTMF\<close>

text \<open>An option that should be a whole number: absent (or 0), some other value, or a number.\<close>

datatype num_option = No_number | Not_decimal string | Decimal int

definition clamp_duration :: "int \<Rightarrow> nat" where
  "clamp_duration n = (if n < MIN_DURATION then nat MIN_DURATION else if n > MAX_DURATION then nat MAX_DURATION else nat \<bar>n\<bar>)"

fun tone_duration :: "num_option \<Rightarrow> js_error + nat" where
  "tone_duration (Not_decimal v) = Inl (TypeError (''Invalid tone duration: '' @ v))"
| "tone_duration No_number = Inr DEFAULT_DURATION"
| "tone_duration (Decimal n) = Inr (if n = 0 then DEFAULT_DURATION else clamp_duration n)"

fun tone_gap :: "num_option \<Rightarrow> js_error + nat" where
  "tone_gap (Not_decimal v) = Inl (TypeError (''Invalid interToneGap: '' @ v))"
| "tone_gap No_number = Inr DEFAULT_INTER_TONE_GAP"
| "tone_gap (Decimal n) =
     Inr (if n = 0 then DEFAULT_INTER_TONE_GAP else if n < MIN_INTER_TONE_GAP then nat MIN_INTER_TONE_GAP else nat \<bar>n\<bar>)"

text \<open>One run of the function that sends the next tone; \<open>position\<close> is its own count.\<close>

definition dtmf_step :: "nat \<Rightarrow> nat \<Rightarrow> nat \<Rightarrow> string list \<Rightarrow> se_act" where
  "dtmf_step position duration gap extraHeaders s =
     (if se_status s = S_TERMINATED \<or> \<not> truthy (se_tones s) \<or> position \<ge> length (the (se_tones s))
      then (None, s\<lparr>se_tones := None\<rparr>)
      else
        (let tone = the (se_tones s) ! position;
             later = (\<lambda>timeout. se_setTimeout (T_dtmf (position + 1) duration gap extraHeaders) (Num (real timeout)) (\<lambda>h s. s))
         in if tone = CHR '','' then later 2000 s
            else run [dtmf_send tone duration extraHeaders, later (duration + gap)] s))"

datatype dtmf_transport = By_info | By_rfc2833 | Other_transport string

text \<open>\<open>sender\<close>: the buffered tones of the audio sender's DTMF object, when there is one.\<close>

definition sendDTMF ::
    "string option \<Rightarrow> num_option \<Rightarrow> num_option \<Rightarrow> dtmf_transport \<Rightarrow> string option \<Rightarrow> string list option \<Rightarrow> se_act" where
  "sendDTMF tones duration gap transport sender extraHeaders s =
     (case tones of
        None \<Rightarrow> (Some (TypeError ''Not enough arguments''), s)
      | Some ts \<Rightarrow>
          if \<not> can_signal s then wrong_state s
          else
            (case transport of
               Other_transport v \<Rightarrow> (Some (TypeError (''invalid transportType: '' @ v)), s)
             | _ \<Rightarrow>
               if ts = [] \<or> \<not> list_all (\<lambda>c. is_tone (upper_char c) \<or> c = CHR '','') ts
               then (Some (TypeError (''Invalid tones: '' @ ts)), s)
               else
                 (case tone_duration duration of
                    Inl e \<Rightarrow> (Some e, s)
                  | Inr d \<Rightarrow>
                      (case tone_gap gap of
                         Inl e \<Rightarrow> (Some e, s)
                       | Inr g \<Rightarrow>
                           if transport = By_rfc2833 then
                             (case se_connection s of
                                None \<Rightarrow> (Some no_connection, s)
                              | Some c \<Rightarrow>
                                  (case sender of
                                     None \<Rightarrow> (None, s)
                                   | Some buffer \<Rightarrow> say (Se_insert_dtmf (buffer @ ts) d g) s))
                           else if truthy (se_tones s) then (None, s\<lparr>se_tones := Some (the (se_tones s) @ ts)\<rparr>)
                           else run [upd (\<lambda>s. s\<lparr>se_tones := Some ts\<rparr>), dtmf_step 0 d g (cloneArray extraHeaders)] s))))"

text \<open>The \<open>onFailed\<close> handler given to a tone.\<close>

definition dtmf_failed :: se_act where
  "dtmf_failed = upd (\<lambda>s. s\<lparr>se_tones := None\<rparr>)"

section \<open>Incoming\<close>

definition after_prefix :: "string \<Rightarrow> string \<Rightarrow> string option" where
  "after_prefix p s = (if take (length p) s = p then Some (drop (length p) s) else None)"

definition is_incoming_tone :: "char \<Rightarrow> bool" where
  "is_incoming_tone c = (is_digit c \<or> c \<in> set ''ABCD#*'')"

text \<open>What \<open>(\s)?.*\<close> leaves of the rest of a line: it ends before a carriage return it did not take itself.\<close>

definition regex_rest :: "string \<Rightarrow> string" where
  "regex_rest s = dropWhile (\<lambda>c. c \<noteq> CHR 0x0D) (case s of [] \<Rightarrow> [] | c # t \<Rightarrow> if is_space c then t else s)"

definition signal_of :: "string \<Rightarrow> string option" where
  "signal_of line =
     (case after_prefix ''Signal'' line of
        None \<Rightarrow> None
      | Some r \<Rightarrow>
          (case dropWhile is_space r of
             [] \<Rightarrow> None
           | c # r \<Rightarrow>
               if c \<noteq> CHR ''='' then None
               else (case dropWhile is_space r of
                       [] \<Rightarrow> None
                     | t # r \<Rightarrow> if is_incoming_tone t then Some (t # regex_rest r) else None)))"

definition skip_space :: "string \<Rightarrow> string" where
  "skip_space s = (case s of [] \<Rightarrow> [] | c # t \<Rightarrow> if is_space c then t else s)"

definition duration_of :: "string \<Rightarrow> nat option" where
  "duration_of line =
     (case after_prefix ''Duration'' line of
        None \<Rightarrow> None
      | Some r \<Rightarrow>
          (case skip_space r of
             [] \<Rightarrow> None
           | c # r \<Rightarrow>
               if c \<noteq> CHR ''='' then None
               else
                 (let digits = take 4 (takeWhile is_digit (skip_space r)) in
                  if digits = [] then None else Some (value_in 10 digits))))"

text \<open>The tone and the duration an incoming request carries; without a tone it is discarded.\<close>

definition read_dtmf :: "string option \<Rightarrow> (string \<times> nat) option" where
  "read_dtmf body =
     (let ls = (if truthy body then js_split (CHR 0x0A) (the body) else []);
          tone = (case ls of [] \<Rightarrow> None | l # _ \<Rightarrow> signal_of l);
          duration = (case ls of _ # l # _ \<Rightarrow> duration_of l | _ \<Rightarrow> None)
      in map_option (\<lambda>t. (t, case duration of None \<Rightarrow> DEFAULT_DURATION | Some n \<Rightarrow> if n = 0 then DEFAULT_DURATION else n)) tone)"

definition dtmf_init_incoming :: "in_request \<Rightarrow> se_act" where
  "dtmf_init_incoming r =
     run [say (Se_reply r 200 None [] None),
          (case read_dtmf (im_body r) of None \<Rightarrow> skip | Some (t, d) \<Rightarrow> say (Se_dtmf Remote t d))]"

definition content_type :: "'a in_table_scheme \<Rightarrow> string option" where
  "content_type m = (if im_hasHeader ''Content-Type'' m then Some (to_lower (text_of (im_getHeader ''Content-Type'' m))) else None)"

definition info_init_incoming :: "in_request \<Rightarrow> se_act" where
  "info_init_incoming r =
     run [say (Se_reply r 200 None [] None), say (Se_info Remote (content_type r) (im_body r))]"

definition receive_info :: "in_request \<Rightarrow> se_act" where
  "receive_info r =
     (case content_type r of
        None \<Rightarrow> say (Se_reply r 415 None [] None)
      | Some ct \<Rightarrow>
          if ct = [] then info_init_incoming r
          else if after_prefix ''application/dtmf-relay'' ct \<noteq> None then dtmf_init_incoming r
          else info_init_incoming r)"

end
