(* ===== verification/Session_Refer.thy ===== *)
theory Session_Refer
  imports Session_Info
begin

text \<open>
  Call transfer: \<open>RTCSession.refer\<close> (lines 18551-18586 of \<open>frontend/static/js/jssip-3.10.0.js\<close>), the classes
  \<open>ReferSubscriber\<close> (lines 21034-21221) and \<open>ReferNotifier\<close> (lines 20968-21032), and the reception of
  REFER, NOTIFY and INVITE with Replaces (lines 19426-19587).
\<close>

section \<open>Sending REFER\<close>

record refer_options =
  ro_extraHeaders :: "string list option"
  ro_replaces :: "(string \<times> string \<times> string) option"

text \<open>\<open>replaces\<close>: Call-ID, To tag and From tag of the session to be replaced.\<close>

definition refer_to_header :: "string \<Rightarrow> refer_options \<Rightarrow> string" where
  "refer_to_header target opts =
     ''Refer-To: <'' @ target
     @ (case ro_replaces opts of
          None \<Rightarrow> []
        | Some (call_id, to_tag, from_tag) \<Rightarrow>
            ''?Replaces='' @ encodeURIComponent (call_id @ '';to-tag='' @ to_tag @ '';from-tag='' @ from_tag))
     @ ''>''"

definition referred_by :: "uri \<Rightarrow> string" where
  "referred_by u = ''Referred-By: <'' @ uri_scheme u @ '':'' @ text_of (uri_user u) @ ''@'' @ uri_host u @ ''>''"

definition refer_headers :: "uri \<Rightarrow> string \<Rightarrow> refer_options \<Rightarrow> string \<Rightarrow> string list" where
  "refer_headers own target opts contact =
     (let h = cloneArray (ro_extraHeaders opts) @ [refer_to_header target opts];
          h = (if list_ex (\<lambda>x. after_prefix ''referred-by:'' (to_lower x) \<noteq> None) h then h else h @ [referred_by own])
      in h @ [''Contact: '' @ contact])"

definition sendRefer :: "se_env \<Rightarrow> string \<Rightarrow> refer_options \<Rightarrow> se_act" where
  "sendRefer env target opts s =
     se_sendRequest REFER (refer_headers (cfg_uri (ev_cfg env)) target opts (se_contact s)) None s"

text \<open>
  \<open>cseq\<close>: the sequence number the dialog gave the REFER; it names the subscriber.  \<open>False\<close> when the
  session is not established.
\<close>

definition refer :: "se_env \<Rightarrow> nat \<Rightarrow> string \<Rightarrow> refer_options \<Rightarrow> session \<Rightarrow> (js_error + bool) \<times> session" where
  "refer env cseq target opts s =
     (if se_status s \<noteq> S_WAITING_FOR_ACK \<and> se_status s \<noteq> S_CONFIRMED then (Inr False, s)
      else
        (case normalizeTarget (ev_uri env) target (ev_hostport env) of
           Inl e \<Rightarrow> (Inl e, s)
         | Inr None \<Rightarrow> (Inl (TypeError (''Invalid target: '' @ target)), s)
         | Inr (Some u) \<Rightarrow>
             (case uri_toString u of
                Inl e \<Rightarrow> (Inl e, s)
              | Inr t \<Rightarrow>
                  (case sendRefer env t opts s of
                     (Some e, s) \<Rightarrow> (Inl e, s)
                   | (None, s) \<Rightarrow> (Inr True, s\<lparr>se_subscribers := obj_put (num_str cseq) cseq (se_subscribers s)\<rparr>)))))"

definition drop_subscriber :: "string \<Rightarrow> se_act" where
  "drop_subscriber key = upd (\<lambda>s. s\<lparr>se_subscribers := obj_del key (se_subscribers s)\<rparr>)"

section \<open>ReferSubscriber\<close>

definition subscriber_requestSucceeded :: "nat \<Rightarrow> se_act" where
  "subscriber_requestSucceeded i = say (Se_subscriber i ''requestSucceeded'')"

definition subscriber_requestFailed :: "nat \<Rightarrow> se_act" where
  "subscriber_requestFailed i = run [say (Se_subscriber i ''requestFailed''), drop_subscriber (num_str i)]"

text \<open>\<open>read_status\<close>: the grammar's reading of the first line of the body.\<close>

fun until_crlf :: "string \<Rightarrow> string" where
  "until_crlf (a # b # s) = (if a = CHR 0x0D \<and> b = CHR 0x0A then [] else a # until_crlf (b # s))"
| "until_crlf s = s"

definition notify_event :: "nat \<Rightarrow> string" where
  "notify_event code =
     (if code = 100 then ''trying'' else if 100 \<le> code \<and> code < 200 then ''progress''
      else if 200 \<le> code \<and> code < 300 then ''accepted'' else ''failed'')"

definition subscriber_receiveNotify :: "(string \<Rightarrow> nat option) \<Rightarrow> nat \<Rightarrow> in_request \<Rightarrow> se_act" where
  "subscriber_receiveNotify read_status i r =
     (if \<not> truthy (im_body r) then skip
      else
        (case read_status (until_crlf (js_trim (the (im_body r)))) of
           None \<Rightarrow> skip
         | Some code \<Rightarrow>
             run [say (Se_subscriber i (notify_event code)),
                  when_act (notify_event code = ''accepted'' \<or> notify_event code = ''failed'') (drop_subscriber (num_str i))]))"

section \<open>Receiving NOTIFY\<close>

text \<open>A request without an Event is replied 400 and then read all the same.\<close>

definition receiveNotify :: "(string \<Rightarrow> nat option) \<Rightarrow> in_request \<Rightarrow> se_act" where
  "receiveNotify read_status r s =
     (case im_event r of
        Some (P_Event event params) \<Rightarrow>
          if event \<noteq> ''refer'' then say (Se_reply r 489 None [] None) s
          else
            (let i = (case obj_get params ''id'' of Some v \<Rightarrow> v | None \<Rightarrow> None);
                 known = (if truthy i then Some (obj_get (se_subscribers s) (the i))
                          else case se_subscribers s of [(k, n)] \<Rightarrow> Some (Some n) | _ \<Rightarrow> None)
             in case known of
                  None \<Rightarrow> say (Se_reply r 400 (Some ''Missing event id parameter'') [] None) s
                | Some None \<Rightarrow> say (Se_reply r 481 (Some ''Subscription does not exist'') [] None) s
                | Some (Some n) \<Rightarrow>
                    run [subscriber_receiveNotify read_status n r, say (Se_reply r 200 None [] None)] s)
      | _ \<Rightarrow> run [say (Se_reply r 400 None [] None), throw (TypeError ''Cannot read property event of undefined'')] s)"

section \<open>ReferNotifier\<close>

record notifier =
  nt_id :: nat
  nt_expires :: nat
  nt_active :: bool

definition new_notifier :: "nat \<Rightarrow> notifier" where
  "new_notifier i = \<lparr>nt_id = i, nt_expires = 300, nt_active = True\<rparr>"

definition notify_state :: "notifier \<Rightarrow> nat \<Rightarrow> string" where
  "notify_state n code =
     (if code \<ge> 200 then ''terminated;reason=noresource'' else ''active;expires='' @ num_str (nt_expires n))"

definition notify :: "notifier \<Rightarrow> nat \<Rightarrow> string option \<Rightarrow> se_act" where
  "notify n code reason =
     (if \<not> nt_active n then skip
      else se_sendRequest NOTIFY
        [''Event: refer;id='' @ num_str (nt_id n), ''Subscription-State: '' @ notify_state n code,
         ''Content-Type: message/sipfrag;version=2.0'']
        (Some (''SIP/2.0 '' @ num_str code @ '' '' @ reason_text code reason)))"

text \<open>\<open>this\<close> is the object of the handlers here, so the notifier stays as it is.\<close>

definition notifier_onErrorResponse :: "notifier \<Rightarrow> notifier" where
  "notifier_onErrorResponse n = n"

section \<open>Receiving REFER\<close>

text \<open>The event \<open>refer\<close> hands the application the two functions below.\<close>

definition receiveRefer :: "in_request \<Rightarrow> se_act" where
  "receiveRefer r s =
     (case im_refer_to r of
        Some (P_NameAddr a) \<Rightarrow>
          if uri_scheme (na_uri a) \<noteq> ''sip'' then say (Se_reply r 416 None [] None) s
          else run
            [say (Se_reply r 202 None [] None), notify (new_notifier (im_cseq r)) 100 None, say (Se_emit ''refer'')] s
      | _ \<Rightarrow> say (Se_reply r 400 None [] None) s)"

text \<open>\<open>accept\<close>: the target and the extra headers the new session is connected with.\<close>

definition refer_accept :: "in_request \<Rightarrow> string list option \<Rightarrow> session \<Rightarrow> js_error + (string \<times> string list option) option" where
  "refer_accept r extraHeaders s =
     (if se_status s \<noteq> S_WAITING_FOR_ACK \<and> se_status s \<noteq> S_CONFIRMED then Inr None
      else
        (case im_refer_to r of
           Some (P_NameAddr a) \<Rightarrow>
             (let u = na_uri a;
                  extra = (if uri_hasHeader ''replaces'' u
                    then bind_result (decodeURIComponent (js_join '','' (case uri_getHeader ''replaces'' u of None \<Rightarrow> [] | Some vs \<Rightarrow> vs)))
                           (\<lambda>v. Inr (Some (cloneArray extraHeaders @ [''Replaces: '' @ v])))
                    else Inr extraHeaders)
              in bind_result extra (\<lambda>h. bind_result (uri_toAor False u) (\<lambda>t. Inr (Some (t, h)))))
         | _ \<Rightarrow> Inr None))"

definition refer_reject :: "notifier \<Rightarrow> se_act" where
  "refer_reject n = notify n 603 None"

text \<open>What the listeners on the new session tell the referrer: its progress, its acceptance and its failure.\<close>

fun refer_report :: "notifier \<Rightarrow> se_event \<Rightarrow> se_act" where
  "refer_report n (Se_progress p (Some r)) = notify n (im_status_code r) (Some (im_reason_phrase r))"
| "refer_report n (Se_accepted p (Some r)) = notify n (im_status_code r) (Some (im_reason_phrase r))"
| "refer_report n (Se_private_failed p (Some r) c) = notify n (im_status_code r) (Some (im_reason_phrase r))"
| "refer_report n (Se_private_failed p None c) = notify n 487 (Some (cause_text c))"
| "refer_report n e = skip"

section \<open>Receiving INVITE with Replaces\<close>

definition receiveReplaces :: "in_request \<Rightarrow> se_act" where
  "receiveReplaces r = say (Se_emit ''replaces'')"

definition replaces_reject :: "in_request \<Rightarrow> se_act" where
  "replaces_reject r = say (Se_reply r 486 None [] None)"

text \<open>Whether \<open>accept\<close> makes a new session for the request.\<close>

definition replaces_accept :: "session \<Rightarrow> bool" where
  "replaces_accept s = (se_status s = S_WAITING_FOR_ACK \<or> se_status s = S_CONFIRMED)"

end
