(* ===== verification/Session_Offer.thy ===== *)
theory Session_Offer
  imports Session_Refer
begin

text \<open>
  Offers inside an established call: hold, unhold and renegotiation (lines 18385-18546 of
  \<open>frontend/static/js/jssip-3.10.0.js\<close>), the re-INVITE and UPDATE requests they send (lines
  19875-20141), the session refresh, and the re-INVITE and UPDATE that are received (lines
  19152-19424).  The peer connection answers through jobs.
\<close>

section \<open>Local descriptions\<close>

text \<open>
  How \<open>_createLocalDescription\<close> ends: no offer or answer, one that cannot be set, or the
  description, after waiting for candidates or at once.
\<close>

datatype desc_outcome = Desc_create_fails | Desc_set_fails | Desc_ready string bool

definition createLocalDescription :: se_act where
  "createLocalDescription = upd (\<lambda>s. s\<lparr>se_rtcReady := False\<rparr>)"

definition settle_description :: "desc_outcome \<Rightarrow> se_act" where
  "settle_description o' =
     (case o' of
        Desc_create_fails \<Rightarrow> say (Se_emit ''peerconnection:createfailed'')
      | Desc_set_fails \<Rightarrow>
          run [upd (\<lambda>s. s\<lparr>se_rtcReady := True\<rparr>), say (Se_emit ''peerconnection:setlocaldescriptionfailed'')]
      | Desc_ready sdp waited \<Rightarrow>
          run [upd (\<lambda>s. s\<lparr>se_rtcReady := True, se_iceReady := (se_iceReady s \<or> waited)\<rparr>), say (Se_emit ''sdp'')])"

definition isReadyToReOffer :: "session \<Rightarrow> bool" where
  "isReadyToReOffer s =
     (if \<not> se_rtcReady s then False
      else case se_dialog s of
          None \<Rightarrow> False
        | Some d \<Rightarrow> \<not> (dl_uac_pending_reply d \<or> dl_uas_pending_reply d))"

section \<open>Sending re-INVITE and UPDATE\<close>

definition refresh_header :: "session \<Rightarrow> string list" where
  "refresh_header s =
     (if st_running (se_timers s)
      then [''Session-Expires: '' @ (case st_currentExpires (se_timers s) of None \<Rightarrow> ''null'' | Some n \<Rightarrow> num_str n)
            @ '';refresher='' @ (if st_refresher (se_timers s) then ''uac'' else ''uas'')]
      else [])"

definition start_op :: "se_op \<Rightarrow> se_act" where
  "start_op p = upd (\<lambda>s. s\<lparr>se_ops := se_ops s @ [p]\<rparr>)"

text \<open>\<open>failed\<close>: the reason phrase with which the handler of the application's operation ends the call.\<close>

definition sendReinvite :: "string list option \<Rightarrow> string option \<Rightarrow> se_act" where
  "sendReinvite extraHeaders failed s =
     (let headers = cloneArray extraHeaders @ [''Contact: '' @ se_contact s, ''Content-Type: application/sdp''] @ refresh_header s in
      run
        [start_op \<lparr>op_method = INVITE, op_offer = True, op_handlers = failed, op_succeeded = False\<rparr>,
         add_job (J_reoffer (length (se_ops s)) headers)] s)"

definition sendUpdate :: "bool \<Rightarrow> string list option \<Rightarrow> string option \<Rightarrow> se_act" where
  "sendUpdate sdpOffer extraHeaders failed s =
     (let headers = cloneArray extraHeaders @ [''Contact: '' @ se_contact s] @ refresh_header s in
      run
        [start_op \<lparr>op_method = UPDATE, op_offer = sdpOffer, op_handlers = failed, op_succeeded = False\<rparr>,
         (if sdpOffer
          then add_job (J_reoffer (length (se_ops s)) (headers @ [''Content-Type: application/sdp'']))
          else se_sendRequest UPDATE headers None)] s)"

text \<open>\<open>onFailed\<close>: the handlers of \<open>hold\<close>, \<open>unhold\<close> and \<open>renegotiate\<close> end the call; a refresh has none.\<close>

definition op_failed :: "se_env \<Rightarrow> se_op \<Rightarrow> se_act" where
  "op_failed env p =
     (case op_handlers p of
        None \<Rightarrow> skip
      | Some phrase \<Rightarrow> se_terminate env (terminate_with C_WEBRTC_ERROR 500 (Some phrase)))"

definition op_done :: "nat \<Rightarrow> se_op \<Rightarrow> se_act" where
  "op_done n p = (if op_handlers p = None then skip else say (Se_done n))"

definition resolve_reoffer :: "se_env \<Rightarrow> nat \<Rightarrow> string list \<Rightarrow> desc_outcome \<Rightarrow> se_act" where
  "resolve_reoffer env n headers o' s =
     (let p = se_ops s ! n in
      run
        [settle_description o',
         (case o' of
            Desc_ready sdp waited \<Rightarrow>
              catch_act
                (run [say (Se_emit ''sdp''),
                      (\<lambda>s. se_sendRequest (op_method p) headers (Some (mangleOffer (ev_sdp_parse env) (ev_sdp_write env) s sdp)) s)])
                (op_failed env p)
          | _ \<Rightarrow> op_failed env p)] s)"

definition has_sdp :: "in_response \<Rightarrow> bool" where
  "has_sdp r = (truthy (im_body r) \<and> content_type r = Some ''application/sdp'')"

text \<open>A 2xx response to such a request; \<open>succeeded\<close> is set whatever the handler did.\<close>

definition op_success :: "se_env \<Rightarrow> nat \<Rightarrow> in_response \<Rightarrow> se_act" where
  "op_success env n r s =
     (let p = se_ops s ! n;
          mark = (if op_offer p then upd (\<lambda>s. s\<lparr>se_ops := (se_ops s)[n := p\<lparr>op_succeeded := True\<rparr>]\<rparr>) else skip)
      in run
        [(\<lambda>s. if se_status s = S_TERMINATED then (None, s)
              else run
                [when_act (op_method p = INVITE) (se_sendRequest ACK [] None),
                 (if op_succeeded p then skip
                  else run
                    [handleSessionTimersInIncomingResponse r,
                     (if \<not> op_offer p then op_done n p
                      else if \<not> has_sdp r then op_failed env p
                      else run [say (Se_emit ''sdp''), add_job (J_reanswer n r)])])] s),
         mark] s)"

definition op_error :: "se_env \<Rightarrow> nat \<Rightarrow> se_act" where
  "op_error env n s = op_failed env (se_ops s ! n) s"

definition resolve_reanswer :: "se_env \<Rightarrow> nat \<Rightarrow> bool \<Rightarrow> se_act" where
  "resolve_reanswer env n ok s =
     (if ok then op_done n (se_ops s ! n) s
      else run [op_failed env (se_ops s ! n), say (Se_emit ''peerconnection:setremotedescriptionfailed'')] s)"

text \<open>The session refresh, when the timer fires.\<close>

definition refresh_session :: se_act where
  "refresh_session s =
     (if se_status s = S_TERMINATED then (None, s)
      else if \<not> isReadyToReOffer s then (None, s)
      else if st_refreshMethod (se_timers s) = UPDATE then sendUpdate False None None s
      else sendReinvite None None s)"

definition session_expired :: "se_env \<Rightarrow> se_act" where
  "session_expired env s =
     (if se_status s = S_TERMINATED then (None, s)
      else se_terminate env (terminate_with C_REQUEST_TIMEOUT 408 (Some ''Session Timer Expired'')) s)"

section \<open>Hold, unhold and renegotiate\<close>

definition in_call :: "session \<Rightarrow> bool" where
  "in_call s = (se_status s = S_WAITING_FOR_ACK \<or> se_status s = S_CONFIRMED)"

definition can_hold :: "session \<Rightarrow> bool" where
  "can_hold s = (in_call s \<and> \<not> se_localHold s \<and> isReadyToReOffer s)"

definition can_unhold :: "session \<Rightarrow> bool" where
  "can_unhold s = (in_call s \<and> se_localHold s \<and> isReadyToReOffer s)"

definition can_renegotiate :: "session \<Rightarrow> bool" where
  "can_renegotiate s = (in_call s \<and> isReadyToReOffer s)"

definition send_offer :: "bool \<Rightarrow> string list option \<Rightarrow> string \<Rightarrow> se_act" where
  "send_offer useUpdate extraHeaders failed =
     (if useUpdate then sendUpdate True extraHeaders (Some failed) else sendReinvite extraHeaders (Some failed))"

text \<open>The three operations return \<open>false\<close>, and do nothing, unless their condition holds.\<close>

definition hold :: "bool \<Rightarrow> string list option \<Rightarrow> se_act" where
  "hold useUpdate extraHeaders s =
     (if \<not> can_hold s then (None, s)
      else run
        [upd (\<lambda>s. s\<lparr>se_localHold := True\<rparr>), onhold Local, send_offer useUpdate extraHeaders ''Hold Failed''] s)"

definition unhold :: "bool \<Rightarrow> string list option \<Rightarrow> se_act" where
  "unhold useUpdate extraHeaders s =
     (if \<not> can_unhold s then (None, s)
      else run
        [upd (\<lambda>s. s\<lparr>se_localHold := False\<rparr>), onunhold Local, send_offer useUpdate extraHeaders ''Unhold Failed''] s)"

definition renegotiate :: "bool \<Rightarrow> string list option \<Rightarrow> se_act" where
  "renegotiate useUpdate extraHeaders s =
     (if \<not> can_renegotiate s then (None, s)
      else run [setLocalMediaStatus, send_offer useUpdate extraHeaders ''Media Renegotiation Failed''] s)"

section \<open>Receiving re-INVITE and UPDATE\<close>

text \<open>What the application does with the event: nothing, or a rejection.\<close>

record reject_options =
  rj_status_code :: nat
  rj_reason_phrase :: "string option"
  rj_extraHeaders :: "string list option"

definition reject_offer :: "in_request \<Rightarrow> reject_options \<Rightarrow> se_act" where
  "reject_offer r opts s =
     (let code = (if rj_status_code opts = 0 then 403 else rj_status_code opts) in
      if se_status s \<noteq> S_CONFIRMED then (None, s)
      else if code < 300 \<or> code \<ge> 700 then (Some (TypeError (''Invalid status_code: '' @ num_str code)), s)
      else say (Se_reply r code (Some (str_or (rj_reason_phrase opts) [])) (cloneArray (rj_extraHeaders opts)) None) s)"

definition change_remote_hold :: "bool \<Rightarrow> se_act" where
  "change_remote_hold held s =
     (if se_remoteHold s \<and> \<not> held then run [upd (\<lambda>s. s\<lparr>se_remoteHold := False\<rparr>), onunhold Remote] s
      else if \<not> se_remoteHold s \<and> held then run [upd (\<lambda>s. s\<lparr>se_remoteHold := True\<rparr>), onhold Remote] s
      else (None, s))"

definition processInDialogSdpOffer :: "se_env \<Rightarrow> in_request \<Rightarrow> se_act" where
  "processInDialogSdpOffer env r =
     (let d = ev_sdp_parse env (text_of (im_body r));
          held = offer_holds (sdp_direction d) (sdp_media d) False
      in run [say (Se_emit ''sdp''), add_job (J_offer_remote r held)])"

text \<open>
  The end of a received offer.  A reply that the transaction takes starts the timers; one that it drops
  or cannot send does not (the failure has no callback here).
\<close>

definition send_reinvite_answer :: "se_env \<Rightarrow> in_request \<Rightarrow> string option \<Rightarrow> se_act" where
  "send_reinvite_answer env r desc s =
     (let headers = (''Contact: '' @ se_contact s) # timer_headers r s;
          desc = (if se_late_sdp s then map_option (mangleOffer (ev_sdp_parse env) (ev_sdp_write env) s) desc else desc)
      in run
        [handleSessionTimersInIncomingRequest r,
         say (Se_reply r 200 None headers desc),
         when_act (ev_reply env = Reply_sent)
           (run [set_status S_WAITING_FOR_ACK, setInvite2xxTimer r desc, setACKTimer])] s)"

definition send_update_answer :: "in_request \<Rightarrow> string option \<Rightarrow> se_act" where
  "send_update_answer r desc s =
     (let headers = (''Contact: '' @ se_contact s) # timer_headers r s
      in run [handleSessionTimersInIncomingRequest r, say (Se_reply r 200 None headers desc)] s)"

definition send_answer :: "se_env \<Rightarrow> in_request \<Rightarrow> string option \<Rightarrow> se_act" where
  "send_answer env r desc = (if im_method r = INVITE then send_reinvite_answer env r desc else send_update_answer r desc)"

definition receiveReinvite :: "se_env \<Rightarrow> reject_options option \<Rightarrow> in_request \<Rightarrow> se_act" where
  "receiveReinvite env app r =
     run
       [say (Se_emit ''reinvite''),
        (case app of
           Some opts \<Rightarrow> reject_offer r opts
         | None \<Rightarrow>
             run
               [upd (\<lambda>s. s\<lparr>se_late_sdp := \<not> truthy (im_body r)\<rparr>),
                (if \<not> truthy (im_body r) then
                   run [change_remote_hold False, add_job (J_late_desc r)]
                 else if content_type r \<noteq> Some ''application/sdp'' then say (Se_reply r 415 None [] None)
                 else processInDialogSdpOffer env r)])]"

definition receiveUpdate :: "se_env \<Rightarrow> reject_options option \<Rightarrow> in_request \<Rightarrow> se_act" where
  "receiveUpdate env app r =
     run
       [say (Se_emit ''update''),
        (case app of
           Some opts \<Rightarrow> reject_offer r opts
         | None \<Rightarrow>
             (if \<not> truthy (im_body r) then send_update_answer r None
              else if content_type r \<noteq> Some ''application/sdp'' then say (Se_reply r 415 None [] None)
              else processInDialogSdpOffer env r))]"

text \<open>
  The chain of \<open>_processInDialogSdpOffer\<close> catches its own failures, so the answer is sent after one
  too, without a description.
\<close>

definition after_offer :: "se_env \<Rightarrow> in_request \<Rightarrow> string option \<Rightarrow> se_act" where
  "after_offer env r desc s = (if se_status s = S_TERMINATED then (None, s) else send_answer env r desc s)"

definition resolve_offer_remote :: "se_env \<Rightarrow> in_request \<Rightarrow> bool \<Rightarrow> bool \<Rightarrow> se_act" where
  "resolve_offer_remote env r held ok s =
     (if \<not> ok then
        run [say (Se_reply r 488 None [] None), say (Se_emit ''peerconnection:setremotedescriptionfailed''),
             after_offer env r None] s
      else if se_status s = S_TERMINATED then (None, s)
      else run
        [catch_act (run [change_remote_hold held, createLocalDescription, continue_job (J_offer_desc r)]) (after_offer env r None)] s)"

definition resolve_offer_desc :: "se_env \<Rightarrow> in_request \<Rightarrow> desc_outcome \<Rightarrow> se_act" where
  "resolve_offer_desc env r o' =
     run
       [settle_description o',
        (case o' of
           Desc_ready sdp waited \<Rightarrow> after_offer env r (Some sdp)
         | _ \<Rightarrow> run [say (Se_reply r 500 None [] None), after_offer env r None])]"

text \<open>A re-INVITE without a body: the offer is sent in the reply, in whatever status the session is then.\<close>

definition resolve_late_desc :: "se_env \<Rightarrow> in_request \<Rightarrow> desc_outcome \<Rightarrow> se_act" where
  "resolve_late_desc env r o' =
     run
       [settle_description o',
        (case o' of
           Desc_ready sdp waited \<Rightarrow> send_reinvite_answer env r (Some sdp)
         | _ \<Rightarrow> say (Se_reply r 500 None [] None))]"

end
