(* ===== verification/Session_Uac.thy ===== *)
theory Session_Uac
  imports Session_Offer
begin

text \<open>
  The caller: \<open>connect\<close> (lines 17569-17677 of \<open>frontend/static/js/jssip-3.10.0.js\<close>), the sending of the
  INVITE (\<open>_sendInitialRequest\<close>, lines 19592-19678) and its responses (\<open>_receiveInviteResponse\<close>, lines
  19701-19870).
\<close>

section \<open>Calling\<close>

record connect_options =
  co_extraHeaders :: "string list option"
  co_asks_media :: bool
  co_sessionTimersExpires :: "nat option"
  co_anonymous :: bool
  co_fromUserName :: "string option"
  co_fromDisplayName :: "string option"

definition identity_header :: "uri \<Rightarrow> js_error + string" where
  "identity_header own = bind_result (uri_toString own) (\<lambda>u. Inr (''P-Preferred-Identity: '' @ u))"

definition connect_identity :: "uri \<Rightarrow> connect_options \<Rightarrow> req_params \<Rightarrow> js_error + req_params \<times> string list" where
  "connect_identity own opts p =
     (if co_anonymous opts then
        bind_result (new_uri ''sip'' (Some ''anonymous'') ''anonymous.invalid'' None [] []) (\<lambda>u.
          bind_result (identity_header own) (\<lambda>h.
            Inr (p\<lparr>p_from_display_name := Some (Some ''Anonymous''), p_from_uri := Some u\<rparr>, [h, ''Privacy: id''])))
      else if truthy (co_fromUserName opts) then
        bind_result (new_uri ''sip'' (co_fromUserName opts) (uri_host own) None [] []) (\<lambda>u.
          bind_result (identity_header own) (\<lambda>h. Inr (p\<lparr>p_from_uri := Some u\<rparr>, [h])))
      else Inr (p, []))"

definition connect_request :: "se_env \<Rightarrow> connect_options \<Rightarrow> uri \<Rightarrow> session \<Rightarrow> js_error + out_request" where
  "connect_request env opts target s =
     (let own = cfg_uri (ev_cfg env) in
      bind_result (connect_identity own opts (no_params\<lparr>p_from_tag := se_from_tag s\<rparr>)) (\<lambda>(p, h).
        (let p = (if truthy (co_fromDisplayName opts) then p\<lparr>p_from_display_name := Some (co_fromDisplayName opts)\<rparr> else p);
             extra = cloneArray (co_extraHeaders opts) @ h
               @ [''Contact: '' @ se_contact s, ''Content-Type: application/sdp'']
               @ (if st_enabled (se_timers s)
                  then [''Session-Expires: '' @ num_str (st_defaultExpires (se_timers s))
                        @ (if sc_force_refresher (ev_session_cfg env) then '';refresher=uac'' else [])]
                  else [])
         in new_out_request (ev_cfg env) (ev_draws env) INVITE target p (Some extra) None)))"

definition createRTCConnection :: se_act where
  "createRTCConnection =
     run [upd (\<lambda>s. s\<lparr>se_connection := Some \<lparr>pc_closed = False, pc_audio = [], pc_video = []\<rparr>\<rparr>),
          say (Se_emit ''peerconnection'')]"

definition sendInitialRequest :: "se_env \<Rightarrow> bool \<Rightarrow> se_act" where
  "sendInitialRequest env asks =
     run [when_act (ev_user_closed env) (se_onTransportError env), add_job (J_invite_media asks)]"

text \<open>
  \<open>app\<close>: what the listeners of \<open>newRTCSession\<close> do, nothing or to terminate the call.
\<close>

definition app_terminates :: "se_env \<Rightarrow> terminate_options option \<Rightarrow> se_act" where
  "app_terminates env app = (case app of None \<Rightarrow> skip | Some opts \<Rightarrow> se_terminate env opts)"

definition connect_session :: "se_env \<Rightarrow> connect_options \<Rightarrow> terminate_options option \<Rightarrow> out_request \<Rightarrow> se_act" where
  "connect_session env opts app r =
     run
       [upd (\<lambda>s. s\<lparr>se_outgoing := Some r, se_id := or_call_id r @ text_of (se_from_tag s)\<rparr>),
        createRTCConnection,
        upd (\<lambda>s. s\<lparr>se_direction := Some D_outgoing\<rparr>),
        se_new Local,
        app_terminates env app,
        sendInitialRequest env (co_asks_media opts)]"

definition connect :: "se_env \<Rightarrow> connect_options \<Rightarrow> terminate_options option \<Rightarrow> string option \<Rightarrow> se_act" where
  "connect env opts app target s =
     (case target of
        None \<Rightarrow> (Some (TypeError ''Not enough arguments''), s)
      | Some t \<Rightarrow>
          if se_status s \<noteq> S_NULL then (Some (InvalidStateError (se_status_number (se_status s))), s)
          else if \<not> ev_webrtc env then (Some (NotSupportedError ''WebRTC not supported''), s)
          else
            (case normalizeTarget (ev_uri env) t (ev_hostport env) of
               Inl e \<Rightarrow> (Some e, s)
             | Inr None \<Rightarrow> (Some (TypeError (''Invalid target: '' @ t)), s)
             | Inr (Some u) \<Rightarrow>
                 run
                   [set_default_expires (co_sessionTimersExpires opts),
                    upd (\<lambda>s. s\<lparr>se_from_tag := Some (newTag (d_tag (ev_draws env))),
                               se_contact := ev_contact env (co_anonymous opts) True\<rparr>),
                    (\<lambda>s. case connect_request env opts u s of
                           Inl e \<Rightarrow> (Some e, s)
                         | Inr r \<Rightarrow> connect_session env opts app r s)] s))"

section \<open>Sending the INVITE\<close>

datatype media_outcome = Media_ok "(bool list \<times> bool list) option" | Media_denied

text \<open>The stream, if there is one, with the \<open>enabled\<close> flags of its audio and video tracks.\<close>

definition take_stream :: "(bool list \<times> bool list) option \<Rightarrow> se_act" where
  "take_stream stream =
     (case stream of
        None \<Rightarrow> upd (\<lambda>s. s\<lparr>se_stream := False\<rparr>)
      | Some (audio, video) \<Rightarrow>
          upd (\<lambda>s. s\<lparr>se_stream := True,
            se_connection := map_option (\<lambda>c. c\<lparr>pc_audio := pc_audio c @ audio, pc_video := pc_video c @ video\<rparr>) (se_connection s)\<rparr>))"

definition resolve_invite_media :: "media_outcome \<Rightarrow> se_act" where
  "resolve_invite_media o' s =
     (if se_status s = S_TERMINATED then (None, s)
      else case o' of
          Media_denied \<Rightarrow> run [se_failed Local None C_USER_DENIED_MEDIA_ACCESS, say (Se_emit ''getusermediafailed'')] s
        | Media_ok stream \<Rightarrow>
            run [take_stream stream, se_connecting, createLocalDescription, continue_job J_invite_offer] s)"

definition resolve_invite_offer :: "desc_outcome \<Rightarrow> se_act" where
  "resolve_invite_offer o' =
     run
       [settle_description o',
        (case o' of
           Desc_ready sdp waited \<Rightarrow>
             (\<lambda>s. if se_is_canceled s \<or> se_status s = S_TERMINATED then (None, s)
                  else case se_outgoing s of
                      None \<Rightarrow> (None, s)
                    | Some r \<Rightarrow>
                        run [upd (\<lambda>s. s\<lparr>se_outgoing := Some (r\<lparr>or_body := Some sdp\<rparr>)\<rparr>), set_status S_INVITE_SENT,
                             say (Se_emit ''sending''), say (Se_send_invite (r\<lparr>or_body := Some sdp\<rparr>))] s)
         | _ \<Rightarrow> se_failed Local None C_WEBRTC_ERROR)]"

definition se_onAuthenticated :: "out_request \<Rightarrow> se_act" where
  "se_onAuthenticated r = upd (\<lambda>s. s\<lparr>se_outgoing := Some r\<rparr>)"

section \<open>Responses to the INVITE\<close>

definition same_dialog :: "dialog \<Rightarrow> in_response \<Rightarrow> bool" where
  "same_dialog d r =
     (di_call_id (dl_id d) = im_call_id r \<and> di_local_tag (dl_id d) = im_from_tag r \<and> di_remote_tag (dl_id d) = im_to_tag r)"

text \<open>A 2xx response when the session has its dialog: a retransmission, or another branch's answer.\<close>

definition receive_second_2xx :: "se_env \<Rightarrow> dialog \<Rightarrow> in_response \<Rightarrow> se_act" where
  "receive_second_2xx env d r =
     (if same_dialog d r then se_sendRequest ACK [] None
      else
        (case new_dialog (ev_parse env) r (Some (im_status_code r)) UAC D_CONFIRMED of
           Inl e \<Rightarrow> throw e
         | Inr None \<Rightarrow> skip
         | Inr (Some d') \<Rightarrow>
             run [say (Se_dialog_new (dl_id d')), se_sendRequest ACK [] None, se_sendRequest BYE [] None]))"

definition receive_canceled :: "se_env \<Rightarrow> in_response \<Rightarrow> se_act" where
  "receive_canceled env r s =
     (if im_status_code r \<ge> 100 \<and> im_status_code r < 200 then say (Se_cancel (se_cancel_reason s)) s
      else if im_status_code r \<ge> 200 \<and> im_status_code r < 299 then acceptAndTerminate env r 0 None s
      else (None, s))"

definition receive_1xx :: "se_env \<Rightarrow> in_response \<Rightarrow> se_act" where
  "receive_1xx env r =
     (let go = run
        [set_status S_1XX_RECEIVED,
         (if \<not> truthy (im_body r) then se_progress Remote (Some r)
          else run [say (Se_emit ''sdp''), add_job (J_progress r)])]
      in
      if \<not> truthy (im_to_tag r) then skip
      else if im_hasHeader ''contact'' r
      then with_dialog (ev_parse env) UAC True (Some (im_status_code r)) (Some r) r go skip
      else go)"

definition receive_2xx :: "se_env \<Rightarrow> in_response \<Rightarrow> se_act" where
  "receive_2xx env r =
     run
       [set_status S_CONFIRMED,
        (if \<not> truthy (im_body r) then
           run [acceptAndTerminate env r 400 (Some ''Missing SDP''), se_failed Remote (Some r) C_BAD_MEDIA_DESCRIPTION]
         else
           with_dialog (ev_parse env) UAC False (Some (im_status_code r)) (Some r) r
             (run [say (Se_emit ''sdp''), add_job (J_accept_offer r)]) skip)]"

definition receiveInviteResponse :: "se_env \<Rightarrow> in_response \<Rightarrow> se_act" where
  "receiveInviteResponse env r s =
     (let code = im_status_code r in
      if se_dialog s \<noteq> None \<and> code \<ge> 200 \<and> code \<le> 299 then receive_second_2xx env (the (se_dialog s)) r s
      else if se_is_canceled s then receive_canceled env r s
      else if se_status s \<noteq> S_INVITE_SENT \<and> se_status s \<noteq> S_1XX_RECEIVED then (None, s)
      else if code = 100 then set_status S_1XX_RECEIVED s
      else if code \<ge> 100 \<and> code < 200 then receive_1xx env r s
      else if code \<ge> 200 \<and> code < 300 then receive_2xx env r s
      else se_failed Remote (Some r) (sipErrorCause code) s)"

text \<open>
  The chain of a 2xx response.  An offer is made first when the connection is already stable; the
  failure of that is handled and the chain goes on.
\<close>

datatype stable_outcome = Not_stable | Stable_ok | Stable_fails string

definition resolve_accept_offer :: "se_env \<Rightarrow> in_response \<Rightarrow> stable_outcome \<Rightarrow> se_act" where
  "resolve_accept_offer env r o' =
     run
       [(case o' of
           Stable_fails e \<Rightarrow>
             run [acceptAndTerminate env r 500 (Some e), se_failed Local (Some r) C_WEBRTC_ERROR]
         | _ \<Rightarrow> skip),
        continue_job (J_accept_remote r)]"

definition reject_answer :: "se_env \<Rightarrow> in_response \<Rightarrow> se_act" where
  "reject_answer env r =
     run [acceptAndTerminate env r 488 (Some ''Not Acceptable Here''), se_failed Remote (Some r) C_BAD_MEDIA_DESCRIPTION,
          say (Se_emit ''peerconnection:setremotedescriptionfailed'')]"

definition resolve_accept_remote :: "se_env \<Rightarrow> in_response \<Rightarrow> bool \<Rightarrow> se_act" where
  "resolve_accept_remote env r ok =
     (if ok then
        catch_act
          (run [handleSessionTimersInIncomingResponse r, se_accepted Remote (Some r), se_sendRequest ACK [] None, se_confirmed Local])
          (reject_answer env r)
      else reject_answer env r)"

definition resolve_progress :: "in_response \<Rightarrow> bool \<Rightarrow> se_act" where
  "resolve_progress r ok =
     (if ok then se_progress Remote (Some r) else say (Se_emit ''peerconnection:setremotedescriptionfailed''))"

end
