(* ===== verification/Session_Uas.thy ===== *)
theory Session_Uas
  imports Session_Uac
begin

text \<open>
  The callee: \<open>init_incoming\<close> (lines 17682-17766 of \<open>frontend/static/js/jssip-3.10.0.js\<close>) and \<open>answer\<close>
  (lines 17772-18041).
\<close>

section \<open>An incoming call\<close>

definition se_fire_no_answer :: "in_request \<Rightarrow> se_act" where
  "se_fire_no_answer r = run [say (Se_reply r 408 None [] None), se_failed Local None C_NO_ANSWER]"

definition se_fire_expires :: "in_request \<Rightarrow> se_act" where
  "se_fire_expires r s =
     (if se_status s = S_WAITING_FOR_ANSWER
      then run [say (Se_reply r 487 None [] None), se_failed System None C_EXPIRES] s else (None, s))"

text \<open>\<open>Expires * 1000\<close>, when that is neither 0 nor no number.\<close>

definition expires_delay :: "in_request \<Rightarrow> js_num option" where
  "expires_delay r =
     (if im_hasHeader ''expires'' r then
        (case js_Number (text_of (im_getHeader ''expires'' r)) of
           NaN \<Rightarrow> None
         | Num x \<Rightarrow> if x = 0 then None else Some (Num (x * 1000))
         | Infinite p \<Rightarrow> Some (Infinite p))
      else None)"

definition incoming_created :: "se_env \<Rightarrow> terminate_options option \<Rightarrow> in_request \<Rightarrow> se_act" where
  "incoming_created env app r =
     run
       [upd (\<lambda>s. s\<lparr>se_late_sdp := \<not> truthy (im_body r)\<rparr>),
        set_status S_WAITING_FOR_ANSWER,
        se_setTimeout (T_no_answer r) (Num (real (sc_no_answer_timeout (ev_session_cfg env))))
          (\<lambda>h s. s\<lparr>se_noAnswerTimer := Some h\<rparr>),
        (case expires_delay r of
           None \<Rightarrow> skip
         | Some d \<Rightarrow> se_setTimeout (T_expires r) d (\<lambda>h s. s\<lparr>se_expiresTimer := Some h\<rparr>)),
        upd (\<lambda>s. s\<lparr>se_direction := Some D_incoming\<rparr>),
        se_new Remote,
        app_terminates env app,
        (\<lambda>s. if se_status s = S_TERMINATED then (None, s)
              else run [say (Se_reply r 180 None [''Contact: '' @ se_contact s] None), se_progress Local None] s)]"

definition init_incoming :: "se_env \<Rightarrow> terminate_options option \<Rightarrow> in_request \<Rightarrow> se_act" where
  "init_incoming env app r =
     (if truthy (im_body r) \<and> content_type r \<noteq> Some ''application/sdp'' then say (Se_reply r 415 None [] None)
      else
        (let q = r\<lparr>im_to_tag := Some (newTag (d_tag (ev_draws env)))\<rparr> in
         run
           [upd (\<lambda>s. s\<lparr>se_status := S_INVITE_RECEIVED, se_from_tag := im_from_tag r,
               se_id := im_call_id r @ text_of (im_from_tag r), se_incoming := Some q,
               se_contact := ev_contact env False False\<rparr>),
            with_dialog (ev_parse env) UAS True None None q
              (incoming_created env app q)
              (say (Se_reply q 500 (Some ''Missing Contact header field'') [] None))]))"

section \<open>Answering\<close>

record answer_options =
  an_extraHeaders :: "string list option"
  an_stream :: bool
  an_audio :: "bool option"
  an_video :: "bool option"
  an_sessionTimersExpires :: "nat option"
  an_offerToReceiveAudio :: bool
  an_offerToReceiveVideo :: bool

definition peer_has :: "string \<Rightarrow> sdp \<Rightarrow> bool" where
  "peer_has kind d = list_ex (\<lambda>m. sm_type m = kind) (sdp_media d)"

definition peer_offers_full :: "string \<Rightarrow> sdp \<Rightarrow> bool" where
  "peer_offers_full kind d =
     list_ex (\<lambda>m. sm_type m = kind \<and> (\<not> truthy (sm_direction m) \<or> sm_direction m = Some ''sendrecv'')) (sdp_media d)"

text \<open>One of the media constraints, when no stream is given.\<close>

definition media_constraint :: "bool option \<Rightarrow> string \<Rightarrow> bool \<Rightarrow> sdp \<Rightarrow> bool" where
  "media_constraint asked kind offerToReceive d =
     (let c = (case asked of None \<Rightarrow> peer_offers_full kind d | Some b \<Rightarrow> b)
      in if \<not> peer_has kind d \<and> \<not> offerToReceive then False else c)"

text \<open>Whether the browser is asked for local media.\<close>

definition answer_asks :: "answer_options \<Rightarrow> sdp \<Rightarrow> bool" where
  "answer_asks opts d =
     (\<not> an_stream opts
      \<and> (media_constraint (an_audio opts) ''audio'' (an_offerToReceiveAudio opts) d
         \<or> media_constraint (an_video opts) ''video'' (an_offerToReceiveVideo opts) d))"

definition answer_created :: "se_env \<Rightarrow> answer_options \<Rightarrow> in_request \<Rightarrow> se_act" where
  "answer_created env opts r s =
     (let headers = (''Contact: '' @ se_contact s) # cloneArray (an_extraHeaders opts);
          asks = answer_asks opts (ev_sdp_parse env (text_of (if truthy (im_body r) then im_body r else Some [])))
      in run
        [se_clearTimeout se_noAnswerTimer, createRTCConnection, add_job (J_answer_media r asks headers)] s)"

definition answer :: "se_env \<Rightarrow> answer_options \<Rightarrow> se_act" where
  "answer env opts s =
     (if se_direction s \<noteq> Some D_incoming
      then (Some (NotSupportedError ''\"answer\" not supported for outgoing RTCSession''), s)
      else if se_status s \<noteq> S_WAITING_FOR_ANSWER then (Some (InvalidStateError (se_status_number (se_status s))), s)
      else
        (case se_incoming s of
           None \<Rightarrow> (Some (TypeError ''Cannot read property of null''), s)
         | Some r \<Rightarrow>
             run
               [set_default_expires (an_sessionTimersExpires opts), set_status S_ANSWERED,
                with_dialog (ev_parse env) UAS False None None r
                  (answer_created env opts r)
                  (say (Se_reply r 500 (Some ''Error creating dialog'') [] None))] s))"

text \<open>The chain that follows.\<close>

definition answer_describe :: "in_request \<Rightarrow> bool \<Rightarrow> string list \<Rightarrow> se_act" where
  "answer_describe r late headers s =
     (if se_status s = S_TERMINATED then (None, s)
      else run [se_connecting, createLocalDescription, continue_job (J_answer_desc r late headers)] s)"

definition resolve_answer_media :: "in_request \<Rightarrow> string list \<Rightarrow> media_outcome \<Rightarrow> se_act" where
  "resolve_answer_media r headers o' s =
     (if se_status s = S_TERMINATED then (None, s)
      else case o' of
          Media_denied \<Rightarrow>
            run [say (Se_reply r 480 None [] None), se_failed Local None C_USER_DENIED_MEDIA_ACCESS,
                 say (Se_emit ''getusermediafailed'')] s
        | Media_ok stream \<Rightarrow>
            run [take_stream stream,
                 (if se_late_sdp s then answer_describe r True headers
                  else run [say (Se_emit ''sdp''), add_job (J_answer_remote r headers)])] s)"

definition resolve_answer_remote :: "in_request \<Rightarrow> string list \<Rightarrow> bool \<Rightarrow> se_act" where
  "resolve_answer_remote r headers ok =
     (if ok then answer_describe r False headers
      else run [say (Se_reply r 488 None [] None), se_failed System None C_WEBRTC_ERROR,
                say (Se_emit ''peerconnection:setremotedescriptionfailed'')])"

text \<open>A description that cannot be made is replied 500; the session is left as it is.\<close>

definition resolve_answer_desc :: "se_env \<Rightarrow> in_request \<Rightarrow> string list \<Rightarrow> desc_outcome \<Rightarrow> se_act" where
  "resolve_answer_desc env r headers o' =
     run
       [settle_description o',
        (case o' of
           Desc_ready sdp waited \<Rightarrow>
             (\<lambda>s. if se_status s = S_TERMINATED then (None, s)
                  else run
                    [handleSessionTimersInIncomingRequest r,
                     say (Se_reply r 200 None (headers @ timer_headers r s) (Some sdp)),
                     (case ev_reply env of
                        Reply_sent \<Rightarrow>
                          run [set_status S_WAITING_FOR_ACK, setInvite2xxTimer r (Some sdp), setACKTimer, se_accepted Local None]
                      | Reply_failed \<Rightarrow> se_failed System None C_CONNECTION_ERROR
                      | Reply_dropped \<Rightarrow> skip)] s)
         | _ \<Rightarrow> say (Se_reply r 500 None [] None))]"

end
