(* ===== verification/Session.thy ===== *)
theory Session
  imports Session_Uas
begin

text \<open>
  The call as a whole: requests in its dialog (\<open>RTCSession.receiveRequest\<close>, lines 18601-18760 of
  \<open>frontend/static/js/jssip-3.10.0.js\<close>), its timers, the jobs that wait for the browser, and every step
  a session can take.
\<close>

section \<open>Requests\<close>

record receive_app =
  ra_reject :: "reject_options option"
  ra_read_status :: "string \<Rightarrow> nat option"

definition wrong_status :: "in_request \<Rightarrow> se_act" where
  "wrong_status r = say (Se_reply r 403 (Some ''Wrong Status'') [] None)"

definition receive_cancel :: "in_request \<Rightarrow> se_act" where
  "receive_cancel r s =
     (if se_status s = S_WAITING_FOR_ANSWER \<or> se_status s = S_ANSWERED
      then run [set_status S_CANCELED, reply_initial 487 None [] None, se_failed Remote None C_CANCELED] s
      else (None, s))"

definition receive_ack :: "se_env \<Rightarrow> in_request \<Rightarrow> se_act" where
  "receive_ack env r s =
     (if se_status s \<noteq> S_WAITING_FOR_ACK then (None, s)
      else run
        [set_status S_CONFIRMED, se_clearTimeout se_ackTimer, se_clearTimeout se_invite2xxTimer,
         (if se_late_sdp s then
            (if \<not> truthy (im_body r) then se_terminate env (terminate_with C_MISSING_SDP 400 None)
             else run [say (Se_emit ''sdp''), add_job J_ack_remote])
          else if \<not> se_is_confirmed s then se_confirmed Remote
          else skip)] s)"

definition receive_bye :: "in_request \<Rightarrow> se_act" where
  "receive_bye r s =
     (if se_status s = S_CONFIRMED \<or> se_status s = S_WAITING_FOR_ACK
      then run [say (Se_reply r 200 None [] None), se_ended Remote C_BYE] s
      else if se_status s = S_INVITE_RECEIVED \<or> se_status s = S_WAITING_FOR_ANSWER
      then run [say (Se_reply r 200 None [] None), reply_initial 487 (Some ''BYE Received'') [] None, se_ended Remote C_BYE] s
      else wrong_status r s)"

definition in_dialog_info :: "session \<Rightarrow> bool" where
  "in_dialog_info s = (se_status s \<in> {S_1XX_RECEIVED, S_WAITING_FOR_ANSWER, S_ANSWERED, S_WAITING_FOR_ACK, S_CONFIRMED})"

definition se_receiveRequest :: "se_env \<Rightarrow> receive_app \<Rightarrow> in_request \<Rightarrow> se_act" where
  "se_receiveRequest env app r s =
     (if se_bye_later s \<noteq> None then (if im_method r = ACK then send_late_bye s else (None, s))
      else case im_method r of
          CANCEL \<Rightarrow> receive_cancel r s
        | ACK \<Rightarrow> receive_ack env r s
        | BYE \<Rightarrow> receive_bye r s
        | INVITE \<Rightarrow>
            if se_status s = S_CONFIRMED
            then (if im_hasHeader ''replaces'' r then receiveReplaces r s else receiveReinvite env (ra_reject app) r s)
            else wrong_status r s
        | INFO \<Rightarrow> if in_dialog_info s then receive_info r s else wrong_status r s
        | UPDATE \<Rightarrow> if se_status s = S_CONFIRMED then receiveUpdate env (ra_reject app) r s else wrong_status r s
        | REFER \<Rightarrow> if se_status s = S_CONFIRMED then receiveRefer r s else wrong_status r s
        | NOTIFY \<Rightarrow> if se_status s = S_CONFIRMED then receiveNotify (ra_read_status app) r s else wrong_status r s
        | _ \<Rightarrow> say (Se_reply r 501 None [] None) s)"

text \<open>The application answers a REFER that was passed to it, and its new session reports.\<close>

definition resolve_ack_remote :: "se_env \<Rightarrow> bool \<Rightarrow> se_act" where
  "resolve_ack_remote env ok s =
     (if ok then (if \<not> se_is_confirmed s then se_confirmed Remote s else (None, s))
      else run [se_terminate env (terminate_with C_BAD_MEDIA_DESCRIPTION 488 None),
                say (Se_emit ''peerconnection:setremotedescriptionfailed'')] s)"

text \<open>The handler of \<open>iceconnectionstatechange\<close> when the connection has failed.\<close>

definition ice_failed :: "se_env \<Rightarrow> se_act" where
  "ice_failed env = se_terminate env (terminate_with C_RTP_TIMEOUT 408 (Some ''RTP Timeout''))"

section \<open>Timers\<close>

fun timer_act :: "se_env \<Rightarrow> se_timer \<Rightarrow> se_act" where
  "timer_act env T_ack = ack_timer_fires"
| "timer_act env (T_expires r) = se_fire_expires r"
| "timer_act env (T_invite2xx r body timeout) = invite2xxRetransmission r body timeout"
| "timer_act env (T_no_answer r) = se_fire_no_answer r"
| "timer_act env T_refresh = refresh_session"
| "timer_act env T_session_expired = session_expired env"
| "timer_act env (T_dtmf position duration gap headers) = dtmf_step position duration gap headers"

definition fire_timer :: "se_env \<Rightarrow> nat \<Rightarrow> se_timer \<Rightarrow> se_act" where
  "fire_timer env h k = run [upd (clear_handles [Some h]), timer_act env k]"

section \<open>Jobs\<close>

text \<open>A link of the promise chain may start when no earlier one is left.\<close>

definition may_start :: "nat \<Rightarrow> session \<Rightarrow> bool" where
  "may_start i s =
     (i < length (se_jobs s) \<and> \<not> snd (se_jobs s ! i)
      \<and> (in_queue (fst (se_jobs s ! i)) \<longrightarrow> \<not> list_ex (\<lambda>(j, _). in_queue j) (take i (se_jobs s))))"

definition remove_job :: "nat \<Rightarrow> session \<Rightarrow> session" where
  "remove_job i s = s\<lparr>se_jobs := take i (se_jobs s) @ drop (Suc i) (se_jobs s)\<rparr>"

text \<open>A link of a rejected chain: its \<open>catch\<close>, and whether that leaves the chain rejected.\<close>

fun reject_job :: "se_env \<Rightarrow> se_job \<Rightarrow> se_act" where
  "reject_job env (J_progress r) = resolve_progress r False"
| "reject_job env (J_answer_remote r h) = resolve_answer_remote r h False"
| "reject_job env J_ack_remote = resolve_ack_remote env False"
| "reject_job env (J_offer_remote r held) = after_offer env r None"
| "reject_job env (J_late_desc r) = say (Se_reply r 500 None [] None)"
| "reject_job env (J_reoffer n h) = op_error env n"
| "reject_job env (J_reanswer n r) = resolve_reanswer env n False"
| "reject_job env j = skip"

fun stays_rejected :: "se_job \<Rightarrow> bool" where
  "stays_rejected (J_accept_offer r) = True"
| "stays_rejected (J_answer_remote r h) = True"
| "stays_rejected j = False"

definition leave_queue :: "bool \<Rightarrow> js_error option \<times> session \<Rightarrow> js_error option \<times> session" where
  "leave_queue rejects p = (fst p, (snd p)\<lparr>se_rejected := (rejects \<or> fst p \<noteq> None)\<rparr>)"

text \<open>What a job does before it waits; a received offer is dropped when the call ended meanwhile.\<close>

definition begin_job :: "se_env \<Rightarrow> nat \<Rightarrow> se_act" where
  "begin_job env i s =
     (let j = fst (se_jobs s ! i); started = upd (\<lambda>s. s\<lparr>se_jobs := (se_jobs s)[i := (j, True)]\<rparr>) in
      case j of
        J_offer_remote r held \<Rightarrow> if se_status s = S_TERMINATED then upd (remove_job i) s else started s
      | J_reoffer n h \<Rightarrow> run [started, createLocalDescription] s
      | J_late_desc r \<Rightarrow> run [started, createLocalDescription] s
      | J_invite_media asks \<Rightarrow> run [started, when_act asks (upd (\<lambda>s. s\<lparr>se_stream_generated := True\<rparr>))] s
      | J_answer_media r asks h \<Rightarrow> run [started, when_act asks (upd (\<lambda>s. s\<lparr>se_stream_generated := True\<rparr>))] s
      | _ \<Rightarrow> started s)"

definition start_job :: "se_env \<Rightarrow> nat \<Rightarrow> se_act" where
  "start_job env i s =
     (let j = fst (se_jobs s ! i) in
      if in_queue j \<and> se_rejected s
      then leave_queue (stays_rejected j) (reject_job env j (remove_job i s))
      else begin_job env i s)"

text \<open>How the browser settles a job.\<close>

datatype job_outcome = O_media media_outcome | O_desc desc_outcome | O_remote bool | O_stable stable_outcome

fun settle_act :: "se_env \<Rightarrow> se_job \<Rightarrow> job_outcome \<Rightarrow> se_act option" where
  "settle_act env (J_invite_media asks) (O_media o') =
     (if o' = Media_denied \<and> \<not> asks then None else Some (resolve_invite_media o'))"
| "settle_act env J_invite_offer (O_desc o') = Some (resolve_invite_offer o')"
| "settle_act env (J_progress r) (O_remote ok) = Some (resolve_progress r ok)"
| "settle_act env (J_accept_offer r) (O_stable o') = Some (resolve_accept_offer env r o')"
| "settle_act env (J_accept_remote r) (O_remote ok) = Some (resolve_accept_remote env r ok)"
| "settle_act env (J_answer_media r asks h) (O_media o') =
     (if o' = Media_denied \<and> \<not> asks then None else Some (resolve_answer_media r h o'))"
| "settle_act env (J_answer_remote r h) (O_remote ok) = Some (resolve_answer_remote r h ok)"
| "settle_act env (J_answer_desc r late h) (O_desc o') = Some (resolve_answer_desc env r h o')"
| "settle_act env J_ack_remote (O_remote ok) = Some (resolve_ack_remote env ok)"
| "settle_act env (J_offer_remote r held) (O_remote ok) = Some (resolve_offer_remote env r held ok)"
| "settle_act env (J_offer_desc r) (O_desc o') = Some (resolve_offer_desc env r o')"
| "settle_act env (J_late_desc r) (O_desc o') = Some (resolve_late_desc env r o')"
| "settle_act env (J_reoffer n h) (O_desc o') = Some (resolve_reoffer env n h o')"
| "settle_act env (J_reanswer n r) (O_remote ok) = Some (resolve_reanswer env n ok)"
| "settle_act env j o' = None"

text \<open>Whether the chain is rejected by how a job went on: only a refused offer is passed on as such.\<close>

definition passes_on :: "se_job \<Rightarrow> job_outcome \<Rightarrow> bool" where
  "passes_on j o' = ((case j of J_answer_remote r h \<Rightarrow> True | _ \<Rightarrow> False) \<and> o' = O_remote False)"

definition settle_job :: "se_env \<Rightarrow> nat \<Rightarrow> job_outcome \<Rightarrow> session \<Rightarrow> (js_error option \<times> session) option" where
  "settle_job env i o' s =
     (if i < length (se_jobs s) \<and> snd (se_jobs s ! i)
      then (let j = fst (se_jobs s ! i) in
        map_option
          (\<lambda>a. (let p = a (remove_job i s) in if in_queue j then leave_queue (passes_on j o') p else p))
          (settle_act env j o'))
      else None)"

section \<open>Steps\<close>

text \<open>The calls of the application, the messages of the peer, the timers and the answers of the browser.\<close>

datatype se_call =
    Call_connect connect_options "terminate_options option" "string option"
  | Call_incoming "terminate_options option" in_request
  | Call_answer answer_options
  | Call_terminate terminate_options
  | Call_dtmf "string option" num_option num_option dtmf_transport "string option" "string list option"
  | Call_dtmf_failed
  | Call_info "string option" "string option" "string list option"
  | Call_mute bool bool
  | Call_unmute bool bool
  | Call_hold bool "string list option"
  | Call_unhold bool "string list option"
  | Call_renegotiate bool "string list option"
  | Call_refer nat string refer_options
  | Call_notify notifier nat "string option"
  | Call_subscriber_ok nat
  | Call_subscriber_failed nat
  | Call_request receive_app in_request
  | Call_response in_response
  | Call_authenticated out_request
  | Call_op_success nat in_response
  | Call_op_error nat
  | Call_transport_error
  | Call_timeout
  | Call_dialog_error
  | Call_ice_failed
  | Call_ist_terminated
  | Call_start_job nat

fun call_act :: "se_env \<Rightarrow> se_call \<Rightarrow> se_act" where
  "call_act env (Call_connect opts app target) = connect env opts app target"
| "call_act env (Call_incoming app r) = init_incoming env app r"
| "call_act env (Call_answer opts) = answer env opts"
| "call_act env (Call_terminate opts) = se_terminate env opts"
| "call_act env (Call_dtmf t d g tr sn h) = sendDTMF t d g tr sn h"
| "call_act env Call_dtmf_failed = dtmf_failed"
| "call_act env (Call_info ct body h) = sendInfo ct body h"
| "call_act env (Call_mute a v) = mute a v"
| "call_act env (Call_unmute a v) = unmute a v"
| "call_act env (Call_hold u h) = hold u h"
| "call_act env (Call_unhold u h) = unhold u h"
| "call_act env (Call_renegotiate u h) = renegotiate u h"
| "call_act env (Call_refer n t opts) = (\<lambda>s. (None, snd (refer env n t opts s)))"
| "call_act env (Call_notify n code reason) = notify n code reason"
| "call_act env (Call_subscriber_ok i) = subscriber_requestSucceeded i"
| "call_act env (Call_subscriber_failed i) = subscriber_requestFailed i"
| "call_act env (Call_request app r) = se_receiveRequest env app r"
| "call_act env (Call_response r) = receiveInviteResponse env r"
| "call_act env (Call_authenticated r) = se_onAuthenticated r"
| "call_act env (Call_op_success n r) = op_success env n r"
| "call_act env (Call_op_error n) = op_error env n"
| "call_act env Call_transport_error = se_onTransportError env"
| "call_act env Call_timeout = se_onRequestTimeout env"
| "call_act env Call_dialog_error = se_onDialogError env"
| "call_act env Call_ice_failed = ice_failed env"
| "call_act env Call_ist_terminated = send_late_bye"
| "call_act env (Call_start_job i) = start_job env i"

text \<open>
  Which calls can come in which state: a session is made for one call, either way; responses come
  for a request that was sent, and a job starts in its turn.
\<close>

fun call_possible :: "se_call \<Rightarrow> session \<Rightarrow> bool" where
  "call_possible (Call_incoming app r) s = (se_status s = S_NULL \<and> se_direction s = None \<and> im_method r = INVITE)"
| "call_possible (Call_connect opts app target) s = (se_direction s = None)"
| "call_possible (Call_authenticated r) s = (se_outgoing s \<noteq> None)"
| "call_possible (Call_response r) s = (se_outgoing s \<noteq> None)"
| "call_possible (Call_op_success n r) s = (n < length (se_ops s) \<and> im_status_code r \<in> {200..299})"
| "call_possible (Call_op_error n) s = (n < length (se_ops s))"
| "call_possible (Call_start_job i) s = may_start i s"
| "call_possible c s = True"

inductive se_step :: "session \<Rightarrow> session \<Rightarrow> bool" where
  se_step_call: "call_possible c s \<Longrightarrow> se_step s (snd (call_act env c s))"
| se_step_timer: "(h, k, d) \<in> set (se_pending s) \<Longrightarrow> se_step s (snd (fire_timer env h k s))"
| se_step_job: "settle_job env i o' s = Some (e, s') \<Longrightarrow> se_step s s'"
| se_step_dialog: "se_dialog s = Some d \<Longrightarrow> dl_step d d' \<Longrightarrow> se_step s (s\<lparr>se_dialog := Some d'\<rparr>)"

inductive_cases se_stepE: "se_step s s'"

abbreviation se_run :: "session \<Rightarrow> session \<Rightarrow> bool" where
  "se_run \<equiv> se_step\<^sup>*\<^sup>*"

end
