(* ===== verification/Session_Inv.thy ===== *)
theory Session_Inv
  imports Session
begin

text \<open>
  The invariant of a call: how often it is closed and ended, the phases it goes through, which jobs
  can wait together, and that every operation of \<open>RTCSession\<close> keeps it.
\<close>

section \<open>The phases of a call\<close>

datatype call_phase = Idle | Calling | Ringing | Up | Over

fun phase :: "se_status \<Rightarrow> call_phase" where
  "phase S_NULL = Idle"
| "phase S_INVITE_SENT = Calling"
| "phase S_1XX_RECEIVED = Calling"
| "phase S_INVITE_RECEIVED = Ringing"
| "phase S_WAITING_FOR_ANSWER = Ringing"
| "phase S_ANSWERED = Ringing"
| "phase S_WAITING_FOR_ACK = Up"
| "phase S_CONFIRMED = Up"
| "phase S_CANCELED = Over"
| "phase S_TERMINATED = Over"

text \<open>What a call promises: it is placed or received, then up, then over, and may be over at any time.\<close>

inductive call_spec :: "call_phase \<Rightarrow> call_phase \<Rightarrow> bool" where
  place: "call_spec Idle Calling"
| receive: "call_spec Idle Ringing"
| answered: "call_spec Calling Up"
| picked_up: "call_spec Ringing Up"
| hang_up: "p \<noteq> Over \<Longrightarrow> call_spec p Over"

inductive_simps call_spec_simps [simp]: "call_spec p q"

text \<open>The phases are partially ordered by the time at which a call can reach them.\<close>

instantiation call_phase :: order
begin

definition less_eq_call_phase :: "call_phase \<Rightarrow> call_phase \<Rightarrow> bool" where
  "p \<le> q \<longleftrightarrow> p = q \<or> p = Idle \<or> q = Over \<or> (q = Up \<and> p \<noteq> Over)"

definition less_call_phase :: "call_phase \<Rightarrow> call_phase \<Rightarrow> bool" where
  "p < q \<longleftrightarrow> p \<le> q \<and> \<not> q \<le> (p :: call_phase)"

instance
  by standard (auto simp: less_eq_call_phase_def less_call_phase_def)

end

abbreviation later :: "call_phase \<Rightarrow> call_phase \<Rightarrow> bool" where
  "later p q \<equiv> p \<le> q"

lemmas later_def = less_eq_call_phase_def

lemma call_spec_later: "call_spec\<^sup>*\<^sup>* p q \<longleftrightarrow> later p q"
proof
  show "call_spec\<^sup>*\<^sup>* p q \<Longrightarrow> later p q"
    by (induction rule: rtranclp_induct) (auto simp: later_def)
  have up: "call_spec\<^sup>*\<^sup>* p Up" if "p \<noteq> Over" for p
  proof (cases p)
    case Idle
    have "call_spec Idle Calling" "call_spec Calling Up" by simp_all
    then show ?thesis unfolding Idle by (meson rtranclp.rtrancl_into_rtrancl rtranclp.rtrancl_refl)
  qed (use that in \<open>auto intro!: r_into_rtranclp\<close>)
  have over: "call_spec\<^sup>*\<^sup>* p Over" for p by (cases "p = Over") (auto intro!: r_into_rtranclp)
  assume "later p q"
  then have "p = q \<or> (q = Up \<and> p \<noteq> Over) \<or> q = Over \<or> call_spec p q" by (cases q) (auto simp: later_def)
  then show "call_spec\<^sup>*\<^sup>* p q" using up over by (elim disjE) (blast | simp)+
qed

section \<open>The log\<close>

definition is_ended :: "se_event \<Rightarrow> bool" where
  "is_ended e = (case e of Se_ended p c \<Rightarrow> True | _ \<Rightarrow> False)"

definition quiet :: "se_event \<Rightarrow> bool" where
  "quiet e = (e \<noteq> Se_destroy \<and> \<not> is_ended e)"

definition answers_invite :: "se_event \<Rightarrow> bool" where
  "answers_invite e = (case e of Se_reply r code reason h b \<Rightarrow> code = 200 \<and> im_method r = INVITE | _ \<Rightarrow> False)"

text \<open>An INVITE was answered after the session was destroyed.\<close>

fun revived :: "se_event list \<Rightarrow> bool" where
  "revived [] = False"
| "revived (e # l) = ((e = Se_destroy \<and> list_ex answers_invite l) \<or> revived l)"

lemma revived_append: "revived l \<Longrightarrow> revived (l @ m)"
  by (induction l) auto

lemma revives: "Se_destroy \<in> set l \<Longrightarrow> answers_invite e \<Longrightarrow> revived (l @ [e])"
  by (induction l) (auto simp: list_ex_iff)

definition occurrences :: "('a \<Rightarrow> bool) \<Rightarrow> 'a list \<Rightarrow> nat" where
  "occurrences p l = length (filter p l)"

definition log_ok :: "se_status \<Rightarrow> se_event list \<Rightarrow> bool" where
  "log_ok st l \<longleftrightarrow> revived l
     \<or> (occurrences (\<lambda>e. e = Se_destroy) l \<le> 1 \<and> occurrences is_ended l \<le> occurrences (\<lambda>e. e = Se_destroy) l
        \<and> (Se_destroy \<in> set l \<longrightarrow> st = S_TERMINATED))"

lemma log_ok_quiet: "log_ok st l \<Longrightarrow> quiet e \<Longrightarrow> log_ok st (l @ [e])"
  by (auto simp: log_ok_def quiet_def occurrences_def revived_append)

lemma log_ok_status: "log_ok st l \<Longrightarrow> st \<noteq> S_TERMINATED \<or> st' = S_TERMINATED \<Longrightarrow> log_ok st' l"
  by (auto simp: log_ok_def)

lemma occurrences_none: "occurrences p l = 0 \<longleftrightarrow> (\<forall>e\<in>set l. \<not> p e)"
  by (simp add: occurrences_def filter_empty_conv)

lemma log_ok_fresh: "log_ok st l \<Longrightarrow> st \<noteq> S_TERMINATED \<Longrightarrow> revived l \<or> (\<forall>e\<in>set l. quiet e)"
proof -
  assume a: "log_ok st l" and b: "st \<noteq> S_TERMINATED"
  { assume "\<not> revived l"
    then have n: "Se_destroy \<notin> set l" and t: "occurrences is_ended l \<le> occurrences (\<lambda>e. e = Se_destroy) l"
      using a b by (auto simp: log_ok_def)
    from n have "occurrences (\<lambda>e. e = Se_destroy) l = 0" by (auto simp: occurrences_none)
    with t n have "\<forall>e\<in>set l. quiet e" by (auto simp: occurrences_none quiet_def) }
  then show ?thesis by blast
qed

lemma log_ok_destroy:
  "log_ok st l \<Longrightarrow> st \<noteq> S_TERMINATED \<Longrightarrow> list_all quiet m \<Longrightarrow> log_ok S_TERMINATED (l @ m @ [Se_destroy])"
proof -
  assume a: "log_ok st l" "st \<noteq> S_TERMINATED" and m: "list_all quiet m"
  from log_ok_fresh [OF a] show ?thesis
  proof
    assume q: "\<forall>e\<in>set l. quiet e"
    have "occurrences (\<lambda>e. e = Se_destroy) (l @ m) = 0" "occurrences is_ended (l @ m) = 0"
      using q m unfolding occurrences_none by (auto simp: quiet_def list_all_iff)
    then show ?thesis by (simp add: log_ok_def occurrences_def is_ended_def)
  qed (simp add: log_ok_def revived_append)
qed

lemma log_ok_ended:
  "log_ok st l \<Longrightarrow> st \<noteq> S_TERMINATED \<Longrightarrow> list_all quiet m \<Longrightarrow>
    log_ok S_TERMINATED (l @ m @ [Se_destroy, Se_ended p c])"
proof -
  assume a: "log_ok st l" "st \<noteq> S_TERMINATED" and m: "list_all quiet m"
  from log_ok_fresh [OF a] show ?thesis
  proof
    assume q: "\<forall>e\<in>set l. quiet e"
    have "occurrences (\<lambda>e. e = Se_destroy) (l @ m) = 0" "occurrences is_ended (l @ m) = 0"
      using q m unfolding occurrences_none by (auto simp: quiet_def list_all_iff)
    then show ?thesis by (simp add: log_ok_def occurrences_def is_ended_def)
  qed (simp add: log_ok_def revived_append)
qed

section \<open>The jobs\<close>

fun is_invite :: "se_job \<Rightarrow> bool" where
  "is_invite (J_invite_media a) = True"
| "is_invite J_invite_offer = True"
| "is_invite j = False"

text \<open>A job whose end may take the call up.\<close>

fun is_answer :: "se_job \<Rightarrow> bool" where
  "is_answer (J_answer_media r a h) = True"
| "is_answer (J_answer_remote r h) = True"
| "is_answer (J_answer_desc r b h) = True"
| "is_answer (J_offer_remote r b) = True"
| "is_answer (J_offer_desc r) = True"
| "is_answer (J_late_desc r) = True"
| "is_answer j = False"

definition some_job :: "(se_job \<Rightarrow> bool) \<Rightarrow> (se_job \<times> bool) list \<Rightarrow> bool" where
  "some_job p js \<longleftrightarrow> (\<exists>j\<in>set js. p (fst j))"

fun queue_ok :: "(se_job \<times> bool) list \<Rightarrow> bool" where
  "queue_ok [] = True"
| "queue_ok ((j, b) # js) = (if in_queue j then \<forall>(k, c)\<in>set js. in_queue k \<longrightarrow> \<not> c else queue_ok js)"

text \<open>The answer to an INVITE without a body comes after the wait for the browser.\<close>

fun late_ok :: "se_job \<Rightarrow> bool" where
  "late_ok (J_late_desc r) = (im_method r = INVITE)"
| "late_ok j = True"

definition before_invite :: "se_status \<Rightarrow> bool" where
  "before_invite st \<longleftrightarrow> st = S_NULL \<or> phase st = Over"

definition jobs_ok :: "se_status \<Rightarrow> se_direction option \<Rightarrow> (se_job \<times> bool) list \<Rightarrow> bool" where
  "jobs_ok st dir js \<longleftrightarrow> queue_ok js
     \<and> (\<forall>j\<in>set js. late_ok (fst j))
     \<and> (st = S_NULL \<longrightarrow> \<not> some_job is_answer js \<and> (dir = None \<longrightarrow> \<not> some_job is_invite js))
     \<and> (some_job is_invite js \<longrightarrow>
          before_invite st \<and> \<not> some_job is_answer js \<and> occurrences is_invite (map fst js) \<le> 1)"

definition callee :: "se_status \<Rightarrow> bool" where
  "callee st \<longleftrightarrow> phase st = Ringing"

definition base :: "call_phase option \<Rightarrow> session \<Rightarrow> bool" where
  "base ph s \<longleftrightarrow> log_ok (se_status s) (se_log s) \<and> jobs_ok (se_status s) (se_direction s) (se_jobs s)
     \<and> (callee (se_status s) \<longrightarrow> se_incoming s \<noteq> None)
     \<and> (\<forall>p. ph = Some p \<longrightarrow> later p (phase (se_status s)))"

text \<open>What holds between the steps of a call.\<close>

definition good :: "call_phase option \<Rightarrow> session \<Rightarrow> bool" where
  "good ph s \<longleftrightarrow> base ph s \<and> se_status s \<noteq> S_CANCELED"

section \<open>Updates\<close>

lemma base_frame [simp]:
  "base ph (s\<lparr>se_id := a1\<rparr>) = base ph s" "base ph (s\<lparr>se_dialog := a2\<rparr>) = base ph s" "base ph (s\<lparr>se_early := a3\<rparr>) = base ph s"
  "base ph (s\<lparr>se_contact := a4\<rparr>) = base ph s" "base ph (s\<lparr>se_from_tag := a5\<rparr>) = base ph s" "base ph (s\<lparr>se_to_tag := a6\<rparr>) = base ph s"
  "base ph (s\<lparr>se_connection := a7\<rparr>) = base ph s" "base ph (s\<lparr>se_outgoing := a8\<rparr>) = base ph s"
  "base ph (s\<lparr>se_is_canceled := a9\<rparr>) = base ph s" "base ph (s\<lparr>se_cancel_reason := b1\<rparr>) = base ph s"
  "base ph (s\<lparr>se_is_confirmed := b2\<rparr>) = base ph s" "base ph (s\<lparr>se_late_sdp := b3\<rparr>) = base ph s"
  "base ph (s\<lparr>se_stream := b4\<rparr>) = base ph s" "base ph (s\<lparr>se_stream_generated := b5\<rparr>) = base ph s"
  "base ph (s\<lparr>se_stream_closed := b6\<rparr>) = base ph s" "base ph (s\<lparr>se_rtcReady := b7\<rparr>) = base ph s"
  "base ph (s\<lparr>se_iceReady := b8\<rparr>) = base ph s" "base ph (s\<lparr>se_ackTimer := b9\<rparr>) = base ph s"
  "base ph (s\<lparr>se_expiresTimer := c1\<rparr>) = base ph s" "base ph (s\<lparr>se_invite2xxTimer := c2\<rparr>) = base ph s"
  "base ph (s\<lparr>se_noAnswerTimer := c3\<rparr>) = base ph s" "base ph (s\<lparr>se_tones := c4\<rparr>) = base ph s"
  "base ph (s\<lparr>se_audioMuted := c5\<rparr>) = base ph s" "base ph (s\<lparr>se_videoMuted := c6\<rparr>) = base ph s"
  "base ph (s\<lparr>se_localHold := c7\<rparr>) = base ph s" "base ph (s\<lparr>se_remoteHold := c8\<rparr>) = base ph s"
  "base ph (s\<lparr>se_timers := c9\<rparr>) = base ph s" "base ph (s\<lparr>se_subscribers := d1\<rparr>) = base ph s"
  "base ph (s\<lparr>se_bye_later := d2\<rparr>) = base ph s" "base ph (s\<lparr>se_ops := d3\<rparr>) = base ph s"
  "base ph (s\<lparr>se_rejected := d4\<rparr>) = base ph s" "base ph (s\<lparr>se_pending := d5\<rparr>) = base ph s"
  "base ph (s\<lparr>se_next := d6\<rparr>) = base ph s" "base ph (clear_handles hs s) = base ph s"
  by (simp_all add: base_def clear_handles_def)

lemma log_ok_quiets: "log_ok st l \<Longrightarrow> list_all quiet m \<Longrightarrow> log_ok st (l @ m)"
proof (induction m rule: rev_induct)
  case (snoc e m)
  then show ?case using log_ok_quiet [of st "l @ m" e] by simp
qed simp

lemma base_log: "base ph s \<Longrightarrow> list_all quiet m \<Longrightarrow> se_log s = l \<Longrightarrow> base ph (s\<lparr>se_log := l @ m\<rparr>)"
  by (auto simp: base_def log_ok_quiets)

lemma quiet_simps [simp]:
  "quiet Se_destroy = False" "quiet (Se_ended p c) = False" "quiet (Se_emit x) = True" "quiet Se_connecting = True"
  "quiet (Se_progress p r) = True" "quiet (Se_accepted p r) = True" "quiet (Se_confirmed p) = True"
  "quiet (Se_private_failed p r c) = True" "quiet (Se_failed p c) = True" "quiet (Se_hold p) = True"
  "quiet (Se_unhold p) = True" "quiet (Se_muted a v) = True" "quiet (Se_unmuted a v) = True"
  "quiet (Se_reply q n x1 h b) = True" "quiet (Se_request d meth h b) = True" "quiet (Se_send_invite q') = True"
  "quiet (Se_cancel x2) = True" "quiet (Se_new p) = True" "quiet (Se_dialog_new d) = True"
  "quiet (Se_dialog_terminate d) = True" "quiet (Se_done n) = True" "quiet (Se_dtmf p x n) = True"
  "quiet (Se_insert_dtmf x n m) = True" "quiet (Se_info p x3 y) = True" "quiet (Se_subscriber n x4) = True"
  by (simp_all add: quiet_def is_ended_def)

definition may_move :: "call_phase option \<Rightarrow> session \<Rightarrow> se_status \<Rightarrow> bool" where
  "may_move ph s st \<longleftrightarrow> st \<noteq> S_NULL \<and> (st = S_TERMINATED \<or> se_status s \<noteq> S_TERMINATED)
     \<and> (phase st = Over \<or> \<not> some_job is_invite (se_jobs s))
     \<and> (callee st \<longrightarrow> se_incoming s \<noteq> None) \<and> (\<forall>p. ph = Some p \<longrightarrow> later p (phase st))"

lemma base_status: "base ph s \<Longrightarrow> may_move ph s st \<Longrightarrow> base ph (s\<lparr>se_status := st\<rparr>)"
  by (auto simp: base_def may_move_def jobs_ok_def before_invite_def intro: log_ok_status)

lemma may_move_over: "st = S_TERMINATED \<or> (st = S_CANCELED \<and> se_status s \<noteq> S_TERMINATED) \<Longrightarrow> may_move ph s st"
  by (auto simp: may_move_def callee_def later_def)

section \<open>Closing\<close>

definition closed :: "session \<Rightarrow> session" where
  "closed s = snd (se_close s)"

definition dialog_ends :: "session \<Rightarrow> se_event list" where
  "dialog_ends s = (case se_dialog s of None \<Rightarrow> [] | Some d \<Rightarrow> [Se_dialog_terminate (dl_id d)])
     @ map (\<lambda>(_, d). Se_dialog_terminate (dl_id d)) (se_early s)"

lemma run_end_dialogs:
  "run (map (\<lambda>(_, d). end_dialog d) ds) s =
    (None, s\<lparr>se_log := se_log s @ map (\<lambda>(_, d). Se_dialog_terminate (dl_id d)) ds\<rparr>)"
  by (induction ds arbitrary: s) (auto simp: end_dialog_def)

lemma se_close_closed: "se_close s = (None, closed s)"
  by (simp add: closed_def se_close_def run_end_dialogs end_dialog_def split: option.split)

lemma closed_simps [simp]:
  "se_status (closed s) = S_TERMINATED" "se_jobs (closed s) = se_jobs s" "se_direction (closed s) = se_direction s"
  "se_incoming (closed s) = se_incoming s" "se_ops (closed s) = se_ops s"
  by (simp_all add: closed_def se_close_def run_end_dialogs end_dialog_def clear_handles_def split: option.split)

lemma closed_log:
  "se_log (closed s) = (if se_status s = S_TERMINATED then se_log s else se_log s @ dialog_ends s @ [Se_destroy])"
  by (simp add: closed_def se_close_def run_end_dialogs end_dialog_def clear_handles_def dialog_ends_def split: option.split)

lemma quiet_dialog_ends: "list_all quiet (dialog_ends s)"
  by (auto simp: dialog_ends_def list_all_iff split: option.split)

lemma closing_apply [simp]:
  "se_close s = (None, closed s)"
  "se_failed p r c s =
    (None, (let t = closed (s\<lparr>se_log := se_log s @ [Se_private_failed p r c]\<rparr>) in t\<lparr>se_log := se_log t @ [Se_failed p c]\<rparr>))"
  "se_ended p c s = (None, (closed s)\<lparr>se_log := se_log (closed s) @ [Se_ended p c]\<rparr>)"
  by (simp_all add: se_close_closed se_failed_def se_ended_def Let_def)

text \<open>Closing makes a state that is sound again of one in the middle of an operation.\<close>

lemma jobs_ok_over: "jobs_ok st dir js \<Longrightarrow> phase st' = Over \<Longrightarrow> jobs_ok st' dir js"
  by (auto simp: jobs_ok_def before_invite_def)

lemma base_closed: "base ph s \<Longrightarrow> base ph (closed s)"
  by (auto simp: base_def closed_log jobs_ok_over callee_def later_def
      intro: log_ok_destroy [OF _ _ quiet_dialog_ends])

lemma good_failed: "base ph s \<Longrightarrow> good ph (snd (se_failed p r c s))"
  by (auto simp: good_def closing_apply Let_def intro!: base_log base_closed)

lemma good_ended: "base ph s \<Longrightarrow> se_status s \<noteq> S_TERMINATED \<Longrightarrow> good ph (snd (se_ended p c s))"
  using log_ok_ended [OF _ _ quiet_dialog_ends, of "se_status s" "se_log s" s p c]
  by (auto simp: good_def closing_apply base_def closed_log jobs_ok_over callee_def later_def)

end
