(* ===== verification/Session_Kept.thy ===== *)
theory Session_Kept
  imports Session_Inv
begin

text \<open>Every operation of a session keeps the invariant of \<open>Session_Inv\<close>.\<close>

section \<open>Rules\<close>

abbreviation ok :: "call_phase option \<Rightarrow> se_act \<Rightarrow> bool" where
  "ok ph a \<equiv> keeps (good ph) a"

lemma good_base: "good ph s \<Longrightarrow> base ph s"
  by (simp add: good_def)

lemma good_frame [simp]:
  "good ph (s\<lparr>se_id := a1\<rparr>) = good ph s" "good ph (s\<lparr>se_dialog := a2\<rparr>) = good ph s" "good ph (s\<lparr>se_early := a3\<rparr>) = good ph s"
  "good ph (s\<lparr>se_contact := a4\<rparr>) = good ph s" "good ph (s\<lparr>se_from_tag := a5\<rparr>) = good ph s" "good ph (s\<lparr>se_to_tag := a6\<rparr>) = good ph s"
  "good ph (s\<lparr>se_connection := a7\<rparr>) = good ph s" "good ph (s\<lparr>se_outgoing := a8\<rparr>) = good ph s"
  "good ph (s\<lparr>se_is_canceled := a9\<rparr>) = good ph s" "good ph (s\<lparr>se_cancel_reason := b1\<rparr>) = good ph s"
  "good ph (s\<lparr>se_is_confirmed := b2\<rparr>) = good ph s" "good ph (s\<lparr>se_late_sdp := b3\<rparr>) = good ph s"
  "good ph (s\<lparr>se_stream := b4\<rparr>) = good ph s" "good ph (s\<lparr>se_stream_generated := b5\<rparr>) = good ph s"
  "good ph (s\<lparr>se_stream_closed := b6\<rparr>) = good ph s" "good ph (s\<lparr>se_rtcReady := b7\<rparr>) = good ph s"
  "good ph (s\<lparr>se_iceReady := b8\<rparr>) = good ph s" "good ph (s\<lparr>se_ackTimer := b9\<rparr>) = good ph s"
  "good ph (s\<lparr>se_expiresTimer := c1\<rparr>) = good ph s" "good ph (s\<lparr>se_invite2xxTimer := c2\<rparr>) = good ph s"
  "good ph (s\<lparr>se_noAnswerTimer := c3\<rparr>) = good ph s" "good ph (s\<lparr>se_tones := c4\<rparr>) = good ph s"
  "good ph (s\<lparr>se_audioMuted := c5\<rparr>) = good ph s" "good ph (s\<lparr>se_videoMuted := c6\<rparr>) = good ph s"
  "good ph (s\<lparr>se_localHold := c7\<rparr>) = good ph s" "good ph (s\<lparr>se_remoteHold := c8\<rparr>) = good ph s"
  "good ph (s\<lparr>se_timers := c9\<rparr>) = good ph s" "good ph (s\<lparr>se_subscribers := d1\<rparr>) = good ph s"
  "good ph (s\<lparr>se_bye_later := d2\<rparr>) = good ph s" "good ph (s\<lparr>se_ops := d3\<rparr>) = good ph s"
  "good ph (s\<lparr>se_rejected := d4\<rparr>) = good ph s" "good ph (s\<lparr>se_pending := d5\<rparr>) = good ph s"
  "good ph (s\<lparr>se_next := d6\<rparr>) = good ph s" "good ph (clear_handles hs s) = good ph s"
  by (simp_all add: good_def) (simp add: clear_handles_def)

lemma good_log: "good ph s \<Longrightarrow> list_all quiet m \<Longrightarrow> se_log s = l \<Longrightarrow> good ph (s\<lparr>se_log := l @ m\<rparr>)"
  by (simp add: good_def base_log)

lemma ok_apply [simp]: "ok ph a \<Longrightarrow> good ph s \<Longrightarrow> good ph (snd (a s))"
  by (simp add: keeps_def)

lemma ok_run [simp]: "\<forall>a\<in>set as. ok ph a \<Longrightarrow> ok ph (run as)"
  by (rule keeps_run)

declare run.simps [simp del] closing_apply [simp del] good_log [simp]

lemma ok_basic [simp]: "ok ph skip" "ok ph (throw x)" "quiet e \<Longrightarrow> ok ph (say e)" "ok ph se_close" "ok ph (se_failed p r c)"
  by (auto simp: keeps_def good_failed good_base closing_apply(1)) (simp add: good_def base_closed)

lemma ok_combine [simp]: "ok ph a \<Longrightarrow> ok ph (when_act c a)" "ok ph a \<Longrightarrow> ok ph b \<Longrightarrow> ok ph (catch_act a b)"
  "ok ph (se_clearTimeout field)" "(\<And>s. good ph s \<Longrightarrow> good ph (f s)) \<Longrightarrow> ok ph (upd f)"
  "(\<And>h s. good ph s \<Longrightarrow> good ph (store h s)) \<Longrightarrow> ok ph (se_setTimeout k delay store)"
  by (fastforce simp: keeps_def split: prod.split option.split)+

section \<open>Media and timers\<close>

lemma ok_toggle [simp]: "ok ph (toggleMuteAudio m)" "ok ph (toggleMuteVideo m)"
  by (rule keepsI, simp add: toggleMuteAudio_def toggleMuteVideo_def split: option.split)+

lemma ok_setLocalMediaStatus [simp]: "ok ph setLocalMediaStatus"
  by (rule keepsI, simp add: setLocalMediaStatus_def Let_def)

lemma ok_media [simp]:
  "ok ph (onhold p)" "ok ph (onunhold p)" "ok ph (onmute a v)" "ok ph (onunmute a v)"
  by (simp_all add: onhold_def onunhold_def onmute_def onunmute_def)

lemma ok_mute [simp]: "ok ph (mute a v)" "ok ph (unmute a v)"
  by (rule keepsI, simp add: mute_def unmute_def Let_def)+

lemma ok_runSessionTimer [simp]: "ok ph runSessionTimer"
  by (rule keepsI, simp add: runSessionTimer_def Let_def)

lemma ok_timers [simp]:
  "ok ph (handleSessionTimersInIncomingRequest r)" "ok ph (handleSessionTimersInIncomingResponse r')"
  "ok ph (set_default_expires n)" "ok ph (start_invite2xx r b t)"
  "ok ph setACKTimer" "ok ph (se_sendRequest meth h b)"
  by (rule keepsI, simp add: handleSessionTimersInIncomingRequest_def handleSessionTimersInIncomingResponse_def
      set_default_expires_def start_invite2xx_def setACKTimer_def se_sendRequest_def split: option.split)+

lemma ok_invite2xx [simp]: "ok ph (setInvite2xxTimer r b)" "ok ph (invite2xxRetransmission r b t)"
  by (rule keepsI, simp add: setInvite2xxTimer_def invite2xxRetransmission_def)+

section \<open>Ending a call\<close>

lemmas run_step =
  run.simps(2) [of "upd f" for f] run.simps(2) [of "say e" for e] run.simps(2) [of "set_status st" for st]
  run.simps(2) [of skip] run.simps(2) [of "throw x" for x] run.simps(2) [of "when_act c a" for c a]
  run.simps(2) [of "add_job j" for j] run.simps(2) [of "continue_job j" for j]

lemma good_run_failed: "base ph s \<Longrightarrow> \<forall>a\<in>set as. ok ph a \<Longrightarrow> good ph (snd (run (se_failed p r c # as) s))"
  using good_failed [of ph s p r c] keepsD [OF keeps_run [of as "good ph"]] by (simp add: run.simps closing_apply)

lemma good_run_ended:
  "base ph s \<Longrightarrow> se_status s \<noteq> S_TERMINATED \<Longrightarrow> \<forall>a\<in>set as. ok ph a \<Longrightarrow> good ph (snd (run (se_ended p c # as) s))"
  using good_ended [of ph s p c] keepsD [OF keeps_run [of as "good ph"]] by (simp add: run.simps closing_apply)

lemma base_over: "base ph s \<Longrightarrow> se_status s \<noteq> S_TERMINATED \<Longrightarrow> base ph (s\<lparr>se_status := S_CANCELED\<rparr>)"
  by (rule base_status) (auto intro!: may_move_over)

lemma good_terminate_uac: "good ph s \<Longrightarrow> se_status s \<noteq> S_TERMINATED \<Longrightarrow> good ph (snd (terminate_uac opts s))"
  by (cases "se_status s"; simp add: terminate_uac_def Let_def run_step del: run_one)
    (auto simp del: run_one intro!: good_run_failed base_over base_log dest: good_base)

lemma ok_reply_initial [simp]: "ok ph (reply_initial code reason h b)"
  by (rule keepsI, simp add: reply_initial_def split: option.split)

lemma ok_terminate_uas [simp]: "ok ph (terminate_uas opts)"
  by (rule keepsI, simp add: terminate_uas_def Let_def)

lemma good_terminate_waiting:
  "good ph s \<Longrightarrow> se_status s \<noteq> S_TERMINATED \<Longrightarrow> good ph (snd (terminate_waiting h b c s))"
  by (auto simp: terminate_waiting_def Let_def run_step good_base split: option.split intro!: good_run_ended)

lemma good_bye_ended:
  "good ph s \<Longrightarrow> se_status s \<noteq> S_TERMINATED \<Longrightarrow> good ph (snd (run [se_sendRequest BYE h b, se_ended p c] s))"
  by (cases "se_dialog s") (auto simp: run.simps(2) [of "se_sendRequest BYE h b"] se_sendRequest_def good_base
      simp del: run_one intro!: good_run_ended base_log)

lemma ok_se_terminate [simp]: "ok ph (se_terminate env opts)"
proof (rule keepsI)
  fix s assume g: "good ph s"
  show "good ph (snd (se_terminate env opts s))"
    using g good_terminate_uac [OF g, of opts] good_terminate_waiting [OF g] good_bye_ended [OF g]
    by (cases "se_status s") (simp_all add: se_terminate_def terminate_established_def Let_def)
qed

lemma ok_end_dialog [simp]: "ok ph (end_dialog d)"
  by (simp add: end_dialog_def)

lemma ok_late_bye [simp]: "ok ph send_late_bye"
proof (rule keepsI)
  fix s assume "good ph s"
  moreover have "ok ph (\<lambda>s. case se_dialog s of None \<Rightarrow> (None, s) | Some d \<Rightarrow> end_dialog d s)"
    by (rule keepsI, simp split: option.split)
  ultimately show "good ph (snd (send_late_bye s))" by (simp add: send_late_bye_def split: option.split)
qed

lemma ok_errors [simp]: "ok ph (se_onTransportError env)" "ok ph (se_onRequestTimeout env)" "ok ph (se_onDialogError env)"
  by (rule keepsI, simp add: se_onTransportError_def se_onRequestTimeout_def se_onDialogError_def)+

lemma clear_status: "se_status (clear_handles hs s) = se_status s"
  by (simp add: clear_handles_def)

lemma ok_ack_timer [simp]: "ok ph ack_timer_fires"
proof (rule keepsI)
  fix s assume g: "good ph s"
  show "good ph (snd (ack_timer_fires s))"
    using g good_bye_ended [of ph "clear_handles [se_invite2xxTimer s] s"]
    by (simp add: ack_timer_fires_def run.simps(2) [of "se_clearTimeout f" for f] clear_status)
qed

section \<open>Dialogs\<close>

lemma ok_fail_dialog [simp]: "ok ph (fail_dialog r)"
  by (simp add: fail_dialog_def)

lemma ok_with_dialog [simp]: "ok ph a \<Longrightarrow> ok ph b \<Longrightarrow> ok ph (with_dialog parse type early status r m a b)"
  by (rule keepsI)
    (auto simp: with_dialog_def createDialog_def Let_def split: option.split sum.split)

text \<open>When the dialog is there, the status, the log's closings, the jobs and the direction are as they were.\<close>

lemma createDialog_same:
  "createDialog parse type early status r m s = (Inr True, t) \<Longrightarrow>
    se_status t = se_status s \<and> se_jobs t = se_jobs s \<and> se_direction t = se_direction s \<and> se_incoming t = se_incoming s
      \<and> (base ph s \<longrightarrow> base ph t)"
  by (auto simp: createDialog_def Let_def base_log split: option.splits sum.splits if_splits)

lemma good_createDialog: "good ph s \<Longrightarrow> good ph (snd (createDialog parse type early status r m s))"
  by (auto simp: createDialog_def Let_def split: option.split sum.split)

lemma with_dialog_cases:
  obtains (error) e t where "with_dialog parse type early status r m a b s = (Some e, t)"
      "createDialog parse type early status r m s = (Inl e, t)"
  | (good) t where "createDialog parse type early status r m s = (Inr True, t)"
      "with_dialog parse type early status r m a b s = a t"
  | (bad) t where "createDialog parse type early status r m s = (Inr False, t)"
      "with_dialog parse type early status r m a b s = b t"
  by (cases "createDialog parse type early status r m s"; cases "fst (createDialog parse type early status r m s)")
    (auto simp: with_dialog_def split: sum.splits bool.splits)

lemma good_with_dialog:
  assumes g: "good ph s"
    and a: "\<And>t. good ph t \<Longrightarrow> se_status t = se_status s \<Longrightarrow> se_jobs t = se_jobs s \<Longrightarrow> good ph (snd (a t))"
    and b: "ok ph b"
  shows "good ph (snd (with_dialog parse type early status r m a b s))"
proof (cases rule: with_dialog_cases [of parse type early status r m a b s])
  case (good t)
  then show ?thesis using a [of t] createDialog_same [OF good(1)] g by (auto simp: good_def)
qed (use good_createDialog [OF g, of parse type early status r m] b in auto)

lemma base_terminated: "base ph s \<Longrightarrow> base ph (s\<lparr>se_status := S_TERMINATED\<rparr>)"
  by (rule base_status) (auto intro!: may_move_over)

lemma ok_terminated [simp]: "ok ph (set_status S_TERMINATED)"
  by (rule keepsI) (simp add: good_def base_terminated)

lemma ok_acceptAndTerminate [simp]: "ok ph (acceptAndTerminate env r code phrase)"
proof (rule keepsI)
  fix s assume "good ph s"
  moreover have "ok ph (\<lambda>s. if se_dialog s \<noteq> None then run as s else with_dialog p UAC False st r' r (run as) skip s)"
    if "\<forall>a\<in>set as. ok ph a" for as p st r'
    using that by (intro keepsI) simp
  ultimately show "good ph (snd (acceptAndTerminate env r code phrase s))"
    by (simp add: acceptAndTerminate_def Let_def)
qed

section \<open>Requests inside the call\<close>

lemma ok_info [simp]:
  "ok ph wrong_state" "ok ph (dtmf_send t d h)" "ok ph (info_send ct b h)" "ok ph (sendInfo ct b x)" "ok ph dtmf_failed"
  "ok ph (dtmf_init_incoming r)" "ok ph (info_init_incoming r)" "ok ph (receive_info r)"
proof -
  show [simp]: "ok ph wrong_state" by (rule keepsI) (simp add: wrong_state_def)
  show "ok ph (dtmf_send t d h)" by (rule keepsI) (simp add: dtmf_send_def Let_def)
  show [simp]: "ok ph (info_send ct b h)" for h by (rule keepsI) (simp add: info_send_def split: option.split)
  show "ok ph (sendInfo ct b x)" by (rule keepsI) (simp add: sendInfo_def)
  show "ok ph dtmf_failed" by (simp add: dtmf_failed_def)
  show [simp]: "ok ph (dtmf_init_incoming r)" "ok ph (info_init_incoming r)"
    by (simp_all add: dtmf_init_incoming_def info_init_incoming_def split: option.split)
  show "ok ph (receive_info r)" by (simp add: receive_info_def split: option.split)
qed

lemma ok_dtmf [simp]: "ok ph (dtmf_step p d g h)" "ok ph (sendDTMF ts du ga tr sn x)"
proof -
  show [simp]: "ok ph (dtmf_step p d g h)" for p d g h by (rule keepsI) (simp add: dtmf_step_def Let_def)
  show "ok ph (sendDTMF ts du ga tr sn x)"
    by (rule keepsI) (simp add: sendDTMF_def split: option.split dtmf_transport.split sum.split)
qed

lemma ok_refer [simp]:
  "ok ph (sendRefer env t opts)" "ok ph (drop_subscriber k)" "ok ph (subscriber_requestSucceeded i)"
  "ok ph (subscriber_requestFailed i)" "ok ph (subscriber_receiveNotify rs i r)" "ok ph (notify n code reason)"
proof -
  show "ok ph (sendRefer env t opts)" by (rule keepsI) (simp add: sendRefer_def)
  show [simp]: "ok ph (drop_subscriber k)" for k by (simp add: drop_subscriber_def)
  show "ok ph (subscriber_requestSucceeded i)" "ok ph (subscriber_requestFailed i)"
    by (simp_all add: subscriber_requestSucceeded_def subscriber_requestFailed_def)
  show "ok ph (subscriber_receiveNotify rs i r)" by (simp add: subscriber_receiveNotify_def split: option.split)
  show "ok ph (notify n code reason)" by (simp add: notify_def)
qed

lemma good_refer: "good ph s \<Longrightarrow> good ph (snd (refer env cseq t opts s))"
proof -
  assume "good ph s"
  then have "good ph (snd (sendRefer env u opts s))" for u by simp
  then have "good ph s'" if "sendRefer env u opts s = (e, s')" for u e s' using that by (metis snd_conv)
  with \<open>good ph s\<close> show ?thesis by (auto simp: refer_def split: sum.split option.split prod.split)
qed

lemma ok_receive_refer [simp]: "ok ph (receiveNotify rs r)" "ok ph (receiveRefer r)" "ok ph (receiveReplaces r)"
  by (rule keepsI, simp add: receiveNotify_def receiveRefer_def receiveReplaces_def Let_def split: option.split parsed.split list.split)+

section \<open>Jobs\<close>

lemma some_job_simps [simp]:
  "some_job p [] = False" "some_job p ((j, b) # js) = (p j \<or> some_job p js)"
  "some_job p (js @ js') = (some_job p js \<or> some_job p js')"
  by (auto simp: some_job_def)

definition all_waiting :: "(se_job \<times> bool) list \<Rightarrow> bool" where
  "all_waiting js \<longleftrightarrow> (\<forall>(k, c)\<in>set js. in_queue k \<longrightarrow> \<not> c)"

lemma queue_ok_add: "queue_ok js \<Longrightarrow> queue_ok (js @ [(j, False)])"
  by (induction js rule: queue_ok.induct) auto

lemma queue_ok_continue: "queue_ok js \<Longrightarrow> \<not> in_queue j \<or> all_waiting js \<Longrightarrow> queue_ok ((j, True) # js)"
  by (auto simp: all_waiting_def)

lemma no_invite: "base ph s \<Longrightarrow> \<not> before_invite (se_status s) \<Longrightarrow> \<not> some_job is_invite (se_jobs s)"
  by (auto simp: base_def jobs_ok_def)

lemma base_add_job:
  "base ph s \<Longrightarrow> \<not> is_invite j \<Longrightarrow> (is_answer j \<Longrightarrow> se_status s \<noteq> S_NULL \<and> \<not> some_job is_invite (se_jobs s)) \<Longrightarrow>
    late_ok j \<Longrightarrow> base ph (s\<lparr>se_jobs := se_jobs s @ [(j, False)]\<rparr>)"
  by (cases "is_answer j"; auto simp: base_def jobs_ok_def queue_ok_add occurrences_def)

lemma ok_add_job [simp]: "\<not> is_invite j \<Longrightarrow> \<not> is_answer j \<Longrightarrow> ok ph (add_job j)"
  by (rule keepsI) (cases j; auto simp: good_def intro!: base_add_job)

text \<open>Actions that leave the status, the jobs and the direction as they are.\<close>

definition still :: "se_act \<Rightarrow> bool" where
  "still a \<longleftrightarrow> (\<forall>s. se_status (snd (a s)) = se_status s \<and> se_jobs (snd (a s)) = se_jobs s
     \<and> se_direction (snd (a s)) = se_direction s \<and> se_incoming (snd (a s)) = se_incoming s)"

lemma still_run [simp]: "\<forall>a\<in>set as. still a \<Longrightarrow> still (run as)"
proof (induction as)
  case Nil then show ?case by (simp add: still_def run.simps)
next
  case (Cons a as) then show ?case by (auto simp: still_def run.simps split: prod.split option.split) (metis snd_conv)+
qed

lemma still_basic [simp]:
  "still (say e)" "still skip" "still (throw x)" "still a \<Longrightarrow> still (when_act c a)" "still (se_clearTimeout f)"
  "still createLocalDescription"
  by (auto simp: still_def clear_handles_def createLocalDescription_def)

lemma still_media [simp]: "still (toggleMuteAudio m)" "still (toggleMuteVideo m)" "still setLocalMediaStatus"
  "still (onhold p)" "still (onunhold p)" "still (change_remote_hold held)"
proof -
  show [simp]: "still (toggleMuteAudio m)" "still (toggleMuteVideo m)" for m
    by (auto simp: still_def toggleMuteAudio_def toggleMuteVideo_def split: option.split)
  have "still (run [toggleMuteAudio a, toggleMuteVideo v])" for a v by simp
  then show [simp]: "still setLocalMediaStatus"
    by (simp add: still_def setLocalMediaStatus_def Let_def)
  show h: "still (onhold p)" "still (onunhold p)" for p by (simp_all add: onhold_def onunhold_def)
  show "still (change_remote_hold held)"
    using h [of Remote] by (auto simp: still_def change_remote_hold_def run_step)
qed

lemma still_timers [simp]: "still (handleSessionTimersInIncomingRequest r)"
  by (simp add: still_def handleSessionTimersInIncomingRequest_def runSessionTimer_def Let_def run.simps clear_handles_def)

section \<open>Offers\<close>

lemma ok_offers [simp]:
  "ok ph createLocalDescription" "ok ph (settle_description o')" "ok ph (start_op p)" "ok ph (op_failed env p)" "ok ph (op_done n p)"
proof -
  show "ok ph createLocalDescription" by (simp add: createLocalDescription_def)
  show "ok ph (settle_description o')" by (simp add: settle_description_def split: desc_outcome.split)
  show "ok ph (start_op p)" by (simp add: start_op_def)
  show "ok ph (op_failed env p)" "ok ph (op_done n p)" by (simp_all add: op_failed_def op_done_def split: option.split)
qed

lemma ok_send_offers [simp]:
  "ok ph (sendReinvite h f)" "ok ph (sendUpdate b h f)" "ok ph (send_offer u h f')"
proof -
  show [simp]: "ok ph (sendReinvite h f)" "ok ph (sendUpdate b h f)" for b f
    by (rule keepsI, simp add: sendReinvite_def sendUpdate_def Let_def)+
  show "ok ph (send_offer u h f')" by (simp add: send_offer_def)
qed

lemma ok_resolve_reoffer [simp]: "ok ph (resolve_reoffer env n h o')"
proof (rule keepsI)
  fix s assume g: "good ph s"
  have "ok ph (\<lambda>s. se_sendRequest m h (Some (f s)) s)" for m f by (rule keepsI) simp
  then show "good ph (snd (resolve_reoffer env n h o' s))"
    using g by (simp add: resolve_reoffer_def Let_def split: desc_outcome.split)
qed

lemma ok_op_success [simp]: "ok ph (op_success env n r)" "ok ph (op_error env n)" "ok ph (resolve_reanswer env n b)"
proof -
  show "ok ph (op_success env n r)"
  proof (rule keepsI)
    fix s assume g: "good ph s"
    have "ok ph (\<lambda>s. if se_status s = S_TERMINATED then (None, s) else run as s)" if "\<forall>a\<in>set as. ok ph a" for as
      using that by (intro keepsI) simp
    then show "good ph (snd (op_success env n r s))" using g by (simp add: op_success_def Let_def)
  qed
  show "ok ph (op_error env n)" "ok ph (resolve_reanswer env n b)"
    by (rule keepsI, simp add: op_error_def resolve_reanswer_def)+
qed

lemma ok_hold [simp]:
  "ok ph refresh_session" "ok ph (session_expired env)" "ok ph (hold u h)" "ok ph (unhold u h)" "ok ph (renegotiate u h)"
  by (rule keepsI, simp add: refresh_session_def session_expired_def hold_def unhold_def renegotiate_def)+

lemma ok_receive_offers [simp]: "ok ph (reject_offer r opts)" "ok ph (change_remote_hold b)" "ok ph (send_update_answer r d)"
  by (rule keepsI, simp add: reject_offer_def change_remote_hold_def send_update_answer_def Let_def)+

lemma base_up:
  "base ph s \<Longrightarrow> phase (se_status s) \<noteq> Over \<Longrightarrow> \<not> some_job is_invite (se_jobs s) \<Longrightarrow> phase st = Up \<Longrightarrow>
    base ph (s\<lparr>se_status := st\<rparr>)"
  by (rule base_status) (auto simp: may_move_def callee_def later_def base_def)

lemma good_up:
  "good ph s \<Longrightarrow> se_status s \<noteq> S_TERMINATED \<Longrightarrow> \<not> some_job is_invite (se_jobs s) \<Longrightarrow> phase st = Up \<Longrightarrow>
    good ph (s\<lparr>se_status := st\<rparr>)"
  by (cases "se_status s") (auto simp: good_def intro!: base_up)

lemma run_still:
  "still a \<Longrightarrow> ok ph a \<Longrightarrow> good ph s \<Longrightarrow>
    (\<And>t. good ph t \<Longrightarrow> se_status t = se_status s \<Longrightarrow> se_jobs t = se_jobs s \<Longrightarrow> good ph (snd (run as t))) \<Longrightarrow>
    good ph (snd (run (a # as) s))"
  using ok_apply [of ph a s] by (cases "a s") (auto simp: run.simps still_def split: option.split, metis snd_conv)

lemma good_after_200:
  "good ph s \<Longrightarrow> se_status s \<noteq> S_TERMINATED \<Longrightarrow> \<not> some_job is_invite (se_jobs s) \<Longrightarrow> phase st = Up \<Longrightarrow> \<forall>a\<in>set as. ok ph a \<Longrightarrow>
    good ph (snd (run [when_act b (run (set_status st # as))] s))"
  using keepsD [OF keeps_run [of as "good ph"]] good_up [of ph s st] by (simp add: run_step)

lemma good_send_reinvite_answer:
  "good ph s \<Longrightarrow> se_status s \<noteq> S_TERMINATED \<Longrightarrow> \<not> some_job is_invite (se_jobs s) \<Longrightarrow>
    good ph (snd (send_reinvite_answer env r d s))"
  unfolding send_reinvite_answer_def Let_def
  by (intro run_still good_after_200) auto

definition ready_to_answer :: "call_phase option \<Rightarrow> session \<Rightarrow> bool" where
  "ready_to_answer ph s \<longleftrightarrow> good ph s \<and> \<not> some_job is_invite (se_jobs s) \<and> se_status s \<noteq> S_NULL"

lemma good_after_offer: "ready_to_answer ph s \<Longrightarrow> good ph (snd (after_offer env r d s))"
  by (auto simp: ready_to_answer_def after_offer_def send_answer_def intro: good_send_reinvite_answer)

lemma run_ready:
  "still a \<Longrightarrow> ok ph a \<Longrightarrow> ready_to_answer ph s \<Longrightarrow>
    (\<And>t. ready_to_answer ph t \<Longrightarrow> good ph (snd (run as t))) \<Longrightarrow> good ph (snd (run (a # as) s))"
  unfolding ready_to_answer_def by (rule run_still) auto

lemma ready_last: "(\<And>t. ready_to_answer ph t \<Longrightarrow> good ph (snd (a t))) \<Longrightarrow> ready_to_answer ph s \<Longrightarrow> good ph (snd (run [a] s))"
  by simp

lemma base_continue:
  "base ph s \<Longrightarrow> \<not> some_job is_invite (se_jobs s) \<Longrightarrow> is_answer j \<Longrightarrow> se_status s \<noteq> S_NULL \<Longrightarrow> (\<And>r. j \<noteq> J_late_desc r) \<Longrightarrow>
    \<not> in_queue j \<or> all_waiting (se_jobs s) \<Longrightarrow> base ph (s\<lparr>se_jobs := (j, True) # se_jobs s\<rparr>)"
  by (cases j; auto simp: base_def jobs_ok_def all_waiting_def)

lemma good_continue:
  "ready_to_answer ph s \<Longrightarrow> is_answer j \<Longrightarrow> (\<And>r. j \<noteq> J_late_desc r) \<Longrightarrow> \<not> in_queue j \<or> all_waiting (se_jobs s) \<Longrightarrow>
    good ph (s\<lparr>se_jobs := (j, True) # se_jobs s\<rparr>)"
  by (auto simp: good_def ready_to_answer_def intro!: base_continue)

lemma ok_processInDialogSdpOffer:
  "ready_to_answer ph s \<Longrightarrow> good ph (snd (processInDialogSdpOffer env r s))"
  unfolding processInDialogSdpOffer_def Let_def
  by (rule run_ready) (auto simp: ready_to_answer_def good_def intro!: base_add_job)

lemma good_receiveReinvite:
  "ready_to_answer ph s \<Longrightarrow> im_method r = INVITE \<Longrightarrow> good ph (snd (receiveReinvite env app r s))"
proof -
  assume r: "ready_to_answer ph s" and i: "im_method r = INVITE"
  have late: "good ph (snd (run [change_remote_hold False, add_job (J_late_desc r)] t))" if "ready_to_answer ph t" for t
    using that i by (intro run_ready [OF _ _ that]) (auto simp: ready_to_answer_def good_def intro!: base_add_job)
  have rest: "good ph (snd (run
      [upd (\<lambda>s. s\<lparr>se_late_sdp := \<not> truthy (im_body r)\<rparr>),
       (if \<not> truthy (im_body r) then run [change_remote_hold False, add_job (J_late_desc r)]
        else if content_type r \<noteq> Some ''application/sdp'' then say (Se_reply r 415 None [] None)
        else processInDialogSdpOffer env r)] t))" if "ready_to_answer ph t" for t
    using that late [of "t\<lparr>se_late_sdp := True\<rparr>"] ok_processInDialogSdpOffer [of ph "t\<lparr>se_late_sdp := False\<rparr>" env r]
    by (simp add: run_step ready_to_answer_def)
  show ?thesis unfolding receiveReinvite_def
    using rest by (intro run_ready [OF _ _ r]) (auto split: option.split simp: ready_to_answer_def)
qed

lemma good_receiveUpdate: "ready_to_answer ph s \<Longrightarrow> good ph (snd (receiveUpdate env app r s))"
  unfolding receiveUpdate_def
  by (rule run_ready) (auto split: option.split simp: ok_processInDialogSdpOffer ready_to_answer_def)

lemma good_resolve_offer_desc: "ready_to_answer ph s \<Longrightarrow> good ph (snd (resolve_offer_desc env r o' s))"
proof -
  assume r: "ready_to_answer ph s"
  have st: "still (settle_description o')"
    by (auto simp: still_def settle_description_def run.simps split: desc_outcome.split)
  show ?thesis unfolding resolve_offer_desc_def
  proof (rule run_ready [OF st _ r])
    fix t assume t: "ready_to_answer ph t"
    have "good ph (snd (run [say (Se_reply r 500 None [] None), after_offer env r None] t))"
      by (rule run_ready [OF _ _ t]) (simp_all add: good_after_offer)
    with t show "good ph (snd (run [case o' of Desc_ready sdp waited \<Rightarrow> after_offer env r (Some sdp)
          | _ \<Rightarrow> run [say (Se_reply r 500 None [] None), after_offer env r None]] t))"
      by (auto simp: good_after_offer split: desc_outcome.split)
  qed simp
qed

lemma good_resolve_offer_remote:
  assumes r: "ready_to_answer ph s" and w: "all_waiting (se_jobs s)"
  shows "good ph (snd (resolve_offer_remote env r held b s))"
proof -
  have bad: "good ph (snd (run [say (Se_reply r 488 None [] None), say (Se_emit x), after_offer env r None] s))" for x
    by (rule run_ready [OF _ _ r], simp, simp, rule run_ready, simp_all add: good_after_offer)
  define g where "g = run [change_remote_hold held, createLocalDescription]"
  have st: "still g" and og: "ok ph g" by (simp_all add: g_def)
  obtain e t where gt: "g s = (e, t)" by (cases "g s")
  then have t: "ready_to_answer ph t" "se_jobs t = se_jobs s"
    using st ok_apply [OF og, of s] r by (auto simp: still_def ready_to_answer_def) (metis snd_conv)+
  have "run [change_remote_hold held, createLocalDescription, continue_job (J_offer_desc r)] s =
      (case g s of (None, s) \<Rightarrow> continue_job (J_offer_desc r) s | (Some e, s) \<Rightarrow> (Some e, s))"
    using run_append [of "[change_remote_hold held, createLocalDescription]" "[continue_job (J_offer_desc r)]" s]
    by (simp add: g_def split: prod.split option.split)
  moreover have "good ph (t\<lparr>se_jobs := (J_offer_desc r, True) # se_jobs s\<rparr>)"
    using good_continue [OF t(1), of "J_offer_desc r"] t(2) w by simp
  ultimately show ?thesis
    using bad r t w good_after_offer [OF t(1)] gt
    by (cases e) (auto simp: resolve_offer_remote_def ready_to_answer_def split: if_splits)
qed

text \<open>A re-INVITE without a body, whose offer is made after the call ended, revives it.\<close>

lemma good_revive:
  assumes r: "good None s" "\<not> some_job is_invite (se_jobs s)" "se_status s \<noteq> S_NULL" "im_method r = INVITE"
  shows "good None (s\<lparr>se_log := se_log s @ [Se_reply r 200 x h b], se_status := S_WAITING_FOR_ACK\<rparr>)"
proof -
  have "log_ok S_WAITING_FOR_ACK (se_log s @ [Se_reply r 200 x h b])"
  proof (cases "Se_destroy \<in> set (se_log s)")
    case True
    then show ?thesis using revives [of "se_log s" "Se_reply r 200 x h b"] r(4)
      by (simp add: log_ok_def answers_invite_def)
  next
    case False
    then show ?thesis using r(1) by (auto simp: good_def base_def log_ok_def occurrences_def is_ended_def revived_append)
  qed
  then show ?thesis using r by (auto simp: good_def base_def jobs_ok_def callee_def)
qed

lemma good_resolve_late:
  "ready_to_answer None s \<Longrightarrow> im_method r = INVITE \<Longrightarrow> good None (snd (resolve_late_desc env r o' s))"
proof -
  assume r: "ready_to_answer None s" and i: "im_method r = INVITE"
  have st: "still (settle_description o')"
    by (auto simp: still_def settle_description_def run.simps split: desc_outcome.split)
  have send: "good None (snd (send_reinvite_answer env r d t))" if t: "ready_to_answer None t" for d t
    unfolding send_reinvite_answer_def Let_def
    using t i good_revive by (intro run_ready [OF _ _ t]) (auto simp: run_step ready_to_answer_def)
  show ?thesis unfolding resolve_late_desc_def
    using send by (intro run_ready [OF st _ r]) (auto simp: ready_to_answer_def split: desc_outcome.split)
qed

section \<open>The caller\<close>

lemma ok_take_stream [simp]: "ok ph (take_stream st)" "ok ph (app_terminates env app)" "ok ph createRTCConnection"
  by (simp_all add: take_stream_def app_terminates_def createRTCConnection_def split: option.split prod.split)

lemma still_terminate: "se_jobs (snd (se_terminate env opts s)) = se_jobs s"
  "se_direction (snd (se_terminate env opts s)) = se_direction s"
  by (auto simp: se_terminate_def terminate_uac_def terminate_uas_def terminate_established_def terminate_waiting_def
      reply_initial_def se_sendRequest_def Let_def run.simps closing_apply split: se_status.split option.split prod.split)

text \<open>Only the first \<open>connect\<close> asks for media, so its job finds no other.\<close>

lemma base_add_invite:
  "base ph s \<Longrightarrow> before_invite (se_status s) \<Longrightarrow> se_direction s \<noteq> None \<Longrightarrow> is_invite j \<Longrightarrow>
    \<not> some_job is_invite (se_jobs s) \<Longrightarrow> \<not> some_job is_answer (se_jobs s) \<Longrightarrow>
    base ph (s\<lparr>se_jobs := se_jobs s @ [(j, False)]\<rparr>)"
proof -
  assume a: "base ph s" "before_invite (se_status s)" "se_direction s \<noteq> None" "is_invite j"
    "\<not> some_job is_invite (se_jobs s)" "\<not> some_job is_answer (se_jobs s)"
  have "occurrences is_invite (map fst (se_jobs s)) = 0"
    using a(5) by (auto simp: occurrences_none some_job_def)
  moreover have "\<not> is_answer j" "late_ok j" using a(4) by (cases j; simp)+
  ultimately show ?thesis using a
    by (auto simp: base_def jobs_ok_def queue_ok_add occurrences_def)
qed

definition to_invite :: "call_phase option \<Rightarrow> session \<Rightarrow> bool" where
  "to_invite ph s \<longleftrightarrow> good ph s \<and> before_invite (se_status s) \<and> se_direction s \<noteq> None
     \<and> \<not> some_job is_invite (se_jobs s) \<and> \<not> some_job is_answer (se_jobs s)"

lemma to_invite_terminate: "to_invite ph s \<Longrightarrow> to_invite ph (snd (se_terminate env opts s))"
proof -
  assume a: "to_invite ph s"
  then have "good ph (snd (se_terminate env opts s))" by (simp add: to_invite_def)
  moreover have "before_invite (se_status (snd (se_terminate env opts s)))"
    using a by (cases "se_status s") (auto simp: to_invite_def before_invite_def se_terminate_def terminate_uac_def
        Let_def run_step good_def closing_apply)
  ultimately show ?thesis using a by (simp add: to_invite_def still_terminate)
qed

lemma run_to_invite:
  "to_invite ph s \<Longrightarrow> (\<And>t. to_invite ph t \<Longrightarrow> to_invite ph (snd (a t))) \<Longrightarrow>
    (\<And>t. to_invite ph t \<Longrightarrow> good ph (snd (run as t))) \<Longrightarrow> good ph (snd (run (a # as) s))"
  by (cases "a s") (fastforce simp: run.simps to_invite_def split: option.split)

lemma good_connect_session:
  assumes g: "good ph s" and n: "se_status s = S_NULL" "se_direction s = None"
  shows "good ph (snd (connect_session env opts app r s))"
proof -
  have j: "\<not> some_job is_invite (se_jobs s)" "\<not> some_job is_answer (se_jobs s)"
    using g n by (auto simp: good_def base_def jobs_ok_def)
  have err: "to_invite ph (snd (se_onTransportError env t))" if "to_invite ph t" for t
    using that to_invite_terminate by (simp add: se_onTransportError_def)
  have send: "good ph (snd (sendInitialRequest env b t))" if t: "to_invite ph t" for b t
    unfolding sendInitialRequest_def
    using t err by (intro run_to_invite [OF t]) (auto simp: to_invite_def good_def intro!: base_add_invite)
  have app: "to_invite ph (snd (app_terminates env app t))" if "to_invite ph t" for t
    using that to_invite_terminate by (simp add: app_terminates_def split: option.split)
  have rest: "good ph (snd (run [app_terminates env app, sendInitialRequest env (co_asks_media opts)] t))"
    if t: "to_invite ph t" for t
    using send app by (intro run_to_invite [OF t]) auto
  have dir: "good ph (t\<lparr>se_direction := d\<rparr>)" if "good ph t" "se_status t = S_NULL" "\<not> some_job is_invite (se_jobs t)" for t d
    using that by (auto simp: good_def base_def jobs_ok_def)
  show ?thesis
    unfolding connect_session_def createRTCConnection_def se_new_def
    using g n j by (auto simp: run_step run_run to_invite_def before_invite_def dir intro!: rest)
qed

lemma good_connect: "good ph s \<Longrightarrow> se_direction s = None \<Longrightarrow> good ph (snd (connect env opts app target s))"
proof -
  assume g: "good ph s" and d: "se_direction s = None"
  have cs: "good ph (snd (connect_session env opts app r t))" if "good ph t" "se_status t = S_NULL" "se_direction t = None" for r t
    using that by (rule good_connect_session)
  have st: "fst (set_default_expires x s) = None \<and> still (set_default_expires x)" for x
    by (auto simp: set_default_expires_def still_def split: option.split)
  have "good ph (snd (run [set_default_expires x, upd (\<lambda>s. s\<lparr>se_from_tag := a, se_contact := b\<rparr>),
        (\<lambda>s. case connect_request env opts u s of Inl e \<Rightarrow> (Some e, s) | Inr r \<Rightarrow> connect_session env opts app r s)] s))"
    if n: "se_status s = S_NULL" for x a b u
  proof -
    obtain t where t: "set_default_expires x s = (None, t)" using st [of x] by (cases "set_default_expires x s") auto
    then have "good ph t" "se_status t = S_NULL" "se_direction t = None"
      using st [of x] ok_apply [OF ok_timers(3) [of ph x], of s] g n d by (auto simp: still_def) (metis snd_conv)+
    then show ?thesis using t cs by (simp add: run.simps(2) [of "set_default_expires x"] run_step split: sum.split)
  qed
  with g show ?thesis by (simp add: connect_def split: option.split sum.split)
qed

text \<open>The jobs of the INVITE: no other of their kind is left when one settles.\<close>

lemma good_resolve_invite_media:
  assumes g: "good ph s" "before_invite (se_status s)" "se_direction s \<noteq> None"
    "\<not> some_job is_invite (se_jobs s)" "\<not> some_job is_answer (se_jobs s)"
  shows "good ph (snd (resolve_invite_media o' s))"
proof -
  have c: "good ph (t\<lparr>se_jobs := (J_invite_offer, True) # l\<rparr>)"
    if "to_invite ph t" "se_jobs t = l" for t l
  proof -
    have "occurrences is_invite (map fst (se_jobs t)) = 0"
      using that by (auto simp: to_invite_def occurrences_none some_job_def)
    then show ?thesis using that
      by (auto simp: to_invite_def good_def base_def jobs_ok_def occurrences_def)
  qed
  have "to_invite ph s" using g by (simp add: to_invite_def)
  then have "good ph (snd (run [take_stream st, se_connecting, createLocalDescription, continue_job J_invite_offer] s))" for st
    using c by (cases st) (auto simp: take_stream_def se_connecting_def createLocalDescription_def run_step to_invite_def)
  with g show ?thesis
    by (simp add: resolve_invite_media_def split: media_outcome.split)
qed

lemma good_resolve_invite_offer:
  assumes g: "good ph s" "before_invite (se_status s)" "\<not> some_job is_invite (se_jobs s)"
  shows "good ph (snd (resolve_invite_offer o' s))"
proof -
  have st: "still (settle_description o')"
    by (auto simp: still_def settle_description_def run.simps split: desc_outcome.split)
  have m: "good ph (t\<lparr>se_status := S_INVITE_SENT\<rparr>)"
    if "good ph t" "se_status t \<noteq> S_TERMINATED" "before_invite (se_status t)" "\<not> some_job is_invite (se_jobs t)" for t
  proof -
    have "may_move ph t S_INVITE_SENT"
      using that by (cases "se_status t") (auto simp: good_def before_invite_def may_move_def callee_def later_def base_def)
    with that show ?thesis by (auto simp: good_def intro: base_status)
  qed
  have mm: "good ph (t\<lparr>se_outgoing := q, se_status := S_INVITE_SENT\<rparr>)"
    if "good ph t" "se_status t \<noteq> S_TERMINATED" "before_invite (se_status t)" "\<not> some_job is_invite (se_jobs t)" for t q
    using m [of "t\<lparr>se_outgoing := q\<rparr>"] that by simp
  show ?thesis unfolding resolve_invite_offer_def
    by (rule run_still [OF st _ g(1)]) (use g mm in \<open>auto simp: run_step split: desc_outcome.split option.split\<close>)
qed

lemma ok_onAuthenticated [simp]: "ok ph (se_onAuthenticated r)"
  by (simp add: se_onAuthenticated_def)

section \<open>Responses\<close>

lemma ok_second_2xx [simp]: "ok ph (receive_second_2xx env d r)" "ok ph (receive_canceled env r)"
  by (rule keepsI, simp add: receive_second_2xx_def receive_canceled_def split: sum.split option.split)+

lemma good_calling:
  "good ph s \<Longrightarrow> phase (se_status s) = Calling \<Longrightarrow> phase st = Calling \<or> phase st = Up \<Longrightarrow> good ph (s\<lparr>se_status := st\<rparr>)"
proof -
  assume g: "good ph s" and c: "phase (se_status s) = Calling" and st: "phase st = Calling \<or> phase st = Up"
  have "\<not> some_job is_invite (se_jobs s)"
    using g c no_invite [of ph s] by (cases "se_status s") (auto simp: good_def before_invite_def)
  moreover have "later p (phase st)" if "ph = Some p" for p
    using g c st that by (auto simp: good_def base_def later_def)
  moreover have "st \<noteq> S_NULL" "\<not> callee st" "st \<noteq> S_CANCELED" "se_status s \<noteq> S_TERMINATED"
    using st c by (auto simp: callee_def)
  ultimately have "may_move ph s st" by (simp add: may_move_def)
  then show ?thesis using base_status [OF good_base [OF g]] \<open>st \<noteq> S_CANCELED\<close> by (simp add: good_def)
qed

lemma good_receive_1xx: "good ph s \<Longrightarrow> phase (se_status s) = Calling \<Longrightarrow> good ph (snd (receive_1xx env r s))"
proof -
  assume g: "good ph s" and c: "phase (se_status s) = Calling"
  define go where "go = run
        [set_status S_1XX_RECEIVED,
         (if \<not> truthy (im_body r) then se_progress Remote (Some r)
          else run [say (Se_emit ''sdp''), add_job (J_progress r)])]"
  have go: "good ph (snd (go t))" if "good ph t" "phase (se_status t) = Calling" for t
    using good_calling [OF that] by (simp add: go_def run_step se_progress_def)
  have w: "good ph (snd (with_dialog p UAC True st r' r go skip s))" for p st r'
    using go c by (intro good_with_dialog [OF g]) auto
  show ?thesis using w go [OF g c] g by (simp add: receive_1xx_def go_def [symmetric] Let_def)
qed

lemma good_receiveInviteResponse: "good ph s \<Longrightarrow> good ph (snd (receiveInviteResponse env r s))"
proof -
  assume g: "good ph s"
  have two: "good ph (snd (receive_2xx env r s))" if "phase (se_status s) = Calling"
    using good_calling [OF g that, of S_CONFIRMED] by (simp add: receive_2xx_def run_step)
  show ?thesis
    using g two good_receive_1xx [OF g, of env r] good_calling [OF g, of S_1XX_RECEIVED]
    by (simp add: receiveInviteResponse_def Let_def)
qed

lemma ok_accept [simp]: "ok ph (reject_answer env r)" "ok ph (resolve_accept_remote env r b)" "ok ph (resolve_progress r b)"
proof -
  show [simp]: "ok ph (reject_answer env r)" by (simp add: reject_answer_def)
  show "ok ph (resolve_accept_remote env r b)" "ok ph (resolve_progress r b)"
    by (simp_all add: resolve_accept_remote_def resolve_progress_def se_accepted_def se_confirmed_def se_progress_def)
qed

lemma ok_resolve_accept_offer [simp]: "ok ph (resolve_accept_offer env r o')"
proof -
  have "ok ph (continue_job (J_accept_remote r))"
    by (rule keepsI) (auto simp: good_def base_def jobs_ok_def occurrences_def)
  then show ?thesis by (simp add: resolve_accept_offer_def split: stable_outcome.split)
qed

section \<open>The callee\<close>

lemma ok_fire [simp]: "ok ph (se_fire_no_answer r)" "ok ph (se_fire_expires r)"
  by (rule keepsI, simp add: se_fire_no_answer_def se_fire_expires_def)+

lemma good_ringing:
  "good ph s \<Longrightarrow> phase (se_status s) = Ringing \<Longrightarrow> phase st = Ringing \<Longrightarrow> good ph (s\<lparr>se_status := st\<rparr>)"
proof -
  assume g: "good ph s" and c: "phase (se_status s) = Ringing" and st: "phase st = Ringing"
  have "\<not> some_job is_invite (se_jobs s)"
    using g c no_invite [of ph s] by (cases "se_status s") (auto simp: good_def before_invite_def)
  moreover have "later p (phase st)" if "ph = Some p" for p
    using g c st that by (auto simp: good_def base_def)
  moreover have "st \<noteq> S_NULL" "se_incoming s \<noteq> None" "st \<noteq> S_CANCELED" "se_status s \<noteq> S_TERMINATED"
    using st c g by (auto simp: callee_def good_def base_def)
  ultimately have "may_move ph s st" by (simp add: may_move_def)
  then show ?thesis using base_status [OF good_base [OF g]] \<open>st \<noteq> S_CANCELED\<close> by (simp add: good_def)
qed

lemma good_direction: "good ph s \<Longrightarrow> se_status s \<noteq> S_NULL \<Longrightarrow> good ph (s\<lparr>se_direction := d\<rparr>)"
  by (auto simp: good_def base_def jobs_ok_def)

lemma good_incoming_created:
  "good ph s \<Longrightarrow> se_status s = S_INVITE_RECEIVED \<Longrightarrow> good ph (snd (incoming_created env app r s))"
proof -
  assume g: "good ph s" and i: "se_status s = S_INVITE_RECEIVED"
  define told where "told = (\<lambda>s. if se_status s = S_TERMINATED then (None, s)
    else run [say (Se_reply r 180 None [''Contact: '' @ se_contact s] None), se_progress Local None] s)"
  have "ok ph told" by (rule keepsI) (simp add: told_def se_progress_def)
  then have rest: "ok ph (run [se_new Remote, app_terminates env app, told])" by (simp add: se_new_def)
  have w: "good ph (s\<lparr>se_late_sdp := b, se_status := S_WAITING_FOR_ANSWER\<rparr>)" for b
    using good_ringing [of ph "s\<lparr>se_late_sdp := b\<rparr>" S_WAITING_FOR_ANSWER] g i by simp
  show ?thesis
    unfolding incoming_created_def told_def [symmetric]
    using w by (auto simp: run.simps(2) [of "upd f" for f] run.simps(2) [of "set_status f" for f]
        run.simps(2) [of "se_setTimeout a b c" for a b c] run.simps(2) [of skip]
        split: option.split intro!: keepsD [OF rest] good_direction)
qed

lemma good_init_incoming:
  assumes g: "good ph s" and n: "se_status s = S_NULL" "se_direction s = None"
  shows "good ph (snd (init_incoming env app r s))"
proof -
  have "good ph (s\<lparr>se_status := S_INVITE_RECEIVED, se_incoming := Some q\<rparr>)" for q
    using g n by (auto simp: good_def base_def jobs_ok_def callee_def later_def intro: log_ok_status)
  then have m: "good ph (s\<lparr>se_status := S_INVITE_RECEIVED, se_from_tag := a, se_id := b, se_incoming := Some q, se_contact := c\<rparr>)"
    for a b c q
    by (simp add: good_def base_def)
  show ?thesis
    unfolding init_incoming_def Let_def
    using g m good_incoming_created by (auto simp: run_step intro!: good_with_dialog)
qed

lemma still_createRTCConnection [simp]: "still createRTCConnection"
  by (simp add: still_def createRTCConnection_def run_step)

lemma good_answer_created: "ready_to_answer ph s \<Longrightarrow> good ph (snd (answer_created env opts r s))"
proof -
  assume r: "ready_to_answer ph s"
  have "good ph (snd (run [add_job (J_answer_media r a h)] t))" if "ready_to_answer ph t" for a h t
    using that by (auto simp: ready_to_answer_def good_def intro!: base_add_job)
  then have "good ph (snd (run [createRTCConnection, add_job (J_answer_media r a h)] t))" if "ready_to_answer ph t" for a h t
    by (intro run_ready [OF _ _ that]) simp_all
  then show ?thesis
    unfolding answer_created_def Let_def by (intro run_ready [OF _ _ r]) simp_all
qed

lemma still_set_default: "still (set_default_expires n)"
  by (simp add: still_def set_default_expires_def split: option.split)

lemma ok_answer [simp]: "ok ph (answer env opts)"
proof (rule keepsI)
  fix s assume g: "good ph s"
  have "good ph (snd (run [set_status S_ANSWERED,
      with_dialog (ev_parse env) UAS False None None r (answer_created env opts r)
        (say (Se_reply r 500 (Some ''Error creating dialog'') [] None))] t))"
    if t: "good ph t" "se_status t = S_WAITING_FOR_ANSWER" for t r
  proof -
    have "good ph (t\<lparr>se_status := S_ANSWERED\<rparr>)" using good_ringing [OF t(1), of S_ANSWERED] t(2) by simp
    moreover have "\<not> some_job is_invite (se_jobs t)"
      using no_invite [OF good_base [OF t(1)]] t(2) by (simp add: before_invite_def)
    ultimately show ?thesis
      by (auto simp: run_step ready_to_answer_def intro!: good_with_dialog good_answer_created)
  qed
  then show "good ph (snd (answer env opts s))"
    using g by (auto simp: answer_def split: option.split intro!: run_still [OF still_set_default])
qed

lemma good_answer_describe: "ready_to_answer ph s \<Longrightarrow> good ph (snd (answer_describe r b h s))"
proof -
  assume r: "ready_to_answer ph s"
  have "good ph (snd (run [continue_job (J_answer_desc r b h)] t))" if "ready_to_answer ph t" for t
    using good_continue [OF that, of "J_answer_desc r b h"] by simp
  then have "good ph (snd (run [createLocalDescription, continue_job (J_answer_desc r b h)] t))" if "ready_to_answer ph t" for t
    by (intro run_ready [OF _ _ that]) simp_all
  then have "good ph (snd (run [se_connecting, createLocalDescription, continue_job (J_answer_desc r b h)] s))"
    by (intro run_ready [OF _ _ r]) (simp_all add: se_connecting_def)
  with r show ?thesis by (simp add: answer_describe_def ready_to_answer_def)
qed

lemma good_resolve_answer_media: "ready_to_answer ph s \<Longrightarrow> good ph (snd (resolve_answer_media r h o' s))"
proof -
  assume r: "ready_to_answer ph s"
  have st: "still (take_stream x)" for x
    by (simp add: still_def take_stream_def split: option.split prod.split)
  have add: "good ph (snd (run [say (Se_emit ''sdp''), add_job (J_answer_remote r h)] t))" if "ready_to_answer ph t" for t
    using that by (intro run_ready [OF _ _ that]) (auto simp: ready_to_answer_def good_def intro!: base_add_job)
  have "good ph (snd (run [take_stream x, if l then answer_describe r True h
      else run [say (Se_emit ''sdp''), add_job (J_answer_remote r h)]] s))" for x l
    using add by (intro run_ready [OF st _ r]) (auto intro: good_answer_describe)
  from r this [of _ True] this [of _ False] show ?thesis
    by (simp add: resolve_answer_media_def ready_to_answer_def split: media_outcome.split)
qed

lemma good_resolve_answer_remote: "ready_to_answer ph s \<Longrightarrow> good ph (snd (resolve_answer_remote r h b s))"
  using good_answer_describe [of ph s r False h] by (auto simp: resolve_answer_remote_def ready_to_answer_def)

lemma good_resolve_answer_desc: "ready_to_answer ph s \<Longrightarrow> good ph (snd (resolve_answer_desc env r h o' s))"
proof -
  assume r: "ready_to_answer ph s"
  have st: "still (settle_description o')"
    by (auto simp: still_def settle_description_def run.simps split: desc_outcome.split)
  have up: "good ph (snd (run [set_status S_WAITING_FOR_ACK, setInvite2xxTimer r d, setACKTimer, se_accepted Local None] t))"
    if "ready_to_answer ph t" "se_status t \<noteq> S_TERMINATED" for t d
  proof -
    have "good ph (t\<lparr>se_status := S_WAITING_FOR_ACK\<rparr>)" using that by (intro good_up) (auto simp: ready_to_answer_def)
    moreover have "ok ph (run [setInvite2xxTimer r d, setACKTimer, se_accepted Local None])" by (simp add: se_accepted_def)
    ultimately show ?thesis by (simp add: run_step)
  qed
  have sent: "good ph (snd (run
      [handleSessionTimersInIncomingRequest r, say (Se_reply r 200 None h' (Some d)),
       (case ev_reply env of
          Reply_sent \<Rightarrow> run [set_status S_WAITING_FOR_ACK, setInvite2xxTimer r (Some d), setACKTimer, se_accepted Local None]
        | Reply_failed \<Rightarrow> se_failed System None C_CONNECTION_ERROR
        | Reply_dropped \<Rightarrow> skip)] t))" if t: "ready_to_answer ph t" "se_status t \<noteq> S_TERMINATED" for t d h'
  proof (rule run_still)
    show "good ph t" using t by (simp add: ready_to_answer_def)
    fix u assume u: "good ph u" "se_status u = se_status t" "se_jobs u = se_jobs t"
    then have "ready_to_answer ph (u\<lparr>se_log := se_log u @ [e]\<rparr>)" if "quiet e" for e
      using that t by (simp add: ready_to_answer_def)
    then show "good ph (snd (run [say (Se_reply r 200 None h' (Some d)),
       (case ev_reply env of
          Reply_sent \<Rightarrow> run [set_status S_WAITING_FOR_ACK, setInvite2xxTimer r (Some d), setACKTimer, se_accepted Local None]
        | Reply_failed \<Rightarrow> se_failed System None C_CONNECTION_ERROR
        | Reply_dropped \<Rightarrow> skip)] u))"
      using t u up by (simp add: run_step split: reply_outcome.split)
  qed simp_all
  show ?thesis unfolding resolve_answer_desc_def
    by (rule run_ready [OF st _ r]) (use sent in \<open>auto simp: ready_to_answer_def split: desc_outcome.split\<close>)
qed

end
