(* ===== verification/Session_Runs.thy ===== *)
theory Session_Runs
  imports Session_Kept
begin

text \<open>
  Whole runs of a session: requests, timers and jobs keep the invariant of \<open>Session_Inv\<close>, so every
  step does, and a call goes through its phases in order, is closed and ended once, and changes its
  descriptions one at a time.
\<close>

section \<open>Requests and timers\<close>

lemma good_receive_cancel: "good ph s \<Longrightarrow> good ph (snd (receive_cancel r s))"
proof -
  assume g: "good ph s"
  have "base ph (s\<lparr>se_status := S_CANCELED, se_log := se_log s @ [Se_reply q 487 None [] None]\<rparr>)"
    if "se_status s \<noteq> S_TERMINATED" for q
    using base_over [OF good_base [OF g] that] by (simp add: base_log)
  then have "good ph (snd (receive_cancel r s))"
    if "phase (se_status s) = Ringing" "se_status s \<noteq> S_TERMINATED" "se_incoming s = Some q" for q
    using that g good_failed
    by (simp add: receive_cancel_def run_step run.simps(2) [of "reply_initial a b c d" for a b c d] reply_initial_def)
  moreover have "se_incoming s \<noteq> None" if "phase (se_status s) = Ringing"
    using g that by (simp add: good_def base_def callee_def)
  ultimately show ?thesis
    using g by (cases "phase (se_status s) = Ringing \<and> se_status s \<noteq> S_TERMINATED") (auto simp: receive_cancel_def)
qed

lemma good_receive_ack: "good ph s \<Longrightarrow> good ph (snd (receive_ack env r s))"
proof -
  assume g: "good ph s"
  have "good ph (s\<lparr>se_status := S_CONFIRMED\<rparr>)" if "se_status s = S_WAITING_FOR_ACK"
    using that g no_invite [OF good_base [OF g]] by (intro good_up) (auto simp: before_invite_def)
  then show ?thesis using g by (simp add: receive_ack_def run_step se_confirmed_def)
qed

lemma good_receive_bye: "good ph s \<Longrightarrow> good ph (snd (receive_bye r s))"
proof -
  assume g: "good ph s"
  have end_it: "good ph (snd (run [say e, se_ended Remote C_BYE] s))"
    if "quiet e" "se_status s \<noteq> S_TERMINATED" for e
    using that g by (auto simp: run_step simp del: run_one intro!: good_run_ended base_log good_base)
  have ring: "good ph (snd (run [say e, reply_initial 487 x [] None, se_ended Remote C_BYE] s))"
    if "quiet e" "se_status s \<noteq> S_TERMINATED" for e x
    using that g by (auto simp: run_step run.simps(2) [of "reply_initial a b c d" for a b c d] reply_initial_def
        simp del: run_one split: option.split intro!: good_run_ended base_log good_base)
  show ?thesis
    using g end_it ring by (simp add: receive_bye_def wrong_status_def)
qed

lemma good_receiveRequest: "good ph s \<Longrightarrow> good ph (snd (se_receiveRequest env app r s))"
proof -
  assume g: "good ph s"
  have "ready_to_answer ph s" if "se_status s = S_CONFIRMED"
    using g that no_invite [OF good_base [OF g]] by (auto simp: ready_to_answer_def before_invite_def)
  then show ?thesis
    using g by (cases "im_method r") (simp_all add: se_receiveRequest_def wrong_status_def good_receive_cancel good_receive_ack
        good_receive_bye good_receiveReinvite good_receiveUpdate)
qed

lemma ok_timer_act [simp]: "ok ph (timer_act env k)"
  by (cases k) simp_all

lemma ok_fire_timer [simp]: "ok ph (fire_timer env h k)"
  by (simp add: fire_timer_def)

lemma ok_resolve_ack_remote [simp]: "ok ph (resolve_ack_remote env b)"
  by (rule keepsI) (simp add: resolve_ack_remote_def se_confirmed_def)

section \<open>The queue\<close>

lemma queue_ok_append:
  "queue_ok (xs @ ys) \<longleftrightarrow> (if some_job in_queue xs then queue_ok xs \<and> all_waiting ys else queue_ok ys)"
  by (induction xs rule: queue_ok.induct) (auto simp: all_waiting_def some_job_def)

lemma all_waiting_simps [simp]:
  "all_waiting (xs @ ys) = (all_waiting xs \<and> all_waiting ys)"
  "all_waiting ((j, b) # js) = ((in_queue j \<longrightarrow> \<not> b) \<and> all_waiting js)"
  by (auto simp: all_waiting_def)

lemma all_waiting_none: "\<not> some_job in_queue js \<Longrightarrow> all_waiting js"
  by (auto simp: all_waiting_def some_job_def)

lemma queue_ok_waiting: "all_waiting js \<Longrightarrow> queue_ok js"
  by (induction js rule: queue_ok.induct) (auto simp: all_waiting_def)

lemma queue_ok_cons: "queue_ok ((j, b) # js) = (if in_queue j then all_waiting js else queue_ok js)"
  by (simp add: all_waiting_def)

declare queue_ok.simps(2) [simp del] queue_ok_cons [simp]

text \<open>A job that is taken out, and a link of the chain that was started: nothing before it, nothing started after it.\<close>

lemma queue_ok_remove: "queue_ok (xs @ (j, b) # ys) \<Longrightarrow> queue_ok (xs @ ys)"
  by (cases "some_job in_queue xs"; cases "in_queue j") (simp_all add: queue_ok_append queue_ok_waiting)

lemma queue_started: "queue_ok (xs @ (j, True) # ys) \<Longrightarrow> in_queue j \<Longrightarrow> all_waiting (xs @ ys)"
  by (cases "some_job in_queue xs") (simp_all add: queue_ok_append all_waiting_none)

lemma queue_ok_start:
  "queue_ok (xs @ (j, b) # ys) \<Longrightarrow> (in_queue j \<Longrightarrow> \<not> some_job in_queue xs) \<Longrightarrow> queue_ok (xs @ (j, True) # ys)"
  by (cases "some_job in_queue xs"; cases "in_queue j") (simp_all add: queue_ok_append)

lemma some_job_none: "some_job p js \<longleftrightarrow> filter (p \<circ> fst) js \<noteq> []"
  by (auto simp: some_job_def filter_empty_conv)

lemma jobs_ok_remove: "jobs_ok st dir (xs @ (j, b) # ys) \<Longrightarrow> jobs_ok st dir (xs @ ys)"
  using queue_ok_remove [of xs j b ys] by (cases "is_invite j"; cases "is_answer j") (auto simp: jobs_ok_def occurrences_def some_job_none)

lemma jobs_ok_start:
  "jobs_ok st dir (xs @ (j, b) # ys) \<Longrightarrow> (in_queue j \<Longrightarrow> \<not> some_job in_queue xs) \<Longrightarrow> jobs_ok st dir (xs @ (j, True) # ys)"
  using queue_ok_start [of xs j b ys] by (simp add: jobs_ok_def occurrences_def)

lemma job_split: "i < length js \<Longrightarrow> \<exists>j b. js ! i = (j, b) \<and> js = take i js @ (j, b) # drop (Suc i) js"
  by (cases "js ! i") (metis id_take_nth_drop)

lemma good_jobs: "good ph s \<Longrightarrow> jobs_ok (se_status s) (se_direction s) js \<Longrightarrow> good ph (s\<lparr>se_jobs := js\<rparr>)"
  by (simp add: good_def base_def)

lemma good_remove_job: "good ph s \<Longrightarrow> i < length (se_jobs s) \<Longrightarrow> good ph (remove_job i s)"
  unfolding remove_job_def
  by (rule good_jobs, assumption) (metis job_split jobs_ok_remove good_def base_def)

section \<open>Jobs\<close>

lemma job_facts:
  assumes g: "good ph s" and i: "i < length (se_jobs s)" and j: "se_jobs s ! i = (j, b)"
  shows "is_answer j \<Longrightarrow> ready_to_answer ph (remove_job i s)"
    and "is_invite j \<Longrightarrow> before_invite (se_status s) \<and> (se_status s = S_NULL \<longrightarrow> se_direction s \<noteq> None)
      \<and> \<not> some_job is_invite (se_jobs (remove_job i s)) \<and> \<not> some_job is_answer (se_jobs (remove_job i s))"
    and "b \<Longrightarrow> in_queue j \<Longrightarrow> all_waiting (se_jobs (remove_job i s))"
    and "late_ok j"
proof -
  define xs ys where "xs = take i (se_jobs s)" and "ys = drop (Suc i) (se_jobs s)"
  have js: "se_jobs s = xs @ (j, b) # ys" using id_take_nth_drop [OF i] j by (simp add: xs_def ys_def)
  have r: "se_jobs (remove_job i s) = xs @ ys" "se_status (remove_job i s) = se_status s"
    by (simp_all add: remove_job_def xs_def ys_def)
  have jo: "jobs_ok (se_status s) (se_direction s) (xs @ (j, b) # ys)" using g js by (simp add: good_def base_def)
  show "is_answer j \<Longrightarrow> ready_to_answer ph (remove_job i s)"
    using jo good_remove_job [OF g i] r by (auto simp: ready_to_answer_def jobs_ok_def)
  show "is_invite j \<Longrightarrow> before_invite (se_status s) \<and> (se_status s = S_NULL \<longrightarrow> se_direction s \<noteq> None)
      \<and> \<not> some_job is_invite (se_jobs (remove_job i s)) \<and> \<not> some_job is_answer (se_jobs (remove_job i s))"
    using jo r by (cases j) (auto simp: jobs_ok_def occurrences_def some_job_none)
  show "b \<Longrightarrow> in_queue j \<Longrightarrow> all_waiting (se_jobs (remove_job i s))"
    using jo r queue_started [of xs j ys] by (simp add: jobs_ok_def)
  show "late_ok j" using jo by (simp add: jobs_ok_def)
qed

lemma good_leave_queue: "good ph (snd (a s)) \<Longrightarrow> good ph (snd (leave_queue b (a s)))"
  by (simp add: leave_queue_def)

lemma good_started:
  assumes g: "good ph s" and m: "may_start i s"
  shows "good ph (s\<lparr>se_jobs := (se_jobs s)[i := (fst (se_jobs s ! i), True)]\<rparr>)"
proof -
  have i: "i < length (se_jobs s)" using m by (simp add: may_start_def)
  obtain j b where j: "se_jobs s ! i = (j, b)" by (cases "se_jobs s ! i")
  have "jobs_ok (se_status s) (se_direction s) (take i (se_jobs s) @ (j, b) # drop (Suc i) (se_jobs s))"
    using g id_take_nth_drop [OF i] j by (simp add: good_def base_def)
  moreover have "\<not> some_job in_queue (take i (se_jobs s))" if "in_queue j"
    using m that j by (auto simp: may_start_def some_job_def list_ex_iff)
  ultimately show ?thesis
    using g i j jobs_ok_start by (intro good_jobs) (auto simp: upd_conv_take_nth_drop)
qed

lemma good_begin_job:
  assumes g: "good ph s" and m: "may_start i s"
  shows "good ph (snd (begin_job env i s))"
proof -
  have i: "i < length (se_jobs s)" using m by (simp add: may_start_def)
  show ?thesis
    using good_started [OF g m] good_remove_job [OF g i]
    by (auto simp: begin_job_def Let_def run_step split: se_job.split)
qed

lemma good_reject_job:
  assumes g: "good ph s" and i: "i < length (se_jobs s)"
  shows "good ph (snd (reject_job env (fst (se_jobs s ! i)) (remove_job i s)))"
proof -
  obtain j b where j: "se_jobs s ! i = (j, b)" by (cases "se_jobs s ! i")
  show ?thesis
    using job_facts(1) [OF g i j] good_remove_job [OF g i] j
    by (cases j) (auto simp: good_resolve_answer_remote good_after_offer)
qed

lemma good_start_job: "good ph s \<Longrightarrow> may_start i s \<Longrightarrow> good ph (snd (start_job env i s))"
  using good_begin_job [of ph s i env] good_reject_job [of ph s i env]
  by (auto simp: start_job_def Let_def may_start_def leave_queue_def)

lemma good_resolve_late_live:
  "ready_to_answer ph s \<Longrightarrow> se_status s \<noteq> S_TERMINATED \<Longrightarrow> good ph (snd (resolve_late_desc env r o' s))"
proof -
  assume r: "ready_to_answer ph s" and t: "se_status s \<noteq> S_TERMINATED"
  have st: "still (settle_description o')"
    by (auto simp: still_def settle_description_def run.simps split: desc_outcome.split)
  have g: "good ph s" using r by (simp add: ready_to_answer_def)
  show ?thesis unfolding resolve_late_desc_def
    by (rule run_still [OF st _ g])
      (use r t in \<open>auto simp: ready_to_answer_def intro!: good_send_reinvite_answer split: desc_outcome.split\<close>)
qed

definition late_job :: "nat \<Rightarrow> session \<Rightarrow> bool" where
  "late_job i s \<longleftrightarrow> (\<exists>r. fst (se_jobs s ! i) = J_late_desc r)"

lemma good_settle_act:
  assumes g: "good ph s" and i: "i < length (se_jobs s)" and j: "se_jobs s ! i = (j, True)"
    and l: "ph = None \<or> \<not> late_job i s \<or> se_status s \<noteq> S_TERMINATED" and a: "settle_act env j o' = Some a"
  shows "good ph (snd (a (remove_job i s)))"
proof -
  note f = job_facts [OF g i j] and rm [simp] = good_remove_job [OF g i]
  have st: "se_status (remove_job i s) = se_status s" "se_direction (remove_job i s) = se_direction s"
    by (simp_all add: remove_job_def)
  show ?thesis
  proof (cases "is_invite j")
    case True
    note t = f(2) [OF True]
    have m: "good ph (snd (resolve_invite_media x (remove_job i s)))" for x
    proof (cases "se_status s = S_NULL")
      case False
      then have "se_status s = S_TERMINATED" using t g by (cases "se_status s") (auto simp: before_invite_def good_def)
      then show ?thesis by (simp add: resolve_invite_media_def st)
    qed (use t st in \<open>auto intro!: good_resolve_invite_media\<close>)
    have "good ph (snd (resolve_invite_offer x (remove_job i s)))" for x
      using t st by (intro good_resolve_invite_offer) auto
    with m a True show ?thesis by (cases "(env, j, o')" rule: settle_act.cases) (auto split: if_splits)
  next
    case False
    have "good ph (snd (resolve_late_desc env r x (remove_job i s)))" if "j = J_late_desc r" for r x
      using f(1,4) that l j st good_resolve_late good_resolve_late_live by (auto simp: late_job_def)
    then show ?thesis
      using False a f(1,3)
      by (cases "(env, j, o')" rule: settle_act.cases)
        (auto simp: good_resolve_answer_media good_resolve_answer_remote good_resolve_answer_desc good_resolve_offer_remote
          good_resolve_offer_desc split: if_splits)
  qed
qed

lemma good_settle_job:
  assumes "good ph s" "settle_job env i o' s = Some (e, s')" "ph = None \<or> \<not> late_job i s \<or> se_status s \<noteq> S_TERMINATED"
  shows "good ph s'"
proof -
  have i: "i < length (se_jobs s)" "snd (se_jobs s ! i)" using assms(2) by (auto simp: settle_job_def split: if_splits)
  obtain j where j: "se_jobs s ! i = (j, True)" using i(2) by (cases "se_jobs s ! i") auto
  obtain a where a: "settle_act env j o' = Some a"
      "(e, s') = (let p = a (remove_job i s) in if in_queue j then leave_queue (passes_on j o') p else p)"
    using assms(2) i j by (auto simp: settle_job_def Let_def)
  have "good ph (snd (a (remove_job i s)))" by (rule good_settle_act [OF assms(1) i(1) j assms(3) a(1)])
  with a(2) show ?thesis by (cases "in_queue j") (auto simp: Let_def leave_queue_def dest: arg_cong [where f = snd])
qed

section \<open>Steps\<close>

lemma good_call: "good ph s \<Longrightarrow> call_possible c s \<Longrightarrow> good ph (snd (call_act env c s))"
  by (cases c) (simp_all add: good_connect good_init_incoming good_refer good_receiveRequest good_receiveInviteResponse
      good_start_job ice_failed_def)

text \<open>Every step but the answer to an offer that was made after the end keeps the invariant with its phase.\<close>

lemma step_cases:
  assumes "se_step s s'"
  obtains "\<And>ph. good ph s \<Longrightarrow> good ph s'"
    | env i o' e where "late_job i s" "se_status s = S_TERMINATED" "settle_job env i o' s = Some (e, s')"
        "good None s \<Longrightarrow> good None s'"
  using assms
proof (cases rule: se_step.cases)
  case (se_step_call c env)
  then show ?thesis using that(1) good_call by blast
next
  case (se_step_timer h k d env)
  then show ?thesis using that(1) by simp
next
  case (se_step_job env i o' e)
  then show ?thesis using that good_settle_job by blast
next
  case (se_step_dialog d d')
  then show ?thesis using that(1) by simp
qed

lemma step_good: "good None s \<Longrightarrow> se_step s s' \<Longrightarrow> good None s'"
  by (erule step_cases) auto

lemma good_new: "good ph (new_session cfg) \<longleftrightarrow> (\<forall>p. ph = Some p \<longrightarrow> p = Idle)"
  by (auto simp: good_def base_def new_session_def log_ok_def jobs_ok_def callee_def occurrences_def later_def)

lemma run_good: "se_run (new_session cfg) s \<Longrightarrow> good None s"
  by (induction rule: rtranclp_induct) (auto simp: good_new intro: step_good)

section \<open>What the runs of a session show\<close>

lemma late_status:
  assumes l: "late_job i s" and t: "se_status s = S_TERMINATED" and s: "settle_job env i o' s = Some (e, s')"
  shows "se_status s' \<in> {S_TERMINATED, S_WAITING_FOR_ACK}"
proof -
  obtain r where r: "fst (se_jobs s ! i) = J_late_desc r" using l by (auto simp: late_job_def)
  have h: "se_status (snd (handleSessionTimersInIncomingRequest r u)) = se_status u"
      "fst (handleSessionTimersInIncomingRequest r u) = None" for u
    using still_timers [of r] by (simp add: still_def)
      (simp add: handleSessionTimersInIncomingRequest_def runSessionTimer_def Let_def run.simps)
  have a: "se_status (snd (send_reinvite_answer env r d u)) \<in> {S_TERMINATED, S_WAITING_FOR_ACK}"
    if "se_status u = S_TERMINATED" for d u
    using that h [of u] by (cases "handleSessionTimersInIncomingRequest r u")
      (auto simp: send_reinvite_answer_def Let_def run.simps setInvite2xxTimer_def start_invite2xx_def setACKTimer_def)
  have "se_status (snd (resolve_late_desc env r x (remove_job i s))) \<in> {S_TERMINATED, S_WAITING_FOR_ACK}" for x
    using a t by (cases x) (auto simp: resolve_late_desc_def settle_description_def run_step run.simps(2) [of "run as" for as] remove_job_def)
  note d = this
  show ?thesis
  proof (cases o')
    case (O_desc x)
    then show ?thesis using d [of x] s r by (auto simp: settle_job_def Let_def leave_queue_def split: if_splits)
  qed (use s r in \<open>auto simp: settle_job_def split: if_splits\<close>)
qed

text \<open>
  C4. A session refines the life of a call (\<open>call_spec\<close>: idle, then calling or ringing, then up, then
  over, and over at any time): each of its steps takes the call's phase along zero or more steps of
  that specification, with one exception, the reply to an INVITE without a body whose offer became ready
  only after the call had ended, which takes the ended call up again.
\<close>

theorem session_refines_call:
  assumes "se_run (new_session cfg) s" and "se_step s s'"
  shows "call_spec\<^sup>*\<^sup>* (phase (se_status s)) (phase (se_status s'))
    \<or> (\<exists>i. late_job i s \<and> se_status s = S_TERMINATED \<and> se_status s' = S_WAITING_FOR_ACK)"
  using assms(2)
proof (cases rule: step_cases)
  case 1
  have "good (Some (phase (se_status s))) s"
    using run_good [OF assms(1)] by (simp add: good_def base_def later_def)
  from 1 [OF this] show ?thesis by (simp add: good_def base_def call_spec_later)
next
  case (2 env i o' e)
  then show ?thesis using late_status [OF 2(1-3)] by (auto simp: call_spec_later later_def)
qed

text \<open>
  C5. A session that was not taken up again after its end is taken out of the user agent at most once
  and tells the application at most once that the call ended; once it was taken out it stays
  terminated.
\<close>

theorem call_ends_once:
  assumes "se_run (new_session cfg) s" and "\<not> revived (se_log s)"
  shows "occurrences (\<lambda>e. e = Se_destroy) (se_log s) \<le> 1 \<and> occurrences is_ended (se_log s) \<le> 1
    \<and> (Se_destroy \<in> set (se_log s) \<longrightarrow> se_status s = S_TERMINATED)"
  using run_good [OF assms(1)] assms(2) by (auto simp: good_def base_def log_ok_def)

lemma runs_good: "good None s \<Longrightarrow> se_run s t \<Longrightarrow> good None t"
  by (rotate_tac, induction rule: rtranclp_induct) (auto intro: step_good)


section \<open>Witnesses\<close>

definition small_config :: se_config where
  "small_config = \<lparr>sc_session_timers = True, sc_refresh_method = UPDATE, sc_force_refresher = False, sc_no_answer_timeout = 60000\<rparr>"

lemma terminate_new:
  "se_step (new_session small_config) (snd (call_act env (Call_terminate plain_terminate) (new_session small_config)))"
  "se_status (snd (call_act env (Call_terminate plain_terminate) (new_session small_config))) = S_TERMINATED"
  "se_log (snd (call_act env (Call_terminate plain_terminate) (new_session small_config)))
    = [Se_private_failed Local None C_CANCELED, Se_destroy, Se_failed Local C_CANCELED]"
proof -
  show "se_step (new_session small_config) (snd (call_act env (Call_terminate plain_terminate) (new_session small_config)))"
    by (rule se_step_call) simp
qed (simp_all add: se_terminate_def terminate_uac_def plain_terminate_def new_session_def run.simps closing_apply closed_log
    dialog_ends_def Let_def)

theorem session_refines_call_witness:
  "\<forall>env. let s = new_session small_config; s' = snd (call_act env (Call_terminate plain_terminate) s) in
     call_spec\<^sup>*\<^sup>* (phase (se_status s)) (phase (se_status s'))
     \<or> (\<exists>i. late_job i s \<and> se_status s = S_TERMINATED \<and> se_status s' = S_WAITING_FOR_ACK)"
  unfolding Let_def using session_refines_call [OF rtranclp.rtrancl_refl terminate_new(1)] by blast

theorem call_ends_once_witness:
  "\<forall>env. let s = snd (call_act env (Call_terminate plain_terminate) (new_session small_config)) in
     occurrences (\<lambda>e. e = Se_destroy) (se_log s) \<le> 1 \<and> occurrences is_ended (se_log s) \<le> 1
     \<and> (Se_destroy \<in> set (se_log s) \<longrightarrow> se_status s = S_TERMINATED)"
proof -
  have "\<not> revived (se_log (snd (call_act env (Call_terminate plain_terminate) (new_session small_config))))" for env
    unfolding terminate_new(3) by (simp add: answers_invite_def)
  from call_ends_once [OF r_into_rtranclp [where r = se_step, OF terminate_new(1)] this] show ?thesis
    unfolding Let_def by blast
qed

definition busy_session :: session where
  "busy_session = (new_session small_config)
     \<lparr>se_status := S_CONFIRMED, se_direction := Some D_outgoing, se_jobs := [(J_ack_remote, True), (J_reoffer 0 [], False)]\<rparr>"


end
