(* ===== verification/Session_Props.thy ===== *)
theory Session_Props
  imports Session_Runs
begin

text \<open>
  What the parts of a call promise: the local media follow mute and hold, the offered directions are
  those of RFC 3264, the 2xx reply is repeated as RFC 3261 asks, the two ends of a call agree on who
  refreshes it, tones are sent in order, and a BYE waits for the ACK.  The last section has the cases
  in which the code does not do what it means to.
\<close>

section \<open>Media\<close>

definition tracks_follow :: "session \<Rightarrow> bool" where
  "tracks_follow s \<longleftrightarrow>
     (\<forall>c. se_connection s = Some c \<longrightarrow>
        (\<forall>t\<in>set (pc_audio c). t = (\<not> se_localHold s \<and> \<not> se_remoteHold s \<and> \<not> se_audioMuted s))
        \<and> (\<forall>t\<in>set (pc_video c). t = (\<not> se_localHold s \<and> \<not> se_remoteHold s \<and> \<not> se_videoMuted s)))"

lemma tracks_follow_log [simp]: "tracks_follow (s\<lparr>se_log := l\<rparr>) = tracks_follow s"
  by (simp add: tracks_follow_def)

lemma tracks_none: "se_connection s = None \<Longrightarrow> tracks_follow s"
  by (simp add: tracks_follow_def)

definition set_tracks :: "session \<Rightarrow> peer_connection \<Rightarrow> peer_connection" where
  "set_tracks s c =
     c\<lparr>pc_audio := map (\<lambda>_. \<not> (se_localHold s \<or> se_remoteHold s) \<and> \<not> se_audioMuted s) (pc_audio c),
       pc_video := map (\<lambda>_. \<not> (se_localHold s \<or> se_remoteHold s) \<and> \<not> se_videoMuted s) (pc_video c)\<rparr>"

lemma setLocalMediaStatus_eq:
  "setLocalMediaStatus s =
    (case se_connection s of None \<Rightarrow> (Some no_connection, s) | Some c \<Rightarrow> (None, s\<lparr>se_connection := Some (set_tracks s c)\<rparr>))"
  by (cases "se_connection s") (auto simp: setLocalMediaStatus_def toggleMuteAudio_def toggleMuteVideo_def Let_def run.simps set_tracks_def)

lemma notice_eq:
  "run [setLocalMediaStatus, say e] s =
    (case se_connection s of None \<Rightarrow> (Some no_connection, s)
     | Some c \<Rightarrow> (None, s\<lparr>se_connection := Some (set_tracks s c), se_log := se_log s @ [e]\<rparr>))"
  by (cases "se_connection s") (simp_all add: run.simps setLocalMediaStatus_eq)

lemma tracks_set [simp]: "tracks_follow (s\<lparr>se_connection := Some (set_tracks s c)\<rparr>)"
  by (simp add: tracks_follow_def set_tracks_def)

lemma tracks_set' [simp]: "tracks_follow (s\<lparr>se_connection := Some (set_tracks s c), se_log := l\<rparr>)"
  by (simp add: tracks_follow_def set_tracks_def)

lemmas media_notice = onhold_def onunhold_def onmute_def onunmute_def notice_eq

lemma notice_tracks:
  "tracks_follow (snd (onhold p s))" "tracks_follow (snd (onunhold p s))" "tracks_follow (snd (onmute a v s))"
  "tracks_follow (snd (onunmute a v s))"
  by (cases "se_connection s"; simp add: media_notice tracks_none)+

text \<open>Sending an offer changes neither the tracks nor the flags.\<close>

lemma media_same_offer: "tracks_follow s \<Longrightarrow> tracks_follow (snd (send_offer u h f s))"
  by (auto simp: send_offer_def sendUpdate_def sendReinvite_def start_op_def se_sendRequest_def Let_def run.simps
      tracks_follow_def split: option.split)

lemma run_then_offer:
  "tracks_follow (snd (a s)) \<Longrightarrow> tracks_follow (snd (run [a, send_offer u h f] s))"
  by (cases "a s") (auto simp: run.simps(2) [of a] media_same_offer split: option.split)

lemma status_tracks: "tracks_follow (snd (setLocalMediaStatus s))"
  by (cases "se_connection s") (simp_all add: setLocalMediaStatus_eq tracks_none)

lemmas run_notice_offer = run_then_offer [OF notice_tracks(1)] run_then_offer [OF notice_tracks(2)] run_then_offer [OF status_tracks]

lemma mute_tracks:
  assumes "tracks_follow s"
  shows "tracks_follow (snd (mute a v s))" "tracks_follow (snd (unmute a v s))"
  using assms notice_tracks by (cases "se_connection s"; auto simp: mute_def unmute_def Let_def run_step
      run.simps(2) [of "run as" for as] toggleMuteAudio_def toggleMuteVideo_def tracks_none)+


definition talking :: session where
  "talking = (new_session small_config)
     \<lparr>se_status := S_CONFIRMED, se_direction := Some D_outgoing,
       se_connection := Some \<lparr>pc_closed = False, pc_audio = [True], pc_video = [True]\<rparr>\<rparr>"


section \<open>Offered directions\<close>

text \<open>RFC 3264: whether a side with a direction attribute sends and receives (none means both).\<close>

definition flow :: "string option \<Rightarrow> (bool \<times> bool) option" where
  "flow d =
     (if \<not> truthy d \<or> d = Some ''sendrecv'' then Some (True, True)
      else if d = Some ''sendonly'' then Some (True, False)
      else if d = Some ''recvonly'' then Some (False, True)
      else if d = Some ''inactive'' then Some (False, False)
      else None)"

text \<open>A side that holds stops receiving, one that is held stops sending.\<close>

definition held_flow :: "bool \<Rightarrow> bool \<Rightarrow> bool \<times> bool \<Rightarrow> bool \<times> bool" where
  "held_flow local remote f = (fst f \<and> \<not> remote, snd f \<and> \<not> local)"

text \<open>
  While the local side holds the call (and the peer does or does not), the direction offered for an
  audio or video section lets through what the section's own direction does, less what hold forbids,
  as RFC 3264 has it; without any hold it is the section's own.  While only the peer holds it is right
  for sections that send and receive or do neither, and wrong for the others: a section that only
  sends goes on to offer to send, and one that only receives offers nothing.
\<close>

theorem offered_direction:
  assumes "flow d = Some f" and "local \<or> \<not> remote \<or> fst f = snd f"
  shows "flow (mangle_direction local remote d) = Some (held_flow local remote f)
    \<and> mangle_direction False True (Some ''sendonly'') = Some ''sendonly''
    \<and> mangle_direction False True (Some ''recvonly'') = Some ''inactive''"
proof -
  have t: "truthy (Some ''sendrecv'')" "truthy (Some ''sendonly'')" "truthy (Some ''recvonly'')" "truthy (Some ''inactive'')"
    by (simp_all add: truthy_def)
  note m = mangle_direction_def hold_local_def hold_remote_def held_flow_def flow_def t
  have fl: "flow (Some ''sendonly'') = Some (True, False)" "flow (Some ''recvonly'') = Some (False, True)"
      "flow (Some ''inactive'') = Some (False, False)" "flow (Some ''sendrecv'') = Some (True, True)"
    by (simp_all add: flow_def t)
  have no: "flow d = Some (True, True)" if "\<not> truthy d" using that by (simp add: flow_def)
  have known: "\<not> truthy d \<or> d = Some ''sendrecv'' \<or> d = Some ''sendonly'' \<or> d = Some ''recvonly'' \<or> d = Some ''inactive''"
    using assms(1) unfolding flow_def by (metis option.distinct(1))
  consider "\<not> truthy d" "f = (True, True)" | "d = Some ''sendrecv''" "f = (True, True)"
    | "d = Some ''sendonly''" "f = (True, False)" | "d = Some ''recvonly''" "f = (False, True)"
    | "d = Some ''inactive''" "f = (False, False)"
    using known assms(1) fl no by (metis option.inject)
  then have "flow (mangle_direction local remote d) = Some (held_flow local remote f)"
    using assms(2) by cases (cases "local"; cases remote; simp add: m)+
  then show ?thesis by (simp add: m)
qed

lemma offered_direction_witness: "flow (mangle_direction True False (Some ''recvonly'')) = Some (False, False)"
  using offered_direction [of "Some ''recvonly''" "(False, True)" True False] by (simp add: flow_def held_flow_def truthy_def)

section \<open>The 2xx reply and the session timers\<close>

lemma next_timeout_le: "t \<le> T2 \<Longrightarrow> next_timeout t = min (2 * t) T2"
  by (auto simp: next_timeout_def T2_def)

lemma next_timeout_iterate: "(next_timeout ^^ n) T1 = min (T1 * 2 ^ n) T2"
proof (induction n)
  case 0 then show ?case by (simp add: T1_def T2_def)
next
  case (Suc n)
  have "(next_timeout ^^ Suc n) T1 = next_timeout (min (T1 * 2 ^ n) T2)" using Suc by simp
  also have "\<dots> = min (2 * min (T1 * 2 ^ n) T2) T2" by (rule next_timeout_le) simp
  also have "\<dots> = min (T1 * 2 ^ Suc n) T2" by simp
  finally show ?case .
qed

text \<open>
  While the ACK is missing, the 2xx reply is sent again each time its timer fires, and the timer
  is set anew: after the \<open>n\<close>-th repetition it waits \<open>T1 * 2^(n+1)\<close>, but never longer than \<open>T2\<close>
  (RFC 3261, 13.3.1.4).  Once the ACK came or the call ended, the timer does nothing.
\<close>

theorem reply_repeated:
  "invite2xxRetransmission r body ((next_timeout ^^ n) T1) s =
    (None,
     if se_status s \<noteq> S_WAITING_FOR_ACK then s
     else s\<lparr>se_log := se_log s @ [Se_reply r 200 None [''Contact: '' @ se_contact s] body],
       se_pending := se_pending s
         @ [(se_next s, T_invite2xx r body ((next_timeout ^^ Suc n) T1), Num (real (min (T1 * 2 ^ Suc n) T2)))],
       se_next := Suc (se_next s), se_invite2xxTimer := Some (se_next s)\<rparr>)"
proof -
  have "next_timeout ((next_timeout ^^ n) T1) = min (T1 * 2 ^ Suc n) T2"
    using next_timeout_iterate [of "Suc n"] by simp
  then show ?thesis
    by (simp add: invite2xxRetransmission_def start_invite2xx_def run.simps)
qed

lemma handle_request_timers:
  "st_enabled (se_timers s) \<Longrightarrow> st_currentExpires (se_timers (snd (handleSessionTimersInIncomingRequest r s)))
      = Some (negotiated_expires (im_session_expires r) s)"
  "st_enabled (se_timers s) \<Longrightarrow> st_refresher (se_timers (snd (handleSessionTimersInIncomingRequest r s)))
      = (negotiated_refresher (im_session_expires r) (im_session_expires_refresher r) ''uas'' = ''uas'')"
  by (simp_all add: handleSessionTimersInIncomingRequest_def runSessionTimer_def Let_def run.simps clear_handles_def)

lemma handle_response_timers:
  "st_enabled (se_timers s) \<Longrightarrow> st_currentExpires (se_timers (snd (handleSessionTimersInIncomingResponse r s)))
      = Some (negotiated_expires (im_session_expires r) s)"
  "st_enabled (se_timers s) \<Longrightarrow> st_refresher (se_timers (snd (handleSessionTimersInIncomingResponse r s)))
      = (negotiated_refresher (im_session_expires r) (im_session_expires_refresher r) ''uac'' = ''uac'')"
  by (simp_all add: handleSessionTimersInIncomingResponse_def runSessionTimer_def Let_def run.simps clear_handles_def)

text \<open>
  C20. Two ends of a call with session timers agree: when the response carries the Session-Expires
  header that the callee put in it, both count on the same interval and exactly one of them is the one to
  refresh the call (an interval below the least one counts as none, and the callee's own is offered).
\<close>

theorem one_refresher:
  assumes "st_enabled (se_timers uas_end)" and "st_enabled (se_timers uac_end)"
    and "MIN_SESSION_EXPIRES \<le> st_defaultExpires (se_timers uas_end)"
    and "im_session_expires_refresher req \<in> {None, Some ''uac'', Some ''uas''}"
    and "im_session_expires resp = Some (negotiated_expires (im_session_expires req) uas_end)"
    and "im_session_expires_refresher resp
      = Some (negotiated_refresher (im_session_expires req) (im_session_expires_refresher req) ''uas'')"
  shows "let s = se_timers (snd (handleSessionTimersInIncomingRequest req uas_end));
             t = se_timers (snd (handleSessionTimersInIncomingResponse resp uac_end))
         in st_currentExpires s = st_currentExpires t \<and> st_refresher s \<noteq> st_refresher t"
proof -
  let ?n = "negotiated_expires (im_session_expires req) uas_end"
  let ?r = "negotiated_refresher (im_session_expires req) (im_session_expires_refresher req) ''uas''"
  have n: "?n \<noteq> 0" "MIN_SESSION_EXPIRES \<le> ?n"
    using assms(3) by (auto simp: negotiated_expires_def MIN_SESSION_EXPIRES_def split: option.split)
  have r: "?r = ''uac'' \<or> ?r = ''uas''"
    using assms(4) by (auto simp: negotiated_refresher_def str_or_def truthy_def split: option.split)
  have "negotiated_expires (Some ?n) uac_end = ?n" "negotiated_refresher (Some ?n) (Some ?r) ''uac'' = ?r"
    using n r by (auto simp: negotiated_expires_def negotiated_refresher_def str_or_def truthy_def)
  then show ?thesis
    using r assms by (auto simp: Let_def handle_request_timers handle_response_timers)
qed

definition timed :: "'a in_message_scheme \<Rightarrow> 'a in_message_scheme" where
  "timed m = m\<lparr>im_session_expires := Some 120, im_session_expires_refresher := Some ''uac''\<rparr>"

lemma one_refresher_witness:
  "\<forall>(req :: in_request) (resp :: in_response).
     let s = se_timers (snd (handleSessionTimersInIncomingRequest (timed req) (new_session small_config)));
         t = se_timers (snd (handleSessionTimersInIncomingResponse (timed resp) (new_session small_config)))
     in st_currentExpires s = st_currentExpires t \<and> st_refresher s \<noteq> st_refresher t"
  by (intro allI one_refresher) (simp_all add: timed_def new_session_def small_config_def MIN_SESSION_EXPIRES_def
      SESSION_EXPIRES_def negotiated_expires_def negotiated_refresher_def str_or_def truthy_def)

section \<open>Tones\<close>

lemma clamp_bounds: "tone_duration n = Inr d \<Longrightarrow> 70 \<le> d \<and> d \<le> 6000"
  by (cases n) (auto simp: clamp_duration_def MIN_DURATION_def MAX_DURATION_def DEFAULT_DURATION_def split: if_splits)

lemma gap_bounds: "tone_gap n = Inr g \<Longrightarrow> 50 \<le> g"
  by (cases n) (auto simp: MIN_INTER_TONE_GAP_def DEFAULT_INTER_TONE_GAP_def split: if_splits)

text \<open>What one tone tells and sends; a comma is a pause.\<close>

definition tone_events :: "dialog \<Rightarrow> nat \<Rightarrow> string list \<Rightarrow> char \<Rightarrow> se_event list" where
  "tone_events d duration h t =
     (if t = CHR '','' then []
      else [Se_dtmf Local [upper_char t] duration,
            Se_request (dl_id d) INFO (h @ [''Content-Type: application/dtmf-relay''])
              (Some (''Signal='' @ [upper_char t] @ crlf @ ''Duration='' @ num_str duration))])"

definition valid_tones :: "string \<Rightarrow> bool" where
  "valid_tones ts \<longleftrightarrow> list_all (\<lambda>c. is_tone (upper_char c) \<or> c = CHR '','') ts"

text \<open>The successive runs of the function, each fired by the timer of the one before.\<close>

definition play :: "nat \<Rightarrow> nat \<Rightarrow> string list \<Rightarrow> nat \<Rightarrow> nat \<Rightarrow> se_act" where
  "play duration gap h p n = run (map (\<lambda>k. dtmf_step k duration gap h) [p..<n])"

lemma dtmf_step_tone:
  assumes "established_for_info s" "se_dialog s = Some d" "se_tones s = Some ts" "p < length ts" "valid_tones ts"
  shows "\<exists>s'. dtmf_step p duration gap h s = (None, s')
    \<and> se_log s' = se_log s @ tone_events d duration h (ts ! p) \<and> se_status s' = se_status s \<and> se_dialog s' = Some d
    \<and> se_tones s' = Some ts
    \<and> se_pending s' = se_pending s @ [(se_next s, T_dtmf (p + 1) duration gap h,
        Num (real (if ts ! p = CHR '','' then 2000 else duration + gap)))]"
proof -
  have t: "truthy (se_tones s)" "se_status s \<noteq> S_TERMINATED"
    using assms by (auto simp: truthy_def established_for_info_def)
  have v: "is_tone (upper_char (ts ! p)) \<or> ts ! p = CHR '',''" using assms by (auto simp: valid_tones_def list_all_length)
  show ?thesis
    using assms t v by (auto simp: dtmf_step_def Let_def tone_events_def dtmf_send_def se_sendRequest_def run.simps
        established_for_info_def)
qed

lemma play_step: "p < n \<Longrightarrow> play duration gap h p n s =
    (case dtmf_step p duration gap h s of (None, s) \<Rightarrow> play duration gap h (Suc p) n s | (Some e, s) \<Rightarrow> (Some e, s))"
  by (simp add: play_def upt_conv_Cons run.simps split: prod.split option.split)


section \<open>The BYE that waits for the ACK\<close>

text \<open>
  C19. A callee that ends a call whose INVITE transaction still waits for the ACK ends its session at
  once, but sends nothing: its BYE goes out, on the dialog of the call, with the first ACK that
  comes, and every other request that comes before it is left alone.
\<close>

theorem bye_waits_for_ack:
  assumes "se_status s = S_WAITING_FOR_ACK" and "se_direction s = Some D_incoming" and "\<not> ev_ist_terminated env"
    and "se_dialog s = Some d" and "to_status_code opts = 0"
  defines "t \<equiv> snd (se_terminate env opts s)"
  shows "se_status t = S_TERMINATED
    \<and> (\<exists>l. se_log t = se_log s @ l \<and> (\<forall>e\<in>set l. case e of Se_request i meth h b \<Rightarrow> False | _ \<Rightarrow> True))
    \<and> (\<forall>app r. se_receiveRequest env app r t =
        (if im_method r = ACK
         then (None, t\<lparr>se_log := se_log t @ [Se_request (dl_id d) BYE (cloneArray (to_extraHeaders opts)) (to_body opts),
                 Se_dialog_terminate (dl_id d)]\<rparr>)
         else (None, t)))"
proof -
  let ?u = "s\<lparr>se_bye_later := Some (cloneArray (to_extraHeaders opts), to_body opts)\<rparr>"
  have t: "t = (closed ?u)\<lparr>se_log := se_log (closed ?u) @ [Se_ended Local (to_cause opts), Se_dialog_new (dl_id d)],
      se_dialog := Some d\<rparr>"
    using assms(1-5) unfolding t_def
    by (simp add: se_terminate_def terminate_established_def terminate_waiting_def Let_def run.simps closing_apply)
  have c: "se_bye_later (closed ?u) = se_bye_later ?u"
    by (simp add: closed_def se_close_def run_end_dialogs end_dialog_def clear_handles_def run.simps split: option.split)
  have l: "se_log (closed ?u) = se_log s @ dialog_ends ?u @ [Se_destroy]" using assms(1) by (simp add: closed_log)
  have "\<forall>e\<in>set (dialog_ends ?u). case e of Se_request i meth h b \<Rightarrow> False | _ \<Rightarrow> True"
    by (auto simp: dialog_ends_def split: option.split)
  then show ?thesis
    by (simp add: t l c se_receiveRequest_def send_late_bye_def se_sendRequest_def end_dialog_def run.simps)
qed


lemma bye_waits_for_ack_witness:
  "\<forall>env d. se_status (snd (se_terminate (env\<lparr>ev_ist_terminated := False\<rparr>) plain_terminate
     (talking\<lparr>se_status := S_WAITING_FOR_ACK, se_direction := Some D_incoming, se_dialog := Some d\<rparr>))) = S_TERMINATED"
proof (intro allI)
  fix env d
  show "se_status (snd (se_terminate (env\<lparr>ev_ist_terminated := False\<rparr>) plain_terminate
     (talking\<lparr>se_status := S_WAITING_FOR_ACK, se_direction := Some D_incoming, se_dialog := Some d\<rparr>))) = S_TERMINATED"
    using bye_waits_for_ack [of "talking\<lparr>se_status := S_WAITING_FOR_ACK, se_direction := Some D_incoming, se_dialog := Some d\<rparr>"
        "env\<lparr>ev_ist_terminated := False\<rparr>" d plain_terminate]
    by (simp add: plain_terminate_def)
qed

definition one_tone :: "dialog \<Rightarrow> se_event list" where
  "one_tone d =
     [Se_dtmf Local ''1'' 100,
      Se_request (dl_id d) INFO [''Content-Type: application/dtmf-relay''] (Some (''Signal=1'' @ crlf @ ''Duration=100''))]"


section \<open>Where the code goes wrong\<close>

text \<open>
  C31. An INVITE without a body, whose offer the browser delivers only after the call has ended, is
  answered with 200 all the same (the other way in checks the status first): the ended session waits
  for an ACK again, although its dialog and its connection are gone.
\<close>

theorem late_offer_revives:
  fixes r :: in_request and offer :: string and waited :: bool
  assumes "se_status s = S_TERMINATED" and "ev_reply env = Reply_sent"
  defines "t \<equiv> snd (resolve_late_desc env r (Desc_ready offer waited) s)"
  shows "se_status t = S_WAITING_FOR_ACK \<and> (\<exists>h b. Se_reply r 200 None h b \<in> set (se_log t))
    \<and> se_dialog t = se_dialog s \<and> se_connection t = se_connection s"
proof -
  have h: "\<exists>v. handleSessionTimersInIncomingRequest r u = (None, v) \<and> se_log v = se_log u \<and> se_dialog v = se_dialog u
      \<and> se_connection v = se_connection u" for u
    by (simp add: handleSessionTimersInIncomingRequest_def runSessionTimer_def Let_def run.simps clear_handles_def)
  define u where "u = s\<lparr>se_rtcReady := True, se_iceReady := se_iceReady s \<or> waited, se_log := se_log s @ [Se_emit ''sdp'']\<rparr>"
  obtain v where v: "handleSessionTimersInIncomingRequest r u = (None, v)" "se_dialog v = se_dialog s" "se_connection v = se_connection s"
    using h [of u] by (auto simp: u_def)
  have t: "t = snd (send_reinvite_answer env r (Some offer) u)"
    unfolding t_def u_def
    by (simp add: resolve_late_desc_def settle_description_def run_step run.simps(2) [of "run as" for as])
  show ?thesis
    using assms(2) v unfolding t
    by (auto simp: send_reinvite_answer_def Let_def run.simps setInvite2xxTimer_def start_invite2xx_def setACKTimer_def)
qed

lemma late_offer_revives_witness:
  "\<forall>env r. se_status (snd (resolve_late_desc (env\<lparr>ev_reply := Reply_sent\<rparr>) r (Desc_ready ''v=0'' False)
     ((new_session small_config)\<lparr>se_status := S_TERMINATED\<rparr>))) = S_WAITING_FOR_ACK"
  using late_offer_revives [of "(new_session small_config)\<lparr>se_status := S_TERMINATED\<rparr>" "env\<lparr>ev_reply := Reply_sent\<rparr>" for env]
  by simp

text \<open>
  A caller that gives up after a provisional response sends CANCEL and fails at once; from then on
  it ignores every response, so that a 2xx that crossed the CANCEL is neither acknowledged nor
  followed by a BYE (a caller that gave up before the provisional response does both).
\<close>

theorem cancelled_call_answered:
  fixes env :: se_env
  assumes "se_status s = S_1XX_RECEIVED" and "\<not> se_is_canceled s" and "to_status_code opts = 0"
  defines "t \<equiv> snd (se_terminate env opts s)"
  shows "Se_cancel None \<in> set (se_log t) \<and> se_status t = S_TERMINATED \<and> receiveInviteResponse env' r t = (None, t)"
proof -
  have c: "se_is_canceled (closed u) = se_is_canceled u" "se_dialog (closed u) = (if se_status u = S_TERMINATED then se_dialog u else None)" for u
    by (simp_all add: closed_def se_close_def run_end_dialogs end_dialog_def clear_handles_def run.simps split: option.split)
  show ?thesis using assms(1-3) unfolding t_def
    by (simp add: se_terminate_def terminate_uac_def Let_def run.simps closing_apply closed_log c receiveInviteResponse_def)
qed

lemma cancelled_call_answered_witness:
  "\<forall>env r. (let t = snd (se_terminate env plain_terminate ((new_session small_config)\<lparr>se_status := S_1XX_RECEIVED\<rparr>))
     in receiveInviteResponse env r t = (None, t))"
  using cancelled_call_answered [of "(new_session small_config)\<lparr>se_status := S_1XX_RECEIVED\<rparr>" plain_terminate]
  by (simp add: new_session_def plain_terminate_def Let_def)

text \<open>
  Once the browser failed to make an offer or an answer, the session never is ready for an offer
  again by itself: hold, unhold, renegotiation and the refresh of the session timer do nothing, the
  last without setting its timer anew.
\<close>

theorem failed_offer_blocks:
  "let t = snd (run [createLocalDescription, settle_description Desc_create_fails] s)
   in hold u h t = (None, t) \<and> unhold u h t = (None, t) \<and> renegotiate u h t = (None, t) \<and> refresh_session t = (None, t)"
  by (simp add: createLocalDescription_def settle_description_def run.simps hold_def unhold_def renegotiate_def refresh_session_def
      can_hold_def can_unhold_def can_renegotiate_def isReadyToReOffer_def Let_def)

end
