(* ===== verification/Sdp_Regex.thy ===== *)
theory Sdp_Regex
  imports Js_Value
begin

text \<open>
  The regular expressions of the language as far as the table of \<open>sdp-transform\<close> (lines 27588-28107 of
  \<open>frontend/static/js/jssip-3.10.0.js\<close>) uses them: the matcher returns every way to match a prefix, in the
  order in which backtracking tries them, so that the first one is the match; a repeated part that matches
  nothing is not repeated again.
\<close>

datatype regex =
    R_lit string
  | R_set "char \<Rightarrow> bool"
  | R_seq regex regex
  | R_alt regex regex
  | R_star regex
  | R_opt regex
  | R_group nat regex
  | R_end

type_synonym captures = "(nat \<times> string) list"

text \<open>The remaining text and the groups captured so far (the last capture of a number first).\<close>

function rx :: "regex \<Rightarrow> string \<Rightarrow> captures \<Rightarrow> (string \<times> captures) list" where
  "rx (R_lit l) s c = (if starts_with l s then [(drop (length l) s, c)] else [])"
| "rx (R_set P) s c = (case s of [] \<Rightarrow> [] | x # t \<Rightarrow> if P x then [(t, c)] else [])"
| "rx (R_seq p q) s c = concat (map (\<lambda>(t, d). rx q t d) (rx p s c))"
| "rx (R_alt p q) s c = rx p s c @ rx q s c"
| "rx (R_star p) s c =
     concat (map (\<lambda>(t, d). if length t < length s then rx (R_star p) t d else []) (rx p s c)) @ [(s, c)]"
| "rx (R_opt p) s c = rx p s c @ [(s, c)]"
| "rx (R_group k p) s c = map (\<lambda>(t, d). (t, (k, take (length s - length t) s) # d)) (rx p s c)"
| "rx R_end s c = (if s = [] then [(s, c)] else [])"
  by pat_completeness auto
termination
  by (relation "measures [\<lambda>(r, s, c). size r, \<lambda>(r, s, c). length s]") auto

declare rx.simps(5) [simp del]

abbreviation R_plus :: "regex \<Rightarrow> regex" where
  "R_plus p \<equiv> R_seq p (R_star p)"

fun R_cat :: "regex list \<Rightarrow> regex" where
  "R_cat [] = R_lit []"
| "R_cat [r] = r"
| "R_cat (r # rs) = R_seq r (R_cat rs)"

fun R_any :: "regex list \<Rightarrow> regex" where
  "R_any [r] = r"
| "R_any (r # rs) = R_alt r (R_any rs)"
| "R_any [] = R_set (\<lambda>_. False)"

text \<open>\<open>content.match(reg)\<close>: the captures, or \<open>None\<close> for \<open>null\<close>; the expressions are anchored at the start.\<close>

definition rx_match :: "regex \<Rightarrow> string \<Rightarrow> captures option" where
  "rx_match r s = (case rx r s [] of [] \<Rightarrow> None | (t, c) # _ \<Rightarrow> Some c)"

definition capture :: "captures \<Rightarrow> nat \<Rightarrow> string option" where
  "capture c k = map_of c k"

section \<open>Character classes\<close>

definition is_word :: "char \<Rightarrow> bool" where
  "is_word c = (is_digit c \<or> (65 \<le> char_code c \<and> char_code c \<le> 90) \<or> (97 \<le> char_code c \<and> char_code c \<le> 122) \<or> char_code c = 95)"

definition not_space :: "char \<Rightarrow> bool" where
  "not_space c = (\<not> is_space c)"

definition no_break :: "char \<Rightarrow> bool" where
  "no_break c = (char_code c \<noteq> 10 \<and> char_code c \<noteq> 13)"

abbreviation "R_digits \<equiv> R_star (R_set is_digit)"
abbreviation "R_words \<equiv> R_star (R_set is_word)"
abbreviation "R_text \<equiv> R_star (R_set not_space)"
abbreviation "R_rest \<equiv> R_star (R_set no_break)"
abbreviation "R_blank \<equiv> R_lit '' ''"

section \<open>Repeated classes\<close>

text \<open>The first match of a repeated class takes the longest prefix of it.\<close>

lemma rx_star_set:
  "rx (R_star (R_set P)) s c = map (\<lambda>n. (drop n s, c)) (rev [0..<Suc (length (takeWhile P s))])"
proof (induction s)
  case (Cons x s)
  show ?case
  proof (cases "P x")
    case True
    have shift: "map (\<lambda>n. (drop n s, c)) ns = map (\<lambda>n. (drop n (x # s), c)) (map Suc ns)" for ns by simp
    have "[0..<Suc (Suc k)] = 0 # map Suc [0..<Suc k]" for k
      by (subst upt_conv_Cons) (simp_all add: map_Suc_upt del: upt_Suc)
    then have "rev [0..<Suc (length (takeWhile P (x # s)))] = map Suc (rev [0..<Suc (length (takeWhile P s))]) @ [0]"
      using True by (simp add: rev_map del: upt_Suc)
    with True Cons.IH show ?thesis by (subst rx.simps(5)) (simp add: shift del: upt_Suc)
  qed (subst rx.simps(5), simp)
qed (subst rx.simps(5), simp)

lemma rx_star_first: "\<exists>l. rx (R_star (R_set P)) s c = (dropWhile P s, c) # l"
proof -
  have "rev [0..<Suc k] = k # rev [0..<k]" for k by simp
  moreover have "drop (length (takeWhile P s)) s = dropWhile P s" by (simp add: dropWhile_eq_drop)
  ultimately show ?thesis by (simp add: rx_star_set)
qed

end
