(* ===== verification/Sdp_Grammar.thy ===== *)
theory Sdp_Grammar
  imports Sdp_Regex
begin

text \<open>
  The table of \<open>sdp-transform\<close> (lines 27588-28107 of \<open>frontend/static/js/jssip-3.10.0.js\<close>): for every line type
  the rules in their order, each the property it fills, the expression it reads and the format it
  writes.  A rule without an expression reads the whole line and one without a format writes its
  value, as the loop at the end of the table sets them.  A format function reads the fields of its element.
\<close>

datatype sdp_val = V_num js_num | V_str string

type_synonym sdp_fields = "sdp_val js_object"

record sdp_rule =
  ru_name :: "string option"
  ru_push :: "string option"
  ru_reg :: regex
  ru_names :: "string list option"
  ru_format :: "sdp_fields \<Rightarrow> string"

definition default_reg :: regex where
  "default_reg = R_group 1 R_rest"

text \<open>\<open>{ name, reg, format }\<close> with one value, \<open>{ name, names, reg, format }\<close> and \<open>{ push, names, reg, format }\<close>.\<close>

definition value_rule :: "string \<Rightarrow> regex \<Rightarrow> string \<Rightarrow> sdp_rule" where
  "value_rule name reg fmt = \<lparr>ru_name = Some name, ru_push = None, ru_reg = reg, ru_names = None, ru_format = (\<lambda>_. fmt)\<rparr>"

definition object_rule :: "string \<Rightarrow> string list \<Rightarrow> regex \<Rightarrow> (sdp_fields \<Rightarrow> string) \<Rightarrow> sdp_rule" where
  "object_rule name names reg fmt = \<lparr>ru_name = Some name, ru_push = None, ru_reg = reg, ru_names = Some names, ru_format = fmt\<rparr>"

definition push_rule :: "string \<Rightarrow> string list \<Rightarrow> regex \<Rightarrow> (sdp_fields \<Rightarrow> string) \<Rightarrow> sdp_rule" where
  "push_rule name names reg fmt = \<lparr>ru_name = None, ru_push = Some name, ru_reg = reg, ru_names = Some names, ru_format = fmt\<rparr>"

definition plain_rule :: "string \<Rightarrow> sdp_rule" where
  "plain_rule name = value_rule name default_reg ''%s''"

text \<open>\<open>o.key != null\<close> and \<open>o.key\<close> as a condition.\<close>

definition has_field :: "sdp_fields \<Rightarrow> string \<Rightarrow> bool" where
  "has_field ob k = obj_has ob k"

definition true_field :: "sdp_fields \<Rightarrow> string \<Rightarrow> bool" where
  "true_field ob k =
     (case obj_get ob k of
        None \<Rightarrow> False
      | Some (V_num n) \<Rightarrow> n \<noteq> NaN \<and> n \<noteq> Num 0
      | Some (V_str s) \<Rightarrow> s \<noteq> [])"

section \<open>Line types other than \<open>a\<close>\<close>

definition grammar_v :: "sdp_rule list" where
  "grammar_v = [value_rule ''version'' (R_cat [R_group 1 R_digits, R_end]) ''%s'']"

definition grammar_o :: "sdp_rule list" where
  "grammar_o =
     [object_rule ''origin'' [''username'', ''sessionId'', ''sessionVersion'', ''netType'', ''ipVer'', ''address'']
        (R_cat [R_group 1 R_text, R_blank, R_group 2 R_digits, R_blank, R_group 3 R_digits, R_blank, R_group 4 R_text,
           R_lit '' IP'', R_group 5 (R_set is_digit), R_blank, R_group 6 R_text])
        (\<lambda>_. ''%s %s %d %s IP%d %s'')]"

definition grammar_t :: "sdp_rule list" where
  "grammar_t =
     [object_rule ''timing'' [''start'', ''stop''] (R_cat [R_group 1 R_digits, R_blank, R_group 2 R_digits]) (\<lambda>_. ''%d %d'')]"

definition grammar_c :: "sdp_rule list" where
  "grammar_c =
     [object_rule ''connection'' [''version'', ''ip'']
        (R_cat [R_lit ''IN IP'', R_group 1 (R_set is_digit), R_blank, R_group 2 R_text]) (\<lambda>_. ''IN IP%d %s'')]"

definition grammar_b :: "sdp_rule list" where
  "grammar_b =
     [push_rule ''bandwidth'' [''type'', ''limit'']
        (R_cat [R_group 1 (R_any [R_lit ''TIAS'', R_lit ''AS'', R_lit ''CT'', R_lit ''RR'', R_lit ''RS'']), R_lit '':'',
           R_group 2 R_digits])
        (\<lambda>_. ''%s:%s'')]"

text \<open>The line \<open>m\<close> fills the section itself: it has neither a name nor a list.\<close>

definition grammar_m :: sdp_rule where
  "grammar_m =
     \<lparr>ru_name = None, ru_push = None,
      ru_reg = R_cat [R_group 1 R_words, R_blank, R_group 2 R_digits, R_blank,
        R_group 3 (R_star (R_set (\<lambda>c. is_word c \<or> c = CHR ''/''))), R_opt (R_cat [R_blank, R_group 4 R_rest])],
      ru_names = Some [''type'', ''port'', ''protocol'', ''payloads''], ru_format = (\<lambda>_. ''%s %d %s %s'')\<rparr>"

section \<open>Attributes\<close>

abbreviation "R_dashed \<equiv> R_star (R_set (\<lambda>c. is_word c \<or> c = CHR ''-''))"

definition grammar_a_codecs :: "sdp_rule list" where
  "grammar_a_codecs =
     [push_rule ''rtp'' [''payload'', ''codec'', ''rate'', ''encoding'']
        (R_cat [R_lit ''rtpmap:'', R_group 1 R_digits, R_blank,
           R_group 2 (R_star (R_set (\<lambda>c. is_word c \<or> c = CHR ''-'' \<or> c = CHR ''.''))),
           R_opt (R_cat [R_star (R_set is_space), R_lit ''/'', R_group 3 R_digits,
             R_opt (R_cat [R_star (R_set is_space), R_lit ''/'', R_group 4 R_text])])])
        (\<lambda>ob. if true_field ob ''encoding'' then ''rtpmap:%d %s/%s/%s''
             else if true_field ob ''rate'' then ''rtpmap:%d %s/%s'' else ''rtpmap:%d %s''),
      push_rule ''fmtp'' [''payload'', ''config'']
        (R_cat [R_lit ''fmtp:'', R_group 1 R_digits, R_blank,
           R_group 2 (R_star (R_set (\<lambda>c. not_space c \<or> c = CHR '' '')))])
        (\<lambda>_. ''fmtp:%d %s''),
      value_rule ''control'' (R_cat [R_lit ''control:'', R_group 1 R_rest]) ''control:%s'',
      object_rule ''rtcp'' [''port'', ''netType'', ''ipVer'', ''address'']
        (R_cat [R_lit ''rtcp:'', R_group 1 R_digits,
           R_opt (R_cat [R_blank, R_group 2 R_text, R_lit '' IP'', R_group 3 (R_set is_digit), R_blank, R_group 4 R_text])])
        (\<lambda>ob. if has_field ob ''address'' then ''rtcp:%d %s IP%d %s'' else ''rtcp:%d''),
      push_rule ''rtcpFbTrrInt'' [''payload'', ''value'']
        (R_cat [R_lit ''rtcp-fb:'', R_group 1 (R_any [R_lit ''*'', R_digits]), R_lit '' trr-int '', R_group 2 R_digits])
        (\<lambda>_. ''rtcp-fb:%d trr-int %d''),
      push_rule ''rtcpFb'' [''payload'', ''type'', ''subtype'']
        (R_cat [R_lit ''rtcp-fb:'', R_group 1 (R_any [R_lit ''*'', R_digits]), R_blank, R_group 2 R_dashed,
           R_opt (R_cat [R_blank, R_group 3 R_dashed])])
        (\<lambda>ob. if has_field ob ''subtype'' then ''rtcp-fb:%s %s %s'' else ''rtcp-fb:%s %s''),
      push_rule ''ext'' [''value'', ''direction'', ''encrypt-uri'', ''uri'', ''config'']
        (R_cat [R_lit ''extmap:'', R_group 1 (R_plus (R_set is_digit)), R_opt (R_cat [R_lit ''/'', R_group 2 (R_plus (R_set is_word))]),
           R_opt (R_cat [R_blank, R_group 3 (R_lit ''urn:ietf:params:rtp-hdrext:encrypt'')]), R_blank, R_group 4 R_text,
           R_opt (R_cat [R_blank, R_group 5 R_text])])
        (\<lambda>ob. ''extmap:%d'' @ (if true_field ob ''direction'' then ''/%s'' else ''%v'')
            @ (if true_field ob ''encrypt-uri'' then '' %s'' else ''%v'') @ '' %s''
            @ (if true_field ob ''config'' then '' %s'' else [])),
      value_rule ''extmapAllowMixed'' (R_group 1 (R_lit ''extmap-allow-mixed'')) ''%s'',
      push_rule ''crypto'' [''id'', ''suite'', ''config'', ''sessionConfig'']
        (R_cat [R_lit ''crypto:'', R_group 1 R_digits, R_blank, R_group 2 R_words, R_blank, R_group 3 R_text,
           R_opt (R_cat [R_blank, R_group 4 R_text])])
        (\<lambda>ob. if has_field ob ''sessionConfig'' then ''crypto:%d %s %s %s'' else ''crypto:%d %s %s'')]"

abbreviation "R_decimals \<equiv> R_seq R_digits (R_star (R_seq (R_lit ''.'') R_digits))"

definition direction_rule :: sdp_rule where
  "direction_rule =
     value_rule ''direction''
       (R_group 1 (R_any [R_lit ''sendrecv'', R_lit ''recvonly'', R_lit ''sendonly'', R_lit ''inactive''])) ''%s''"

definition grammar_a_media :: "sdp_rule list" where
  "grammar_a_media =
     [value_rule ''setup'' (R_cat [R_lit ''setup:'', R_group 1 R_words]) ''setup:%s'',
      value_rule ''connectionType'' (R_cat [R_lit ''connection:'', R_group 1 (R_any [R_lit ''new'', R_lit ''existing''])])
        ''connection:%s'',
      value_rule ''mid'' (R_cat [R_lit ''mid:'', R_group 1 R_text]) ''mid:%s'',
      value_rule ''msid'' (R_cat [R_lit ''msid:'', R_group 1 R_rest]) ''msid:%s'',
      value_rule ''ptime'' (R_cat [R_lit ''ptime:'', R_group 1 R_decimals]) ''ptime:%d'',
      value_rule ''maxptime'' (R_cat [R_lit ''maxptime:'', R_group 1 R_decimals]) ''maxptime:%d'',
      direction_rule,
      value_rule ''icelite'' (R_group 1 (R_lit ''ice-lite'')) ''%s'',
      value_rule ''iceUfrag'' (R_cat [R_lit ''ice-ufrag:'', R_group 1 R_text]) ''ice-ufrag:%s'',
      value_rule ''icePwd'' (R_cat [R_lit ''ice-pwd:'', R_group 1 R_text]) ''ice-pwd:%s'',
      object_rule ''fingerprint'' [''type'', ''hash'']
        (R_cat [R_lit ''fingerprint:'', R_group 1 R_text, R_blank, R_group 2 R_text]) (\<lambda>_. ''fingerprint:%s %s'')]"

definition grammar_a_ice :: "sdp_rule list" where
  "grammar_a_ice =
     [push_rule ''candidates''
        [''foundation'', ''component'', ''transport'', ''priority'', ''ip'', ''port'', ''type'', ''raddr'', ''rport'',
         ''tcptype'', ''generation'', ''network-id'', ''network-cost'']
        (R_cat [R_lit ''candidate:'', R_group 1 R_text, R_blank, R_group 2 R_digits, R_blank, R_group 3 R_text, R_blank,
           R_group 4 R_digits, R_blank, R_group 5 R_text, R_blank, R_group 6 R_digits, R_lit '' typ '', R_group 7 R_text,
           R_opt (R_cat [R_lit '' raddr '', R_group 8 R_text, R_lit '' rport '', R_group 9 R_digits]),
           R_opt (R_cat [R_lit '' tcptype '', R_group 10 R_text]),
           R_opt (R_cat [R_lit '' generation '', R_group 11 R_digits]),
           R_opt (R_cat [R_lit '' network-id '', R_group 12 R_digits]),
           R_opt (R_cat [R_lit '' network-cost '', R_group 13 R_digits])])
        (\<lambda>ob. ''candidate:%s %d %s %d %s %d typ %s''
            @ (if has_field ob ''raddr'' then '' raddr %s rport %d'' else ''%v%v'')
            @ (if has_field ob ''tcptype'' then '' tcptype %s'' else ''%v'')
            @ (if has_field ob ''generation'' then '' generation %d'' else [])
            @ (if has_field ob ''network-id'' then '' network-id %d'' else ''%v'')
            @ (if has_field ob ''network-cost'' then '' network-cost %d'' else ''%v'')),
      value_rule ''endOfCandidates'' (R_group 1 (R_lit ''end-of-candidates'')) ''%s'',
      value_rule ''remoteCandidates'' (R_cat [R_lit ''remote-candidates:'', R_group 1 R_rest]) ''remote-candidates:%s'',
      value_rule ''iceOptions'' (R_cat [R_lit ''ice-options:'', R_group 1 R_text]) ''ice-options:%s'',
      push_rule ''ssrcs'' [''id'', ''attribute'', ''value'']
        (R_cat [R_lit ''ssrc:'', R_group 1 R_digits, R_blank, R_group 2 R_dashed, R_opt (R_cat [R_lit '':'', R_group 3 R_rest])])
        (\<lambda>ob. ''ssrc:%d'' @ (if has_field ob ''attribute'' then '' %s'' @ (if has_field ob ''value'' then '':%s'' else []) else [])),
      push_rule ''ssrcGroups'' [''semantics'', ''ssrcs'']
        (R_cat [R_lit ''ssrc-group:'',
           R_group 1 (R_star (R_set (\<lambda>c. is_word c \<or> char_code c \<in> {33, 35, 36, 37, 38, 39, 42, 43, 45, 46}))),
           R_blank, R_group 2 R_rest])
        (\<lambda>_. ''ssrc-group:%s %s''),
      object_rule ''msidSemantic'' [''semantic'', ''token'']
        (R_cat [R_lit ''msid-semantic:'', R_opt (R_set is_space), R_group 1 R_words, R_blank, R_group 2 R_text])
        (\<lambda>_. ''msid-semantic: %s %s''),
      push_rule ''groups'' [''type'', ''mids''] (R_cat [R_lit ''group:'', R_group 1 R_words, R_blank, R_group 2 R_rest])
        (\<lambda>_. ''group:%s %s''),
      value_rule ''rtcpMux'' (R_group 1 (R_lit ''rtcp-mux'')) ''%s'',
      value_rule ''rtcpRsize'' (R_group 1 (R_lit ''rtcp-rsize'')) ''%s'',
      object_rule ''sctpmap'' [''sctpmapNumber'', ''app'', ''maxMessageSize'']
        (R_cat [R_lit ''sctpmap:'', R_group 1 (R_star (R_set (\<lambda>c. is_word c \<or> c = CHR ''/''))), R_blank, R_group 2 R_text,
           R_opt (R_cat [R_blank, R_group 3 R_text])])
        (\<lambda>ob. if has_field ob ''maxMessageSize'' then ''sctpmap:%s %s %s'' else ''sctpmap:%s %s''),
      value_rule ''xGoogleFlag'' (R_cat [R_lit ''x-google-flag:'', R_group 1 R_text]) ''x-google-flag:%s'']"

text \<open>\<open>[x=800,y=640] [x=480,y=320]\<close>, and one list of \<open>simulcast\<close>.\<close>

definition R_bracketed :: regex where
  "R_bracketed = R_cat [R_lit ''['', R_plus (R_set not_space), R_lit '']'']"

definition R_attr_list :: regex where
  "R_attr_list = R_any [R_lit ''*'', R_seq R_bracketed (R_star (R_seq (R_plus (R_set is_space)) R_bracketed))]"

definition R_streams :: regex where
  "R_streams = R_plus (R_set (\<lambda>c. is_word c \<or> c \<in> set ''-~;,''))"

definition grammar_a_layers :: "sdp_rule list" where
  "grammar_a_layers =
     [push_rule ''rids'' [''id'', ''direction'', ''params'']
        (R_cat [R_lit ''rid:'', R_group 1 (R_plus (R_set is_word)), R_blank, R_group 2 (R_plus (R_set is_word)),
           R_opt (R_cat [R_blank, R_group 3 (R_star (R_set (\<lambda>c. not_space c \<or> c = CHR '' '')))])])
        (\<lambda>ob. if true_field ob ''params'' then ''rid:%s %s %s'' else ''rid:%s %s''),
      push_rule ''imageattrs'' [''pt'', ''dir1'', ''attrs1'', ''dir2'', ''attrs2'']
        (R_cat [R_lit ''imageattr:'', R_group 1 (R_any [R_plus (R_set is_digit), R_lit ''*'']), R_plus (R_set is_space),
           R_group 2 (R_any [R_lit ''send'', R_lit ''recv'']), R_plus (R_set is_space), R_group 3 R_attr_list,
           R_opt (R_cat [R_plus (R_set is_space), R_group 4 (R_any [R_lit ''recv'', R_lit ''send'']), R_plus (R_set is_space),
             R_group 5 R_attr_list])])
        (\<lambda>ob. ''imageattr:%s %s %s'' @ (if true_field ob ''dir2'' then '' %s %s'' else [])),
      object_rule ''simulcast'' [''dir1'', ''list1'', ''dir2'', ''list2'']
        (R_cat [R_lit ''simulcast:'', R_group 1 (R_any [R_lit ''send'', R_lit ''recv'']), R_blank, R_group 2 R_streams,
           R_opt (R_cat [R_opt (R_set is_space), R_group 3 (R_any [R_lit ''send'', R_lit ''recv'']), R_blank, R_group 4 R_streams]),
           R_end])
        (\<lambda>ob. ''simulcast:%s %s'' @ (if true_field ob ''dir2'' then '' %s %s'' else [])),
      object_rule ''simulcast_03'' [''value'']
        (R_cat [R_lit ''simulcast:'', R_plus (R_set is_space), R_group 1 (R_plus (R_set (\<lambda>_. True))), R_end])
        (\<lambda>_. ''simulcast: %s''),
      value_rule ''framerate''
        (R_cat [R_lit ''framerate:'', R_group 1 (R_cat [R_plus (R_set is_digit),
           R_any [R_end, R_seq (R_lit ''.'') (R_plus (R_set is_digit))]])])
        ''framerate:%s'']"

definition grammar_a_misc :: "sdp_rule list" where
  "grammar_a_misc =
     [object_rule ''sourceFilter'' [''filterMode'', ''netType'', ''addressTypes'', ''destAddress'', ''srcList'']
        (R_cat [R_lit ''source-filter:'', R_star R_blank, R_group 1 (R_any [R_lit ''excl'', R_lit ''incl'']), R_blank,
           R_group 2 R_text, R_blank, R_group 3 (R_any [R_lit ''IP4'', R_lit ''IP6'', R_lit ''*'']), R_blank, R_group 4 R_text,
           R_blank, R_group 5 R_rest])
        (\<lambda>_. ''source-filter: %s %s %s %s %s''),
      value_rule ''bundleOnly'' (R_group 1 (R_lit ''bundle-only'')) ''%s'',
      value_rule ''label'' (R_cat [R_lit ''label:'', R_group 1 (R_plus (R_set no_break))]) ''label:%s'',
      value_rule ''sctpPort'' (R_cat [R_lit ''sctp-port:'', R_group 1 (R_plus (R_set is_digit)), R_end]) ''sctp-port:%s'',
      value_rule ''maxMessageSize'' (R_cat [R_lit ''max-message-size:'', R_group 1 (R_plus (R_set is_digit)), R_end])
        ''max-message-size:%s'',
      push_rule ''tsRefClocks'' [''clksrc'', ''clksrcExt'']
        (R_cat [R_lit ''ts-refclk:'', R_group 1 (R_star (R_set (\<lambda>c. not_space c \<and> c \<noteq> CHR ''=''))),
           R_opt (R_cat [R_lit ''='', R_group 2 R_text])])
        (\<lambda>ob. ''ts-refclk:%s'' @ (if has_field ob ''clksrcExt'' then ''=%s'' else [])),
      object_rule ''mediaClk'' [''id'', ''mediaClockName'', ''mediaClockValue'', ''rateNumerator'', ''rateDenominator'']
        (R_cat [R_lit ''mediaclk:'', R_opt (R_cat [R_lit ''id='', R_group 1 R_text]), R_star R_blank,
           R_group 2 (R_star (R_set (\<lambda>c. not_space c \<and> c \<noteq> CHR ''=''))), R_opt (R_cat [R_lit ''='', R_group 3 R_text]),
           R_opt (R_cat [R_star R_blank, R_lit ''rate='', R_group 4 (R_plus (R_set is_digit)), R_lit ''/'',
             R_group 5 (R_plus (R_set is_digit))])])
        (\<lambda>ob. ''mediaclk:'' @ (if has_field ob ''id'' then ''id=%s %s'' else ''%v%s'')
            @ (if has_field ob ''mediaClockValue'' then ''=%s'' else [])
            @ (if has_field ob ''rateNumerator'' then '' rate=%s'' else [])
            @ (if has_field ob ''rateDenominator'' then ''/%s'' else [])),
      value_rule ''keywords'' (R_cat [R_lit ''keywds:'', R_group 1 (R_plus (R_set no_break)), R_end]) ''keywds:%s'',
      value_rule ''content'' (R_cat [R_lit ''content:'', R_group 1 (R_plus (R_set no_break))]) ''content:%s'',
      value_rule ''bfcpFloorCtrl''
        (R_cat [R_lit ''floorctrl:'', R_group 1 (R_any [R_lit ''c-only'', R_lit ''s-only'', R_lit ''c-s''])]) ''floorctrl:%s'',
      value_rule ''bfcpConfId'' (R_cat [R_lit ''confid:'', R_group 1 (R_plus (R_set is_digit))]) ''confid:%s'',
      value_rule ''bfcpUserId'' (R_cat [R_lit ''userid:'', R_group 1 (R_plus (R_set is_digit))]) ''userid:%s'',
      object_rule ''bfcpFloorId'' [''id'', ''mStream'']
        (R_cat [R_lit ''floorid:'', R_group 1 (R_plus (R_set no_break)), R_blank, R_any [R_lit ''m-stream'', R_lit ''mstrm''],
           R_lit '':'', R_group 2 (R_plus (R_set no_break))])
        (\<lambda>_. ''floorid:%s mstrm:%s'')]"

text \<open>What no other rule reads is kept as it is.\<close>

definition grammar_a_invalid :: sdp_rule where
  "grammar_a_invalid = push_rule ''invalid'' [''value''] default_reg (\<lambda>_. ''%s'')"

definition grammar_a :: "sdp_rule list" where
  "grammar_a = grammar_a_codecs @ grammar_a_media @ grammar_a_ice @ grammar_a_layers @ grammar_a_misc @ [grammar_a_invalid]"

definition sdp_grammar :: "(char \<times> sdp_rule list) list" where
  "sdp_grammar =
     [(CHR ''v'', grammar_v), (CHR ''o'', grammar_o), (CHR ''s'', [plain_rule ''name'']), (CHR ''i'', [plain_rule ''description'']),
      (CHR ''u'', [plain_rule ''uri'']), (CHR ''e'', [plain_rule ''email'']), (CHR ''p'', [plain_rule ''phone'']),
      (CHR ''z'', [plain_rule ''timezones'']), (CHR ''r'', [plain_rule ''repeats'']), (CHR ''t'', grammar_t),
      (CHR ''c'', grammar_c), (CHR ''b'', grammar_b), (CHR ''m'', [grammar_m]), (CHR ''a'', grammar_a)]"

definition rules_of :: "char \<Rightarrow> sdp_rule list" where
  "rules_of type = (case map_of sdp_grammar type of None \<Rightarrow> [] | Some rs \<Rightarrow> rs)"

end
