(* ===== verification/Sdp_Transform.thy ===== *)
theory Sdp_Transform
  imports Sdp_Grammar
begin

text \<open>
  The reader and the writer of \<open>sdp-transform\<close> (lines 28126-28337 of \<open>frontend/static/js/jssip-3.10.0.js\<close>) over the
  table of \<open>Sdp_Grammar\<close>.  A section, the session or one media description, is an object whose
  properties are values, objects of fields or lists of such objects.
\<close>

datatype sdp_prop = P_val sdp_val | P_obj sdp_fields | P_list "sdp_fields list"

type_synonym sdp_section = "sdp_prop js_object"

record description =
  ds_session :: sdp_section
  ds_media :: "sdp_section list"

section \<open>Reading\<close>

text \<open>\<open>toIntIfInt\<close>: a text that is how its number prints becomes the number.\<close>

definition toIntIfInt :: "string \<Rightarrow> sdp_val" where
  "toIntIfInt v = (if number_text (js_Number v) = v then V_num (js_Number v) else V_str v)"

fun attach_fields :: "captures \<Rightarrow> nat \<Rightarrow> string list \<Rightarrow> sdp_fields \<Rightarrow> sdp_fields" where
  "attach_fields c i [] ob = ob"
| "attach_fields c i (n # ns) ob =
     attach_fields c (Suc i) ns
       (case capture c (Suc i) of None \<Rightarrow> ob | Some v \<Rightarrow> obj_put n (toIntIfInt v) ob)"

fun fields_of :: "sdp_prop option \<Rightarrow> sdp_fields" where
  "fields_of (Some (P_obj ob)) = ob"
| "fields_of _ = []"

fun list_of :: "sdp_prop option \<Rightarrow> sdp_fields list" where
  "list_of (Some (P_list l)) = l"
| "list_of _ = []"

text \<open>
  \<open>parseReg\<close> on a line the rule's expression matches.  The last case is the line \<open>m\<close>, whose fields are
  properties of the section itself.
\<close>

definition parseReg :: "sdp_rule \<Rightarrow> captures \<Rightarrow> sdp_section \<Rightarrow> sdp_section" where
  "parseReg ru c loc =
     (case (ru_push ru, ru_name ru, ru_names ru) of
        (Some p, _, ns) \<Rightarrow>
          obj_put p (P_list (list_of (obj_get loc p) @ [attach_fields c 0 (cloneArray ns) []])) loc
      | (None, Some n, Some ns) \<Rightarrow> obj_put n (P_obj (attach_fields c 0 ns (fields_of (obj_get loc n)))) loc
      | (None, Some n, None) \<Rightarrow>
          (case capture c 1 of None \<Rightarrow> obj_del n loc | Some v \<Rightarrow> obj_put n (P_val (toIntIfInt v)) loc)
      | (None, None, ns) \<Rightarrow> fold (\<lambda>(k, v). obj_put k (P_val v)) (attach_fields c 0 (cloneArray ns) []) loc)"

text \<open>The loop over the rules of a line type: the first that matches.\<close>

fun first_rule :: "sdp_rule list \<Rightarrow> string \<Rightarrow> (sdp_rule \<times> captures) option" where
  "first_rule [] content = None"
| "first_rule (ru # rules) content =
     (case rx_match (ru_reg ru) content of Some c \<Rightarrow> Some (ru, c) | None \<Rightarrow> first_rule rules content)"

definition read_content :: "char \<Rightarrow> string \<Rightarrow> sdp_section \<Rightarrow> sdp_section" where
  "read_content type content loc =
     (case first_rule (rules_of type) content of None \<Rightarrow> loc | Some (ru, c) \<Rightarrow> parseReg ru c loc)"

text \<open>\<open>split(/(\r\n|\r|\n)/)\<close> without the separators, none of which is a valid line.\<close>

fun split_lines :: "string \<Rightarrow> string list" where
  "split_lines [] = [[]]"
| "split_lines (c # s) =
     (if no_break c then (case split_lines s of l # ls \<Rightarrow> (c # l) # ls | [] \<Rightarrow> [[c]])
      else if c = CHR 0x0D \<and> (case s of d # t \<Rightarrow> d = CHR 0x0A | [] \<Rightarrow> False) then [] # split_lines (tl s)
      else [] # split_lines s)"

text \<open>\<open>/^([a-z])=(.*)/\<close>.\<close>

definition validLine :: "string \<Rightarrow> bool" where
  "validLine l = (case l of t # e # rest \<Rightarrow> 97 \<le> char_code t \<and> char_code t \<le> 122 \<and> e = CHR ''='' | _ \<Rightarrow> False)"

text \<open>One line: \<open>location\<close> is the last media section, or the session before there is one.\<close>

definition read_line :: "string \<Rightarrow> description \<Rightarrow> description" where
  "read_line l d =
     (let type = hd l; content = drop 2 l;
          d = (if type = CHR ''m'' then d\<lparr>ds_media := ds_media d @ [[(''rtp'', P_list []), (''fmtp'', P_list [])]]\<rparr> else d)
      in if ds_media d = [] then d\<lparr>ds_session := read_content type content (ds_session d)\<rparr>
         else d\<lparr>ds_media := butlast (ds_media d) @ [read_content type content (last (ds_media d))]\<rparr>)"

definition empty_sdp :: description where
  "empty_sdp = \<lparr>ds_session = [], ds_media = []\<rparr>"

definition sdp_parse :: "string \<Rightarrow> description" where
  "sdp_parse text = fold read_line (filter validLine (split_lines text)) empty_sdp"

text \<open>
  \<open>parseSDP\<close> of incoming and outgoing messages: the description read before is kept unless \<open>force\<close>.
\<close>

definition parseSDP :: "bool \<Rightarrow> string option \<Rightarrow> description option \<Rightarrow> description \<times> description option" where
  "parseSDP force body cached =
     (case cached of
        Some d \<Rightarrow> if \<not> force then (d, cached) else (let d = sdp_parse (cloneArray body) in (d, Some d))
      | None \<Rightarrow> (let d = sdp_parse (cloneArray body) in (d, Some d)))"

section \<open>Writing\<close>

fun sdp_text :: "sdp_val option \<Rightarrow> string" where
  "sdp_text None = ''undefined''"
| "sdp_text (Some (V_num n)) = number_text n"
| "sdp_text (Some (V_str s)) = s"

fun sdp_number :: "sdp_val option \<Rightarrow> string" where
  "sdp_number None = ''NaN''"
| "sdp_number (Some (V_num n)) = number_text n"
| "sdp_number (Some (V_str s)) = number_text (js_Number s)"

text \<open>\<open>formatStr.replace(/%[sdv%]/g, ...)\<close>: every directive, also \<open>%%\<close>, takes the next argument; without one it stays.\<close>

fun sdp_format :: "string \<Rightarrow> sdp_val option list \<Rightarrow> string" where
  "sdp_format [] args = []"
| "sdp_format [c] args = [c]"
| "sdp_format (c # x # s) args =
     (if c = CHR ''%'' \<and> x \<in> set ''sdv%'' then
        (case args of
           [] \<Rightarrow> c # x # sdp_format s []
         | a # as \<Rightarrow>
             (if x = CHR ''%'' then ''%'' else if x = CHR ''s'' then sdp_text a else if x = CHR ''d'' then sdp_number a else [])
             @ sdp_format s as)
      else c # sdp_format (x # s) args)"

text \<open>A property that should hold a value.\<close>

fun value_of :: "sdp_prop option \<Rightarrow> sdp_val option" where
  "value_of (Some (P_val v)) = Some v"
| "value_of _ = None"

definition element_line :: "char \<Rightarrow> sdp_rule \<Rightarrow> sdp_fields \<Rightarrow> string" where
  "element_line type ru ob =
     sdp_format ([type] @ ''='' @ ru_format ru ob) (map (obj_get ob) (cloneArray (ru_names ru)))"

definition value_line :: "char \<Rightarrow> sdp_rule \<Rightarrow> sdp_val option \<Rightarrow> string" where
  "value_line type ru v = sdp_format ([type] @ ''='' @ ru_format ru []) [v]"

text \<open>\<open>makeLine\<close> for each line one rule writes of a section.\<close>

definition rule_lines :: "char \<Rightarrow> sdp_section \<Rightarrow> sdp_rule \<Rightarrow> string list" where
  "rule_lines type loc ru =
     (case (ru_name ru, ru_push ru) of
        (Some n, _) \<Rightarrow>
          (case obj_get loc n of
             None \<Rightarrow> []
           | Some p \<Rightarrow>
               (case ru_names ru of
                  None \<Rightarrow> [value_line type ru (value_of (Some p))]
                | Some ns \<Rightarrow> [element_line type ru (fields_of (Some p))]))
      | (None, Some p) \<Rightarrow> map (element_line type ru) (list_of (obj_get loc p))
      | (None, None) \<Rightarrow> [])"

definition m_line :: "sdp_section \<Rightarrow> string" where
  "m_line loc =
     sdp_format (''m='' @ ru_format grammar_m []) (map (\<lambda>n. value_of (obj_get loc n)) (cloneArray (ru_names grammar_m)))"

definition section_lines :: "string \<Rightarrow> sdp_section \<Rightarrow> string list" where
  "section_lines order loc = concat (map (\<lambda>type. concat (map (rule_lines type loc) (rules_of type))) order)"

definition defaultOuterOrder :: string where
  "defaultOuterOrder = ''vosiuepcbtrza''"

definition defaultInnerOrder :: string where
  "defaultInnerOrder = ''icba''"

definition default_prop :: "string \<Rightarrow> sdp_prop \<Rightarrow> sdp_section \<Rightarrow> sdp_section" where
  "default_prop k v loc = (if obj_has loc k then loc else obj_put k v loc)"

text \<open>The properties \<open>write\<close> adds to its argument, and the lines it writes.\<close>

definition sdp_defaults :: "description \<Rightarrow> description" where
  "sdp_defaults d =
     d\<lparr>ds_session := default_prop ''name'' (P_val (V_str '' '')) (default_prop ''version'' (P_val (V_num (Num 0))) (ds_session d)),
       ds_media := map (default_prop ''payloads'' (P_val (V_str []))) (ds_media d)\<rparr>"

definition sdp_lines :: "description \<Rightarrow> string list" where
  "sdp_lines d =
     section_lines defaultOuterOrder (ds_session d)
     @ concat (map (\<lambda>m. m_line m # section_lines defaultInnerOrder m) (ds_media d))"

definition sdp_crlf :: string where
  "sdp_crlf = [CHR 0x0D, CHR 0x0A]"

definition sdp_write :: "description \<Rightarrow> string" where
  "sdp_write d = js_join sdp_crlf (sdp_lines (sdp_defaults d)) @ sdp_crlf"

section \<open>Framing\<close>

definition one_line :: "string \<Rightarrow> bool" where
  "one_line l = list_all no_break l"

lemma split_one_line: "one_line l \<Longrightarrow> split_lines (l @ sdp_crlf @ s) = l # split_lines s"
proof (induction l)
  case Nil
  then show ?case by (simp add: sdp_crlf_def no_break_def char_code_def)
next
  case (Cons c l)
  then show ?case by (simp add: one_line_def)
qed

lemma split_joined:
  "ls \<noteq> [] \<Longrightarrow> list_all one_line ls \<Longrightarrow> split_lines (js_join sdp_crlf ls @ sdp_crlf) = ls @ [[]]"
proof (induction ls rule: induct_list012)
  case (2 l)
  then show ?case using split_one_line [of l "[]"] by simp
next
  case (3 l k ls)
  then show ?case using split_one_line [of l "js_join sdp_crlf (k # ls) @ sdp_crlf"] by simp
qed simp

section \<open>Which descriptions read back\<close>

definition same_place :: "sdp_rule \<Rightarrow> sdp_rule \<Rightarrow> bool" where
  "same_place r ru \<longleftrightarrow> ru_name r = ru_name ru \<and> ru_push r = ru_push ru \<and> ru_names r = ru_names ru"

definition captured :: "char \<Rightarrow> sdp_rule \<Rightarrow> string \<Rightarrow> captures option" where
  "captured type ru l =
     (case first_rule (rules_of type) (drop 2 l) of
        None \<Rightarrow> None
      | Some (r, c) \<Rightarrow> if same_place r ru then Some c else None)"

definition element_ok :: "char \<Rightarrow> sdp_rule \<Rightarrow> sdp_fields \<Rightarrow> bool" where
  "element_ok type ru ob \<longleftrightarrow>
     (let l = element_line type ru ob in
      one_line l
      \<and> (case captured type ru l of None \<Rightarrow> False | Some c \<Rightarrow> attach_fields c 0 (cloneArray (ru_names ru)) [] = ob))"

definition value_ok :: "char \<Rightarrow> sdp_rule \<Rightarrow> sdp_val \<Rightarrow> bool" where
  "value_ok type ru v \<longleftrightarrow>
     (let l = value_line type ru (Some v) in
      one_line l
      \<and> (case captured type ru l of
           None \<Rightarrow> False | Some c \<Rightarrow> (case capture c 1 of None \<Rightarrow> False | Some t \<Rightarrow> toIntIfInt t = v)))"

fun prop_ok :: "char \<Rightarrow> sdp_rule \<Rightarrow> sdp_prop \<Rightarrow> bool" where
  "prop_ok type ru (P_val v) = (ru_name ru \<noteq> None \<and> ru_names ru = None \<and> value_ok type ru v)"
| "prop_ok type ru (P_obj ob) = (ru_name ru \<noteq> None \<and> ru_names ru \<noteq> None \<and> element_ok type ru ob)"
| "prop_ok type ru (P_list l) = (ru_push ru \<noteq> None \<and> list_all (element_ok type ru) l)"

definition rule_key :: "sdp_rule \<Rightarrow> string" where
  "rule_key ru = (case ru_name ru of Some n \<Rightarrow> n | None \<Rightarrow> (case ru_push ru of Some p \<Rightarrow> p | None \<Rightarrow> []))"

text \<open>The shape of the table: a rule has a name or a list, and a list has fields.\<close>

definition rule_wf :: "sdp_rule \<Rightarrow> bool" where
  "rule_wf ru \<longleftrightarrow> (case ru_name ru of Some n \<Rightarrow> ru_push ru = None | None \<Rightarrow> ru_push ru \<noteq> None \<and> ru_names ru \<noteq> None)"

definition rules_in :: "string \<Rightarrow> (char \<times> sdp_rule) list" where
  "rules_in order = concat (map (\<lambda>type. map (Pair type) (rules_of type)) order)"

definition rule_ok :: "sdp_section \<Rightarrow> char \<times> sdp_rule \<Rightarrow> bool" where
  "rule_ok loc = (\<lambda>(type, ru). case obj_get loc (rule_key ru) of None \<Rightarrow> True | Some p \<Rightarrow> prop_ok type ru p)"

lemma section_lines_rules: "section_lines order loc = concat (map (\<lambda>(type, ru). rule_lines type loc ru) (rules_in order))"
  by (induction order) (simp_all add: section_lines_def rules_in_def comp_def)

subsection \<open>One rule\<close>

definition read_all :: "string list \<Rightarrow> sdp_section \<Rightarrow> sdp_section" where
  "read_all ls loc = fold (\<lambda>l. read_content (hd l) (drop 2 l)) ls loc"

lemma read_all_append: "read_all (ks @ ls) loc = read_all ls (read_all ks loc)"
  by (simp add: read_all_def)

lemma format_head: "t \<noteq> CHR ''%'' \<Longrightarrow> sdp_format (t # CHR ''='' # f) args = t # CHR ''='' # sdp_format f args"
  by (cases f) simp_all

lemma line_shape:
  assumes "type \<noteq> CHR ''%''"
  shows "element_line type ru ob = type # CHR ''='' # drop 2 (element_line type ru ob)"
    "value_line type ru v = type # CHR ''='' # drop 2 (value_line type ru v)"
  using format_head [OF assms] by (simp_all add: element_line_def value_line_def)

lemma captured_read:
  assumes "captured type ru l = Some c" "hd l = type"
  shows "\<exists>r. same_place r ru \<and> read_content (hd l) (drop 2 l) loc = parseReg r c loc"
  using assms by (auto simp: captured_def read_content_def split: option.splits if_splits)

lemma parseReg_place: "same_place r ru \<Longrightarrow> parseReg r c loc = parseReg ru c loc"
  by (simp add: same_place_def parseReg_def)

lemma element_read:
  assumes "element_ok type ru ob" "type \<noteq> CHR ''%''" "rule_wf ru"
  shows "ru_push ru = Some p \<Longrightarrow> read_content type (drop 2 (element_line type ru ob)) loc =
      obj_put p (P_list (list_of (obj_get loc p) @ [ob])) loc"
    "ru_name ru = Some n \<Longrightarrow> ru_names ru \<noteq> None \<Longrightarrow> obj_get loc n = None \<Longrightarrow>
      read_content type (drop 2 (element_line type ru ob)) loc = obj_put n (P_obj ob) loc"
proof -
  let ?l = "element_line type ru ob"
  have h: "hd ?l = type" using line_shape(1) [OF assms(2), of ru ob] by (metis list.sel(1))
  from assms(1) obtain c where c: "captured type ru ?l = Some c" and ob: "attach_fields c 0 (cloneArray (ru_names ru)) [] = ob"
    by (auto simp: element_ok_def Let_def split: option.splits)
  from captured_read [OF c h] parseReg_place h
  have rd: "read_content type (drop 2 ?l) loc = parseReg ru c loc" by metis
  show "ru_push ru = Some p \<Longrightarrow> read_content type (drop 2 ?l) loc = obj_put p (P_list (list_of (obj_get loc p) @ [ob])) loc"
    unfolding rd using ob by (auto simp: parseReg_def split: option.split)
  assume n: "ru_name ru = Some n" "ru_names ru \<noteq> None" "obj_get loc n = None"
  then obtain ns where "ru_names ru = Some ns" by blast
  with n ob assms(3) show "read_content type (drop 2 ?l) loc = obj_put n (P_obj ob) loc"
    unfolding rd by (simp add: parseReg_def rule_wf_def cloneArray_def)
qed

lemma value_read:
  assumes "value_ok type ru v" "type \<noteq> CHR ''%''" "rule_wf ru" "ru_name ru = Some n" "ru_names ru = None"
  shows "read_content type (drop 2 (value_line type ru (Some v))) loc = obj_put n (P_val v) loc"
proof -
  let ?l = "value_line type ru (Some v)"
  have h: "hd ?l = type" using line_shape(2) [OF assms(2), of ru "Some v"] by (metis list.sel(1))
  from assms(1) obtain c t where c: "captured type ru ?l = Some c" and t: "capture c 1 = Some t" "toIntIfInt t = v"
    by (auto simp: value_ok_def Let_def split: option.splits)
  from captured_read [OF c h] parseReg_place h
  have rd: "read_content type (drop 2 ?l) loc = parseReg ru c loc" by metis
  show ?thesis unfolding rd using assms(3-) t by (simp add: parseReg_def rule_wf_def)
qed

text \<open>The lines of one rule, read in order, rebuild its property.\<close>

definition unread :: "sdp_rule \<Rightarrow> sdp_prop option \<Rightarrow> bool" where
  "unread ru p \<longleftrightarrow> p = None \<or> (ru_push ru \<noteq> None \<and> p = Some (P_list []))"

lemma read_elements:
  assumes "list_all (element_ok type ru) l" "type \<noteq> CHR ''%''" "rule_wf ru" "ru_push ru = Some p" "l \<noteq> []"
  shows "obj_get (read_all (map (element_line type ru) l) loc) = (obj_get loc)(p \<mapsto> P_list (list_of (obj_get loc p) @ l))"
  using assms(5,1)
proof (induction l arbitrary: loc rule: list_nonempty_induct)
  case (single ob)
  have hd: "hd (element_line type ru ob) = type" using line_shape(1) [OF assms(2), of ru ob] by (metis list.sel(1))
  have "element_ok type ru ob" using single by simp
  from element_read(1) [OF this assms(2-4), of loc] show ?case by (simp add: read_all_def hd fun_eq_iff)
next
  case (cons ob l)
  have hd: "hd (element_line type ru ob) = type" using line_shape(1) [OF assms(2), of ru ob] by (metis list.sel(1))
  have "element_ok type ru ob" using cons.prems by simp
  from element_read(1) [OF this assms(2-4), of loc]
  have "read_all (map (element_line type ru) (ob # l)) loc =
      read_all (map (element_line type ru) l) (obj_put p (P_list (list_of (obj_get loc p) @ [ob])) loc)"
    by (simp add: read_all_def hd)
  with cons show ?case by (auto simp: fun_eq_iff)
qed

lemma rule_read:
  assumes ok: "rule_ok loc (type, ru)" and t: "type \<noteq> CHR ''%''" and wf: "rule_wf ru"
    and un: "unread ru (obj_get acc (rule_key ru))"
  shows "obj_get (read_all (rule_lines type loc ru) acc) =
    (if unread ru (obj_get loc (rule_key ru)) then obj_get acc
     else (obj_get acc)(rule_key ru := obj_get loc (rule_key ru)))"
proof (cases "ru_name ru")
  case None
  with wf obtain p ns where p: "ru_push ru = Some p" "ru_names ru = Some ns" by (auto simp: rule_wf_def)
  have key: "rule_key ru = p" using None p by (simp add: rule_key_def)
  show ?thesis
  proof (cases "obj_get loc p")
    case None
    with key p \<open>ru_name ru = None\<close> show ?thesis by (simp add: rule_lines_def unread_def read_all_def)
  next
    case (Some q)
    with ok key \<open>ru_name ru = None\<close> obtain l where l: "q = P_list l" "list_all (element_ok type ru) l"
      by (cases q) (auto simp: rule_ok_def)
    have acc: "list_of (obj_get acc p) = []" using un key by (auto simp: unread_def)
    show ?thesis
    proof (cases "l = []")
      case True
      with Some l key p \<open>ru_name ru = None\<close> show ?thesis by (simp add: rule_lines_def unread_def read_all_def)
    next
      case False
      from read_elements [OF l(2) t wf p(1) False, of acc] acc Some l key p \<open>ru_name ru = None\<close> False
      show ?thesis by (simp add: rule_lines_def unread_def fun_eq_iff)
    qed
  qed
next
  case (Some n)
  then have push: "ru_push ru = None" using wf by (simp add: rule_wf_def)
  have key: "rule_key ru = n" using Some by (simp add: rule_key_def)
  have acc: "obj_get acc n = None" using un key push by (simp add: unread_def)
  show ?thesis
  proof (cases "obj_get loc n")
    case None
    with Some key push show ?thesis by (simp add: rule_lines_def unread_def read_all_def)
  next
    case (Some q)
    with ok key have q: "prop_ok type ru q" by (simp add: rule_ok_def)
    show ?thesis
    proof (cases q)
      case (P_val v)
      with q have v: "ru_names ru = None" "value_ok type ru v" by simp_all
      have "hd (value_line type ru (Some v)) = type" using line_shape(2) [OF t, of ru "Some v"] by (metis list.sel(1))
      with value_read [OF v(2) t wf \<open>ru_name ru = Some n\<close> v(1), of acc] v P_val Some key push \<open>ru_name ru = Some n\<close>
      show ?thesis by (auto simp: rule_lines_def unread_def read_all_def fun_eq_iff)
    next
      case (P_obj ob)
      with q obtain ns where ns: "ru_names ru = Some ns" "element_ok type ru ob" by auto
      have "hd (element_line type ru ob) = type" using line_shape(1) [OF t, of ru ob] by (metis list.sel(1))
      with element_read(2) [OF ns(2) t wf \<open>ru_name ru = Some n\<close> _ acc] ns P_obj Some key push \<open>ru_name ru = Some n\<close>
      show ?thesis by (auto simp: rule_lines_def unread_def read_all_def fun_eq_iff)
    next
      case (P_list l)
      with q push show ?thesis by simp
    qed
  qed
qed

subsection \<open>All rules of a section\<close>

definition written :: "sdp_prop option \<Rightarrow> bool" where
  "written p \<longleftrightarrow> p \<noteq> None \<and> p \<noteq> Some (P_list [])"

lemma unread_written: "rule_ok loc (type, ru) \<Longrightarrow> unread ru (obj_get loc (rule_key ru)) \<longleftrightarrow> \<not> written (obj_get loc (rule_key ru))"
  by (auto simp: rule_ok_def unread_def written_def)

lemma rules_read:
  assumes "list_all (rule_ok loc) rs" "list_all (\<lambda>(t, ru). t \<noteq> CHR ''%'' \<and> rule_wf ru) rs"
    "distinct (map (rule_key \<circ> snd) rs)" "list_all (\<lambda>(t, ru). unread ru (obj_get acc (rule_key ru))) rs"
  shows "obj_get (read_all (concat (map (\<lambda>(t, ru). rule_lines t loc ru) rs)) acc) k =
    (if k \<in> (rule_key \<circ> snd) ` set rs \<and> written (obj_get loc k) then obj_get loc k else obj_get acc k)"
  using assms
proof (induction rs arbitrary: acc)
  case Nil
  then show ?case by (simp add: read_all_def)
next
  case (Cons x rs)
  obtain t ru where x: "x = (t, ru)" by (cases x)
  let ?acc = "read_all (rule_lines t loc ru) acc"
  have one: "obj_get ?acc = (if unread ru (obj_get loc (rule_key ru)) then obj_get acc
     else (obj_get acc)(rule_key ru := obj_get loc (rule_key ru)))"
    using Cons.prems by (intro rule_read) (simp_all add: x)
  have un: "unread ru (obj_get loc (rule_key ru)) \<longleftrightarrow> \<not> written (obj_get loc (rule_key ru))"
    using Cons.prems(1) by (intro unread_written [of loc t]) (simp add: x)
  have other: "obj_get ?acc j = obj_get acc j" if "j \<noteq> rule_key ru" for j using that by (simp add: one)
  have "rule_key ru \<notin> (rule_key \<circ> snd) ` set rs" using Cons.prems(3) by (simp add: x)
  then have "list_all (\<lambda>(t, ru). unread ru (obj_get ?acc (rule_key ru))) rs"
    using Cons.prems(4) other by (auto simp: list_all_iff x) (metis (no_types, lifting) case_prodD imageI comp_apply snd_conv)
  from Cons.IH [OF _ _ _ this] Cons.prems
  have "obj_get (read_all (concat (map (\<lambda>(t, ru). rule_lines t loc ru) rs)) ?acc) k =
    (if k \<in> (rule_key \<circ> snd) ` set rs \<and> written (obj_get loc k) then obj_get loc k else obj_get ?acc k)" by simp
  with \<open>rule_key ru \<notin> (rule_key \<circ> snd) ` set rs\<close> un show ?case
    by (auto simp: x read_all_append one)
qed

section \<open>Facts of the table\<close>

definition keys_of :: "string \<Rightarrow> string list" where
  "keys_of order = map (rule_key \<circ> snd) (rules_in order)"

lemmas table_defs = grammar_v_def grammar_o_def grammar_t_def grammar_c_def grammar_b_def grammar_a_def
  grammar_a_codecs_def grammar_a_media_def grammar_a_ice_def grammar_a_layers_def grammar_a_misc_def grammar_a_invalid_def
  direction_rule_def value_rule_def object_rule_def push_rule_def plain_rule_def

lemma rules_of_simps:
  "rules_of CHR ''v'' = grammar_v" "rules_of CHR ''o'' = grammar_o" "rules_of CHR ''s'' = [plain_rule ''name'']"
  "rules_of CHR ''i'' = [plain_rule ''description'']" "rules_of CHR ''u'' = [plain_rule ''uri'']"
  "rules_of CHR ''e'' = [plain_rule ''email'']" "rules_of CHR ''p'' = [plain_rule ''phone'']"
  "rules_of CHR ''z'' = [plain_rule ''timezones'']" "rules_of CHR ''r'' = [plain_rule ''repeats'']"
  "rules_of CHR ''t'' = grammar_t" "rules_of CHR ''c'' = grammar_c" "rules_of CHR ''b'' = grammar_b"
  "rules_of CHR ''m'' = [grammar_m]" "rules_of CHR ''a'' = grammar_a"
  by (simp_all add: rules_of_def sdp_grammar_def)

lemma keys_a: "map rule_key grammar_a =
  [''rtp'', ''fmtp'', ''control'', ''rtcp'', ''rtcpFbTrrInt'', ''rtcpFb'', ''ext'', ''extmapAllowMixed'', ''crypto'', ''setup'',
   ''connectionType'', ''mid'', ''msid'', ''ptime'', ''maxptime'', ''direction'', ''icelite'', ''iceUfrag'', ''icePwd'',
   ''fingerprint'', ''candidates'', ''endOfCandidates'', ''remoteCandidates'', ''iceOptions'', ''ssrcs'', ''ssrcGroups'',
   ''msidSemantic'', ''groups'', ''rtcpMux'', ''rtcpRsize'', ''sctpmap'', ''xGoogleFlag'', ''rids'', ''imageattrs'',
   ''simulcast'', ''simulcast_03'', ''framerate'', ''sourceFilter'', ''bundleOnly'', ''label'', ''sctpPort'',
   ''maxMessageSize'', ''tsRefClocks'', ''mediaClk'', ''keywords'', ''content'', ''bfcpFloorCtrl'', ''bfcpConfId'',
   ''bfcpUserId'', ''bfcpFloorId'', ''invalid'']"
  by (simp add: table_defs rule_key_def)

lemma keys_outer: "keys_of defaultOuterOrder =
  [''version'', ''origin'', ''name'', ''description'', ''uri'', ''email'', ''phone'', ''connection'', ''bandwidth'', ''timing'',
   ''repeats'', ''timezones''] @ map rule_key grammar_a"
  by (simp add: keys_of_def rules_in_def defaultOuterOrder_def rules_of_simps comp_def)
    (simp add: table_defs rule_key_def)

lemma keys_inner: "keys_of defaultInnerOrder = [''description'', ''connection'', ''bandwidth''] @ map rule_key grammar_a"
  by (simp add: keys_of_def rules_in_def defaultInnerOrder_def rules_of_simps comp_def)
    (simp add: table_defs rule_key_def)

lemma keys_distinct: "distinct (keys_of defaultOuterOrder)" "distinct (keys_of defaultInnerOrder)"
  unfolding keys_outer keys_inner keys_a by simp_all

lemma table_wf_a: "list_all rule_wf grammar_a"
  by (simp add: table_defs rule_wf_def)

lemma rules_in_wf: "list_all (\<lambda>(t, ru). t \<noteq> CHR ''%'' \<and> rule_wf ru) (rules_in defaultOuterOrder)"
    "list_all (\<lambda>(t, ru). t \<noteq> CHR ''%'' \<and> rule_wf ru) (rules_in defaultInnerOrder)"
proof -
  have a: "list_all (\<lambda>(t, ru). t \<noteq> CHR ''%'' \<and> rule_wf ru) (map (Pair CHR ''a'') grammar_a)"
    using table_wf_a by (simp add: list.pred_map comp_def)
  show "list_all (\<lambda>(t, ru). t \<noteq> CHR ''%'' \<and> rule_wf ru) (rules_in defaultOuterOrder)"
    "list_all (\<lambda>(t, ru). t \<noteq> CHR ''%'' \<and> rule_wf ru) (rules_in defaultInnerOrder)"
    using a by (simp_all add: rules_in_def defaultOuterOrder_def defaultInnerOrder_def rules_of_simps grammar_v_def
        grammar_o_def grammar_t_def grammar_c_def grammar_b_def value_rule_def object_rule_def push_rule_def plain_rule_def
        rule_wf_def)
qed

section \<open>The round trip\<close>

definition m_names :: "string list" where
  "m_names = [''type'', ''port'', ''protocol'', ''payloads'']"

definition m_fields :: "sdp_section \<Rightarrow> sdp_fields" where
  "m_fields loc = concat (map (\<lambda>n. case value_of (obj_get loc n) of None \<Rightarrow> [] | Some v \<Rightarrow> [(n, v)]) m_names)"

definition m_ok :: "sdp_section \<Rightarrow> bool" where
  "m_ok loc \<longleftrightarrow>
     (let l = m_line loc in
      one_line l
      \<and> (case rx_match (ru_reg grammar_m) (drop 2 l) of
           None \<Rightarrow> False | Some c \<Rightarrow> attach_fields c 0 m_names [] = m_fields loc)
      \<and> list_all (\<lambda>n. obj_get loc n = map_option P_val (value_of (obj_get loc n))) m_names)"

text \<open>
  A section in the form the reader builds: only properties of the table, no empty list but those every media section has,
  and each line read back by the rule that wrote it.
\<close>

definition canonical_session :: "sdp_section \<Rightarrow> bool" where
  "canonical_session loc \<longleftrightarrow>
     list_all (rule_ok loc) (rules_in defaultOuterOrder)
     \<and> list_all (\<lambda>(k, p). k \<in> set (keys_of defaultOuterOrder) \<and> p \<noteq> P_list []) loc
     \<and> obj_has loc ''version'' \<and> obj_has loc ''name''"

definition canonical_media :: "sdp_section \<Rightarrow> bool" where
  "canonical_media loc \<longleftrightarrow>
     m_ok loc \<and> list_all (rule_ok loc) (rules_in defaultInnerOrder)
     \<and> list_all (\<lambda>(k, p). k \<in> set m_names
          \<or> k \<in> set (keys_of defaultInnerOrder) \<and> (p \<noteq> P_list [] \<or> k = ''rtp'' \<or> k = ''fmtp'')) loc
     \<and> obj_has loc ''rtp'' \<and> obj_has loc ''fmtp'' \<and> obj_has loc ''payloads''"

definition canonical_sdp :: "description \<Rightarrow> bool" where
  "canonical_sdp d \<longleftrightarrow> canonical_session (ds_session d) \<and> list_all canonical_media (ds_media d)"

text \<open>The same description: the same properties, whatever their order.\<close>

definition same_sdp :: "description \<Rightarrow> description \<Rightarrow> bool" where
  "same_sdp a b \<longleftrightarrow>
     obj_get (ds_session a) = obj_get (ds_session b)
     \<and> list_all2 (\<lambda>x y. obj_get x = obj_get y) (ds_media a) (ds_media b)"

lemma defaults_same: "canonical_sdp d \<Longrightarrow> sdp_defaults d = d"
proof -
  assume c: "canonical_sdp d"
  then have "map (default_prop ''payloads'' (P_val (V_str []))) (ds_media d) = ds_media d"
    by (intro map_idI) (auto simp: canonical_sdp_def canonical_media_def default_prop_def list_all_iff)
  with c show ?thesis
    by (simp add: sdp_defaults_def default_prop_def canonical_sdp_def canonical_session_def)
qed

subsection \<open>The lines of a section\<close>

definition line_of :: "char \<Rightarrow> string \<Rightarrow> bool" where
  "line_of t l \<longleftrightarrow> one_line l \<and> (\<exists>content. l = t # CHR ''='' # content)"

lemma rule_lines_lines:
  assumes "rule_ok loc (t, ru)" "t \<noteq> CHR ''%''" "rule_wf ru" "l \<in> set (rule_lines t loc ru)"
  shows "line_of t l"
proof -
  note shape = line_shape [OF assms(2)]
  have el: "element_ok t ru ob \<Longrightarrow> line_of t (element_line t ru ob)" for ob
    using shape(1) [of ru ob] unfolding line_of_def element_ok_def Let_def by blast
  have vl: "value_ok t ru v \<Longrightarrow> line_of t (value_line t ru (Some v))" for v
    using shape(2) [of ru "Some v"] unfolding line_of_def value_ok_def Let_def by blast
  show ?thesis
  proof (cases "ru_name ru")
    case None
    with assms obtain p where p: "ru_push ru = Some p" by (auto simp: rule_wf_def)
    with None assms(4) obtain ob where l: "l = element_line t ru ob" "ob \<in> set (list_of (obj_get loc p))"
      by (auto simp: rule_lines_def)
    then obtain xs where "obj_get loc p = Some (P_list xs)" "ob \<in> set xs"
      by (cases "(obj_get loc p)" rule: list_of.cases) auto
    with assms(1) None p el l show ?thesis by (auto simp: rule_ok_def rule_key_def list_all_iff)
  next
    case (Some n)
    with assms(4) obtain q where q: "obj_get loc n = Some q" by (cases "obj_get loc n") (auto simp: rule_lines_def)
    with assms(1) Some have ok: "prop_ok t ru q" by (simp add: rule_ok_def rule_key_def)
    have "ru_push ru = None" using assms(3) Some by (simp add: rule_wf_def)
    with ok q Some assms(4) el vl show ?thesis
      by (cases q) (auto simp: rule_lines_def)
  qed
qed

lemma section_lines_lines:
  assumes "list_all (rule_ok loc) (rules_in order)"
    "list_all (\<lambda>(t, ru). t \<noteq> CHR ''%'' \<and> rule_wf ru) (rules_in order)" "l \<in> set (section_lines order loc)"
  shows "\<exists>t\<in>set order. line_of t l"
proof -
  from assms(3) obtain t ru where "(t, ru) \<in> set (rules_in order)" "l \<in> set (rule_lines t loc ru)"
    by (auto simp: section_lines_rules)
  moreover from this have "t \<in> set order" by (auto simp: rules_in_def)
  ultimately show ?thesis using rule_lines_lines assms(1,2) by (fastforce simp: list_all_iff)
qed

lemma line_of_valid: "line_of t l \<Longrightarrow> 97 \<le> char_code t \<Longrightarrow> char_code t \<le> 122 \<Longrightarrow> validLine l \<and> one_line l \<and> hd l = t"
  by (auto simp: line_of_def validLine_def)

lemma order_chars:
  "t \<in> set defaultOuterOrder \<Longrightarrow> 97 \<le> char_code t \<and> char_code t \<le> 122 \<and> t \<noteq> CHR ''m''"
  "t \<in> set defaultInnerOrder \<Longrightarrow> 97 \<le> char_code t \<and> char_code t \<le> 122 \<and> t \<noteq> CHR ''m''"
  by (auto simp: defaultOuterOrder_def defaultInnerOrder_def char_code_def)

lemma outer_lines:
  "canonical_session loc \<Longrightarrow> l \<in> set (section_lines defaultOuterOrder loc) \<Longrightarrow>
     validLine l \<and> one_line l \<and> hd l \<noteq> CHR ''m''"
  using section_lines_lines [OF _ rules_in_wf(1)] order_chars(1) line_of_valid unfolding canonical_session_def by metis

lemma inner_lines:
  "canonical_media loc \<Longrightarrow> l \<in> set (section_lines defaultInnerOrder loc) \<Longrightarrow>
     validLine l \<and> one_line l \<and> hd l \<noteq> CHR ''m''"
  using section_lines_lines [OF _ rules_in_wf(2)] order_chars(2) line_of_valid unfolding canonical_media_def by metis

lemma m_line_shape: "m_line loc = CHR ''m'' # CHR ''='' # drop 2 (m_line loc)"
  by (simp add: m_line_def grammar_m_def)

lemma m_line_valid: "validLine (m_line loc) \<and> hd (m_line loc) = CHR ''m''"
  using m_line_shape [of loc] by (auto simp: validLine_def char_code_def split: list.split)

subsection \<open>Reading a section back\<close>

lemma session_read:
  assumes "canonical_session loc"
  shows "obj_get (read_all (section_lines defaultOuterOrder loc) []) = obj_get loc"
proof
  fix k
  have ok: "list_all (rule_ok loc) (rules_in defaultOuterOrder)" using assms by (simp add: canonical_session_def)
  have "list_all (\<lambda>(t, ru). unread ru (obj_get [] (rule_key ru))) (rules_in defaultOuterOrder)"
    by (auto simp: list_all_iff unread_def)
  from rules_read [OF ok rules_in_wf(1) _ this, of k] keys_distinct(1)
  have r: "obj_get (read_all (section_lines defaultOuterOrder loc) []) k =
      (if k \<in> set (keys_of defaultOuterOrder) \<and> written (obj_get loc k) then obj_get loc k else None)"
    by (simp add: keys_of_def section_lines_rules)
  show "obj_get (read_all (section_lines defaultOuterOrder loc) []) k = obj_get loc k"
  proof (cases "obj_get loc k")
    case None
    then show ?thesis by (simp add: r)
  next
    case (Some p)
    then have "(k, p) \<in> set loc" by (rule map_of_SomeD)
    with assms Some show ?thesis by (auto simp: r canonical_session_def list_all_iff written_def)
  qed
qed

definition blank_media :: sdp_section where
  "blank_media = [(''rtp'', P_list []), (''fmtp'', P_list [])]"

lemma fold_put_values:
  "distinct (map fst fs) \<Longrightarrow> obj_get (fold (\<lambda>(k, v). obj_put k (P_val v)) fs loc) k =
     (case map_of fs k of None \<Rightarrow> obj_get loc k | Some v \<Rightarrow> Some (P_val v))"
proof (induction fs arbitrary: loc)
  case (Cons x fs)
  obtain j v where x: "x = (j, v)" by (cases x)
  have "map_of fs j = None" using Cons.prems by (simp add: x map_of_eq_None_iff)
  with Cons show ?case by (cases "map_of fs k") (auto simp: x simp del: map_of_eq_None_iff)
qed simp

lemma m_fields_lookup: "map_of (m_fields loc) k = (if k \<in> set m_names then value_of (obj_get loc k) else None)"
    "distinct (map fst (m_fields loc))"
  by (auto simp: m_fields_def m_names_def split: option.split)

lemma m_read:
  assumes "m_ok loc"
  shows "obj_get (read_content CHR ''m'' (drop 2 (m_line loc)) blank_media) k =
    (if k \<in> set m_names \<and> obj_has loc k then obj_get loc k else obj_get blank_media k)"
proof -
  from assms obtain c where c: "rx_match (ru_reg grammar_m) (drop 2 (m_line loc)) = Some c"
      "attach_fields c 0 m_names [] = m_fields loc"
    and v: "list_all (\<lambda>n. obj_get loc n = map_option P_val (value_of (obj_get loc n))) m_names"
    by (auto simp: m_ok_def Let_def split: option.splits)
  have "read_content CHR ''m'' (drop 2 (m_line loc)) blank_media = fold (\<lambda>(k, v). obj_put k (P_val v)) (m_fields loc) blank_media"
    using c by (simp add: read_content_def rules_of_simps parseReg_def) (simp add: grammar_m_def cloneArray_def m_names_def)
  then have "obj_get (read_content CHR ''m'' (drop 2 (m_line loc)) blank_media) k =
      (case map_of (m_fields loc) k of None \<Rightarrow> obj_get blank_media k | Some v \<Rightarrow> Some (P_val v))"
    using fold_put_values [OF m_fields_lookup(2)] by simp
  moreover have "obj_get loc k = map_option P_val (value_of (obj_get loc k))" if "k \<in> set m_names"
    using v that by (simp add: list_all_iff)
  ultimately show ?thesis
    by (cases "value_of (obj_get loc k)") (auto simp: m_fields_lookup(1) obj_has_def)
qed

lemma m_names_apart: "k \<in> set m_names \<Longrightarrow> k \<notin> set (keys_of defaultInnerOrder)"
  unfolding keys_inner keys_a by (auto simp: m_names_def)

lemma list_rules: "(t, ru) \<in> set (rules_in defaultInnerOrder) \<Longrightarrow> rule_key ru = ''rtp'' \<or> rule_key ru = ''fmtp'' \<Longrightarrow> ru_push ru \<noteq> None"
proof -
  have "list_all (\<lambda>(t, ru). rule_key ru = ''rtp'' \<or> rule_key ru = ''fmtp'' \<longrightarrow> ru_push ru \<noteq> None) (rules_in defaultInnerOrder)"
    by (simp add: rules_in_def defaultInnerOrder_def rules_of_simps list.pred_map comp_def)
      (simp add: table_defs rule_key_def)
  then show "(t, ru) \<in> set (rules_in defaultInnerOrder) \<Longrightarrow> rule_key ru = ''rtp'' \<or> rule_key ru = ''fmtp'' \<Longrightarrow> ?thesis"
    by (auto simp: list_all_iff)
qed

lemma media_read:
  assumes "canonical_media loc"
  shows "obj_get (read_all (section_lines defaultInnerOrder loc)
      (read_content CHR ''m'' (drop 2 (m_line loc)) blank_media)) = obj_get loc"
proof
  fix k
  let ?acc = "read_content CHR ''m'' (drop 2 (m_line loc)) blank_media"
  have ok: "list_all (rule_ok loc) (rules_in defaultInnerOrder)" and m: "m_ok loc"
    using assms by (simp_all add: canonical_media_def)
  note acc = m_read [OF m]
  have start: "obj_get ?acc (rule_key ru) = obj_get blank_media (rule_key ru)"
    if "(t, ru) \<in> set (rules_in defaultInnerOrder)" for t ru
  proof -
    have "rule_key ru \<in> set (keys_of defaultInnerOrder)" using that by (force simp: keys_of_def)
    then have "rule_key ru \<notin> set m_names" using m_names_apart by blast
    then show ?thesis by (simp add: acc)
  qed
  have "unread ru (obj_get ?acc (rule_key ru))" if "(t, ru) \<in> set (rules_in defaultInnerOrder)" for t ru
    using start [OF that] list_rules [OF that]
    by (cases "rule_key ru = ''rtp''"; cases "rule_key ru = ''fmtp''") (simp_all add: unread_def blank_media_def)
  then have "list_all (\<lambda>(t, ru). unread ru (obj_get ?acc (rule_key ru))) (rules_in defaultInnerOrder)"
    by (auto simp: list_all_iff)
  from rules_read [OF ok rules_in_wf(2) _ this, of k] keys_distinct(2)
  have r: "obj_get (read_all (section_lines defaultInnerOrder loc) ?acc) k =
      (if k \<in> set (keys_of defaultInnerOrder) \<and> written (obj_get loc k) then obj_get loc k else obj_get ?acc k)"
    by (simp add: keys_of_def section_lines_rules)
  have lists: "obj_has loc ''rtp''" "obj_has loc ''fmtp''" using assms by (simp_all add: canonical_media_def)
  show "obj_get (read_all (section_lines defaultInnerOrder loc) ?acc) k = obj_get loc k"
  proof (cases "obj_get loc k")
    case None
    then have "k \<noteq> ''rtp''" "k \<noteq> ''fmtp''" using lists by (auto simp: obj_has_def)
    then have "obj_get blank_media k = None" by (simp add: blank_media_def)
    with None show ?thesis by (simp add: r written_def acc obj_has_def)
  next
    case (Some p)
    then have "(k, p) \<in> set loc" by (rule map_of_SomeD)
    then consider "k \<in> set m_names" | "k \<in> set (keys_of defaultInnerOrder)" "p \<noteq> P_list []"
      | "k \<in> set (keys_of defaultInnerOrder)" "p = P_list []" "k = ''rtp'' \<or> k = ''fmtp''"
      using assms by (fastforce simp: canonical_media_def list_all_iff)
    then show ?thesis
    proof cases
      case 1
      with m_names_apart Some show ?thesis by (simp add: r acc obj_has_def)
    next
      case 2
      with Some show ?thesis by (simp add: r written_def)
    next
      case 3
      with m_names_apart have "k \<notin> set m_names" by blast
      moreover have "obj_get blank_media k = Some (P_list [])" using 3 by (auto simp: blank_media_def)
      ultimately show ?thesis using 3 Some by (simp add: r written_def acc)
    qed
  qed
qed

subsection \<open>Reading the whole\<close>

lemma read_session_lines:
  "\<forall>l\<in>set ls. hd l \<noteq> CHR ''m'' \<Longrightarrow> fold read_line ls \<lparr>ds_session = s, ds_media = []\<rparr> =
     \<lparr>ds_session = read_all ls s, ds_media = []\<rparr>"
  by (induction ls arbitrary: s) (simp_all add: read_all_def read_line_def Let_def)

lemma read_media_lines:
  "\<forall>l\<in>set ls. hd l \<noteq> CHR ''m'' \<Longrightarrow> fold read_line ls \<lparr>ds_session = s, ds_media = ms @ [m]\<rparr> =
     \<lparr>ds_session = s, ds_media = ms @ [read_all ls m]\<rparr>"
  by (induction ls arbitrary: m) (simp_all add: read_all_def read_line_def Let_def)

lemma read_m_line:
  "read_line (m_line loc) \<lparr>ds_session = s, ds_media = ms\<rparr> =
     \<lparr>ds_session = s, ds_media = ms @ [read_content CHR ''m'' (drop 2 (m_line loc)) blank_media]\<rparr>"
  using m_line_valid [of loc] by (simp add: read_line_def Let_def blank_media_def)

lemma read_media_sections:
  "list_all canonical_media ms \<Longrightarrow>
     fold read_line (concat (map (\<lambda>m. m_line m # section_lines defaultInnerOrder m) ms)) \<lparr>ds_session = s, ds_media = done\<rparr> =
       \<lparr>ds_session = s, ds_media = done @ map (\<lambda>m. read_all (section_lines defaultInnerOrder m)
          (read_content CHR ''m'' (drop 2 (m_line m)) blank_media)) ms\<rparr>"
proof (induction ms arbitrary: "done")
  case (Cons m ms)
  then show ?case using inner_lines [of m] by (simp add: read_m_line read_media_lines)
qed simp

lemma canonical_lines:
  assumes "canonical_sdp d"
  shows "sdp_lines d \<noteq> []" "list_all one_line (sdp_lines d)" "list_all validLine (sdp_lines d)"
proof -
  have ses: "canonical_session (ds_session d)" and med: "\<forall>m\<in>set (ds_media d). canonical_media m"
    using assms by (auto simp: canonical_sdp_def list_all_iff)
  have m: "one_line (m_line m)" if "canonical_media m" for m
    using that by (simp add: canonical_media_def m_ok_def Let_def)
  show "list_all one_line (sdp_lines d)" "list_all validLine (sdp_lines d)"
    using outer_lines [OF ses] inner_lines med m m_line_valid by (auto simp: sdp_lines_def list_all_iff)
  have "obj_get (ds_session d) ''version'' \<noteq> None" using ses by (simp add: canonical_session_def obj_has_def)
  then have "section_lines defaultOuterOrder (ds_session d) \<noteq> []"
    using session_read [OF ses] by (auto simp: read_all_def fun_eq_iff)
  then show "sdp_lines d \<noteq> []" by (simp add: sdp_lines_def)
qed

section \<open>Properties\<close>


section \<open>Lines that always read back\<close>

lemma toIntIfInt_text: "sdp_text (Some (toIntIfInt v)) = v"
  by (simp add: toIntIfInt_def)

lemma rx_rest: "list_all P s \<Longrightarrow> \<exists>l. rx (R_star (R_set P)) s c = ([], c) # l"
  using rx_star_first [of P s c] by (simp add: list_all_iff dropWhile_eq_Nil_conv [THEN iffD2])

lemma default_match: "one_line s \<Longrightarrow> rx_match default_reg s = Some [(1, s)]"
  using rx_rest [of no_break s "[]"] by (auto simp: rx_match_def default_reg_def one_line_def)

lemma first_rule_append:
  "first_rule (rs @ qs) content = (case first_rule rs content of None \<Rightarrow> first_rule qs content | found \<Rightarrow> found)"
  by (induction rs) (auto split: option.split)

text \<open>An attribute no rule knows is kept, and written back character by character.\<close>

lemma unknown_attribute_kept:
  assumes "one_line content" "first_rule (butlast grammar_a) content = None"
  shows "read_content CHR ''a'' content loc =
      obj_put ''invalid'' (P_list (list_of (obj_get loc ''invalid'') @ [[(''value'', toIntIfInt content)]])) loc"
    and "element_line CHR ''a'' grammar_a_invalid [(''value'', toIntIfInt content)] = ''a='' @ content"
proof -
  have "grammar_a = butlast grammar_a @ [grammar_a_invalid]" by (simp add: grammar_a_def butlast_append)
  then have "first_rule grammar_a content = first_rule [grammar_a_invalid] content"
    using assms(2) first_rule_append by (metis option.case(1))
  also have "\<dots> = Some (grammar_a_invalid, [(1, content)])"
    using default_match [OF assms(1)] by (simp add: grammar_a_invalid_def push_rule_def)
  finally show "read_content CHR ''a'' content loc =
      obj_put ''invalid'' (P_list (list_of (obj_get loc ''invalid'') @ [[(''value'', toIntIfInt content)]])) loc"
    by (simp add: read_content_def rules_of_simps parseReg_def grammar_a_invalid_def push_rule_def cloneArray_def capture_def
        obj_put_def)
  show "element_line CHR ''a'' grammar_a_invalid [(''value'', toIntIfInt content)] = ''a='' @ content"
    using toIntIfInt_text [of content]
    by (simp add: element_line_def grammar_a_invalid_def push_rule_def cloneArray_def)
qed

text \<open>What is not written back: a wildcard payload, and a candidate with a cost and without a generation.\<close>

lemma wildcard_written_as_NaN:
  assumes "n < 10 ^ 21"
  shows "\<exists>ru\<in>set grammar_a. ru_push ru = Some ''rtcpFbTrrInt''
     \<and> element_line CHR ''a'' ru [(''payload'', V_str ''*''), (''value'', V_num (Num (real n)))]
         = ''a=rtcp-fb:NaN trr-int '' @ num_str n"
proof -
  have "number_text (js_Number ''*'') = ''NaN''" by code_simp
  then show ?thesis using number_text_nat [OF assms]
    by (intro bexI [of _ "grammar_a_codecs ! 4"])
      (simp_all add: grammar_a_codecs_def grammar_a_def push_rule_def element_line_def cloneArray_def)
qed

text \<open>The four directions are read back as they are written.\<close>

definition directions :: "string list" where
  "directions = [''sendrecv'', ''recvonly'', ''sendonly'', ''inactive'']"

lemma directions_kept: "list_all (\<lambda>d. toIntIfInt d = V_str d) directions"
  by code_simp

lemma direction_captured:
  assumes "d \<in> set directions"
  shows "captured CHR ''a'' direction_rule (''a='' @ d) = Some [(1, d)]"
proof -
  have "captured CHR ''a'' direction_rule ''a=sendrecv'' = Some [(1, ''sendrecv'')]"
    "captured CHR ''a'' direction_rule ''a=recvonly'' = Some [(1, ''recvonly'')]"
    "captured CHR ''a'' direction_rule ''a=sendonly'' = Some [(1, ''sendonly'')]"
    "captured CHR ''a'' direction_rule ''a=inactive'' = Some [(1, ''inactive'')]"
    by (simp_all add: captured_def rules_of_simps table_defs rx_match_def same_place_def)
  moreover have "d = ''sendrecv'' \<or> d = ''recvonly'' \<or> d = ''sendonly'' \<or> d = ''inactive''"
    using assms by (simp only: directions_def list.set insert_iff empty_iff simp_thms)
  ultimately show ?thesis by (elim disjE) simp_all
qed

lemma direction_ok:
  assumes "d \<in> set directions"
  shows "prop_ok CHR ''a'' direction_rule (P_val (V_str d))"
proof -
  have l: "value_line CHR ''a'' direction_rule (Some (V_str d)) = ''a='' @ d"
    by (simp add: value_line_def direction_rule_def value_rule_def)
  have one: "one_line (''a='' @ d)" using assms by (auto simp: directions_def one_line_def no_break_def char_code_def)
  have k: "toIntIfInt d = V_str d" using assms directions_kept by (simp add: list_all_iff)
  have r: "ru_name direction_rule \<noteq> None" "ru_names direction_rule = None" by (simp_all add: direction_rule_def value_rule_def)
  show ?thesis using direction_captured [OF assms] one k r by (simp add: value_ok_def Let_def l capture_def)
qed

lemma direction_in_table: "(CHR ''a'', direction_rule) \<in> set (rules_in defaultInnerOrder)" "rule_key direction_rule = ''direction''"
  by (simp_all add: rules_in_def defaultInnerOrder_def rules_of_simps grammar_a_def grammar_a_media_def)
    (simp add: direction_rule_def value_rule_def rule_key_def)

lemma direction_only:
  assumes "(t, ru) \<in> set (rules_in defaultInnerOrder)" "rule_key ru = ''direction''"
  shows "t = CHR ''a'' \<and> ru = direction_rule"
proof -
  have "inj_on (rule_key \<circ> snd) (set (rules_in defaultInnerOrder))"
    using keys_distinct(2) by (simp add: keys_of_def distinct_map)
  from inj_onD [OF this, of "(t, ru)" "(CHR ''a'', direction_rule)"] assms direction_in_table show ?thesis by simp
qed

lemma entries_obj_put: "set (obj_put k v ob) \<subseteq> insert (k, v) (set ob)"
proof -
  have "set (AList.update k v xs) \<subseteq> insert (k, v) (set xs)" for xs by (induction xs) auto
  then show ?thesis by (simp add: obj_put_def)
qed

text \<open>A section keeps its canonical form when it is given one of them.\<close>

lemma set_direction_canonical:
  assumes "canonical_media m" "d \<in> set directions"
  shows "canonical_media (obj_put ''direction'' (P_val (V_str d)) m)"
proof -
  let ?m = "obj_put ''direction'' (P_val (V_str d)) m"
  have names: "n \<in> set m_names \<Longrightarrow> obj_get ?m n = obj_get m n" for n by (auto simp: m_names_def)
  have "m_line ?m = m_line m" by (simp add: m_line_def grammar_m_def cloneArray_def)
  moreover have "m_fields ?m = m_fields m" by (simp add: m_fields_def m_names_def)
  moreover have "list_all (\<lambda>n. obj_get ?m n = map_option P_val (value_of (obj_get ?m n))) m_names =
      list_all (\<lambda>n. obj_get m n = map_option P_val (value_of (obj_get m n))) m_names"
    by (rule list.pred_cong [OF refl]) (simp only: names)
  ultimately have "m_ok ?m = m_ok m" by (simp only: m_ok_def Let_def)
  then have "m_ok ?m" using assms(1) by (simp only: canonical_media_def)
  moreover have "rule_ok ?m (t, ru)" if "(t, ru) \<in> set (rules_in defaultInnerOrder)" for t ru
  proof (cases "rule_key ru = ''direction''")
    case True
    with direction_only [OF that] direction_ok [OF assms(2)] show ?thesis by (simp add: rule_ok_def)
  next
    case False
    moreover have "rule_ok m (t, ru)" using assms(1) that by (auto simp: canonical_media_def list_all_iff)
    ultimately show ?thesis by (simp add: rule_ok_def)
  qed
  moreover have "list_all (\<lambda>(k, p). k \<in> set m_names
          \<or> k \<in> set (keys_of defaultInnerOrder) \<and> (p \<noteq> P_list [] \<or> k = ''rtp'' \<or> k = ''fmtp'')) ?m"
  proof -
    have "''direction'' \<in> set (keys_of defaultInnerOrder)" by (simp add: keys_inner keys_a)
    moreover have "set ?m \<subseteq> insert (''direction'', P_val (V_str d)) (set m)"
      by (rule entries_obj_put)
    ultimately show ?thesis using assms(1) by (auto simp: canonical_media_def list_all_iff)
  qed
  ultimately show ?thesis using assms(1) by (auto simp: canonical_media_def list_all_iff)
qed

section \<open>The round trip at a concrete description\<close>

definition demo_media :: sdp_section where
  "demo_media = [(''type'', P_val (V_str ''audio'')), (''port'', P_val (V_num (Num 9))), (''protocol'', P_val (V_str ''RTP/AVP'')),
     (''payloads'', P_val (V_str ''x'')), (''rtp'', P_list []), (''fmtp'', P_list []), (''direction'', P_val (V_str ''sendonly''))]"

definition demo_description :: description where
  "demo_description = \<lparr>ds_session = [(''version'', P_val (V_num (Num 0))), (''name'', P_val (V_str ''-''))],
     ds_media = [demo_media]\<rparr>"

lemma toIntIfInt_nat: "n < 10 ^ 21 \<Longrightarrow> toIntIfInt (num_str n) = V_num (Num (real n))"
  using number_text_nat [of n] by (simp add: toIntIfInt_def Number_num_str)

lemma demo_digits: "num_str 0 = ''0''" "num_str 9 = ''9''"
  by code_simp+

lemma demo_numbers: "magnitude_text 0 = ''0''" "magnitude_text 9 = ''9''"
  using number_text_nat [of 0] number_text_nat [of 9] by (simp_all add: demo_digits del: number_text_nat)

lemma demo_read_numbers: "toIntIfInt ''0'' = V_num (Num 0)" "toIntIfInt ''9'' = V_num (Num 9)"
  using toIntIfInt_nat [of 0] toIntIfInt_nat [of 9] by (simp_all add: demo_digits)

lemma demo_texts:
  "toIntIfInt ''audio'' = V_str ''audio''" "toIntIfInt ''RTP/AVP'' = V_str ''RTP/AVP''" "toIntIfInt ''x'' = V_str ''x''"
  "toIntIfInt ''sendonly'' = V_str ''sendonly''" "toIntIfInt ''-'' = V_str ''-''"
  by code_simp+

lemma demo_m_match: "rx_match (ru_reg grammar_m) ''audio 9 RTP/AVP x'' = Some [(4, ''x''), (3, ''RTP/AVP''), (2, ''9''), (1, ''audio'')]"
  by code_simp

lemma demo_m_ok: "m_ok demo_media"
proof -
  have "m_line demo_media = ''m=audio 9 RTP/AVP x''"
    by (simp add: m_line_def demo_media_def grammar_m_def cloneArray_def demo_numbers)
  moreover have "one_line ''m=audio 9 RTP/AVP x''" by (simp add: one_line_def no_break_def char_code_def)
  ultimately show ?thesis
    using demo_m_match
    by (simp add: m_ok_def Let_def m_names_def m_fields_def capture_def demo_read_numbers demo_texts)
      (simp add: demo_media_def obj_put_def)
qed

lemma demo_media_canonical: "canonical_media demo_media"
proof -
  have dir: "prop_ok CHR ''a'' direction_rule (P_val (V_str ''sendonly''))"
    by (rule direction_ok) (simp add: directions_def)
  have "rule_ok demo_media (t, ru)" if r: "(t, ru) \<in> set (rules_in defaultInnerOrder)" for t ru
  proof (cases "rule_key ru = ''direction''")
    case True
    with direction_only [OF r] dir show ?thesis by (simp add: rule_ok_def demo_media_def)
  next
    case False
    have "rule_key ru \<in> set (keys_of defaultInnerOrder)" using r by (force simp: keys_of_def)
    then have "rule_key ru \<notin> set m_names" using m_names_apart by blast
    with False list_rules [OF r] show ?thesis by (auto simp: rule_ok_def demo_media_def m_names_def split: option.split)
  qed
  with demo_m_ok show ?thesis
    by (auto simp: canonical_media_def list_all_iff)
      (auto simp: demo_media_def m_names_def keys_inner keys_a obj_has_def)
qed

lemma demo_session_canonical: "canonical_session (ds_session demo_description)"
proof -
  have v: "prop_ok CHR ''v'' (hd grammar_v) (P_val (V_num (Num 0)))"
  proof -
    have "value_line CHR ''v'' (hd grammar_v) (Some (V_num (Num 0))) = ''v=0''"
      by (simp add: value_line_def grammar_v_def value_rule_def demo_numbers)
    moreover have "one_line ''v=0''" by (simp add: one_line_def no_break_def char_code_def)
    moreover have "rx_match (ru_reg (hd grammar_v)) ''0'' = Some [(1, ''0'')]" by code_simp
    then have "captured CHR ''v'' (hd grammar_v) ''v=0'' = Some [(1, ''0'')]"
      by (simp add: captured_def rules_of_simps grammar_v_def same_place_def)
    ultimately show ?thesis
      by (simp add: value_ok_def Let_def capture_def demo_read_numbers) (simp add: grammar_v_def value_rule_def)
  qed
  have s: "prop_ok CHR ''s'' (plain_rule ''name'') (P_val (V_str ''-''))"
  proof -
    have "value_line CHR ''s'' (plain_rule ''name'') (Some (V_str ''-'')) = ''s=-''"
      by (simp add: value_line_def plain_rule_def value_rule_def)
    moreover have o: "one_line ''s=-''" "one_line ''-''" by (simp_all add: one_line_def no_break_def char_code_def)
    moreover have "captured CHR ''s'' (plain_rule ''name'') ''s=-'' = Some [(1, ''-'')]"
      using default_match [OF o(2)]
      by (simp add: captured_def rules_of_simps plain_rule_def value_rule_def same_place_def)
    ultimately show ?thesis
      by (simp add: value_ok_def Let_def capture_def demo_texts) (simp add: plain_rule_def value_rule_def)
  qed
  have "rule_ok (ds_session demo_description) (t, ru)" if r: "(t, ru) \<in> set (rules_in defaultOuterOrder)" for t ru
  proof -
    have "inj_on (rule_key \<circ> snd) (set (rules_in defaultOuterOrder))"
      using keys_distinct(1) by (simp add: keys_of_def distinct_map)
    note only = inj_onD [OF this _ r]
    have "(CHR ''v'', hd grammar_v) \<in> set (rules_in defaultOuterOrder)" "rule_key (hd grammar_v) = ''version''"
      "(CHR ''s'', plain_rule ''name'') \<in> set (rules_in defaultOuterOrder)" "rule_key (plain_rule ''name'') = ''name''"
      by (simp_all add: rules_in_def defaultOuterOrder_def rules_of_simps grammar_v_def plain_rule_def value_rule_def rule_key_def)
    with only [of "(CHR ''v'', hd grammar_v)"] only [of "(CHR ''s'', plain_rule ''name'')"] v s show ?thesis
      by (cases "rule_key ru = ''version''"; cases "rule_key ru = ''name''")
        (auto simp: rule_ok_def demo_description_def)
  qed
  then show ?thesis
    by (auto simp: canonical_session_def list_all_iff)
      (auto simp: demo_description_def keys_outer obj_has_def)
qed

lemma demo_canonical: "canonical_sdp demo_description"
  using demo_session_canonical demo_media_canonical by (simp add: canonical_sdp_def) (simp add: demo_description_def)


end
