(* ===== verification/Sdp_Hold.thy ===== *)
theory Sdp_Hold
  imports Sdp_Transform Session_Media
begin

text \<open>
  \<open>RTCSession._mangleOffer\<close> (lines 20169-20257 of \<open>frontend/static/js/jssip-3.10.0.js\<close>) on texts, with
  the reader and the writer of \<open>Sdp_Transform\<close>: what the peer reads of an offer made on hold is what
  \<open>mangle_media\<close> of \<open>Session_Media\<close> says about each media section.
\<close>

definition section_text :: "sdp_section \<Rightarrow> string \<Rightarrow> string option" where
  "section_text m k = map_option (\<lambda>v. sdp_text (Some v)) (value_of (obj_get m k))"

text \<open>The view \<open>RTCSession\<close> has of a media section.\<close>

definition view_media :: "sdp_section \<Rightarrow> sdp_media" where
  "view_media m =
     \<lparr>sm_type = (case section_text m ''type'' of None \<Rightarrow> ''undefined'' | Some t \<Rightarrow> t),
      sm_direction = section_text m ''direction'', sm_rest = []\<rparr>"

definition mangle_section :: "bool \<Rightarrow> bool \<Rightarrow> sdp_section \<Rightarrow> sdp_section" where
  "mangle_section local remote m =
     (if sm_type (view_media m) \<notin> set holdMediaTypes then m
      else case mangle_direction local remote (section_text m ''direction'') of
          None \<Rightarrow> m
        | Some d \<Rightarrow> if section_text m ''direction'' = Some d then m else obj_put ''direction'' (P_val (V_str d)) m)"

definition mangle_description :: "bool \<Rightarrow> bool \<Rightarrow> description \<Rightarrow> description" where
  "mangle_description local remote d = d\<lparr>ds_media := map (mangle_section local remote) (ds_media d)\<rparr>"

definition mangle_text :: "bool \<Rightarrow> bool \<Rightarrow> string \<Rightarrow> string" where
  "mangle_text local remote text =
     (if \<not> local \<and> \<not> remote then text else sdp_write (mangle_description local remote (sdp_parse text)))"

section \<open>The reader builds tables with distinct keys\<close>

lemma parseReg_wf: "obj_wf loc \<Longrightarrow> obj_wf (parseReg ru c loc)"
proof -
  have "obj_wf loc \<Longrightarrow> obj_wf (fold (\<lambda>(k, v). obj_put k (P_val v)) fs loc)" for fs
    by (induction fs arbitrary: loc) (auto simp: split_beta)
  then show "obj_wf loc \<Longrightarrow> ?thesis" by (auto simp: parseReg_def split: option.split)
qed

lemma read_content_wf: "obj_wf loc \<Longrightarrow> obj_wf (read_content t content loc)"
  by (auto simp: read_content_def parseReg_wf split: option.split)

definition description_wf :: "description \<Rightarrow> bool" where
  "description_wf d \<longleftrightarrow> obj_wf (ds_session d) \<and> list_all obj_wf (ds_media d)"

lemma read_line_wf: "description_wf d \<Longrightarrow> description_wf (read_line l d)"
proof -
  have blank: "obj_wf [(''rtp'', P_list []), (''fmtp'', P_list [])]" by (simp add: obj_wf_def)
  have "list_all obj_wf ms \<Longrightarrow> ms \<noteq> [] \<Longrightarrow> list_all obj_wf (butlast ms) \<and> obj_wf (last ms)" for ms :: "sdp_section list"
    by (cases ms rule: rev_cases) simp_all
  with blank show "description_wf d \<Longrightarrow> ?thesis"
    by (auto simp: read_line_def Let_def description_wf_def read_content_wf)
qed

lemma sdp_parse_wf: "description_wf (sdp_parse text)"
proof -
  have "description_wf d \<Longrightarrow> description_wf (fold read_line ls d)" for ls d
    by (induction ls arbitrary: d) (simp_all add: read_line_wf)
  then show ?thesis by (simp add: sdp_parse_def empty_sdp_def description_wf_def)
qed

section \<open>Canonical form depends on the properties only\<close>

lemma entries_same: "obj_wf x \<Longrightarrow> obj_get x = obj_get y \<Longrightarrow> (k, p) \<in> set x \<Longrightarrow> (k, p) \<in> set y"
  by (metis map_of_SomeD map_of_is_SomeI obj_wf_def)

lemma rule_ok_same: "obj_get x = obj_get y \<Longrightarrow> rule_ok x = rule_ok y"
  by (simp add: rule_ok_def fun_eq_iff)

lemma all_entries_same:
  "obj_wf x \<Longrightarrow> obj_get x = obj_get y \<Longrightarrow> list_all P y \<Longrightarrow> list_all P x"
  using entries_same [of x y] unfolding list_all_iff by (metis surj_pair)

lemma canonical_session_same:
  assumes "obj_wf x" "obj_get x = obj_get y" "canonical_session y"
  shows "canonical_session x"
  using assms(3) all_entries_same [OF assms(1,2)]
  by (simp only: canonical_session_def rule_ok_same [OF assms(2)] obj_has_def assms(2) simp_thms)

lemma m_ok_same: "obj_get x = obj_get y \<Longrightarrow> m_ok x = m_ok y"
proof -
  assume e: "obj_get x = obj_get y"
  then have "m_line x = m_line y" "m_fields x = m_fields y" by (simp_all add: m_line_def m_fields_def)
  with e show ?thesis by (simp only: m_ok_def)
qed

lemma canonical_media_same:
  assumes "obj_wf x" "obj_get x = obj_get y" "canonical_media y"
  shows "canonical_media x"
  using assms(3) all_entries_same [OF assms(1,2)]
  by (simp only: canonical_media_def rule_ok_same [OF assms(2)] m_ok_same [OF assms(2)] obj_has_def assms(2) simp_thms)

lemma canonical_same:
  assumes "description_wf a" "same_sdp a b" "canonical_sdp b"
  shows "canonical_sdp a"
proof -
  have "canonical_session (ds_session a)"
    using assms canonical_session_same unfolding description_wf_def same_sdp_def canonical_sdp_def by metis
  moreover have "list_all2 (\<lambda>x y. obj_get x = obj_get y) xs ys \<Longrightarrow> list_all obj_wf xs \<Longrightarrow>
      list_all canonical_media ys \<Longrightarrow> list_all canonical_media xs" for xs ys
  proof (induction rule: list_all2_induct)
    case (Cons x xs y ys)
    then show ?case using canonical_media_same [of x y] by simp
  qed simp
  then have "list_all canonical_media (ds_media a)"
    using assms unfolding description_wf_def same_sdp_def canonical_sdp_def by metis
  ultimately show ?thesis by (simp only: canonical_sdp_def simp_thms)
qed

lemma view_same: "obj_get x = obj_get y \<Longrightarrow> view_media x = view_media y"
  by (simp add: view_media_def section_text_def)

lemma views_same:
  assumes "same_sdp a b"
  shows "map view_media (ds_media a) = map view_media (ds_media b)"
proof -
  have "list_all2 (\<lambda>x y. obj_get x = obj_get y) xs ys \<Longrightarrow> map view_media xs = map view_media ys" for xs ys
  proof (induction rule: list_all2_induct)
    case (Cons x xs y ys)
    then show ?case using view_same [of x y] by simp
  qed simp
  then show ?thesis using assms by (simp only: same_sdp_def)
qed

section \<open>Mangling\<close>

lemma view_mangle: "view_media (mangle_section local remote m) = mangle_media local remote (view_media m)"
proof -
  have keep: "mangle_direction local remote d = None \<Longrightarrow> d = None" for d
    by (auto simp: mangle_direction_def hold_local_def hold_remote_def split: if_splits)
  show ?thesis
    using keep [of "section_text m ''direction''"]
    by (auto simp: mangle_section_def mangle_media_def view_media_def section_text_def split: option.split)
qed

lemma mangled_directions:
  "d \<in> insert None (Some ` set directions) \<Longrightarrow> mangle_direction local remote d \<in> insert None (Some ` set directions)"
  by (auto simp: mangle_direction_def hold_local_def hold_remote_def directions_def truthy_def)

definition known_directions :: "description \<Rightarrow> bool" where
  "known_directions d \<longleftrightarrow> list_all (\<lambda>m. section_text m ''direction'' \<in> insert None (Some ` set directions)) (ds_media d)"

lemma known_by_view:
  assumes "map view_media (ds_media a) = map view_media (ds_media b)"
  shows "known_directions a = known_directions b"
proof -
  have "known_directions d =
      list_all (\<lambda>v. sm_direction v \<in> insert None (Some ` set directions)) (map view_media (ds_media d))" for d
    by (simp only: known_directions_def list.pred_map comp_def view_media_def sdp_media.simps)
  with assms show ?thesis by (simp only:)
qed

lemma mangle_section_canonical:
  assumes "canonical_media m" "section_text m ''direction'' \<in> insert None (Some ` set directions)"
  shows "canonical_media (mangle_section local remote m)"
  using assms(1) set_direction_canonical [OF assms(1)] mangled_directions [OF assms(2), of local remote]
  by (auto simp: mangle_section_def split: option.split)

lemma mangle_canonical:
  "canonical_sdp d \<Longrightarrow> known_directions d \<Longrightarrow> canonical_sdp (mangle_description local remote d)"
  using mangle_section_canonical
  by (auto simp: canonical_sdp_def known_directions_def mangle_description_def list_all_iff)



end
