(* ===== verification/Peg.thy ===== *)
theory Peg
  imports Sip_Uri Js_Value
begin

text \<open>
  The machine under the generated parser (lines 1233-16132 of \<open>frontend/static/js/jssip-3.10.0.js\<close>, the output of
  PEG.js 0.7.0): parsing expressions with ordered choice, and what the code generated for each of them does with the
  position, the result and the object \<open>data\<close>.  An expression that fails sets the position back, but what its
  actions did to \<open>data\<close> stays; this is why the state is passed through failures.
\<close>

section \<open>Values\<close>

text \<open>The results of the rules and the contents of \<open>data\<close>.\<close>

datatype gval =
    G_undefined
  | G_null
  | G_bool bool
  | G_num js_num
  | G_str string
  | G_list "gval list"
  | G_obj "(string \<times> gval) list"
  | G_uri uri
  | G_na name_addr

section \<open>Expressions\<close>

text \<open>
  What an action sees: the start rule, the text from where its expression began (\<open>offset\<close>) to where it ended
  (\<open>pos\<close>), the text after it, and the parts of the result it names as its parameters.
\<close>

record act_ctx =
  cx_start :: string
  cx_text :: string
  cx_rest :: string
  cx_offset :: nat
  cx_args :: "gval list"

type_synonym action = "act_ctx \<Rightarrow> gval \<Rightarrow> js_error + gval \<times> gval"

datatype arg = Whole | Nth nat

datatype peg =
    E_lit string
  | E_nocase string
  | E_class "char \<Rightarrow> bool"
  | E_empty
  | E_then peg peg
  | E_or peg peg
  | E_opt peg
  | E_star peg
  | E_plus peg
  | E_act action "arg list" peg

fun seq :: "peg list \<Rightarrow> peg" where
  "seq [] = E_empty"
| "seq (p # ps) = E_then p (seq ps)"

fun alts :: "peg list \<Rightarrow> peg" where
  "alts [] = E_class (\<lambda>_. False)"
| "alts [p] = p"
| "alts (p # q # ps) = E_or p (alts (q # ps))"

section \<open>Running an expression\<close>

text \<open>
  The outcome of an expression: failure, or a result with the rest of the input and the position, each with \<open>data\<close>
  as it then is; an exception of an action; or a loop that never ends.
\<close>

datatype outcome = Fail gval | Done gval string nat gval | Raise js_error | Loop

type_synonym runner = "string \<Rightarrow> nat \<Rightarrow> gval \<Rightarrow> outcome"

fun select_arg :: "gval \<Rightarrow> arg \<Rightarrow> gval" where
  "select_arg v Whole = v"
| "select_arg (G_list vs) (Nth k) = (if k < length vs then vs ! k else G_undefined)"
| "select_arg _ (Nth k) = G_undefined"

fun cons_result :: "gval \<Rightarrow> gval \<Rightarrow> gval" where
  "cons_result v (G_list vs) = G_list (v # vs)"
| "cons_result v w = G_list [v, w]"

text \<open>\<open>while (r !== null) { rs.push(r); r = ... }\<close>: without progress it goes on for ever.\<close>

function repeat :: "runner \<Rightarrow> gval list \<Rightarrow> runner" where
  "repeat f acc s n d =
     (case f s n d of
        Fail d' \<Rightarrow> Done (G_list acc) s n d'
      | Done v s' n' d' \<Rightarrow> if length s' < length s then repeat f (acc @ [v]) s' n' d' else Loop
      | Raise e \<Rightarrow> Raise e
      | Loop \<Rightarrow> Loop)"
  by pat_completeness auto
termination by (relation "measure (\<lambda>(f, acc, s, n, d). length s)") auto

declare repeat.simps [simp del]

definition perform :: "string \<Rightarrow> action \<Rightarrow> arg list \<Rightarrow> string \<Rightarrow> nat \<Rightarrow> gval \<Rightarrow> string \<Rightarrow> nat \<Rightarrow> gval \<Rightarrow> outcome" where
  "perform start a as s n v s' n' d =
     (case a \<lparr>cx_start = start, cx_text = take (length s - length s') s, cx_rest = s', cx_offset = n,
              cx_args = map (select_arg v) as\<rparr> d of
        Inl e \<Rightarrow> Raise e
      | Inr (r, d') \<Rightarrow> if r = G_null then Fail d' else Done r s' n' d')"

primrec peg_run :: "string \<Rightarrow> peg \<Rightarrow> runner" where
  "peg_run start (E_lit w) = (\<lambda>s n d. if starts_with w s then Done (G_str w) (drop (length w) s) (n + length w) d else Fail d)"
| "peg_run start (E_nocase w) =
     (\<lambda>s n d. if to_lower (take (length w) s) = w
              then Done (G_str (take (length w) s)) (drop (length w) s) (n + length w) d else Fail d)"
| "peg_run start (E_class C) =
     (\<lambda>s n d. case s of [] \<Rightarrow> Fail d | c # s' \<Rightarrow> if C c then Done (G_str [c]) s' (Suc n) d else Fail d)"
| "peg_run start E_empty = (\<lambda>s n d. Done (G_list []) s n d)"
| "peg_run start (E_then p q) =
     (\<lambda>s n d. case peg_run start p s n d of
        Done v s' n' d' \<Rightarrow>
          (case peg_run start q s' n' d' of Done w s'' n'' d'' \<Rightarrow> Done (cons_result v w) s'' n'' d'' | other \<Rightarrow> other)
      | other \<Rightarrow> other)"
| "peg_run start (E_or p q) = (\<lambda>s n d. case peg_run start p s n d of Fail d' \<Rightarrow> peg_run start q s n d' | other \<Rightarrow> other)"
| "peg_run start (E_opt p) = (\<lambda>s n d. case peg_run start p s n d of Fail d' \<Rightarrow> Done (G_str []) s n d' | other \<Rightarrow> other)"
| "peg_run start (E_star p) = repeat (peg_run start p) []"
| "peg_run start (E_plus p) =
     (\<lambda>s n d. case peg_run start p s n d of Done v s' n' d' \<Rightarrow> repeat (peg_run start p) [v] s' n' d' | other \<Rightarrow> other)"
| "peg_run start (E_act a as p) =
     (\<lambda>s n d. case peg_run start p s n d of Done v s' n' d' \<Rightarrow> perform start a as s n v s' n' d' | other \<Rightarrow> other)"

section \<open>Which expressions end\<close>

primrec nullable :: "peg \<Rightarrow> bool" where
  "nullable (E_lit w) \<longleftrightarrow> w = []"
| "nullable (E_nocase w) \<longleftrightarrow> w = []"
| "nullable (E_class C) \<longleftrightarrow> False"
| "nullable E_empty \<longleftrightarrow> True"
| "nullable (E_then p q) \<longleftrightarrow> nullable p \<and> nullable q"
| "nullable (E_or p q) \<longleftrightarrow> nullable p \<or> nullable q"
| "nullable (E_opt p) \<longleftrightarrow> True"
| "nullable (E_star p) \<longleftrightarrow> True"
| "nullable (E_plus p) \<longleftrightarrow> nullable p"
| "nullable (E_act a as p) \<longleftrightarrow> nullable p"

text \<open>No loop has a body that may succeed on nothing.\<close>

primrec peg_ok :: "peg \<Rightarrow> bool" where
  "peg_ok (E_lit w) \<longleftrightarrow> True"
| "peg_ok (E_nocase w) \<longleftrightarrow> True"
| "peg_ok (E_class C) \<longleftrightarrow> True"
| "peg_ok E_empty \<longleftrightarrow> True"
| "peg_ok (E_then p q) \<longleftrightarrow> peg_ok p \<and> peg_ok q"
| "peg_ok (E_or p q) \<longleftrightarrow> peg_ok p \<and> peg_ok q"
| "peg_ok (E_opt p) \<longleftrightarrow> peg_ok p"
| "peg_ok (E_star p) \<longleftrightarrow> peg_ok p \<and> \<not> nullable p"
| "peg_ok (E_plus p) \<longleftrightarrow> peg_ok p \<and> \<not> nullable p"
| "peg_ok (E_act a as p) \<longleftrightarrow> peg_ok p"

text \<open>What a runner keeps: the rest is a suffix of the input, and the position says how much was read.\<close>

definition reads :: "runner \<Rightarrow> bool" where
  "reads f \<longleftrightarrow> (\<forall>s n d v s' n' d'. f s n d = Done v s' n' d' \<longrightarrow> (\<exists>t. s = t @ s' \<and> n' = n + length t))"

definition consumes :: "runner \<Rightarrow> bool" where
  "consumes f \<longleftrightarrow> (\<forall>s n d v s' n' d'. f s n d = Done v s' n' d' \<longrightarrow> length s' < length s)"

lemma readsD: "reads f \<Longrightarrow> f s n d = Done v s' n' d' \<Longrightarrow> \<exists>t. s = t @ s' \<and> n' = n + length t"
  unfolding reads_def by blast

lemma consumesD: "consumes f \<Longrightarrow> f s n d = Done v s' n' d' \<Longrightarrow> length s' < length s"
  unfolding consumes_def by blast

lemma reads_length: "reads f \<Longrightarrow> f s n d = Done v s' n' d' \<Longrightarrow> length s' \<le> length s"
  using readsD [of f s n d v s' n' d'] by auto

lemma repeat_Done:
  assumes "repeat f acc s n d = Done v s' n' d'"
  obtains (stop) "f s n d = Fail d'" "s' = s" "n' = n" "v = G_list acc"
    | (step) w s1 n1 d1 where "f s n d = Done w s1 n1 d1" "length s1 < length s" "repeat f (acc @ [w]) s1 n1 d1 = Done v s' n' d'"
  using assms by (cases "f s n d") (auto simp: repeat.simps [of f acc] split: if_splits)

lemma repeat_reads: "reads f \<Longrightarrow> repeat f acc s n d = Done v s' n' d' \<Longrightarrow> \<exists>t. s = t @ s' \<and> n' = n + length t"
proof (induction s arbitrary: acc n d rule: measure_induct_rule [of length])
  case (less s)
  from less.prems(2) show ?case
  proof (cases rule: repeat_Done)
    case (step w s1 n1 d1)
    then obtain t where t: "s = t @ s1" "n1 = n + length t" using readsD [OF less.prems(1)] by blast
    from less.IH [OF step(2) less.prems(1) step(3)] t show ?thesis by auto
  qed simp
qed

lemma then_Done:
  assumes "peg_run start (E_then p q) s n d = Done v s' n' d'"
  obtains w s1 n1 d1 u where "peg_run start p s n d = Done w s1 n1 d1" "peg_run start q s1 n1 d1 = Done u s' n' d'"
    "v = cons_result w u"
  using assms by (auto split: outcome.splits)

lemma plus_Done:
  assumes "peg_run start (E_plus p) s n d = Done v s' n' d'"
  obtains w s1 n1 d1 where "peg_run start p s n d = Done w s1 n1 d1" "repeat (peg_run start p) [w] s1 n1 d1 = Done v s' n' d'"
  using assms by (auto split: outcome.splits)

lemma reads_step:
  "\<exists>t. s = t @ s1 \<and> n1 = n + length t \<Longrightarrow> \<exists>t. s1 = t @ s' \<and> n' = n1 + length t \<Longrightarrow> \<exists>t. s = t @ s' \<and> n' = n + length t"
  by auto

lemma peg_run_reads: "reads (peg_run start p)"
proof (induction p)
  case (E_lit w)
  then show ?case by (auto simp: reads_def starts_with_iff)
next
  case (E_nocase w)
  show ?case
  proof (unfold reads_def, intro allI impI)
    fix s n d v s' n' d'
    assume a: "peg_run start (E_nocase w) s n d = Done v s' n' d'"
    then have "to_lower (take (length w) s) = w" by (simp split: if_splits)
    from arg_cong [OF this, of length] have "min (length s) (length w) = length w" by (simp add: to_lower_def)
    moreover have "drop (length w) s = s' \<and> n' = n + length w" using a by (simp split: if_splits)
    ultimately show "\<exists>t. s = t @ s' \<and> n' = n + length t"
      by (intro exI [of _ "take (length w) s"]) auto
  qed
next
  case (E_class C)
  then show ?case by (auto simp: reads_def split: list.splits if_splits)
next
  case E_empty
  then show ?case by (simp add: reads_def)
next
  case (E_then p q)
  show ?case
    by (unfold reads_def, intro allI impI, erule then_Done)
      (rule reads_step, erule readsD [OF E_then.IH(1)], erule readsD [OF E_then.IH(2)])
next
  case (E_or p q)
  then show ?case by (auto simp: reads_def split: outcome.splits)
next
  case (E_opt p)
  then show ?case by (auto simp: reads_def split: outcome.splits)
next
  case (E_star p)
  have "reads (repeat (peg_run start p) [])"
    by (unfold reads_def, intro allI impI) (rule repeat_reads [OF E_star])
  then show ?case by simp
next
  case (E_plus p)
  show ?case
    by (unfold reads_def, intro allI impI, erule plus_Done)
      (rule reads_step, erule readsD [OF E_plus], erule repeat_reads [OF E_plus])
next
  case (E_act a as p)
  show ?case
  proof (unfold reads_def, intro allI impI)
    fix s n d v s' n' d'
    assume "peg_run start (E_act a as p) s n d = Done v s' n' d'"
    then obtain w d1 where "peg_run start p s n d = Done w s' n' d1"
      by (auto simp: perform_def split: outcome.splits sum.splits if_splits)
    then show "\<exists>t. s = t @ s' \<and> n' = n + length t" by (rule readsD [OF E_act])
  qed
qed

lemma peg_run_consumes: "\<not> nullable p \<Longrightarrow> consumes (peg_run start p)"
proof (induction p)
  case (E_lit w)
  then show ?case by (auto simp: consumes_def starts_with_iff)
next
  case (E_nocase w)
  then have "s \<noteq> []" if "to_lower (take (length w) s) = w" for s using that by (auto simp: to_lower_def)
  with E_nocase show ?case by (auto simp: consumes_def)
next
  case (E_then p q)
  have "consumes (peg_run start p) \<or> consumes (peg_run start q)" using E_then by auto
  then show ?case
    by (unfold consumes_def, intro allI impI, elim then_Done)
      (metis consumesD reads_length peg_run_reads order.strict_trans1 order.strict_trans2)
next
  case (E_plus p)
  then have c: "consumes (peg_run start p)" by simp
  show ?case
  proof (unfold consumes_def, intro allI impI, elim plus_Done)
    fix s n d v s' n' d' w s1 n1 d1
    assume "peg_run start p s n d = Done w s1 n1 d1" "repeat (peg_run start p) [w] s1 n1 d1 = Done v s' n' d'"
    with consumesD [OF c] repeat_reads [OF peg_run_reads] have "length s1 < length s" "\<exists>t. s1 = t @ s'" by blast+
    then show "length s' < length s" by auto
  qed
next
  case (E_act a as p)
  then have "consumes (peg_run start p)" by simp
  from consumesD [OF this] show ?case
    by (auto simp: consumes_def perform_def split: outcome.splits sum.splits if_splits)
qed (auto simp: consumes_def split: outcome.splits if_splits list.splits)

lemma repeat_ends:
  assumes "consumes f" "\<And>s n d. f s n d \<noteq> Loop"
  shows "repeat f acc s n d \<noteq> Loop"
proof (induction s arbitrary: acc n d rule: measure_induct_rule [of length])
  case (less s)
  show ?case using assms(2) [of s n d] consumesD [OF assms(1)] less
    by (subst repeat.simps) (auto split: outcome.split)
qed

text \<open>An expression without such a loop ends on every input.\<close>

lemma peg_run_ends: "peg_ok p \<Longrightarrow> peg_run start p s n d \<noteq> Loop"
proof (induction p arbitrary: s n d)
  case (E_star p)
  then show ?case using repeat_ends [OF peg_run_consumes] by simp
next
  case (E_plus p)
  then show ?case using repeat_ends [OF peg_run_consumes, of p start] by (auto split: outcome.split)
qed (auto simp: perform_def split: outcome.split sum.split list.split)

end
