(* ===== verification/Grammar_Actions.thy ===== *)
theory Grammar_Actions
  imports Peg
begin

text \<open>
  The actions of the generated parser: the functions that run when an expression has matched.  They read and write the
  object \<open>data\<close>, build the instances of \<open>URI\<close> and \<open>NameAddrHeader\<close>, and now and then throw.  The module is in strict
  mode, so an assignment to a property of a value without properties throws.  After \<open>data\<close> has become an array or an
  instance no action assigns to it any more; the model gives the same error there.  A port that is not a number is
  \<open>None\<close> in a URI, as it prints nothing.
\<close>

section \<open>Values as the actions use them\<close>

fun g_truthy :: "gval \<Rightarrow> bool" where
  "g_truthy G_undefined = False"
| "g_truthy G_null = False"
| "g_truthy (G_bool b) = b"
| "g_truthy (G_num n) = (case n of Num x \<Rightarrow> x \<noteq> 0 | NaN \<Rightarrow> False | Infinite _ \<Rightarrow> True)"
| "g_truthy (G_str s) = (s \<noteq> [])"
| "g_truthy _ = True"

fun g_member :: "string \<Rightarrow> gval \<Rightarrow> js_error + gval" where
  "g_member k (G_obj ob) = Inr (case obj_get ob k of None \<Rightarrow> G_undefined | Some v \<Rightarrow> v)"
| "g_member k G_undefined = Inl (TypeError ''Cannot read properties of undefined'')"
| "g_member k G_null = Inl (TypeError ''Cannot read properties of null'')"
| "g_member k _ = Inr G_undefined"

fun g_assign :: "string \<Rightarrow> gval \<Rightarrow> gval \<Rightarrow> js_error + gval" where
  "g_assign k v (G_obj ob) = Inr (G_obj (obj_put k v ob))"
| "g_assign k v _ = Inl (TypeError ''Cannot create property'')"

fun g_delete :: "string \<Rightarrow> gval \<Rightarrow> gval" where
  "g_delete k (G_obj ob) = G_obj (obj_del k ob)"
| "g_delete k v = v"

fun g_index :: "nat \<Rightarrow> gval \<Rightarrow> gval" where
  "g_index k (G_list vs) = (if k < length vs then vs ! k else G_undefined)"
| "g_index k (G_str s) = (if k < length s then G_str [s ! k] else G_undefined)"
| "g_index k _ = G_undefined"

text \<open>\<open>String(v)\<close>; arrays inside an array are joined with commas.\<close>

fun g_String :: "gval \<Rightarrow> string" where
  "g_String G_undefined = ''undefined''"
| "g_String G_null = ''null''"
| "g_String (G_bool b) = (if b then ''true'' else ''false'')"
| "g_String (G_num n) = number_text n"
| "g_String (G_str s) = s"
| "g_String (G_list vs) =
     js_join '','' (map (\<lambda>v. case v of G_undefined \<Rightarrow> [] | G_null \<Rightarrow> [] | _ \<Rightarrow> g_String v) vs)"
| "g_String (G_obj ob) = ''[object Object]''"
| "g_String (G_uri u) = (case uri_toString u of Inr t \<Rightarrow> t | Inl _ \<Rightarrow> [])"
| "g_String (G_na h) = (case na_toString h of Inr t \<Rightarrow> t | Inl _ \<Rightarrow> [])"

text \<open>\<open>v.join('')\<close> and \<open>v.toLowerCase()\<close>.\<close>

fun g_join :: "gval \<Rightarrow> js_error + string" where
  "g_join (G_list vs) = Inr (concat (map (\<lambda>v. case v of G_undefined \<Rightarrow> [] | G_null \<Rightarrow> [] | _ \<Rightarrow> g_String v) vs))"
| "g_join _ = Inl (TypeError ''join is not a function'')"

fun g_lower :: "gval \<Rightarrow> js_error + string" where
  "g_lower (G_str s) = Inr (to_lower s)"
| "g_lower _ = Inl (TypeError ''toLowerCase is not a function'')"

fun g_upper :: "gval \<Rightarrow> js_error + string" where
  "g_upper (G_str s) = Inr (to_upper s)"
| "g_upper _ = Inl (TypeError ''toUpperCase is not a function'')"

abbreviation minus_one :: gval where
  "minus_one \<equiv> G_num (Num (- 1))"

section \<open>Steps the actions share\<close>

definition a_return :: "(act_ctx \<Rightarrow> js_error + gval) \<Rightarrow> action" where
  "a_return f = (\<lambda>c d. bind_result (f c) (\<lambda>v. Inr (v, d)))"

definition a_const :: "string \<Rightarrow> action" where
  "a_const w = a_return (\<lambda>_. Inr (G_str w))"

text \<open>\<open>return input.substring(pos, offset)\<close>.\<close>

definition a_text :: action where
  "a_text = a_return (\<lambda>c. Inr (G_str (cx_text c)))"

definition a_join :: action where
  "a_join = a_return (\<lambda>c. bind_result (g_join (hd (cx_args c))) (\<lambda>t. Inr (G_str t)))"

definition join_int :: "gval \<Rightarrow> js_error + gval" where
  "join_int v = bind_result (g_join v) (\<lambda>t. Inr (G_num (parse_int10 t)))"

definition a_int :: action where
  "a_int = a_return (\<lambda>c. join_int (hd (cx_args c)))"

text \<open>\<open>data.k = v\<close>, and \<open>data = v\<close>, with nothing returned.\<close>

definition a_set :: "string \<Rightarrow> (act_ctx \<Rightarrow> js_error + gval) \<Rightarrow> action" where
  "a_set k f = (\<lambda>c d. bind_result (f c) (\<lambda>v. bind_result (g_assign k v d) (\<lambda>d. Inr (G_undefined, d))))"

definition a_data :: "(act_ctx \<Rightarrow> js_error + gval) \<Rightarrow> action" where
  "a_data f = (\<lambda>c d. bind_result (f c) (\<lambda>v. Inr (G_undefined, v)))"

definition the_arg :: "act_ctx \<Rightarrow> js_error + gval" where
  "the_arg c = Inr (hd (cx_args c))"

definition the_text :: "act_ctx \<Rightarrow> js_error + gval" where
  "the_text c = Inr (G_str (cx_text c))"

definition arg_lower :: "act_ctx \<Rightarrow> js_error + gval" where
  "arg_lower c = bind_result (g_lower (hd (cx_args c))) (\<lambda>t. Inr (G_str t))"

definition arg_int :: "act_ctx \<Rightarrow> js_error + gval" where
  "arg_int c = join_int (hd (cx_args c))"

text \<open>\<open>if (!data.bag) data.bag = {}; data.bag[k] = v\<close>.\<close>

definition ensure :: "string \<Rightarrow> gval \<Rightarrow> gval \<Rightarrow> js_error + gval" where
  "ensure bag new d = bind_result (g_member bag d) (\<lambda>b. if g_truthy b then Inr d else g_assign bag new d)"

definition put_in :: "string \<Rightarrow> string \<Rightarrow> gval \<Rightarrow> gval \<Rightarrow> js_error + gval" where
  "put_in bag k v d =
     bind_result (ensure bag (G_obj []) d) (\<lambda>d.
     bind_result (g_member bag d) (\<lambda>b.
     bind_result (g_assign k v b) (\<lambda>b. g_assign bag b d)))"

definition a_put :: "string \<Rightarrow> string \<Rightarrow> (act_ctx \<Rightarrow> js_error + gval) \<Rightarrow> action" where
  "a_put bag k f =
     (\<lambda>c d. bind_result (ensure bag (G_obj []) d) (\<lambda>d.
        bind_result (f c) (\<lambda>v. bind_result (put_in bag k v d) (\<lambda>d. Inr (G_undefined, d)))))"

text \<open>\<open>data.bag.push(v)\<close>, the array made when there is none.\<close>

definition push_to :: "string \<Rightarrow> gval \<Rightarrow> gval \<Rightarrow> js_error + gval" where
  "push_to bag v d =
     bind_result (ensure bag (G_list []) d) (\<lambda>d.
     bind_result (g_member bag d) (\<lambda>b.
       case b of G_list vs \<Rightarrow> g_assign bag (G_list (vs @ [v])) d | _ \<Rightarrow> Inl (TypeError ''push is not a function'')))"

section \<open>Building URIs and name-addrs\<close>

fun g_opt_text :: "gval \<Rightarrow> string option" where
  "g_opt_text (G_str s) = Some s"
| "g_opt_text _ = None"

definition g_text :: "gval \<Rightarrow> string" where
  "g_text v = (case g_opt_text v of Some s \<Rightarrow> s | None \<Rightarrow> [])"

fun g_port :: "gval \<Rightarrow> nat option" where
  "g_port (G_num (Num x)) = Some (nat \<lfloor>x\<rfloor>)"
| "g_port _ = None"

fun g_param :: "gval \<Rightarrow> string option" where
  "g_param G_undefined = None"
| "g_param G_null = None"
| "g_param v = Some (g_String v)"

fun g_params :: "gval \<Rightarrow> params" where
  "g_params (G_obj ob) = map (\<lambda>(k, v). (k, g_param v)) ob"
| "g_params _ = []"

fun g_headers :: "gval \<Rightarrow> string list js_object" where
  "g_headers (G_obj ob) = map (\<lambda>(k, v). (k, case v of G_list vs \<Rightarrow> map g_text vs | _ \<Rightarrow> [])) ob"
| "g_headers _ = []"

text \<open>\<open>new URI(data.scheme, data.user, data.host, data.port, data.uri_params, data.uri_headers)\<close>.\<close>

definition build_uri :: "bool \<Rightarrow> gval \<Rightarrow> js_error + gval" where
  "build_uri params d =
     bind_result (g_member ''scheme'' d) (\<lambda>scheme.
     bind_result (g_member ''user'' d) (\<lambda>user.
     bind_result (g_member ''host'' d) (\<lambda>host.
     bind_result (g_member ''port'' d) (\<lambda>port.
     bind_result (if params then g_member ''uri_params'' d else Inr G_undefined) (\<lambda>ps.
     bind_result (if params then g_member ''uri_headers'' d else Inr G_undefined) (\<lambda>hs.
     bind_result (new_uri (g_text scheme) (g_opt_text user) (g_text host) (g_port port) (g_params ps) (g_headers hs))
       (\<lambda>u. Inr (G_uri u))))))))"

definition delete_all :: "string list \<Rightarrow> gval \<Rightarrow> gval" where
  "delete_all ks d = fold g_delete ks d"

text \<open>\<open>new NameAddrHeader(data.uri, data.display_name, data.params)\<close>.\<close>

definition build_na :: "gval \<Rightarrow> js_error + name_addr" where
  "build_na d =
     bind_result (g_member ''uri'' d) (\<lambda>u.
     bind_result (g_member ''display_name'' d) (\<lambda>name.
     bind_result (g_member ''params'' d) (\<lambda>ps.
       case u of
         G_uri u \<Rightarrow> Inr (new_name_addr u (g_opt_text name) (g_params ps))
       | _ \<Rightarrow> Inl (TypeError ''missing or invalid \"uri\" parameter''))))"

text \<open>\<open>catch (e) { data = -1; }\<close>.\<close>

definition or_minus_one :: "js_error + gval \<Rightarrow> js_error + gval \<times> gval" where
  "or_minus_one r = (case r of Inl _ \<Rightarrow> Inr (G_undefined, minus_one) | Inr d \<Rightarrow> Inr (G_undefined, d))"

section \<open>The actions, by the rule they belong to\<close>

text \<open>\<open>replace(/\\([\x00-\x09\x0b-\x0c\x0e-\x7f])/g, '$1')\<close>.\<close>

fun unescape_quoted :: "string \<Rightarrow> string" where
  "unescape_quoted (c # x # s) =
     (if c = CHR 0x5C \<and> char_code x < 128 \<and> char_code x \<notin> {10, 13} then x # unescape_quoted s
      else c # unescape_quoted (x # s))"
| "unescape_quoted s = s"

definition act_quoted_string_clean :: action where
  "act_quoted_string_clean =
     a_return (\<lambda>c. let trimmed = js_trim (cx_text c)
                   in Inr (G_str (unescape_quoted (js_substring trimmed 1 (length trimmed - 1)))))"

definition act_SIP_URI_noparams :: action where
  "act_SIP_URI_noparams =
     (\<lambda>c d. or_minus_one
        (bind_result (build_uri False d) (\<lambda>u.
         bind_result (g_assign ''uri'' u d) (\<lambda>d.
           Inr (delete_all [''scheme'', ''user'', ''host'', ''host_type'', ''port''] d)))))"

definition act_SIP_URI :: action where
  "act_SIP_URI =
     (\<lambda>c d. or_minus_one
        (bind_result (build_uri True d) (\<lambda>u.
         bind_result (g_assign ''uri'' u d) (\<lambda>d.
           let d = delete_all [''scheme'', ''user'', ''host'', ''host_type'', ''port'', ''uri_params''] d
           in if cx_start c = ''SIP_URI'' then g_member ''uri'' d else Inr d))))"

definition act_uri_scheme :: action where
  "act_uri_scheme = a_set ''scheme'' arg_lower"

text \<open>\<open>input.substring(pos - 1, offset)\<close>: without the \<open>@\<close>.\<close>

definition act_userinfo :: action where
  "act_userinfo = a_set ''user'' (\<lambda>c. bind_result (decodeURIComponent (butlast (cx_text c))) (\<lambda>t. Inr (G_str t)))"

definition act_password :: action where
  "act_password = a_set ''password'' the_text"

definition act_host :: action where
  "act_host =
     (\<lambda>c d. let h = G_str (to_lower (cx_text c)) in bind_result (g_assign ''host'' h d) (\<lambda>d. Inr (h, d)))"

definition a_host_type :: "string \<Rightarrow> action" where
  "a_host_type t =
     (\<lambda>c d. bind_result (g_assign ''host_type'' (G_str t) d) (\<lambda>d. Inr (G_str (cx_text c), d)))"

definition act_port :: action where
  "act_port =
     (\<lambda>c d. bind_result (arg_int c) (\<lambda>n. bind_result (g_assign ''port'' n d) (\<lambda>d. Inr (n, d))))"

definition act_transport_param :: action where
  "act_transport_param = a_put ''uri_params'' ''transport'' arg_lower"

definition act_user_param :: action where
  "act_user_param = a_put ''uri_params'' ''user'' arg_lower"

definition act_method_param :: action where
  "act_method_param = a_put ''uri_params'' ''method'' the_arg"

definition act_ttl_param :: action where
  "act_ttl_param = a_put ''params'' ''ttl'' the_arg"

definition act_maddr_param :: action where
  "act_maddr_param = a_put ''uri_params'' ''maddr'' the_arg"

definition act_lr_param :: action where
  "act_lr_param = a_put ''uri_params'' ''lr'' (\<lambda>_. Inr G_undefined)"

text \<open>\<open>other_param\<close> and \<open>generic_param\<close>: a name, and a value after the sign \<open>=\<close> or none.\<close>

definition a_named :: "string \<Rightarrow> action" where
  "a_named bag =
     (\<lambda>c d. bind_result (ensure bag (G_obj []) d) (\<lambda>d.
        bind_result (g_lower (cx_args c ! 0)) (\<lambda>k.
        bind_result (put_in bag k (g_index 1 (cx_args c ! 1)) d) (\<lambda>d. Inr (G_undefined, d)))))"

definition act_header :: action where
  "act_header =
     (\<lambda>c d. bind_result (g_join (cx_args c ! 0)) (\<lambda>hname.
        bind_result (g_join (cx_args c ! 1)) (\<lambda>hvalue.
        bind_result (ensure ''uri_headers'' (G_obj []) d) (\<lambda>d.
        bind_result (g_member ''uri_headers'' d) (\<lambda>hs.
        bind_result (push_to (to_lower hname) (G_str hvalue) hs) (\<lambda>hs.
        bind_result (g_assign ''uri_headers'' hs d) (\<lambda>d. Inr (G_undefined, d))))))))"

definition act_scheme :: action where
  "act_scheme = a_set ''scheme'' the_text"

definition act_SIP_Version :: action where
  "act_SIP_Version = a_set ''sip_version'' the_text"

definition act_Method :: action where
  "act_Method =
     (\<lambda>c d. let m = G_str (cx_text c) in bind_result (g_assign ''method'' m d) (\<lambda>d. Inr (m, d)))"

definition act_Status_Code :: action where
  "act_Status_Code = a_set ''status_code'' arg_int"

definition act_Reason_Phrase :: action where
  "act_Reason_Phrase = a_set ''reason_phrase'' the_text"

definition act_Call_ID :: action where
  "act_Call_ID = a_data the_text"

text \<open>
  \<open>Contact\<close> and \<open>Record_Route\<close>: the list, unless one of its entries has no header.  For \<open>Contact: *\<close> there is no list,
  and \<open>data.multi_header.length\<close> throws.
\<close>

definition act_multi_header :: action where
  "act_multi_header =
     (\<lambda>c d. bind_result (g_member ''multi_header'' d) (\<lambda>l.
        case l of
          G_list hs \<Rightarrow>
            Inr (G_undefined,
              if list_ex (\<lambda>h. g_member ''parsed'' h = Inr G_null) hs then minus_one else G_list hs)
        | _ \<Rightarrow> Inl (TypeError ''Cannot read properties of undefined'')))"

text \<open>\<open>contact_param\<close> and \<open>rec_route\<close>: one entry of the list.\<close>

definition act_multi_entry :: action where
  "act_multi_entry =
     (\<lambda>c d. bind_result (ensure ''multi_header'' (G_list []) d) (\<lambda>d.
        let (header, d) =
          (case build_na d of
             Inr h \<Rightarrow> (G_na h, delete_all [''uri'', ''display_name'', ''params''] d)
           | Inl _ \<Rightarrow> (G_null, d))
        in bind_result
             (push_to ''multi_header''
                (G_obj [(''possition'', G_num (Num (real (cx_offset c + length (cx_text c))))),
                        (''offset'', G_num (Num (real (cx_offset c)))), (''parsed'', header)]) d)
             (\<lambda>d. Inr (G_undefined, d))))"

text \<open>The tokens of an unquoted display name, joined by what the white space between them gives.\<close>

definition name_tokens :: "gval \<Rightarrow> string" where
  "name_tokens v =
     g_String (g_index 0 v)
     @ (case g_index 1 v of
          G_list ws \<Rightarrow> concat (map (\<lambda>w. g_String (g_index 0 w) @ g_String (g_index 1 w)) ws)
        | _ \<Rightarrow> [])"

definition act_display_name :: action where
  "act_display_name =
     a_set ''display_name''
       (\<lambda>c. Inr (case hd (cx_args c) of G_str s \<Rightarrow> G_str s | v \<Rightarrow> G_str (name_tokens v)))"

definition act_c_p_q :: action where
  "act_c_p_q = a_put ''params'' ''q'' the_arg"

definition act_c_p_expires :: action where
  "act_c_p_expires = a_put ''params'' ''expires'' the_arg"

definition act_qvalue :: action where
  "act_qvalue = a_return (\<lambda>c. Inr (G_num (parse_float (cx_text c))))"

definition act_Content_Length :: action where
  "act_Content_Length = a_data arg_int"

definition act_Content_Type :: action where
  "act_Content_Type = a_data the_text"

definition act_CSeq_value :: action where
  "act_CSeq_value = a_set ''value'' arg_int"

definition act_Expires :: action where
  "act_Expires = a_data the_arg"

definition act_Event :: action where
  "act_Event = a_set ''event'' (\<lambda>c. bind_result (g_join (hd (cx_args c))) (\<lambda>t. Inr (G_str (to_lower t))))"

text \<open>\<open>From\<close> and \<open>To\<close>: the tag becomes a parameter of the header.\<close>

definition act_tagged :: action where
  "act_tagged =
     (\<lambda>c d. bind_result (g_member ''tag'' d) (\<lambda>tag. or_minus_one
        (bind_result (build_na d) (\<lambda>h.
           Inr (G_na (if g_truthy tag then na_setParam ''tag'' (g_param tag) h else h))))))"

definition act_tag_param :: action where
  "act_tag_param = a_set ''tag'' the_arg"

definition act_name_addr :: action where
  "act_name_addr = (\<lambda>c d. or_minus_one (bind_result (build_na d) (\<lambda>h. Inr (G_na h))))"

definition act_algorithm :: action where
  "act_algorithm = a_set ''algorithm'' (\<lambda>c. bind_result (g_upper (hd (cx_args c))) (\<lambda>t. Inr (G_str t)))"

definition act_qop_value :: action where
  "act_qop_value =
     (\<lambda>c d. bind_result (g_lower (hd (cx_args c))) (\<lambda>q. bind_result (push_to ''qop'' (G_str q) d) (\<lambda>d. Inr (G_undefined, d))))"

text \<open>\<open>Reason\<close>: a parameter \<open>text\<close> in quotes becomes the text without them.\<close>

definition act_Reason :: action where
  "act_Reason =
     (\<lambda>c d. bind_result (g_lower (hd (cx_args c))) (\<lambda>p.
        bind_result (g_assign ''protocol'' (G_str p) d) (\<lambda>d.
        bind_result (ensure ''params'' (G_obj []) d) (\<lambda>d.
        bind_result (g_member ''params'' d) (\<lambda>ps.
        bind_result (g_member ''text'' ps) (\<lambda>t.
          case t of
            G_str s \<Rightarrow>
              if s \<noteq> [] \<and> hd s = CHR 0x22 then
                bind_result (g_assign ''text'' (G_str (js_substring s 1 (length s - 1))) d) (\<lambda>d.
                bind_result (g_assign ''params'' (g_delete ''text'' ps) d) (\<lambda>d. Inr (G_undefined, d)))
              else Inr (G_undefined, d)
          | _ \<Rightarrow> Inr (G_undefined, d)))))))"

text \<open>\<open>if (typeof v !== 'undefined') data.k = v\<close>.\<close>

definition a_set_defined :: "string \<Rightarrow> action" where
  "a_set_defined k =
     (\<lambda>c d. if hd (cx_args c) = G_undefined then Inr (G_undefined, d)
            else bind_result (g_assign k (hd (cx_args c)) d) (\<lambda>d. Inr (G_undefined, d)))"

text \<open>\<open>input.substring(pos + 5, offset)\<close>: up to five characters more than the rule matched.\<close>

definition act_uuid :: action where
  "act_uuid = a_data (\<lambda>c. Inr (G_str (cx_text c @ take 5 (cx_rest c))))"

definition act_early_flag :: action where
  "act_early_flag = a_set ''early_only'' (\<lambda>_. Inr (G_bool True))"

end
