(* ===== verification/Grammar_Lex.thy ===== *)
theory Grammar_Lex
  imports Grammar_Actions
begin

text \<open>
  The rules of the generated grammar for characters, white space, tokens, separators and quoted strings (lines 1552-4628
  of \<open>frontend/static/js/jssip-3.10.0.js\<close>), each function \<open>parse_X\<close> as the expression it was generated from.  The
  rule \<open>comment\<close>, which refers to itself and is used by no other rule and no caller, is left out.
\<close>

text \<open>A class of characters: \<open>/^[a-b]/.test(input.charAt(pos))\<close>.\<close>

definition in_range :: "nat \<Rightarrow> nat \<Rightarrow> char \<Rightarrow> bool" where
  "in_range a b c \<longleftrightarrow> a \<le> char_code c \<and> char_code c \<le> b"

definition parse_CRLF :: peg where
  "parse_CRLF = E_lit [CHR 0x0D, CHR 0x0A]"

definition parse_DIGIT :: peg where
  "parse_DIGIT = E_class (in_range 48 57)"

definition parse_ALPHA :: peg where
  "parse_ALPHA = E_class (\<lambda>c. in_range 97 122 c \<or> in_range 65 90 c)"

definition parse_HEXDIG :: peg where
  "parse_HEXDIG = E_class (\<lambda>c. in_range 48 57 c \<or> in_range 97 102 c \<or>
     in_range 65 70 c)"

definition parse_SP :: peg where
  "parse_SP = E_lit '' ''"

definition parse_HTAB :: peg where
  "parse_HTAB = E_lit [CHR 0x09]"

definition parse_WSP :: peg where
  "parse_WSP = alts [parse_SP, parse_HTAB]"

definition parse_OCTET :: peg where
  "parse_OCTET = E_class (in_range 0 255)"

definition parse_DQUOTE :: peg where
  "parse_DQUOTE = E_class (in_range 34 34)"

definition parse_alphanum :: peg where
  "parse_alphanum = E_class (\<lambda>c. in_range 97 122 c \<or> in_range 65 90 c \<or>
     in_range 48 57 c)"

definition parse_reserved :: peg where
  "parse_reserved = alts [E_lit '';'', E_lit ''/'', E_lit ''?'', E_lit '':'', E_lit ''@'',
     E_lit ''&'', E_lit ''='', E_lit ''+'', E_lit ''$'', E_lit '','']"

definition parse_mark :: peg where
  "parse_mark = alts [E_lit ''-'', E_lit ''_'', E_lit ''.'', E_lit ''!'', E_lit ''~'',
     E_lit ''*'', E_lit [CHR 0x27], E_lit ''('', E_lit '')'']"

definition parse_unreserved :: peg where
  "parse_unreserved = alts [parse_alphanum, parse_mark]"

definition parse_escaped :: peg where
  "parse_escaped = E_act a_join [Whole] (seq [E_lit ''%'', parse_HEXDIG, parse_HEXDIG])"

definition parse_LWS :: peg where
  "parse_LWS = E_act (a_const '' '') [] (seq [E_opt (seq [E_star parse_WSP, parse_CRLF]), E_plus
     parse_WSP])"

definition parse_SWS :: peg where
  "parse_SWS = E_opt parse_LWS"

definition parse_HCOLON :: peg where
  "parse_HCOLON = E_act (a_const '':'') [] (seq [E_star (alts [parse_SP, parse_HTAB]), E_lit '':'',
     parse_SWS])"

definition parse_UTF8_NONASCII :: peg where
  "parse_UTF8_NONASCII = E_class (in_range 128 65535)"

definition parse_TEXT_UTF8char :: peg where
  "parse_TEXT_UTF8char = alts [E_class (in_range 33 126), parse_UTF8_NONASCII]"

definition parse_TEXT_UTF8_TRIM :: peg where
  "parse_TEXT_UTF8_TRIM = E_act a_text [] (seq [E_plus parse_TEXT_UTF8char, E_star (seq [E_star parse_LWS,
     parse_TEXT_UTF8char])])"

definition parse_UTF8_CONT :: peg where
  "parse_UTF8_CONT = E_class (in_range 128 191)"

definition parse_LHEX :: peg where
  "parse_LHEX = alts [parse_DIGIT, E_class (in_range 97 102)]"

definition token_char :: peg where
  "token_char = alts [parse_alphanum, E_lit ''-'', E_lit ''.'', E_lit ''!'', E_lit ''%'',
     E_lit ''*'', E_lit ''_'', E_lit ''+'', E_lit [CHR 0x60], E_lit [CHR 0x27], E_lit ''~'']"

definition parse_token :: peg where
  "parse_token = E_act a_text [] (E_plus token_char)"

definition token_nodot_char :: peg where
  "token_nodot_char = alts [parse_alphanum, E_lit ''-'', E_lit ''!'', E_lit ''%'', E_lit ''*'',
     E_lit ''_'', E_lit ''+'', E_lit [CHR 0x60], E_lit [CHR 0x27], E_lit ''~'']"

definition parse_token_nodot :: peg where
  "parse_token_nodot = E_act a_text [] (E_plus token_nodot_char)"

definition parse_separators :: peg where
  "parse_separators = alts [E_lit ''('', E_lit '')'', E_lit ''<'', E_lit ''>'', E_lit ''@'',
     E_lit '','', E_lit '';'', E_lit '':'', E_lit [CHR 0x5C], parse_DQUOTE, E_lit ''/'',
     E_lit ''['', E_lit '']'', E_lit ''?'', E_lit ''='', E_lit ''{'', E_lit ''}'', parse_SP,
     parse_HTAB]"

definition word_char :: peg where
  "word_char = alts [parse_alphanum, E_lit ''-'', E_lit ''.'', E_lit ''!'', E_lit ''%'',
     E_lit ''*'', E_lit ''_'', E_lit ''+'', E_lit [CHR 0x60], E_lit [CHR 0x27], E_lit ''~'',
     E_lit ''('', E_lit '')'', E_lit ''<'', E_lit ''>'', E_lit '':'', E_lit [CHR 0x5C],
     parse_DQUOTE, E_lit ''/'', E_lit ''['', E_lit '']'', E_lit ''?'', E_lit ''{'',
     E_lit ''}'']"

definition parse_word :: peg where
  "parse_word = E_act a_text [] (E_plus word_char)"

definition parse_STAR :: peg where
  "parse_STAR = E_act (a_const ''*'') [] (seq [parse_SWS, E_lit ''*'', parse_SWS])"

definition parse_SLASH :: peg where
  "parse_SLASH = E_act (a_const ''/'') [] (seq [parse_SWS, E_lit ''/'', parse_SWS])"

definition parse_EQUAL :: peg where
  "parse_EQUAL = E_act (a_const ''='') [] (seq [parse_SWS, E_lit ''='', parse_SWS])"

definition parse_LPAREN :: peg where
  "parse_LPAREN = E_act (a_const ''('') [] (seq [parse_SWS, E_lit ''('', parse_SWS])"

definition parse_RPAREN :: peg where
  "parse_RPAREN = E_act (a_const '')'') [] (seq [parse_SWS, E_lit '')'', parse_SWS])"

definition parse_RAQUOT :: peg where
  "parse_RAQUOT = E_act (a_const ''>'') [] (seq [E_lit ''>'', parse_SWS])"

definition parse_LAQUOT :: peg where
  "parse_LAQUOT = E_act (a_const ''<'') [] (seq [parse_SWS, E_lit ''<''])"

definition parse_COMMA :: peg where
  "parse_COMMA = E_act (a_const '','') [] (seq [parse_SWS, E_lit '','', parse_SWS])"

definition parse_SEMI :: peg where
  "parse_SEMI = E_act (a_const '';'') [] (seq [parse_SWS, E_lit '';'', parse_SWS])"

definition parse_COLON :: peg where
  "parse_COLON = E_act (a_const '':'') [] (seq [parse_SWS, E_lit '':'', parse_SWS])"

definition parse_LDQUOT :: peg where
  "parse_LDQUOT = E_act (a_const [CHR 0x22]) [] (seq [parse_SWS, parse_DQUOTE])"

definition parse_RDQUOT :: peg where
  "parse_RDQUOT = E_act (a_const [CHR 0x22]) [] (seq [parse_DQUOTE, parse_SWS])"

definition parse_ctext :: peg where
  "parse_ctext = alts [E_class (in_range 33 39), E_class (in_range 42 91),
     E_class (in_range 93 126), parse_UTF8_NONASCII, parse_LWS]"

definition parse_qdtext :: peg where
  "parse_qdtext = alts [parse_LWS, E_lit ''!'', E_class (in_range 35 91),
     E_class (in_range 93 126), parse_UTF8_NONASCII]"

definition parse_quoted_pair :: peg where
  "parse_quoted_pair = seq [E_lit [CHR 0x5C], alts [E_class (in_range 0 9),
     E_class (in_range 11 12), E_class (in_range 14 127)]]"

definition parse_quoted_string :: peg where
  "parse_quoted_string = E_act a_text [] (seq [parse_SWS, parse_DQUOTE, E_star (alts [parse_qdtext,
     parse_quoted_pair]), parse_DQUOTE])"

definition parse_quoted_string_clean :: peg where
  "parse_quoted_string_clean = E_act act_quoted_string_clean [] (seq [parse_SWS, parse_DQUOTE, E_star (alts
     [parse_qdtext, parse_quoted_pair]), parse_DQUOTE])"

end
