(* ===== verification/Grammar_Uri.thy ===== *)
theory Grammar_Uri
  imports Grammar_Lex
begin

text \<open>
  The rules for URIs (lines 4630-8958 of \<open>frontend/static/js/jssip-3.10.0.js\<close>), with those for methods and
  \<open>ttl\<close> which parameters of a URI use.
\<close>

definition parse_uri_scheme_sips :: peg where
  "parse_uri_scheme_sips = E_act act_uri_scheme [Whole] (E_nocase ''sips'')"

definition parse_uri_scheme_sip :: peg where
  "parse_uri_scheme_sip = E_act act_uri_scheme [Whole] (E_nocase ''sip'')"

definition parse_uri_scheme :: peg where
  "parse_uri_scheme = alts [parse_uri_scheme_sips, parse_uri_scheme_sip]"

definition parse_user_unreserved :: peg where
  "parse_user_unreserved = alts [E_lit ''&'', E_lit ''='', E_lit ''+'', E_lit ''$'', E_lit '','',
     E_lit '';'', E_lit ''?'', E_lit ''/'']"

definition parse_user :: peg where
  "parse_user = E_plus (alts [parse_unreserved, parse_escaped, parse_user_unreserved])"

definition parse_password :: peg where
  "parse_password = E_act act_password [] (E_star (alts [parse_unreserved, parse_escaped, E_lit ''&'',
     E_lit ''='', E_lit ''+'', E_lit ''$'', E_lit '','']))"

definition parse_userinfo :: peg where
  "parse_userinfo = E_act act_userinfo [] (seq [parse_user, E_opt (seq [E_lit '':'', parse_password]),
     E_lit ''@''])"

definition parse_domainlabel :: peg where
  "parse_domainlabel = seq [parse_alphanum, E_star (alts [parse_alphanum, E_lit ''-'', E_lit ''_''])]"

definition parse_toplabel :: peg where
  "parse_toplabel = seq [parse_ALPHA, E_star (alts [parse_alphanum, E_lit ''-'', E_lit ''_''])]"

definition parse_hostname :: peg where
  "parse_hostname = E_act (a_host_type ''domain'') [] (seq [E_star (seq [parse_domainlabel, E_lit ''.'']),
     parse_toplabel, E_opt (E_lit ''.'')])"

definition parse_dec_octet :: peg where
  "parse_dec_octet = alts [seq [E_lit ''25'', E_class (in_range 48 53)], seq [E_lit ''2'',
     E_class (in_range 48 52), parse_DIGIT], seq [E_lit ''1'', parse_DIGIT, parse_DIGIT], seq
     [E_class (in_range 49 57), parse_DIGIT], parse_DIGIT]"

definition parse_IPv4address :: peg where
  "parse_IPv4address = E_act (a_host_type ''IPv4'') [] (seq [parse_dec_octet, E_lit ''.'',
     parse_dec_octet, E_lit ''.'', parse_dec_octet, E_lit ''.'', parse_dec_octet])"

definition parse_h16 :: peg where
  "parse_h16 = seq [parse_HEXDIG, E_opt parse_HEXDIG, E_opt parse_HEXDIG, E_opt parse_HEXDIG]"

definition parse_ls32 :: peg where
  "parse_ls32 = alts [seq [parse_h16, E_lit '':'', parse_h16], parse_IPv4address]"

definition IPv6_form1 :: peg where
  "IPv6_form1 = seq [parse_h16, E_lit '':'', parse_h16, E_lit '':'', parse_h16, E_lit '':'', parse_h16,
     E_lit '':'', parse_h16, E_lit '':'', parse_h16, E_lit '':'', parse_ls32]"

definition IPv6_form2 :: peg where
  "IPv6_form2 = seq [E_lit ''::'', parse_h16, E_lit '':'', parse_h16, E_lit '':'', parse_h16,
     E_lit '':'', parse_h16, E_lit '':'', parse_h16, E_lit '':'', parse_ls32]"

definition IPv6_form3 :: peg where
  "IPv6_form3 = seq [E_lit ''::'', parse_h16, E_lit '':'', parse_h16, E_lit '':'', parse_h16,
     E_lit '':'', parse_h16, E_lit '':'', parse_ls32]"

definition IPv6_form4 :: peg where
  "IPv6_form4 = seq [E_lit ''::'', parse_h16, E_lit '':'', parse_h16, E_lit '':'', parse_h16,
     E_lit '':'', parse_ls32]"

definition IPv6_form5 :: peg where
  "IPv6_form5 = seq [E_lit ''::'', parse_h16, E_lit '':'', parse_h16, E_lit '':'', parse_ls32]"

definition IPv6_form6 :: peg where
  "IPv6_form6 = seq [E_lit ''::'', parse_h16, E_lit '':'', parse_ls32]"

definition IPv6_form7 :: peg where
  "IPv6_form7 = seq [E_lit ''::'', parse_ls32]"

definition IPv6_form8 :: peg where
  "IPv6_form8 = seq [E_lit ''::'', parse_h16]"

definition IPv6_form9 :: peg where
  "IPv6_form9 = seq [parse_h16, E_lit ''::'', parse_h16, E_lit '':'', parse_h16, E_lit '':'',
     parse_h16, E_lit '':'', parse_h16, E_lit '':'', parse_ls32]"

definition IPv6_form10 :: peg where
  "IPv6_form10 = seq [parse_h16, E_opt (seq [E_lit '':'', parse_h16]), E_lit ''::'', parse_h16,
     E_lit '':'', parse_h16, E_lit '':'', parse_h16, E_lit '':'', parse_ls32]"

definition IPv6_form11 :: peg where
  "IPv6_form11 = seq [parse_h16, E_opt (seq [E_lit '':'', parse_h16]), E_opt (seq [E_lit '':'',
     parse_h16]), E_lit ''::'', parse_h16, E_lit '':'', parse_h16, E_lit '':'', parse_ls32]"

definition IPv6_form12 :: peg where
  "IPv6_form12 = seq [parse_h16, E_opt (seq [E_lit '':'', parse_h16]), E_opt (seq [E_lit '':'',
     parse_h16]), E_opt (seq [E_lit '':'', parse_h16]), E_lit ''::'', parse_h16, E_lit '':'',
     parse_ls32]"

definition IPv6_form13 :: peg where
  "IPv6_form13 = seq [parse_h16, E_opt (seq [E_lit '':'', parse_h16]), E_opt (seq [E_lit '':'',
     parse_h16]), E_opt (seq [E_lit '':'', parse_h16]), E_opt (seq [E_lit '':'', parse_h16]),
     E_lit ''::'', parse_ls32]"

definition IPv6_form14 :: peg where
  "IPv6_form14 = seq [parse_h16, E_opt (seq [E_lit '':'', parse_h16]), E_opt (seq [E_lit '':'',
     parse_h16]), E_opt (seq [E_lit '':'', parse_h16]), E_opt (seq [E_lit '':'', parse_h16]), E_opt (seq
     [E_lit '':'', parse_h16]), E_lit ''::'', parse_h16]"

definition IPv6_form15 :: peg where
  "IPv6_form15 = seq [parse_h16, E_opt (seq [E_lit '':'', parse_h16]), E_opt (seq [E_lit '':'',
     parse_h16]), E_opt (seq [E_lit '':'', parse_h16]), E_opt (seq [E_lit '':'', parse_h16]), E_opt (seq
     [E_lit '':'', parse_h16]), E_opt (seq [E_lit '':'', parse_h16]), E_lit ''::'']"

definition parse_IPv6address :: peg where
  "parse_IPv6address = E_act (a_host_type ''IPv6'') [] (alts [IPv6_form1, IPv6_form2, IPv6_form3, IPv6_form4,
     IPv6_form5, IPv6_form6, IPv6_form7, IPv6_form8, IPv6_form9, IPv6_form10, IPv6_form11, IPv6_form12,
     IPv6_form13, IPv6_form14, IPv6_form15])"

definition parse_IPv6reference :: peg where
  "parse_IPv6reference = E_act (a_host_type ''IPv6'') [] (seq [E_lit ''['', parse_IPv6address,
     E_lit '']''])"

definition parse_host :: peg where
  "parse_host = E_act act_host [] (alts [parse_hostname, parse_IPv4address, parse_IPv6reference])"

definition parse_port :: peg where
  "parse_port = E_act act_port [Whole] (seq [E_opt parse_DIGIT, E_opt parse_DIGIT, E_opt parse_DIGIT, E_opt
     parse_DIGIT, E_opt parse_DIGIT])"

definition parse_hostport :: peg where
  "parse_hostport = seq [parse_host, E_opt (seq [E_lit '':'', parse_port])]"

definition parse_SIP_URI_noparams :: peg where
  "parse_SIP_URI_noparams = E_act act_SIP_URI_noparams [] (seq [parse_uri_scheme, E_lit '':'', E_opt
     parse_userinfo, parse_hostport])"

definition parse_transport_param :: peg where
  "parse_transport_param = E_act act_transport_param [Nth 1] (seq [E_nocase ''transport='', alts
     [E_nocase ''udp'', E_nocase ''tcp'', E_nocase ''sctp'', E_nocase ''tls'', parse_token]])"

definition parse_user_param :: peg where
  "parse_user_param = E_act act_user_param [Nth 1] (seq [E_nocase ''user='', alts [E_nocase ''phone'',
     E_nocase ''ip'', parse_token]])"

definition parse_INVITEm :: peg where
  "parse_INVITEm = E_lit ''INVITE''"

definition parse_ACKm :: peg where
  "parse_ACKm = E_lit ''ACK''"

definition parse_OPTIONSm :: peg where
  "parse_OPTIONSm = E_lit ''OPTIONS''"

definition parse_BYEm :: peg where
  "parse_BYEm = E_lit ''BYE''"

definition parse_CANCELm :: peg where
  "parse_CANCELm = E_lit ''CANCEL''"

definition parse_REGISTERm :: peg where
  "parse_REGISTERm = E_lit ''REGISTER''"

definition parse_SUBSCRIBEm :: peg where
  "parse_SUBSCRIBEm = E_lit ''SUBSCRIBE''"

definition parse_NOTIFYm :: peg where
  "parse_NOTIFYm = E_lit ''NOTIFY''"

definition parse_REFERm :: peg where
  "parse_REFERm = E_lit ''REFER''"

definition parse_Method :: peg where
  "parse_Method = E_act act_Method [] (alts [parse_INVITEm, parse_ACKm, parse_OPTIONSm, parse_BYEm,
     parse_CANCELm, parse_REGISTERm, parse_SUBSCRIBEm, parse_NOTIFYm, parse_REFERm, parse_token])"

definition parse_method_param :: peg where
  "parse_method_param = E_act act_method_param [Nth 1] (seq [E_nocase ''method='', parse_Method])"

definition parse_ttl :: peg where
  "parse_ttl = E_act a_int [Whole] (seq [parse_DIGIT, E_opt parse_DIGIT, E_opt parse_DIGIT])"

definition parse_ttl_param :: peg where
  "parse_ttl_param = E_act act_ttl_param [Nth 1] (seq [E_nocase ''ttl='', parse_ttl])"

definition parse_maddr_param :: peg where
  "parse_maddr_param = E_act act_maddr_param [Nth 1] (seq [E_nocase ''maddr='', parse_host])"

definition parse_lr_param :: peg where
  "parse_lr_param = E_act act_lr_param [] (seq [E_nocase ''lr'', E_opt (seq [E_lit ''='', parse_token])])"

definition parse_param_unreserved :: peg where
  "parse_param_unreserved = alts [E_lit ''['', E_lit '']'', E_lit ''/'', E_lit '':'',
     E_lit ''&'', E_lit ''+'', E_lit ''$'']"

definition parse_paramchar :: peg where
  "parse_paramchar = alts [parse_param_unreserved, parse_unreserved, parse_escaped]"

definition parse_pname :: peg where
  "parse_pname = E_act a_join [Whole] (E_plus parse_paramchar)"

definition parse_pvalue :: peg where
  "parse_pvalue = E_act a_join [Whole] (E_plus parse_paramchar)"

definition parse_other_param :: peg where
  "parse_other_param = E_act (a_named ''uri_params'') [Nth 0, Nth 1] (seq [parse_pname, E_opt (seq
     [E_lit ''='', parse_pvalue])])"

definition parse_uri_parameter :: peg where
  "parse_uri_parameter = alts [parse_transport_param, parse_user_param, parse_method_param, parse_ttl_param,
     parse_maddr_param, parse_lr_param, parse_other_param]"

definition parse_uri_parameters :: peg where
  "parse_uri_parameters = E_star (seq [E_lit '';'', parse_uri_parameter])"

definition parse_hnv_unreserved :: peg where
  "parse_hnv_unreserved = alts [E_lit ''['', E_lit '']'', E_lit ''/'', E_lit ''?'', E_lit '':'',
     E_lit ''+'', E_lit ''$'']"

definition parse_hname :: peg where
  "parse_hname = E_plus (alts [parse_hnv_unreserved, parse_unreserved, parse_escaped])"

definition parse_hvalue :: peg where
  "parse_hvalue = E_star (alts [parse_hnv_unreserved, parse_unreserved, parse_escaped])"

definition parse_header :: peg where
  "parse_header = E_act act_header [Nth 0, Nth 2] (seq [parse_hname, E_lit ''='', parse_hvalue])"

definition parse_headers_rule :: peg where
  "parse_headers_rule = seq [E_lit ''?'', parse_header, E_star (seq [E_lit ''&'', parse_header])]"

definition parse_SIP_URI :: peg where
  "parse_SIP_URI = E_act act_SIP_URI [] (seq [parse_uri_scheme, E_lit '':'', E_opt parse_userinfo,
     parse_hostport, parse_uri_parameters, E_opt parse_headers_rule])"

end
