(* ===== verification/Grammar_Request.thy ===== *)
theory Grammar_Request
  imports Grammar_Uri
begin

text \<open>
  The rules for the first line of a message and for absolute URIs (lines 8960-10560 of
  \<open>frontend/static/js/jssip-3.10.0.js\<close>).
\<close>

definition parse_SIP_Version :: peg where
  "parse_SIP_Version = E_act act_SIP_Version [] (seq [E_nocase ''sip'', E_lit ''/'', E_plus parse_DIGIT,
     E_lit ''.'', E_plus parse_DIGIT])"

definition parse_extension_code :: peg where
  "parse_extension_code = seq [parse_DIGIT, parse_DIGIT, parse_DIGIT]"

definition parse_Status_Code :: peg where
  "parse_Status_Code = E_act act_Status_Code [Whole] parse_extension_code"

definition parse_Reason_Phrase :: peg where
  "parse_Reason_Phrase = E_act act_Reason_Phrase [] (E_star (alts [parse_reserved, parse_unreserved,
     parse_escaped, parse_UTF8_NONASCII, parse_UTF8_CONT, parse_SP, parse_HTAB]))"

definition parse_Status_Line :: peg where
  "parse_Status_Line = seq [parse_SIP_Version, parse_SP, parse_Status_Code, parse_SP, parse_Reason_Phrase]"

definition parse_scheme :: peg where
  "parse_scheme = E_act act_scheme [] (seq [parse_ALPHA, E_star (alts [parse_ALPHA, parse_DIGIT, E_lit ''+'',
     E_lit ''-'', E_lit ''.''])])"

definition parse_srvr :: peg where
  "parse_srvr = E_opt (seq [E_opt (seq [parse_userinfo, E_lit ''@'']), parse_hostport])"

definition reg_name_char :: peg where
  "reg_name_char = alts [parse_unreserved, parse_escaped, E_lit ''$'', E_lit '','', E_lit '';'',
     E_lit '':'', E_lit ''@'', E_lit ''&'', E_lit ''='', E_lit ''+'']"

definition parse_reg_name :: peg where
  "parse_reg_name = E_plus reg_name_char"

definition parse_authority :: peg where
  "parse_authority = alts [parse_srvr, parse_reg_name]"

definition parse_pchar :: peg where
  "parse_pchar = alts [parse_unreserved, parse_escaped, E_lit '':'', E_lit ''@'', E_lit ''&'',
     E_lit ''='', E_lit ''+'', E_lit ''$'', E_lit '','']"

definition parse_param :: peg where
  "parse_param = E_star parse_pchar"

definition parse_segment :: peg where
  "parse_segment = seq [E_star parse_pchar, E_star (seq [E_lit '';'', parse_param])]"

definition parse_path_segments :: peg where
  "parse_path_segments = seq [parse_segment, E_star (seq [E_lit ''/'', parse_segment])]"

definition parse_abs_path :: peg where
  "parse_abs_path = seq [E_lit ''/'', parse_path_segments]"

definition parse_net_path :: peg where
  "parse_net_path = seq [E_lit ''//'', parse_authority, E_opt parse_abs_path]"

definition parse_uric :: peg where
  "parse_uric = alts [parse_reserved, parse_unreserved, parse_escaped]"

definition parse_query :: peg where
  "parse_query = E_star parse_uric"

definition parse_hier_part :: peg where
  "parse_hier_part = seq [alts [parse_net_path, parse_abs_path], E_opt (seq [E_lit ''?'', parse_query])]"

definition parse_uric_no_slash :: peg where
  "parse_uric_no_slash = alts [parse_unreserved, parse_escaped, E_lit '';'', E_lit ''?'', E_lit '':'',
     E_lit ''@'', E_lit ''&'', E_lit ''='', E_lit ''+'', E_lit ''$'', E_lit '','']"

definition parse_opaque_part :: peg where
  "parse_opaque_part = seq [parse_uric_no_slash, E_star parse_uric]"

definition parse_absoluteURI :: peg where
  "parse_absoluteURI = seq [parse_scheme, E_lit '':'', alts [parse_hier_part, parse_opaque_part]]"

definition parse_Request_URI :: peg where
  "parse_Request_URI = alts [parse_SIP_URI, parse_absoluteURI]"

definition parse_Request_Line :: peg where
  "parse_Request_Line = seq [parse_Method, parse_SP, parse_Request_URI, parse_SP, parse_SIP_Version]"

definition parse_Request_Response :: peg where
  "parse_Request_Response = alts [parse_Status_Line, parse_Request_Line]"

end
