(* ===== verification/Grammar_Headers.thy ===== *)
theory Grammar_Headers
  imports Grammar_Request
begin

text \<open>
  The rules for headers (lines 10562-15994 of \<open>frontend/static/js/jssip-3.10.0.js\<close>).
\<close>

definition parse_event_type :: peg where
  "parse_event_type = seq [parse_token_nodot, E_star (seq [E_lit ''.'', parse_token_nodot])]"

definition parse_Allow_Events :: peg where
  "parse_Allow_Events = seq [parse_event_type, E_star (seq [parse_COMMA, parse_event_type])]"

definition parse_Call_ID :: peg where
  "parse_Call_ID = E_act act_Call_ID [] (seq [parse_word, E_opt (seq [E_lit ''@'', parse_word])])"

definition parse_display_name :: peg where
  "parse_display_name = E_act act_display_name [Whole] (alts [seq [parse_token, E_star (seq [parse_LWS,
     parse_token])], parse_quoted_string_clean])"

definition parse_name_addr :: peg where
  "parse_name_addr = seq [E_opt parse_display_name, parse_LAQUOT, parse_SIP_URI, parse_RAQUOT]"

definition parse_qvalue :: peg where
  "parse_qvalue = E_act act_qvalue [] (seq [E_lit ''0'', E_opt (seq [E_lit ''.'', E_opt parse_DIGIT, E_opt
     parse_DIGIT, E_opt parse_DIGIT])])"

definition parse_c_p_q :: peg where
  "parse_c_p_q = E_act act_c_p_q [Nth 2] (seq [E_nocase ''q'', parse_EQUAL, parse_qvalue])"

definition parse_delta_seconds :: peg where
  "parse_delta_seconds = E_act a_int [Whole] (E_plus parse_DIGIT)"

definition parse_c_p_expires :: peg where
  "parse_c_p_expires = E_act act_c_p_expires [Nth 2] (seq [E_nocase ''expires'', parse_EQUAL,
     parse_delta_seconds])"

definition parse_gen_value :: peg where
  "parse_gen_value = alts [parse_token, parse_host, parse_quoted_string]"

definition parse_generic_param :: peg where
  "parse_generic_param = E_act (a_named ''params'') [Nth 0, Nth 1] (seq [parse_token, E_opt (seq
     [parse_EQUAL, parse_gen_value])])"

definition parse_contact_params :: peg where
  "parse_contact_params = alts [parse_c_p_q, parse_c_p_expires, parse_generic_param]"

definition parse_contact_param :: peg where
  "parse_contact_param = E_act act_multi_entry [] (seq [alts [parse_SIP_URI_noparams, parse_name_addr], E_star
     (seq [parse_SEMI, parse_contact_params])])"

definition parse_Contact :: peg where
  "parse_Contact = E_act act_multi_header [] (alts [parse_STAR, seq [parse_contact_param, E_star (seq
     [parse_COMMA, parse_contact_param])]])"

definition parse_disp_type :: peg where
  "parse_disp_type = alts [E_nocase ''render'', E_nocase ''session'', E_nocase ''icon'',
     E_nocase ''alert'', parse_token]"

definition parse_handling_param :: peg where
  "parse_handling_param = seq [E_nocase ''handling'', parse_EQUAL, alts [E_nocase ''optional'',
     E_nocase ''required'', parse_token]]"

definition parse_disp_param :: peg where
  "parse_disp_param = alts [parse_handling_param, parse_generic_param]"

definition parse_Content_Disposition :: peg where
  "parse_Content_Disposition = seq [parse_disp_type, E_star (seq [parse_SEMI, parse_disp_param])]"

definition parse_Content_Encoding :: peg where
  "parse_Content_Encoding = seq [parse_token, E_star (seq [parse_COMMA, parse_token])]"

definition parse_Content_Length :: peg where
  "parse_Content_Length = E_act act_Content_Length [Whole] (E_plus parse_DIGIT)"

definition parse_x_token :: peg where
  "parse_x_token = seq [E_nocase ''x-'', parse_token]"

definition parse_extension_token :: peg where
  "parse_extension_token = alts [parse_token, parse_x_token]"

definition parse_discrete_type :: peg where
  "parse_discrete_type = alts [E_nocase ''text'', E_nocase ''image'', E_nocase ''audio'',
     E_nocase ''video'', E_nocase ''application'', parse_extension_token]"

definition parse_composite_type :: peg where
  "parse_composite_type = alts [E_nocase ''message'', E_nocase ''multipart'', parse_extension_token]"

definition parse_m_type :: peg where
  "parse_m_type = alts [parse_discrete_type, parse_composite_type]"

definition parse_m_subtype :: peg where
  "parse_m_subtype = alts [parse_extension_token, parse_token]"

definition parse_m_value :: peg where
  "parse_m_value = alts [parse_token, parse_quoted_string]"

definition parse_m_parameter :: peg where
  "parse_m_parameter = seq [parse_token, parse_EQUAL, parse_m_value]"

definition parse_media_type :: peg where
  "parse_media_type = seq [parse_m_type, parse_SLASH, parse_m_subtype, E_star (seq [parse_SEMI,
     parse_m_parameter])]"

definition parse_Content_Type :: peg where
  "parse_Content_Type = E_act act_Content_Type [] parse_media_type"

definition parse_CSeq_value :: peg where
  "parse_CSeq_value = E_act act_CSeq_value [Whole] (E_plus parse_DIGIT)"

definition parse_CSeq :: peg where
  "parse_CSeq = seq [parse_CSeq_value, parse_LWS, parse_Method]"

definition parse_Expires :: peg where
  "parse_Expires = E_act act_Expires [Whole] parse_delta_seconds"

definition parse_Event :: peg where
  "parse_Event = E_act act_Event [Nth 0] (seq [parse_event_type, E_star (seq [parse_SEMI,
     parse_generic_param])])"

definition parse_tag_param :: peg where
  "parse_tag_param = E_act act_tag_param [Nth 2] (seq [E_nocase ''tag'', parse_EQUAL, parse_token])"

definition parse_from_param :: peg where
  "parse_from_param = alts [parse_tag_param, parse_generic_param]"

definition parse_From :: peg where
  "parse_From = E_act act_tagged [] (seq [alts [parse_SIP_URI_noparams, parse_name_addr], E_star (seq
     [parse_SEMI, parse_from_param])])"

definition parse_Max_Forwards :: peg where
  "parse_Max_Forwards = E_act act_Content_Length [Whole] (E_plus parse_DIGIT)"

definition parse_Min_Expires :: peg where
  "parse_Min_Expires = E_act act_Expires [Whole] parse_delta_seconds"

definition parse_Name_Addr_Header :: peg where
  "parse_Name_Addr_Header = E_act act_name_addr [] (seq [E_star parse_display_name, parse_LAQUOT, parse_SIP_URI,
     parse_RAQUOT, E_star (seq [parse_SEMI, parse_generic_param])])"

definition parse_realm_value :: peg where
  "parse_realm_value = E_act (a_set ''realm'' the_arg) [Whole] parse_quoted_string_clean"

definition parse_realm :: peg where
  "parse_realm = seq [E_nocase ''realm'', parse_EQUAL, parse_realm_value]"

definition parse_URI :: peg where
  "parse_URI = alts [parse_absoluteURI, parse_abs_path]"

definition parse_domain :: peg where
  "parse_domain = seq [E_nocase ''domain'', parse_EQUAL, parse_LDQUOT, parse_URI, E_star (seq [E_plus
     parse_SP, parse_URI]), parse_RDQUOT]"

definition parse_nonce_value :: peg where
  "parse_nonce_value = E_act (a_set ''nonce'' the_arg) [Whole] parse_quoted_string_clean"

definition parse_nonce :: peg where
  "parse_nonce = seq [E_nocase ''nonce'', parse_EQUAL, parse_nonce_value]"

definition parse_opaque :: peg where
  "parse_opaque = E_act (a_set ''opaque'' the_arg) [Nth 2] (seq [E_nocase ''opaque'', parse_EQUAL,
     parse_quoted_string_clean])"

definition parse_stale :: peg where
  "parse_stale = seq [E_nocase ''stale'', parse_EQUAL, alts [E_act (a_set ''stale'' (\<lambda>_. Inr
     (G_bool True))) [] (E_nocase ''true''), E_act (a_set ''stale'' (\<lambda>_. Inr (G_bool False))) []
     (E_nocase ''false'')]]"

definition parse_algorithm :: peg where
  "parse_algorithm = E_act act_algorithm [Nth 2] (seq [E_nocase ''algorithm'', parse_EQUAL, alts
     [E_nocase ''md5'', E_nocase ''md5-sess'', parse_token]])"

definition parse_qop_value :: peg where
  "parse_qop_value = E_act act_qop_value [Whole] (alts [E_nocase ''auth-int'', E_nocase ''auth'',
     parse_token])"

definition parse_qop_options :: peg where
  "parse_qop_options = seq [E_nocase ''qop'', parse_EQUAL, parse_LDQUOT, seq [parse_qop_value, E_star (seq
     [E_lit '','', parse_qop_value])], parse_RDQUOT]"

definition parse_auth_param :: peg where
  "parse_auth_param = seq [parse_token, parse_EQUAL, alts [parse_token, parse_quoted_string]]"

definition parse_digest_cln :: peg where
  "parse_digest_cln = alts [parse_realm, parse_domain, parse_nonce, parse_opaque, parse_stale, parse_algorithm,
     parse_qop_options, parse_auth_param]"

definition parse_other_challenge :: peg where
  "parse_other_challenge = seq [parse_token, parse_LWS, parse_auth_param, E_star (seq [parse_COMMA,
     parse_auth_param])]"

definition parse_challenge :: peg where
  "parse_challenge = alts [seq [E_nocase ''digest'', parse_LWS, parse_digest_cln, E_star (seq [parse_COMMA,
     parse_digest_cln])], parse_other_challenge]"

definition parse_Proxy_Authenticate :: peg where
  "parse_Proxy_Authenticate = parse_challenge"

definition parse_Proxy_Require :: peg where
  "parse_Proxy_Require = seq [parse_token, E_star (seq [parse_COMMA, parse_token])]"

definition parse_rec_route :: peg where
  "parse_rec_route = E_act act_multi_entry [] (seq [parse_name_addr, E_star (seq [parse_SEMI,
     parse_generic_param])])"

definition parse_Record_Route :: peg where
  "parse_Record_Route = E_act act_multi_header [] (seq [parse_rec_route, E_star (seq [parse_COMMA,
     parse_rec_route])])"

definition parse_reason_cause :: peg where
  "parse_reason_cause = E_act (a_set ''cause'' arg_int) [Nth 2] (seq [E_nocase ''cause'', parse_EQUAL,
     E_plus parse_DIGIT])"

definition parse_reason_param :: peg where
  "parse_reason_param = alts [parse_reason_cause, parse_generic_param]"

definition parse_Reason :: peg where
  "parse_Reason = E_act act_Reason [Nth 0] (seq [alts [E_nocase ''sip'', parse_token], E_star (seq
     [parse_SEMI, parse_reason_param])])"

definition parse_Require :: peg where
  "parse_Require = seq [parse_token, E_star (seq [parse_COMMA, parse_token])]"

definition parse_route_param :: peg where
  "parse_route_param = seq [parse_name_addr, E_star (seq [parse_SEMI, parse_generic_param])]"

definition parse_Route :: peg where
  "parse_Route = seq [parse_route_param, E_star (seq [parse_COMMA, parse_route_param])]"

definition parse_substate_value :: peg where
  "parse_substate_value = E_act (a_set ''state'' the_text) [] (alts [E_nocase ''active'',
     E_nocase ''pending'', E_nocase ''terminated'', parse_token])"

definition parse_event_reason_value :: peg where
  "parse_event_reason_value = alts [E_nocase ''deactivated'', E_nocase ''probation'',
     E_nocase ''rejected'', E_nocase ''timeout'', E_nocase ''giveup'', E_nocase ''noresource'',
     E_nocase ''invariant'', parse_token]"

definition parse_subexp_params :: peg where
  "parse_subexp_params = alts [E_act (a_set_defined ''reason'') [Nth 2] (seq [E_nocase ''reason'',
     parse_EQUAL, parse_event_reason_value]), E_act (a_set_defined ''expires'') [Nth 2] (seq
     [E_nocase ''expires'', parse_EQUAL, parse_delta_seconds]), E_act (a_set_defined ''retry_after'') [Nth
     2] (seq [E_nocase ''retry_after'', parse_EQUAL, parse_delta_seconds]), parse_generic_param]"

definition parse_Subscription_State :: peg where
  "parse_Subscription_State = seq [parse_substate_value, E_star (seq [parse_SEMI, parse_subexp_params])]"

definition parse_Subject :: peg where
  "parse_Subject = E_opt parse_TEXT_UTF8_TRIM"

definition parse_Supported :: peg where
  "parse_Supported = E_opt (seq [parse_token, E_star (seq [parse_COMMA, parse_token])])"

definition parse_to_param :: peg where
  "parse_to_param = alts [parse_tag_param, parse_generic_param]"

definition parse_To :: peg where
  "parse_To = E_act act_tagged [] (seq [alts [parse_SIP_URI_noparams, parse_name_addr], E_star (seq [parse_SEMI,
     parse_to_param])])"

definition parse_protocol_name :: peg where
  "parse_protocol_name = E_act (a_set ''protocol'' the_arg) [Whole] (alts [E_nocase ''sip'',
     parse_token])"

definition parse_transport :: peg where
  "parse_transport = E_act (a_set ''transport'' the_arg) [Whole] (alts [E_nocase ''udp'',
     E_nocase ''tcp'', E_nocase ''tls'', E_nocase ''sctp'', parse_token])"

definition parse_sent_protocol :: peg where
  "parse_sent_protocol = seq [parse_protocol_name, parse_SLASH, parse_token, parse_SLASH, parse_transport]"

definition parse_via_host :: peg where
  "parse_via_host = E_act (a_set ''host'' the_text) [] (alts [parse_IPv4address, parse_IPv6reference,
     parse_hostname])"

definition parse_via_port :: peg where
  "parse_via_port = E_act (a_set ''port'' arg_int) [Whole] (seq [E_opt parse_DIGIT, E_opt parse_DIGIT, E_opt
     parse_DIGIT, E_opt parse_DIGIT, E_opt parse_DIGIT])"

definition parse_sent_by :: peg where
  "parse_sent_by = seq [parse_via_host, E_opt (seq [parse_COLON, parse_via_port])]"

definition parse_via_ttl :: peg where
  "parse_via_ttl = E_act (a_set ''ttl'' the_arg) [Nth 2] (seq [E_nocase ''ttl'', parse_EQUAL, parse_ttl])"

definition parse_via_maddr :: peg where
  "parse_via_maddr = E_act (a_set ''maddr'' the_arg) [Nth 2] (seq [E_nocase ''maddr'', parse_EQUAL,
     parse_host])"

definition parse_via_received :: peg where
  "parse_via_received = E_act (a_set ''received'' the_arg) [Nth 2] (seq [E_nocase ''received'',
     parse_EQUAL, alts [parse_IPv4address, parse_IPv6address]])"

definition parse_via_branch :: peg where
  "parse_via_branch = E_act (a_set ''branch'' the_arg) [Nth 2] (seq [E_nocase ''branch'', parse_EQUAL,
     parse_token])"

definition parse_rport :: peg where
  "parse_rport = E_act (a_set ''rport'' arg_int) [Whole] (seq [E_opt parse_DIGIT, E_opt parse_DIGIT, E_opt
     parse_DIGIT, E_opt parse_DIGIT, E_opt parse_DIGIT])"

definition parse_response_port :: peg where
  "parse_response_port = seq [E_nocase ''rport'', E_opt (seq [parse_EQUAL, parse_rport])]"

definition parse_via_params :: peg where
  "parse_via_params = alts [parse_via_ttl, parse_via_maddr, parse_via_received, parse_via_branch,
     parse_response_port, parse_generic_param]"

definition parse_via_param :: peg where
  "parse_via_param = seq [parse_sent_protocol, parse_LWS, parse_sent_by, E_star (seq [parse_SEMI,
     parse_via_params])]"

definition parse_Via :: peg where
  "parse_Via = seq [parse_via_param, E_star (seq [parse_COMMA, parse_via_param])]"

definition parse_WWW_Authenticate :: peg where
  "parse_WWW_Authenticate = parse_challenge"

definition parse_s_e_expires :: peg where
  "parse_s_e_expires = E_act (a_set ''expires'' the_arg) [Whole] parse_delta_seconds"

definition parse_s_e_refresher :: peg where
  "parse_s_e_refresher = E_act (a_set ''refresher'' arg_lower) [Nth 2] (seq [E_nocase ''refresher'',
     parse_EQUAL, alts [E_nocase ''uac'', E_nocase ''uas'']])"

definition parse_s_e_params :: peg where
  "parse_s_e_params = alts [parse_s_e_refresher, parse_generic_param]"

definition parse_Session_Expires :: peg where
  "parse_Session_Expires = seq [parse_s_e_expires, E_star (seq [parse_SEMI, parse_s_e_params])]"

definition parse_header_value :: peg where
  "parse_header_value = E_star (alts [parse_TEXT_UTF8char, parse_UTF8_CONT, parse_LWS])"

definition parse_extension_header :: peg where
  "parse_extension_header = seq [parse_token, parse_HCOLON, parse_header_value]"

definition parse_message_body :: peg where
  "parse_message_body = E_star parse_OCTET"

definition parse_hex4 :: peg where
  "parse_hex4 = seq [parse_HEXDIG, parse_HEXDIG, parse_HEXDIG, parse_HEXDIG]"

definition parse_hex8 :: peg where
  "parse_hex8 = seq [parse_hex4, parse_hex4]"

definition parse_hex12 :: peg where
  "parse_hex12 = seq [parse_hex4, parse_hex4, parse_hex4]"

definition parse_uuid :: peg where
  "parse_uuid = E_act act_uuid [Nth 0] (seq [parse_hex8, E_lit ''-'', parse_hex4, E_lit ''-'', parse_hex4,
     E_lit ''-'', parse_hex4, E_lit ''-'', parse_hex12])"

definition parse_uuid_URI :: peg where
  "parse_uuid_URI = seq [E_lit ''uuid:'', parse_uuid]"

definition parse_Refer_To :: peg where
  "parse_Refer_To = E_act act_name_addr [] (seq [alts [parse_SIP_URI_noparams, parse_name_addr], E_star (seq
     [parse_SEMI, parse_generic_param])])"

definition parse_call_id :: peg where
  "parse_call_id = E_act (a_set ''call_id'' the_text) [] (seq [parse_word, E_opt (seq [E_lit ''@'',
     parse_word])])"

definition parse_to_tag :: peg where
  "parse_to_tag = E_act (a_set ''to_tag'' the_arg) [Nth 2] (seq [E_lit ''to-tag'', parse_EQUAL,
     parse_token])"

definition parse_from_tag :: peg where
  "parse_from_tag = E_act (a_set ''from_tag'' the_arg) [Nth 2] (seq [E_lit ''from-tag'', parse_EQUAL,
     parse_token])"

definition parse_early_flag :: peg where
  "parse_early_flag = E_act act_early_flag [] (E_lit ''early-only'')"

definition parse_replaces_param :: peg where
  "parse_replaces_param = alts [parse_to_tag, parse_from_tag, parse_early_flag, parse_generic_param]"

definition parse_Replaces :: peg where
  "parse_Replaces = seq [parse_call_id, E_star (seq [parse_SEMI, parse_replaces_param])]"

end
