(* ===== verification/Grammar.thy ===== *)
theory Grammar
  imports Grammar_Headers
begin

text \<open>
  The parser the generated grammar gives (lines 1233-16132 of \<open>frontend/static/js/jssip-3.10.0.js\<close>): the table of its
  rules and \<open>parse\<close>, with the proof that every rule ends on every input.
\<close>

definition parse_functions :: "(string \<times> peg) list" where
  "parse_functions =
     [(''CRLF'', parse_CRLF), (''DIGIT'', parse_DIGIT), (''ALPHA'', parse_ALPHA), (''HEXDIG'', parse_HEXDIG),
      (''WSP'', parse_WSP), (''OCTET'', parse_OCTET), (''DQUOTE'', parse_DQUOTE), (''SP'', parse_SP),
      (''HTAB'', parse_HTAB), (''alphanum'', parse_alphanum), (''reserved'', parse_reserved),
      (''unreserved'', parse_unreserved), (''mark'', parse_mark), (''escaped'', parse_escaped),
      (''LWS'', parse_LWS), (''SWS'', parse_SWS), (''HCOLON'', parse_HCOLON),
      (''TEXT_UTF8_TRIM'', parse_TEXT_UTF8_TRIM), (''TEXT_UTF8char'', parse_TEXT_UTF8char),
      (''UTF8_NONASCII'', parse_UTF8_NONASCII), (''UTF8_CONT'', parse_UTF8_CONT), (''LHEX'', parse_LHEX),
      (''token'', parse_token), (''token_nodot'', parse_token_nodot), (''separators'', parse_separators),
      (''word'', parse_word), (''STAR'', parse_STAR), (''SLASH'', parse_SLASH), (''EQUAL'', parse_EQUAL),
      (''LPAREN'', parse_LPAREN), (''RPAREN'', parse_RPAREN), (''RAQUOT'', parse_RAQUOT),
      (''LAQUOT'', parse_LAQUOT), (''COMMA'', parse_COMMA), (''SEMI'', parse_SEMI), (''COLON'', parse_COLON),
      (''LDQUOT'', parse_LDQUOT), (''RDQUOT'', parse_RDQUOT), (''ctext'', parse_ctext),
      (''quoted_string'', parse_quoted_string), (''quoted_string_clean'', parse_quoted_string_clean),
      (''qdtext'', parse_qdtext), (''quoted_pair'', parse_quoted_pair),
      (''SIP_URI_noparams'', parse_SIP_URI_noparams), (''SIP_URI'', parse_SIP_URI),
      (''uri_scheme'', parse_uri_scheme), (''uri_scheme_sips'', parse_uri_scheme_sips),
      (''uri_scheme_sip'', parse_uri_scheme_sip), (''userinfo'', parse_userinfo), (''user'', parse_user),
      (''user_unreserved'', parse_user_unreserved), (''password'', parse_password),
      (''hostport'', parse_hostport), (''host'', parse_host), (''hostname'', parse_hostname),
      (''domainlabel'', parse_domainlabel), (''toplabel'', parse_toplabel),
      (''IPv6reference'', parse_IPv6reference), (''IPv6address'', parse_IPv6address), (''h16'', parse_h16),
      (''ls32'', parse_ls32), (''IPv4address'', parse_IPv4address), (''dec_octet'', parse_dec_octet),
      (''port'', parse_port), (''uri_parameters'', parse_uri_parameters),
      (''uri_parameter'', parse_uri_parameter), (''transport_param'', parse_transport_param),
      (''user_param'', parse_user_param), (''method_param'', parse_method_param),
      (''ttl_param'', parse_ttl_param), (''maddr_param'', parse_maddr_param), (''lr_param'', parse_lr_param),
      (''other_param'', parse_other_param), (''pname'', parse_pname), (''pvalue'', parse_pvalue),
      (''paramchar'', parse_paramchar), (''param_unreserved'', parse_param_unreserved),
      (''headers'', parse_headers_rule), (''header'', parse_header), (''hname'', parse_hname),
      (''hvalue'', parse_hvalue), (''hnv_unreserved'', parse_hnv_unreserved),
      (''Request_Response'', parse_Request_Response), (''Request_Line'', parse_Request_Line),
      (''Request_URI'', parse_Request_URI), (''absoluteURI'', parse_absoluteURI),
      (''hier_part'', parse_hier_part), (''net_path'', parse_net_path), (''abs_path'', parse_abs_path),
      (''opaque_part'', parse_opaque_part), (''uric'', parse_uric), (''uric_no_slash'', parse_uric_no_slash),
      (''path_segments'', parse_path_segments), (''segment'', parse_segment), (''param'', parse_param),
      (''pchar'', parse_pchar), (''scheme'', parse_scheme), (''authority'', parse_authority),
      (''srvr'', parse_srvr), (''reg_name'', parse_reg_name), (''query'', parse_query),
      (''SIP_Version'', parse_SIP_Version), (''INVITEm'', parse_INVITEm), (''ACKm'', parse_ACKm),
      (''OPTIONSm'', parse_OPTIONSm), (''BYEm'', parse_BYEm), (''CANCELm'', parse_CANCELm),
      (''REGISTERm'', parse_REGISTERm), (''SUBSCRIBEm'', parse_SUBSCRIBEm), (''NOTIFYm'', parse_NOTIFYm),
      (''REFERm'', parse_REFERm), (''Method'', parse_Method), (''Status_Line'', parse_Status_Line),
      (''Status_Code'', parse_Status_Code), (''extension_code'', parse_extension_code),
      (''Reason_Phrase'', parse_Reason_Phrase), (''Allow_Events'', parse_Allow_Events),
      (''Call_ID'', parse_Call_ID), (''Contact'', parse_Contact), (''contact_param'', parse_contact_param),
      (''name_addr'', parse_name_addr), (''display_name'', parse_display_name),
      (''contact_params'', parse_contact_params), (''c_p_q'', parse_c_p_q), (''c_p_expires'', parse_c_p_expires),
      (''delta_seconds'', parse_delta_seconds), (''qvalue'', parse_qvalue),
      (''generic_param'', parse_generic_param), (''gen_value'', parse_gen_value),
      (''Content_Disposition'', parse_Content_Disposition), (''disp_type'', parse_disp_type),
      (''disp_param'', parse_disp_param), (''handling_param'', parse_handling_param),
      (''Content_Encoding'', parse_Content_Encoding), (''Content_Length'', parse_Content_Length),
      (''Content_Type'', parse_Content_Type), (''media_type'', parse_media_type), (''m_type'', parse_m_type),
      (''discrete_type'', parse_discrete_type), (''composite_type'', parse_composite_type),
      (''extension_token'', parse_extension_token), (''x_token'', parse_x_token),
      (''m_subtype'', parse_m_subtype), (''m_parameter'', parse_m_parameter), (''m_value'', parse_m_value),
      (''CSeq'', parse_CSeq), (''CSeq_value'', parse_CSeq_value), (''Expires'', parse_Expires),
      (''Event'', parse_Event), (''event_type'', parse_event_type), (''From'', parse_From),
      (''from_param'', parse_from_param), (''tag_param'', parse_tag_param),
      (''Max_Forwards'', parse_Max_Forwards), (''Min_Expires'', parse_Min_Expires),
      (''Name_Addr_Header'', parse_Name_Addr_Header), (''Proxy_Authenticate'', parse_Proxy_Authenticate),
      (''challenge'', parse_challenge), (''other_challenge'', parse_other_challenge),
      (''auth_param'', parse_auth_param), (''digest_cln'', parse_digest_cln), (''realm'', parse_realm),
      (''realm_value'', parse_realm_value), (''domain'', parse_domain), (''URI'', parse_URI),
      (''nonce'', parse_nonce), (''nonce_value'', parse_nonce_value), (''opaque'', parse_opaque),
      (''stale'', parse_stale), (''algorithm'', parse_algorithm), (''qop_options'', parse_qop_options),
      (''qop_value'', parse_qop_value), (''Proxy_Require'', parse_Proxy_Require),
      (''Record_Route'', parse_Record_Route), (''rec_route'', parse_rec_route), (''Reason'', parse_Reason),
      (''reason_param'', parse_reason_param), (''reason_cause'', parse_reason_cause),
      (''Require'', parse_Require), (''Route'', parse_Route), (''route_param'', parse_route_param),
      (''Subscription_State'', parse_Subscription_State), (''substate_value'', parse_substate_value),
      (''subexp_params'', parse_subexp_params), (''event_reason_value'', parse_event_reason_value),
      (''Subject'', parse_Subject), (''Supported'', parse_Supported), (''To'', parse_To),
      (''to_param'', parse_to_param), (''Via'', parse_Via), (''via_param'', parse_via_param),
      (''via_params'', parse_via_params), (''via_ttl'', parse_via_ttl), (''via_maddr'', parse_via_maddr),
      (''via_received'', parse_via_received), (''via_branch'', parse_via_branch),
      (''response_port'', parse_response_port), (''rport'', parse_rport),
      (''sent_protocol'', parse_sent_protocol), (''protocol_name'', parse_protocol_name),
      (''transport'', parse_transport), (''sent_by'', parse_sent_by), (''via_host'', parse_via_host),
      (''via_port'', parse_via_port), (''ttl'', parse_ttl), (''WWW_Authenticate'', parse_WWW_Authenticate),
      (''Session_Expires'', parse_Session_Expires), (''s_e_expires'', parse_s_e_expires),
      (''s_e_params'', parse_s_e_params), (''s_e_refresher'', parse_s_e_refresher),
      (''extension_header'', parse_extension_header), (''header_value'', parse_header_value),
      (''message_body'', parse_message_body), (''uuid_URI'', parse_uuid_URI), (''uuid'', parse_uuid),
      (''hex4'', parse_hex4), (''hex8'', parse_hex8), (''hex12'', parse_hex12), (''Refer_To'', parse_Refer_To),
      (''Replaces'', parse_Replaces), (''call_id'', parse_call_id), (''replaces_param'', parse_replaces_param),
      (''to_tag'', parse_to_tag), (''from_tag'', parse_from_tag), (''early_flag'', parse_early_flag)]"

text \<open>
  \<open>parse(input, startRule)\<close>: \<open>data\<close> when the rule matched the whole input, and -1 otherwise; an unknown rule and an
  action may throw.  \<open>None\<close> would be a call that never returns.  (The rule \<open>comment\<close> is not in the table.)
\<close>

definition grammar_parse :: "string \<Rightarrow> string \<Rightarrow> (js_error + gval) option" where
  "grammar_parse start input =
     (case map_of parse_functions start of
        None \<Rightarrow> Some (Inl (PlainError (''Invalid rule name: \"'' @ start @ ''\".'')))
      | Some p \<Rightarrow>
          (case peg_run start p input 0 (G_obj []) of
             Done v s n d \<Rightarrow> Some (Inr (if s = [] then d else minus_one))
           | Fail d \<Rightarrow> Some (Inr minus_one)
           | Raise e \<Rightarrow> Some (Inl e)
           | Loop \<Rightarrow> None))"

section \<open>Every rule ends\<close>

abbreviation consuming :: "peg \<Rightarrow> bool" where
  "consuming p \<equiv> peg_ok p \<and> \<not> nullable p"

text \<open>The rules by the depth of their references.\<close>

lemma level_0:
  "list_all consuming [parse_CRLF, parse_DIGIT, parse_ALPHA, parse_HEXDIG, parse_OCTET, parse_DQUOTE, parse_SP,
    parse_HTAB, parse_alphanum, parse_reserved, parse_mark, parse_UTF8_NONASCII, parse_UTF8_CONT, parse_quoted_pair,
    parse_uri_scheme_sips, parse_uri_scheme_sip, parse_user_unreserved, parse_param_unreserved, parse_hnv_unreserved,
    parse_INVITEm, parse_ACKm, parse_OPTIONSm, parse_BYEm, parse_CANCELm, parse_REGISTERm, parse_SUBSCRIBEm,
    parse_NOTIFYm, parse_REFERm, parse_early_flag]"
  by (simp_all add: parse_CRLF_def parse_DIGIT_def parse_ALPHA_def parse_HEXDIG_def parse_OCTET_def parse_DQUOTE_def
    parse_SP_def parse_HTAB_def parse_alphanum_def parse_reserved_def parse_mark_def parse_UTF8_NONASCII_def
    parse_UTF8_CONT_def parse_quoted_pair_def parse_uri_scheme_sips_def parse_uri_scheme_sip_def
    parse_user_unreserved_def parse_param_unreserved_def parse_hnv_unreserved_def parse_INVITEm_def parse_ACKm_def
    parse_OPTIONSm_def parse_BYEm_def parse_CANCELm_def parse_REGISTERm_def parse_SUBSCRIBEm_def parse_NOTIFYm_def
    parse_REFERm_def parse_early_flag_def)

lemmas level_0_facts [simp] = level_0 [simplified]

lemma level_1:
  "list_all consuming [parse_WSP, parse_unreserved, parse_escaped, parse_TEXT_UTF8char, parse_LHEX, parse_token,
    parse_token_nodot, parse_separators, parse_word, parse_uri_scheme, parse_domainlabel, parse_toplabel, parse_h16,
    parse_dec_octet, parse_scheme, parse_SIP_Version, parse_extension_code, parse_delta_seconds, parse_qvalue,
    parse_Content_Length, parse_CSeq_value, parse_Max_Forwards, parse_ttl, parse_hex4]" "list_all peg_ok [parse_port,
    parse_rport, parse_via_port, parse_message_body]"
  by (simp_all add: parse_WSP_def parse_unreserved_def parse_escaped_def parse_TEXT_UTF8char_def parse_LHEX_def
    parse_token_def parse_token_nodot_def parse_separators_def parse_word_def parse_uri_scheme_def
    parse_domainlabel_def parse_toplabel_def parse_h16_def parse_dec_octet_def parse_port_def parse_scheme_def
    parse_SIP_Version_def parse_extension_code_def parse_delta_seconds_def parse_qvalue_def parse_Content_Length_def
    parse_CSeq_value_def parse_Max_Forwards_def parse_rport_def parse_via_port_def parse_ttl_def
    parse_message_body_def parse_hex4_def token_char_def token_nodot_char_def word_char_def)

lemmas level_1_facts [simp] = level_1 [simplified]

lemma level_2:
  "list_all consuming [parse_LWS, parse_user, parse_hostname, parse_IPv4address, parse_transport_param,
    parse_user_param, parse_ttl_param, parse_lr_param, parse_paramchar, parse_hname, parse_uric, parse_uric_no_slash,
    parse_pchar, parse_reg_name, parse_Method, parse_Status_Code, parse_Call_ID, parse_disp_type, parse_x_token,
    parse_Expires, parse_event_type, parse_Min_Expires, parse_qop_value, parse_substate_value,
    parse_event_reason_value, parse_protocol_name, parse_transport, parse_s_e_expires, parse_hex8, parse_hex12,
    parse_call_id]" "list_all peg_ok [parse_password, parse_hvalue, parse_Reason_Phrase]"
  by (simp_all add: parse_LWS_def parse_user_def parse_password_def parse_hostname_def parse_IPv4address_def
    parse_transport_param_def parse_user_param_def parse_ttl_param_def parse_lr_param_def parse_paramchar_def
    parse_hname_def parse_hvalue_def parse_uric_def parse_uric_no_slash_def parse_pchar_def parse_reg_name_def
    parse_Method_def parse_Status_Code_def parse_Reason_Phrase_def parse_Call_ID_def parse_disp_type_def
    parse_x_token_def parse_Expires_def parse_event_type_def parse_Min_Expires_def parse_qop_value_def
    parse_substate_value_def parse_event_reason_value_def parse_protocol_name_def parse_transport_def
    parse_s_e_expires_def parse_hex8_def parse_hex12_def parse_call_id_def reg_name_char_def)

lemmas level_2_facts [simp] = level_2 [simplified]

lemma level_3:
  "list_all consuming [parse_TEXT_UTF8_TRIM, parse_ctext, parse_qdtext, parse_userinfo, parse_ls32,
    parse_method_param, parse_pname, parse_pvalue, parse_header, parse_opaque_part, parse_Status_Line,
    parse_extension_token, parse_CSeq, parse_uuid]" "list_all peg_ok [parse_SWS, parse_param, parse_query,
    parse_header_value]"
  by (simp_all add: parse_SWS_def parse_TEXT_UTF8_TRIM_def parse_ctext_def parse_qdtext_def parse_userinfo_def
    parse_ls32_def parse_method_param_def parse_pname_def parse_pvalue_def parse_header_def parse_opaque_part_def
    parse_param_def parse_query_def parse_Status_Line_def parse_extension_token_def parse_CSeq_def
    parse_header_value_def parse_uuid_def)

lemmas level_3_facts [simp] = level_3 [simplified]

lemma level_4:
  "list_all consuming [parse_HCOLON, parse_STAR, parse_SLASH, parse_EQUAL, parse_LPAREN, parse_RPAREN, parse_RAQUOT,
    parse_LAQUOT, parse_COMMA, parse_SEMI, parse_COLON, parse_LDQUOT, parse_RDQUOT, parse_quoted_string,
    parse_quoted_string_clean, parse_IPv6address, parse_other_param, parse_headers_rule, parse_discrete_type,
    parse_composite_type, parse_m_subtype, parse_uuid_URI]" "list_all peg_ok [parse_segment, parse_Subject]"
  by (simp_all add: parse_HCOLON_def parse_STAR_def parse_SLASH_def parse_EQUAL_def parse_LPAREN_def parse_RPAREN_def
    parse_RAQUOT_def parse_LAQUOT_def parse_COMMA_def parse_SEMI_def parse_COLON_def parse_LDQUOT_def parse_RDQUOT_def
    parse_quoted_string_def parse_quoted_string_clean_def parse_IPv6address_def parse_other_param_def
    parse_headers_rule_def parse_segment_def parse_discrete_type_def parse_composite_type_def parse_m_subtype_def
    parse_Subject_def parse_uuid_URI_def IPv6_form1_def IPv6_form2_def IPv6_form3_def IPv6_form4_def IPv6_form5_def
    IPv6_form6_def IPv6_form7_def IPv6_form8_def IPv6_form9_def IPv6_form10_def IPv6_form11_def IPv6_form12_def
    IPv6_form13_def IPv6_form14_def IPv6_form15_def)

lemmas level_4_facts [simp] = level_4 [simplified]

lemma level_5:
  "list_all consuming [parse_IPv6reference, parse_Allow_Events, parse_display_name, parse_c_p_q, parse_c_p_expires,
    parse_handling_param, parse_Content_Encoding, parse_m_type, parse_m_value, parse_tag_param, parse_auth_param,
    parse_realm_value, parse_nonce_value, parse_opaque, parse_stale, parse_algorithm, parse_qop_options,
    parse_Proxy_Require, parse_reason_cause, parse_Require, parse_via_ttl, parse_via_received, parse_via_branch,
    parse_response_port, parse_sent_protocol, parse_s_e_refresher, parse_extension_header, parse_to_tag,
    parse_from_tag]" "list_all peg_ok [parse_path_segments, parse_Supported]"
  by (simp_all add: parse_IPv6reference_def parse_path_segments_def parse_Allow_Events_def parse_display_name_def
    parse_c_p_q_def parse_c_p_expires_def parse_handling_param_def parse_Content_Encoding_def parse_m_type_def
    parse_m_value_def parse_tag_param_def parse_auth_param_def parse_realm_value_def parse_nonce_value_def
    parse_opaque_def parse_stale_def parse_algorithm_def parse_qop_options_def parse_Proxy_Require_def
    parse_reason_cause_def parse_Require_def parse_Supported_def parse_via_ttl_def parse_via_received_def
    parse_via_branch_def parse_response_port_def parse_sent_protocol_def parse_s_e_refresher_def
    parse_extension_header_def parse_to_tag_def parse_from_tag_def)

lemmas level_5_facts [simp] = level_5 [simplified]

lemma level_6:
  "list_all consuming [parse_host, parse_abs_path, parse_m_parameter, parse_other_challenge, parse_realm, parse_nonce,
    parse_via_host]"
  by (simp_all add: parse_host_def parse_abs_path_def parse_m_parameter_def parse_other_challenge_def parse_realm_def
    parse_nonce_def parse_via_host_def)

lemmas level_6_facts [simp] = level_6 [simplified]

lemma level_7:
  "list_all consuming [parse_hostport, parse_maddr_param, parse_gen_value, parse_media_type, parse_via_maddr,
    parse_sent_by]"
  by (simp_all add: parse_hostport_def parse_maddr_param_def parse_gen_value_def parse_media_type_def
    parse_via_maddr_def parse_sent_by_def)

lemmas level_7_facts [simp] = level_7 [simplified]

lemma level_8:
  "list_all consuming [parse_SIP_URI_noparams, parse_uri_parameter, parse_generic_param, parse_Content_Type]"
    "list_all peg_ok [parse_srvr]"
  by (simp_all add: parse_SIP_URI_noparams_def parse_uri_parameter_def parse_srvr_def parse_generic_param_def
    parse_Content_Type_def)

lemmas level_8_facts [simp] = level_8 [simplified]

lemma level_9:
  "list_all consuming [parse_contact_params, parse_disp_param, parse_Event, parse_from_param, parse_reason_param,
    parse_subexp_params, parse_to_param, parse_via_params, parse_s_e_params, parse_replaces_param]" "list_all peg_ok
    [parse_uri_parameters, parse_authority]"
  by (simp_all add: parse_uri_parameters_def parse_authority_def parse_contact_params_def parse_disp_param_def
    parse_Event_def parse_from_param_def parse_reason_param_def parse_subexp_params_def parse_to_param_def
    parse_via_params_def parse_s_e_params_def parse_replaces_param_def)

lemmas level_9_facts [simp] = level_9 [simplified]

lemma level_10:
  "list_all consuming [parse_SIP_URI, parse_net_path, parse_Content_Disposition, parse_Reason,
    parse_Subscription_State, parse_via_param, parse_Session_Expires, parse_Replaces]"
  by (simp_all add: parse_SIP_URI_def parse_net_path_def parse_Content_Disposition_def parse_Reason_def
    parse_Subscription_State_def parse_via_param_def parse_Session_Expires_def parse_Replaces_def)

lemmas level_10_facts [simp] = level_10 [simplified]

lemma level_11:
  "list_all consuming [parse_hier_part, parse_name_addr, parse_Name_Addr_Header, parse_Via]"
  by (simp_all add: parse_hier_part_def parse_name_addr_def parse_Name_Addr_Header_def parse_Via_def)

lemmas level_11_facts [simp] = level_11 [simplified]

lemma level_12:
  "list_all consuming [parse_absoluteURI, parse_contact_param, parse_From, parse_rec_route, parse_route_param,
    parse_To, parse_Refer_To]"
  by (simp_all add: parse_absoluteURI_def parse_contact_param_def parse_From_def parse_rec_route_def
    parse_route_param_def parse_To_def parse_Refer_To_def)

lemmas level_12_facts [simp] = level_12 [simplified]

lemma level_13:
  "list_all consuming [parse_Request_URI, parse_Contact, parse_URI, parse_Record_Route, parse_Route]"
  by (simp_all add: parse_Request_URI_def parse_Contact_def parse_URI_def parse_Record_Route_def parse_Route_def)

lemmas level_13_facts [simp] = level_13 [simplified]

lemma level_14:
  "list_all consuming [parse_Request_Line, parse_domain]"
  by (simp_all add: parse_Request_Line_def parse_domain_def)

lemmas level_14_facts [simp] = level_14 [simplified]

lemma level_15:
  "list_all consuming [parse_Request_Response, parse_digest_cln]"
  by (simp_all add: parse_Request_Response_def parse_digest_cln_def)

lemmas level_15_facts [simp] = level_15 [simplified]

lemma level_16:
  "list_all consuming [parse_challenge]"
  by (simp_all add: parse_challenge_def)

lemmas level_16_facts [simp] = level_16 [simplified]

lemma level_17:
  "list_all consuming [parse_Proxy_Authenticate, parse_WWW_Authenticate]"
  by (simp_all add: parse_Proxy_Authenticate_def parse_WWW_Authenticate_def)

lemmas level_17_facts [simp] = level_17 [simplified]

lemma rules_ok: "list_all (\<lambda>(k, p). peg_ok p) parse_functions"
  by (simp add: parse_functions_def)

lemma parse_returns: "\<exists>r. grammar_parse start input = Some r"
proof (cases "map_of parse_functions start")
  case (Some p)
  then have "(start, p) \<in> set parse_functions" by (rule map_of_SomeD)
  then have "peg_ok p" using rules_ok by (auto simp: list_all_iff)
  from peg_run_ends [OF this] Some show ?thesis by (simp add: grammar_parse_def split: outcome.split)
qed (simp add: grammar_parse_def)


end
