(* ===== verification/Grammar_Read.thy ===== *)
theory Grammar_Read
  imports Grammar
begin

text \<open>
  What the generated parser reads: rules that read one character as classes, repetitions over them, and from these the
  headers that are numbers, \<open>CSeq\<close>, and URIs as \<open>URI.toString\<close> prints them.
\<close>

section \<open>Rules for one character\<close>

definition reads_char :: "peg \<Rightarrow> (char \<Rightarrow> bool) \<Rightarrow> bool" where
  "reads_char p C \<longleftrightarrow>
     (\<forall>st s n d. peg_run st p s n d =
        (case s of [] \<Rightarrow> Fail d | c # s' \<Rightarrow> if C c then Done (G_str [c]) s' (Suc n) d else Fail d))"

lemma reads_charD:
  assumes "reads_char p C"
  shows "C c \<Longrightarrow> peg_run st p (c # s) n d = Done (G_str [c]) s (Suc n) d"
    and "\<not> C c \<Longrightarrow> peg_run st p (c # s) n d = Fail d"
    and "peg_run st p [] n d = Fail d"
  using assms by (simp_all add: reads_char_def)

lemma reads_char_class: "reads_char (E_class C) C"
  by (simp add: reads_char_def)

lemma reads_char_lit: "reads_char (E_lit [c]) (\<lambda>x. x = c)"
  by (auto simp: reads_char_def split: list.split)

lemma reads_char_or: "reads_char p A \<Longrightarrow> reads_char q B \<Longrightarrow> reads_char (E_or p q) (\<lambda>x. A x \<or> B x)"
  by (auto simp: reads_char_def split: list.split)

lemma reads_char_cong:
  assumes "reads_char p A" "\<And>c. A c = B c"
  shows "reads_char p B"
proof -
  have "A = B" using assms(2) by (rule ext)
  with assms(1) show ?thesis by simp
qed

lemmas reads_char_rules = reads_char_class reads_char_lit reads_char_or

definition alnum :: "char \<Rightarrow> bool" where
  "alnum c \<longleftrightarrow> in_range 97 122 c \<or> in_range 65 90 c \<or> in_range 48 57 c"

definition mark :: "char \<Rightarrow> bool" where
  "mark c \<longleftrightarrow> char_code c \<in> {45, 95, 46, 33, 126, 42, 39, 40, 41}"

lemma char_is: "n < 256 \<Longrightarrow> c = char_of n \<longleftrightarrow> char_code c = n"
  by (metis char_code_inj char_code_of)

lemma sign_codes:
  "char_code CHR ''-'' = 45" "char_code CHR ''_'' = 95" "char_code CHR ''.'' = 46" "char_code CHR ''!'' = 33"
  "char_code CHR ''~'' = 126" "char_code CHR ''*'' = 42" "char_code CHR 0x27 = 39" "char_code CHR ''('' = 40"
  "char_code CHR '')'' = 41" "char_code CHR ''%'' = 37" "char_code CHR ''+'' = 43" "char_code CHR 0x60 = 96"
  "char_code CHR '':'' = 58" "char_code CHR ''@'' = 64" "char_code CHR '';'' = 59" "char_code CHR ''?'' = 63"
  "char_code CHR '' '' = 32" "char_code CHR 0x09 = 9" "char_code CHR 0x0D = 13" "char_code CHR 0x0A = 10"
  "char_code CHR ''&'' = 38" "char_code CHR ''='' = 61" "char_code CHR ''$'' = 36" "char_code CHR '','' = 44"
  "char_code CHR ''/'' = 47" "char_code CHR ''['' = 91"
  by (simp_all add: char_code_def)

lemma char_eq_code: "c = d \<longleftrightarrow> char_code c = char_code d"
  by simp

lemma alphanum_char: "reads_char parse_alphanum alnum"
  by (rule reads_char_cong) (unfold parse_alphanum_def, rule reads_char_class, simp add: alnum_def)

lemma mark_char: "reads_char parse_mark mark"
  by (rule reads_char_cong, unfold parse_mark_def alts.simps, (rule reads_char_rules)+)
    (simp only: mark_def char_eq_code sign_codes insert_iff empty_iff simp_thms)

lemma unreserved_char: "reads_char parse_unreserved uri_unreserved"
  by (rule reads_char_cong, unfold parse_unreserved_def alts.simps, rule reads_char_or [OF alphanum_char mark_char])
    (auto simp: alnum_def mark_def uri_unreserved_def in_range_def Let_def)

definition token_code :: "char \<Rightarrow> bool" where
  "token_code c \<longleftrightarrow> alnum c \<or> char_code c \<in> {45, 46, 33, 37, 42, 95, 43, 96, 39, 126}"

lemma token_char_reads: "reads_char token_char token_code"
  by (rule reads_char_cong, unfold token_char_def alts.simps, (rule alphanum_char reads_char_rules)+)
    (simp only: token_code_def char_eq_code sign_codes insert_iff empty_iff simp_thms)

lemma digit_char: "reads_char parse_DIGIT is_digit"
  by (rule reads_char_cong, unfold parse_DIGIT_def, rule reads_char_class) (simp add: in_range_def is_digit_def)

section \<open>Repetition\<close>

abbreviation chars :: "string \<Rightarrow> gval list" where
  "chars w \<equiv> map (\<lambda>c. G_str [c]) w"

lemma repeat_chars:
  assumes "\<And>c s n d. c \<in> set w \<Longrightarrow> f (c # s) n d = Done (G_str [c]) s (Suc n) d" "\<And>n d. f t n d = Fail d"
  shows "repeat f acc (w @ t) n d = Done (G_list (acc @ chars w)) t (n + length w) d"
  using assms(1)
proof (induction w arbitrary: acc n)
  case Nil
  then show ?case by (simp add: repeat.simps [of f acc] assms(2))
next
  case (Cons c w)
  then show ?case by (simp add: repeat.simps [of f acc])
qed

text \<open>The text after a run of characters does not begin with one of them.\<close>

definition stops :: "(char \<Rightarrow> bool) \<Rightarrow> string \<Rightarrow> bool" where
  "stops C t \<longleftrightarrow> (case t of [] \<Rightarrow> True | c # _ \<Rightarrow> \<not> C c)"

lemma stops_simps [simp]: "stops C []" "stops C (c # t) \<longleftrightarrow> \<not> C c"
  by (simp_all add: stops_def)

lemma reads_char_stops: "reads_char p C \<Longrightarrow> stops C t \<Longrightarrow> peg_run st p t n d = Fail d"
  by (cases t) (simp_all add: reads_charD)

lemma star_chars:
  assumes "reads_char p C" "list_all C w" "stops C t"
  shows "peg_run st (E_star p) (w @ t) n d = Done (G_list (chars w)) t (n + length w) d"
  using repeat_chars [of w "peg_run st p" t "[]" n d] assms
  by (simp add: list_all_iff reads_charD reads_char_stops)

lemma plus_chars:
  assumes "reads_char p C" "list_all C w" "w \<noteq> []" "stops C t"
  shows "peg_run st (E_plus p) (w @ t) n d = Done (G_list (chars w)) t (n + length w) d"
proof -
  obtain c v where w: "w = c # v" using assms(3) by (cases w) auto
  with assms repeat_chars [of v "peg_run st p" t "[G_str [c]]" "Suc n" d]
  show ?thesis by (simp add: list_all_iff reads_charD reads_char_stops)
qed

lemma plus_chars_fail: "reads_char p C \<Longrightarrow> stops C t \<Longrightarrow> peg_run st (E_plus p) t n d = Fail d"
  by (simp add: reads_char_stops)

lemma join_chars [simp]: "g_join (G_list (chars w)) = Inr w"
  by (induction w) simp_all

declare g_join.simps [simp del]

section \<open>Numbers\<close>

lemma digit_cases: "is_digit c \<Longrightarrow> c \<in> set ''0123456789''"
proof -
  assume "is_digit c"
  then have "char_code c \<in> set [48..<58]"
    by (simp only: set_upt atLeastLessThan_iff) (simp add: is_digit_def)
  moreover have "list_all (\<lambda>k. (char_of k :: char) \<in> set ''0123456789'') [48..<58]" by code_simp
  ultimately have "(char_of (char_code c) :: char) \<in> set ''0123456789''" by (simp only: list_all_iff)
  then show ?thesis by (simp add: char_code_def)
qed

lemma split_sign_digit: "is_digit c \<Longrightarrow> split_sign (c # t) = (False, c # t)"
  by (drule digit_cases) (auto simp: split_sign_def)

lemma parse_int10_num_str: "parse_int10 (num_str n) = Num (real n)"
proof -
  have d: "list_all is_digit (num_str n)" using num_str_digits [of n] by (simp add: all_digits_def)
  obtain c t where s: "num_str n = c # t" by (cases "num_str n") auto
  with d have c: "is_digit c" by simp
  have sp: "split_sign (c # t) = (False, c # t)" by (rule split_sign_digit [OF c])
  have tw: "takeWhile is_digit t = t" using d by (simp add: s list_all_iff takeWhile_eq_all_conv [THEN iffD2])
  have v: "value_in 10 (c # t) = n" by (simp add: s [symmetric] num_str_def value_digits_in)
  show ?thesis using c digit_not_space [OF c] by (simp add: parse_int10_def s sp tw v)
qed

lemma digits_of: "list_all is_digit (num_str n)"
  using num_str_digits [of n] by (simp add: all_digits_def)

lemma digits_read:
  assumes "stops is_digit t"
  shows "peg_run st (E_plus parse_DIGIT) (num_str k @ t) n d = Done (G_list (chars (num_str k))) t (n + length (num_str k)) d"
  by (rule plus_chars [OF digit_char digits_of _ assms]) simp

lemma join_int_chars [simp]: "join_int (G_list (chars (num_str k))) = Inr (G_num (Num (real k)))"
  by (simp add: join_int_def parse_int10_num_str)

lemma delta_seconds_read:
  assumes "stops is_digit t"
  shows "peg_run st parse_delta_seconds (num_str k @ t) n d = Done (G_num (Num (real k))) t (n + length (num_str k)) d"
  using digits_read [OF assms, of st k n d]
  by (simp add: parse_delta_seconds_def perform_def a_int_def a_return_def)

lemma map_of_hit: "map_of ((k, v) # ps) k = Some v"
  by simp

lemma map_of_skip: "l \<noteq> k \<Longrightarrow> map_of ps k = r \<Longrightarrow> map_of ((l, v) # ps) k = r"
  by simp

lemma rule_found:
  "map_of parse_functions ''Content_Length'' = Some parse_Content_Length"
  "map_of parse_functions ''Max_Forwards'' = Some parse_Max_Forwards"
  "map_of parse_functions ''Expires'' = Some parse_Expires"
  "map_of parse_functions ''Min_Expires'' = Some parse_Min_Expires"
  "map_of parse_functions ''CSeq'' = Some parse_CSeq"
  "map_of parse_functions ''SIP_URI'' = Some parse_SIP_URI"
  "map_of parse_functions ''Contact'' = Some parse_Contact"
  by (unfold parse_functions_def, (rule map_of_hit | (rule map_of_skip, simp))+)

text \<open>The headers that are numbers are read as the number that was printed, however large it is.\<close>

lemma number_header_read:
  assumes "header \<in> {''Content_Length'', ''Max_Forwards'', ''Expires'', ''Min_Expires''}"
  shows "grammar_parse header (num_str k) = Some (Inr (G_num (Num (real k))))"
proof -
  have "peg_run header parse_Content_Length (num_str k) 0 (G_obj []) = Done G_undefined [] (length (num_str k)) (G_num (Num (real k)))"
    "peg_run header parse_Max_Forwards (num_str k) 0 (G_obj []) = Done G_undefined [] (length (num_str k)) (G_num (Num (real k)))"
    using digits_read [of "[]" header k 0 "G_obj []"]
    by (simp_all add: parse_Content_Length_def parse_Max_Forwards_def perform_def act_Content_Length_def a_data_def arg_int_def)
  moreover have "peg_run header parse_Expires (num_str k) 0 (G_obj []) = Done G_undefined [] (length (num_str k)) (G_num (Num (real k)))"
    "peg_run header parse_Min_Expires (num_str k) 0 (G_obj []) = Done G_undefined [] (length (num_str k)) (G_num (Num (real k)))"
    using delta_seconds_read [of "[]" header k 0 "G_obj []"]
    by (simp_all add: parse_Expires_def parse_Min_Expires_def perform_def act_Expires_def a_data_def the_arg_def)
  ultimately show ?thesis using assms rule_found by (auto simp: grammar_parse_def)
qed

lemma number_header_read_witness:
  "grammar_parse ''Content_Length'' (num_str 142) = Some (Inr (G_num (Num (real 142))))"
  by (rule number_header_read) simp

section \<open>\<open>CSeq\<close>\<close>

lemma alts_lits:
  "peg_run st (alts (map E_lit ks @ [q])) s n d =
    (case find (\<lambda>k. starts_with k s) ks of
       Some k \<Rightarrow> Done (G_str k) (drop (length k) s) (n + length k) d
     | None \<Rightarrow> peg_run st q s n d)"
proof (induction ks)
  case (Cons k ks)
  have "alts (map E_lit (k # ks) @ [q]) = E_or (E_lit k) (alts (map E_lit ks @ [q]))" by (cases ks) simp_all
  with Cons show ?case by (simp split: option.split)
qed simp

definition method_names :: "string list" where
  "method_names = [''INVITE'', ''ACK'', ''OPTIONS'', ''BYE'', ''CANCEL'', ''REGISTER'', ''SUBSCRIBE'', ''NOTIFY'', ''REFER'']"

text \<open>What the rule reads of a method: the known name it begins with, if there is one.\<close>

definition cut_method :: "string \<Rightarrow> string" where
  "cut_method m = (case find (\<lambda>k. starts_with k m) method_names of Some k \<Rightarrow> k | None \<Rightarrow> m)"

lemma Method_alts: "parse_Method = E_act act_Method [] (alts (map E_lit method_names @ [parse_token]))"
  by (simp add: parse_Method_def method_names_def parse_INVITEm_def parse_ACKm_def parse_OPTIONSm_def parse_BYEm_def
      parse_CANCELm_def parse_REGISTERm_def parse_SUBSCRIBEm_def parse_NOTIFYm_def parse_REFERm_def)

lemma token_read:
  assumes "list_all token_code w" "w \<noteq> []" "stops token_code t"
  shows "peg_run st parse_token (w @ t) n d = Done (G_str w) t (n + length w) d"
  using plus_chars [OF token_char_reads assms, of st n d]
  by (simp add: parse_token_def perform_def a_text_def a_return_def)

lemma starts_with_token:
  assumes "list_all token_code k" "stops token_code t"
  shows "starts_with k (m @ t) = starts_with k m"
  using assms(1)
proof (induction k m rule: starts_with.induct)
  case (2 p ps)
  then show ?case using assms(2) by (cases t) auto
qed simp_all

lemma method_names_tokens: "k \<in> set method_names \<Longrightarrow> list_all token_code k \<and> k \<noteq> []"
  by (auto simp: method_names_def token_code_def alnum_def in_range_def char_code_def)

lemma Method_read:
  assumes "list_all token_code m" "m \<noteq> []" "stops token_code t"
  shows "peg_run st parse_Method (m @ t) n (G_obj ob) =
    Done (G_str (cut_method m)) (drop (length (cut_method m)) m @ t) (n + length (cut_method m))
      (G_obj (obj_put ''method'' (G_str (cut_method m)) ob))"
proof -
  have "find (\<lambda>k. starts_with k (m @ t)) ks = find (\<lambda>k. starts_with k m) ks" if "set ks \<subseteq> set method_names" for ks
    using that starts_with_token [OF _ assms(3)] method_names_tokens by (induction ks) auto
  then have f: "find (\<lambda>k. starts_with k (m @ t)) method_names = find (\<lambda>k. starts_with k m) method_names" by simp
  show ?thesis
  proof (cases "find (\<lambda>k. starts_with k m) method_names")
    case None
    with f token_read [OF assms, of st n "G_obj ob"] show ?thesis
      by (simp add: Method_alts alts_lits perform_def act_Method_def cut_method_def Let_def)
  next
    case (Some k)
    then have "starts_with k m" by (auto simp: find_Some_iff)
    then obtain r where "m = k @ r" by (auto simp: starts_with_iff)
    with f Some show ?thesis by (simp add: Method_alts alts_lits perform_def act_Method_def cut_method_def Let_def)
  qed
qed

definition wsp :: "char \<Rightarrow> bool" where
  "wsp c \<longleftrightarrow> c = CHR '' '' \<or> c = CHR 0x09"

lemma WSP_char: "reads_char parse_WSP wsp"
  by (rule reads_char_cong, unfold parse_WSP_def parse_SP_def parse_HTAB_def alts.simps, (rule reads_char_rules)+)
    (simp add: wsp_def)

lemma LWS_read:
  assumes "stops wsp t" "stops (\<lambda>c. c = CHR 0x0D) t"
  shows "peg_run st parse_LWS (CHR '' '' # t) n d = Done (G_str '' '') t (Suc n) d"
proof -
  have "peg_run st (E_star parse_WSP) ('' '' @ t) n d = Done (G_list (chars '' '')) t (n + length '' '') d"
    by (rule star_chars [OF WSP_char _ assms(1)]) (simp add: wsp_def)
  moreover have "peg_run st (E_plus parse_WSP) ('' '' @ t) n d = Done (G_list (chars '' '')) t (n + length '' '') d"
    by (rule plus_chars [OF WSP_char _ _ assms(1)]) (simp_all add: wsp_def)
  moreover have "\<not> starts_with [CHR 0x0D, CHR 0x0A] t" using assms(2) by (cases t) auto
  ultimately show ?thesis
    by (simp add: parse_LWS_def parse_CRLF_def perform_def a_const_def a_return_def del: peg_run.simps(8,9))
qed

text \<open>
  C11. A sequence number and a method are read back as they were printed when the method is a known one or does not begin
  with one; any other method is refused.
\<close>

theorem cseq_read:
  assumes "list_all token_code m" "m \<noteq> []"
  shows "grammar_parse ''CSeq'' (num_str k @ '' '' @ m) =
    Some (Inr (if cut_method m = m then G_obj [(''value'', G_num (Num (real k))), (''method'', G_str m)] else minus_one))"
proof -
  let ?k = "cut_method m"
  obtain c t where m: "m = c # t" and c: "token_code c" using assms by (cases m) auto
  have sp: "stops wsp m" "stops (\<lambda>c. c = CHR 0x0D) m" "stops is_digit ('' '' @ m)"
    using c by (auto simp: m wsp_def token_code_def alnum_def in_range_def is_digit_def sign_codes)
  have num: "peg_run st parse_CSeq_value (num_str k @ '' '' @ m) 0 (G_obj []) =
      Done G_undefined ('' '' @ m) (length (num_str k)) (G_obj [(''value'', G_num (Num (real k)))])" for st
    using digits_read [OF sp(3), of st k 0 "G_obj []"]
    by (simp add: parse_CSeq_value_def perform_def act_CSeq_value_def a_set_def arg_int_def obj_put_def)
  have r: "\<exists>v n'. peg_run st parse_CSeq (num_str k @ '' '' @ m) 0 (G_obj []) =
      Done v (drop (length ?k) m) n' (G_obj [(''value'', G_num (Num (real k))), (''method'', G_str ?k)])" for st
    using num [of st] LWS_read [OF sp(1,2), of st] Method_read [OF assms, of "[]" st]
    by (simp add: parse_CSeq_def obj_put_def)
  have "cut_method m = m \<longleftrightarrow> drop (length ?k) m = []"
  proof -
    have "length ?k \<le> length m \<and> take (length ?k) m = ?k"
      by (auto simp: cut_method_def find_Some_iff starts_with_iff split: option.split)
    then show ?thesis by (metis append_take_drop_id drop_eq_Nil2 order_refl take_all_iff append_Nil2)
  qed
  with r [of "''CSeq''"] rule_found show ?thesis by (auto simp: grammar_parse_def)
qed

theorem cseq_read_witness:
  "grammar_parse ''CSeq'' (num_str 7 @ '' '' @ ''ACKNOWLEDGE'') = Some (Inr minus_one)
   \<and> grammar_parse ''CSeq'' (num_str 7 @ '' '' @ ''INFO'')
       = Some (Inr (G_obj [(''value'', G_num (Num (real 7))), (''method'', G_str ''INFO'')]))"
proof -
  have "list_all token_code ''ACKNOWLEDGE''" "list_all token_code ''INFO''"
    by (simp_all add: token_code_def alnum_def in_range_def char_code_def)
  moreover have "cut_method ''ACKNOWLEDGE'' = ''ACK''" "cut_method ''INFO'' = ''INFO''"
    by (simp_all add: cut_method_def method_names_def)
  ultimately show ?thesis using cseq_read [of "''ACKNOWLEDGE''" 7] cseq_read [of "''INFO''" 7] by simp
qed

section \<open>\<open>Contact: *\<close>\<close>

lemma SWS_none:
  assumes "stops wsp t" "stops (\<lambda>c. c = CHR 0x0D) t"
  shows "peg_run st parse_SWS t n d = Done (G_str []) t n d"
proof -
  have "peg_run st (E_star parse_WSP) t n d = Done (G_list []) t n d"
    using star_chars [OF WSP_char _ assms(1), of "[]" st n d] by simp
  moreover have "peg_run st (E_plus parse_WSP) t n d = Fail d"
    by (rule plus_chars_fail [OF WSP_char assms(1)])
  moreover have "\<not> starts_with [CHR 0x0D, CHR 0x0A] t" using assms(2) by (cases t) auto
  ultimately show ?thesis
    by (simp add: parse_SWS_def parse_LWS_def parse_CRLF_def del: peg_run.simps(8,9))
qed

text \<open>The rule accepts the star, but its action reads the length of a list that was never made.\<close>

lemma contact_star_throws:
  "grammar_parse ''Contact'' ''*'' = Some (Inl (TypeError ''Cannot read properties of undefined''))"
proof -
  have "peg_run st parse_SWS s n d = Done (G_str []) s n d" if "s = [] \<or> s = ''*''" for st s n d
    using that by (intro SWS_none) (auto simp: wsp_def)
  then show ?thesis
    by (simp add: grammar_parse_def rule_found parse_Contact_def parse_STAR_def perform_def a_const_def a_return_def
        act_multi_header_def)
qed

end
