(* ===== verification/Grammar_Uri_Read.thy ===== *)
theory Grammar_Uri_Read
  imports Grammar_Read
begin

text \<open>
  \<open>URI.parse\<close> reads what \<open>URI.toString\<close> prints: the rule \<open>SIP_URI\<close> on the text of a URI with a host of dotted labels,
  with or without a user and a port.
\<close>

section \<open>Passing over a text\<close>

definition passes :: "string \<Rightarrow> peg \<Rightarrow> string \<Rightarrow> string \<Rightarrow> gval \<Rightarrow> gval \<Rightarrow> bool" where
  "passes st p w t d d' \<longleftrightarrow> (\<forall>n. \<exists>v. peg_run st p (w @ t) n d = Done v t (n + length w) d')"

definition fails :: "string \<Rightarrow> peg \<Rightarrow> string \<Rightarrow> gval \<Rightarrow> gval \<Rightarrow> bool" where
  "fails st p t d d' \<longleftrightarrow> (\<forall>n. peg_run st p t n d = Fail d')"

lemma passes_at: "passes st p w t d d' \<Longrightarrow> \<exists>v. peg_run st p (w @ t) n d = Done v t (n + length w) d'"
  unfolding passes_def by blast

lemma passes_lit [simp]: "passes st (E_lit w) w t d d"
  by (simp add: passes_def)

lemma passes_char: "reads_char p C \<Longrightarrow> C c \<Longrightarrow> passes st p [c] t d d"
  by (simp add: passes_def reads_charD)

lemma passes_empty [simp]: "passes st E_empty [] t d d"
  by (simp add: passes_def)

lemma passes_then:
  assumes "passes st p w (u @ t) d d1" "passes st q u t d1 d2"
  shows "passes st (E_then p q) (w @ u) t d d2"
  unfolding passes_def
proof
  fix n
  obtain v where v: "peg_run st p (w @ u @ t) n d = Done v (u @ t) (n + length w) d1"
    using assms(1) by (auto simp: passes_def)
  obtain x where "peg_run st q (u @ t) (n + length w) d1 = Done x t (n + length w + length u) d2"
    using assms(2) unfolding passes_def by blast
  with v show "\<exists>v. peg_run st (E_then p q) ((w @ u) @ t) n d = Done v t (n + length (w @ u)) d2"
    by (simp add: add.assoc)
qed

lemma passes_keep:
  "passes st p w (u @ t) d d \<Longrightarrow> passes st q u t d d \<Longrightarrow> passes st (E_then p q) (w @ u) t d d"
  by (rule passes_then)

lemma passes_last: "passes st p w t d d' \<Longrightarrow> passes st (E_then p E_empty) w t d d'"
  using passes_then [of st p w "[]" t d d' E_empty d'] by simp

lemma passes_opt:
  assumes "passes st p w t d d'"
  shows "passes st (E_opt p) w t d d'"
  unfolding passes_def
proof
  fix n
  from passes_at [OF assms, of n] show "\<exists>v. peg_run st (E_opt p) (w @ t) n d = Done v t (n + length w) d'" by auto
qed

lemma passes_opt_none: "fails st p t d d' \<Longrightarrow> passes st (E_opt p) [] t d d'"
  by (simp add: passes_def fails_def)

lemma passes_or1:
  assumes "passes st p w t d d'"
  shows "passes st (E_or p q) w t d d'"
  unfolding passes_def
proof
  fix n
  from passes_at [OF assms, of n] show "\<exists>v. peg_run st (E_or p q) (w @ t) n d = Done v t (n + length w) d'" by auto
qed

lemma passes_star: "reads_char p C \<Longrightarrow> list_all C w \<Longrightarrow> stops C t \<Longrightarrow> passes st (E_star p) w t d d"
  unfolding passes_def using star_chars by blast

lemma passes_text:
  assumes "passes st p w t d d1" "\<And>n. a \<lparr>cx_start = st, cx_text = w, cx_rest = t, cx_offset = n, cx_args = []\<rparr> d1 = Inr (r, d2)"
    "r \<noteq> G_null"
  shows "passes st (E_act a [] p) w t d d2"
  unfolding passes_def
proof
  fix n
  obtain v where "peg_run st p (w @ t) n d = Done v t (n + length w) d1" using assms(1) by (auto simp: passes_def)
  with assms(2,3) show "\<exists>v. peg_run st (E_act a [] p) (w @ t) n d = Done v t (n + length w) d2"
    by (simp add: perform_def)
qed

lemma fails_then1: "fails st p t d d' \<Longrightarrow> fails st (E_then p q) t d d'"
  by (simp add: fails_def)

lemma fails_then2:
  assumes "passes st p w t d d1" "fails st q t d1 d2"
  shows "fails st (E_then p q) (w @ t) d d2"
  unfolding fails_def
proof
  fix n
  from passes_at [OF assms(1), of n] assms(2) show "peg_run st (E_then p q) (w @ t) n d = Fail d2"
    by (auto simp: fails_def)
qed

lemma fails_act: "fails st p t d d' \<Longrightarrow> fails st (E_act a as p) t d d'"
  by (simp add: fails_def)

lemma fails_or: "fails st p t d d1 \<Longrightarrow> fails st q t d1 d2 \<Longrightarrow> fails st (E_or p q) t d d2"
  by (simp add: fails_def)

lemma fails_lit [simp]: "fails st (E_lit (c # w)) [] d d" "x \<noteq> c \<Longrightarrow> fails st (E_lit (c # w)) (x # t) d d"
  by (simp_all add: fails_def)

lemma fails_stop: "reads_char p C \<Longrightarrow> stops C t \<Longrightarrow> fails st p t d d"
  by (simp add: fails_def reads_char_stops)

section \<open>Host names\<close>

definition label_code :: "char \<Rightarrow> bool" where
  "label_code c \<longleftrightarrow> alnum c \<or> c = CHR ''-'' \<or> c = CHR ''_''"

definition alpha :: "char \<Rightarrow> bool" where
  "alpha c \<longleftrightarrow> in_range 97 122 c \<or> in_range 65 90 c"

definition label :: "(char \<Rightarrow> bool) \<Rightarrow> string \<Rightarrow> bool" where
  "label C l \<longleftrightarrow> (case l of [] \<Rightarrow> False | c # r \<Rightarrow> C c \<and> list_all label_code r)"

text \<open>The dotted labels before the last one.\<close>

definition dotted :: "string list \<Rightarrow> string" where
  "dotted ls = concat (map (\<lambda>l. l @ ''.'') ls)"

definition host_name :: "string list \<Rightarrow> string \<Rightarrow> bool" where
  "host_name ls apex \<longleftrightarrow> list_all (label alnum) ls \<and> label alpha apex"

lemma alpha_alnum: "alpha c \<Longrightarrow> alnum c"
  by (auto simp: alpha_def alnum_def)

lemma label_mono: "label alpha l \<Longrightarrow> label alnum l"
  by (cases l) (auto simp: label_def alpha_alnum)

lemma label_chars: "label alnum l \<Longrightarrow> list_all label_code l \<and> l \<noteq> []"
  by (cases l) (auto simp: label_def label_code_def)

lemma ALPHA_char: "reads_char parse_ALPHA alpha"
  by (rule reads_char_cong, unfold parse_ALPHA_def, rule reads_char_class) (simp add: alpha_def)

lemma label_rest_char: "reads_char (alts [parse_alphanum, E_lit ''-'', E_lit ''_'']) label_code"
  by (rule reads_char_cong, unfold alts.simps, (rule alphanum_char reads_char_rules)+) (simp add: label_code_def)

lemma domainlabel_pass:
  assumes "label alnum l" "stops label_code t"
  shows "passes st parse_domainlabel l t d d"
proof -
  obtain c r where l: "l = [c] @ r" "alnum c" "list_all label_code r" using assms(1) by (cases l) (auto simp: label_def)
  show ?thesis unfolding parse_domainlabel_def seq.simps l(1)
    by (intro passes_keep passes_last passes_char [OF alphanum_char l(2)] passes_star [OF label_rest_char l(3) assms(2)])
qed

lemma toplabel_pass:
  assumes "label alpha l" "stops label_code t"
  shows "passes st parse_toplabel l t d d"
proof -
  obtain c r where l: "l = [c] @ r" "alpha c" "list_all label_code r" using assms(1) by (cases l) (auto simp: label_def)
  show ?thesis unfolding parse_toplabel_def seq.simps l(1)
    by (intro passes_keep passes_last passes_char [OF ALPHA_char l(2)] passes_star [OF label_rest_char l(3) assms(2)])
qed

lemma repeat_pieces:
  assumes "\<And>w s n. w \<in> set ws \<Longrightarrow> w \<noteq> [] \<and> (\<exists>v. f (w @ s) n d = Done v s (n + length w) d)" "\<And>n. f t n d = Fail d"
  shows "\<exists>vs. repeat f acc (concat ws @ t) n d = Done (G_list vs) t (n + length (concat ws)) d"
  using assms(1)
proof (induction ws arbitrary: acc n)
  case Nil
  then show ?case by (simp add: repeat.simps [of f acc] assms(2))
next
  case (Cons w ws)
  obtain v where v: "f (w @ concat ws @ t) n d = Done v (concat ws @ t) (n + length w) d" and w: "w \<noteq> []"
    using Cons.prems [of w] by fastforce
  obtain vs where "repeat f (acc @ [v]) (concat ws @ t) (n + length w) d =
      Done (G_list vs) t (n + length w + length (concat ws)) d"
    using Cons.IH [of "acc @ [v]" "n + length w"] Cons.prems by fastforce
  with v w show ?case by (simp add: repeat.simps [of f acc] add.assoc)
qed

lemma seq3: "seq [a, b, c] = E_then a (E_then b (E_then c E_empty))"
  by simp

lemma dotted_pass:
  assumes "list_all (label alnum) ls" "fails st (seq [parse_domainlabel, E_lit ''.'']) t d d"
  shows "passes st (E_star (seq [parse_domainlabel, E_lit ''.''])) (dotted ls) t d d"
proof -
  let ?d = d and ?p = "seq [parse_domainlabel, E_lit ''.'']"
  have lab: "passes st ?p (l @ ''.'') s ?d ?d" if "l \<in> set ls" for l s
    using assms(1) that unfolding seq.simps
    by (intro passes_keep passes_last passes_lit domainlabel_pass) (auto simp: list_all_iff label_code_def alnum_def in_range_def sign_codes)
  have "\<exists>vs. repeat (peg_run st ?p) [] (concat (map (\<lambda>l. l @ ''.'') ls) @ t) n ?d =
      Done (G_list vs) t (n + length (concat (map (\<lambda>l. l @ ''.'') ls))) ?d" for n
  proof (rule repeat_pieces)
    fix w s n
    assume "w \<in> set (map (\<lambda>l. l @ ''.'') ls)"
    then show "w \<noteq> [] \<and> (\<exists>v. peg_run st ?p (w @ s) n ?d = Done v s (n + length w) ?d)"
      using lab unfolding passes_def by (auto simp del: peg_run.simps seq.simps append_assoc)
  next
    fix n
    show "peg_run st ?p t n ?d = Fail ?d" using assms(2) unfolding fails_def by blast
  qed
  then show ?thesis
    unfolding passes_def dotted_def peg_run.simps by blast
qed

lemma hostname_pass:
  assumes "host_name ls apex" "stops label_code t" "stops (\<lambda>c. c = CHR ''.'') t"
  shows "passes st parse_hostname (dotted ls @ apex) t (G_obj ob) (G_obj (obj_put ''host_type'' (G_str ''domain'') ob))"
proof -
  let ?d = "G_obj ob" and ?p = "seq [parse_domainlabel, E_lit ''.'']"
  have dot1: "fails st (E_lit ''.'') t ?d ?d" using assms(3) by (cases t) simp_all
  then have dot: "fails st (E_then (E_lit ''.'') E_empty) t ?d ?d" by (rule fails_then1)
  have apex: "passes st parse_domainlabel apex t ?d ?d"
    using assms by (intro domainlabel_pass label_mono) (simp_all add: host_name_def)
  have stop: "fails st ?p (apex @ t) ?d ?d" using fails_then2 [OF apex dot] by simp
  have star: "passes st (E_star ?p) (dotted ls) (apex @ t) ?d ?d"
    using assms(1) by (intro dotted_pass stop) (simp add: host_name_def)
  have pass: "passes st (seq [E_star ?p, parse_toplabel, E_opt (E_lit ''.'')]) (dotted ls @ apex @ []) t ?d ?d"
    unfolding seq3
    using star assms toplabel_pass [of apex t st ?d]
    by (intro passes_keep passes_last passes_opt_none) (auto simp: host_name_def dot1)
  show ?thesis unfolding parse_hostname_def
    by (rule passes_text [OF pass [unfolded append_Nil2], where r = "G_str (dotted ls @ apex)"]) (simp_all add: a_host_type_def)
qed

lemma host_pass:
  assumes "host_name ls apex" "stops label_code t" "stops (\<lambda>c. c = CHR ''.'') t"
  shows "passes st parse_host (dotted ls @ apex) t (G_obj ob)
    (G_obj (obj_put ''host'' (G_str (to_lower (dotted ls @ apex))) (obj_put ''host_type'' (G_str ''domain'') ob)))"
  unfolding parse_host_def alts.simps
  by (rule passes_text [OF passes_or1 [OF hostname_pass [OF assms]], where r = "G_str (to_lower (dotted ls @ apex))"])
    (simp_all add: act_host_def Let_def)

section \<open>Ports\<close>

lemma five_digits:
  assumes "length w \<le> 5"
  obtains "w = []" | a where "w = [a]" | a b where "w = [a, b]" | a b c where "w = [a, b, c]"
    | a b c e where "w = [a, b, c, e]" | a b c e f where "w = [a, b, c, e, f]"
  using assms by (auto simp: le_Suc_eq length_Suc_conv numeral_eq_Suc)

lemma port_pass:
  assumes "list_all is_digit w" "length w \<le> 5"
  shows "passes st parse_port w [] (G_obj ob) (G_obj (obj_put ''port'' (G_num (parse_int10 w)) ob))"
  using assms(2)
proof (cases rule: five_digits)
qed (use assms(1) in \<open>simp_all add: passes_def parse_port_def reads_charD [OF digit_char] perform_def act_port_def arg_int_def
    join_int_def g_join.simps\<close>)

section \<open>Users\<close>

lemma decode_plain: "CHR ''%'' \<notin> set w \<Longrightarrow> decodeURIComponent w = Inr w"
  by (induction w) auto

lemma unreserved_plain: "list_all uri_unreserved w \<Longrightarrow> CHR ''%'' \<notin> set w"
  by (auto simp: list_all_iff uri_unreserved_def Let_def sign_codes)

abbreviation user_body :: peg where
  "user_body \<equiv> alts [parse_unreserved, parse_escaped, parse_user_unreserved]"

definition user_end :: "string \<Rightarrow> bool" where
  "user_end t \<longleftrightarrow> (case t of [] \<Rightarrow> True | c # _ \<Rightarrow> c = CHR ''@'' \<or> c = CHR '':'')"

lemma user_stop: "user_end t \<Longrightarrow> peg_run st user_body t n d = Fail d"
proof -
  assume "user_end t"
  then have "stops uri_unreserved t" by (cases t) (auto simp: user_end_def uri_unreserved_def Let_def sign_codes)
  from reads_char_stops [OF unreserved_char this, of st n d] \<open>user_end t\<close> show ?thesis
    by (cases t) (auto simp: user_end_def parse_escaped_def parse_user_unreserved_def)
qed

lemma user_pass:
  assumes "list_all uri_unreserved w" "w \<noteq> []" "user_end t"
  shows "passes st parse_user w t d d"
proof -
  obtain c v where w: "w = c # v" using assms(2) by (cases w) auto
  have one: "peg_run st user_body (x # s) n d = Done (G_str [x]) s (Suc n) d" if "x \<in> set w" for x s n d
    using reads_charD(1) [OF unreserved_char] assms(1) that by (simp add: list_all_iff)
  have "repeat (peg_run st user_body) [G_str [c]] (v @ t) (Suc n) d =
      Done (G_list ([G_str [c]] @ chars v)) t (Suc n + length v) d" for n
    using w by (intro repeat_chars one user_stop [OF assms(3)]) simp
  with one w show ?thesis by (simp add: passes_def parse_user_def del: alts.simps)
qed

lemma userinfo_pass:
  assumes "list_all uri_unreserved w" "w \<noteq> []"
  shows "passes st parse_userinfo (w @ ''@'') t (G_obj ob) (G_obj (obj_put ''user'' (G_str w) ob))"
proof -
  have "fails st (seq [E_lit '':'', parse_password]) (''@'' @ t) (G_obj ob) (G_obj ob)"
    unfolding seq.simps by (rule fails_then1) simp
  then have pass: "passes st (seq [parse_user, E_opt (seq [E_lit '':'', parse_password]), E_lit ''@'']) (w @ [] @ ''@'') t (G_obj ob) (G_obj ob)"
    unfolding seq3 using assms
    by (intro passes_keep passes_last passes_opt_none passes_lit user_pass) (simp_all add: user_end_def)
  show ?thesis unfolding parse_userinfo_def
    by (rule passes_text [OF pass [unfolded append_Nil], where r = G_undefined])
      (simp_all add: act_userinfo_def a_set_def decode_plain unreserved_plain [OF assms(1)])
qed

text \<open>Without a user the text up to the end is taken for one, and its port for a password, before the rule fails.\<close>

definition with_password :: "string \<Rightarrow> (string \<times> gval) list \<Rightarrow> (string \<times> gval) list" where
  "with_password w ob = (if w = [] then ob else obj_put ''password'' (G_str (tl w)) ob)"

lemma password_pass:
  assumes "list_all uri_unreserved w"
  shows "passes st parse_password w [] (G_obj ob) (G_obj (obj_put ''password'' (G_str w) ob))"
proof -
  let ?b = "alts [parse_unreserved, parse_escaped, E_lit ''&'', E_lit ''='', E_lit ''+'', E_lit ''$'', E_lit '','']"
  have "repeat (peg_run st ?b) [] (w @ []) n (G_obj ob) = Done (G_list ([] @ chars w)) [] (n + length w) (G_obj ob)" for n
    using reads_charD [OF unreserved_char] assms by (intro repeat_chars) (auto simp: list_all_iff parse_escaped_def)
  then have pass: "passes st (E_star ?b) w [] (G_obj ob) (G_obj ob)" by (simp add: passes_def del: alts.simps)
  show ?thesis unfolding parse_password_def
    by (rule passes_text [OF pass, where r = G_undefined]) (simp_all add: act_password_def a_set_def the_text_def)
qed

lemma no_userinfo:
  assumes "list_all uri_unreserved h" "h \<noteq> []" "w = [] \<or> (\<exists>v. w = '':'' @ v \<and> list_all uri_unreserved v)"
  shows "fails st parse_userinfo (h @ w) (G_obj ob) (G_obj (with_password w ob))"
proof -
  let ?c = "seq [E_lit '':'', parse_password]"
  have "passes st (E_opt ?c) w [] (G_obj ob) (G_obj (with_password w ob))"
  proof (cases "w = []")
    case True
    then show ?thesis by (auto intro!: passes_opt_none fails_then1 simp: with_password_def)
  next
    case False
    with assms(3) obtain v where v: "w = '':'' @ v" "list_all uri_unreserved v" by auto
    have "passes st (E_then (E_lit '':'') (E_then parse_password E_empty)) ('':'' @ v) [] (G_obj ob) (G_obj (with_password w ob))"
      using passes_then [OF passes_lit [of st "'':''"] passes_last [OF password_pass [OF v(2)]]] v(1)
      by (simp add: with_password_def)
    then show ?thesis unfolding seq.simps v(1) by (rule passes_opt)
  qed
  moreover have "fails st (E_then (E_lit ''@'') E_empty) [] d d" for d by (rule fails_then1) simp
  ultimately have "fails st (E_then (E_opt ?c) (E_then (E_lit ''@'') E_empty)) (w @ []) (G_obj ob) (G_obj (with_password w ob))"
    by (rule fails_then2)
  moreover have "user_end w" using assms(3) by (auto simp: user_end_def)
  ultimately show ?thesis unfolding parse_userinfo_def seq3
    using fails_then2 [OF user_pass [OF assms(1,2)]] by (intro fails_act) simp
qed

section \<open>The text of a URI\<close>

definition plain_uri :: "uri \<Rightarrow> bool" where
  "plain_uri u \<longleftrightarrow>
     uri_scheme u \<in> {''sip'', ''sips''}
     \<and> (case uri_user u of None \<Rightarrow> True | Some w \<Rightarrow> w \<noteq> [] \<and> list_all uri_unreserved w)
     \<and> (\<exists>ls apex. host_name ls apex \<and> uri_host u = dotted ls @ apex)
     \<and> to_lower (uri_host u) = uri_host u
     \<and> (case uri_port u of None \<Rightarrow> True | Some p \<Rightarrow> p < 100000)
     \<and> uri_parameters u = [] \<and> uri_headers u = []"

definition user_text :: "string option \<Rightarrow> string" where
  "user_text user = (case user of None \<Rightarrow> [] | Some w \<Rightarrow> w @ ''@'')"

lemma encode_plain: "list_all uri_unreserved w \<Longrightarrow> encodeURIComponent w = w"
  by (induction w) (simp_all add: encodeURIComponent_def enc_char_def)

lemma replace_none:
  assumes "CHR ''%'' \<notin> set s"
  shows "replace_all (CHR ''%'' # p) r s = s"
  using assms
proof (induction s)
  case (Cons c s)
  have "lower_char c \<noteq> CHR ''%''"
  proof
    assume "lower_char c = CHR ''%''"
    then have "char_code (lower_char c) = 37" by (simp add: sign_codes)
    then have "char_code c = 37" by (auto simp: lower_char_def split: if_splits)
    then have "c = CHR ''%''" by (simp only: char_eq_code sign_codes)
    with Cons.prems show False by simp
  qed
  moreover have "lower_char CHR ''%'' = CHR ''%''" by (simp add: lower_char_def sign_codes)
  ultimately show ?case using Cons by (subst replace_all.simps) (auto simp: to_lower_def)
qed (simp add: replace_all.simps)

lemma escape_plain:
  assumes "list_all uri_unreserved w"
  shows "escapeUser w = Inr w"
  using unreserved_plain [OF assms]
  by (simp add: escapeUser_def decode_plain encode_plain [OF assms] replace_none)

lemma plain_toString:
  "plain_uri u \<Longrightarrow>
    uri_toString u = Inr (uri_scheme u @ '':'' @ user_text (uri_user u) @ uri_host u @ port_str (uri_port u))"
  by (auto simp: uri_toString_def plain_uri_def user_str_def user_text_def escape_plain params_str_def split: option.splits)

lemma scheme_pass:
  assumes "s \<in> {''sip'', ''sips''}"
  shows "passes st parse_uri_scheme s ('':'' @ t) (G_obj []) (G_obj [(''scheme'', G_str s)])"
  using assms
  by (auto simp: passes_def parse_uri_scheme_def parse_uri_scheme_sip_def parse_uri_scheme_sips_def perform_def
      act_uri_scheme_def a_set_def arg_lower_def to_lower_def lower_char_def char_code_def obj_put_def)

lemma label_unreserved: "list_all label_code l \<Longrightarrow> list_all uri_unreserved l"
  by (auto simp: list_all_iff label_code_def alnum_def in_range_def uri_unreserved_def Let_def sign_codes)

lemma host_unreserved:
  assumes "host_name ls apex"
  shows "list_all uri_unreserved (dotted ls @ apex)" "dotted ls @ apex \<noteq> []"
proof -
  have "list_all uri_unreserved l" if "label alnum l" for l using label_chars [OF that] label_unreserved by blast
  moreover have "label alnum apex" using assms label_mono by (simp add: host_name_def)
  moreover have "uri_unreserved CHR ''.''" by (simp add: uri_unreserved_def Let_def sign_codes)
  ultimately show "list_all uri_unreserved (dotted ls @ apex)" "dotted ls @ apex \<noteq> []"
    using assms label_chars by (auto simp: dotted_def host_name_def list_all_iff)
qed

lemma port_text:
  "p < 100000 \<Longrightarrow> list_all is_digit (num_str p) \<and> length (num_str p) \<le> 5"
  using digits_of length_digits_in [of 10 5 p] by (simp add: num_str_def)

lemma port_str_end:
  "stops label_code (port_str p)" "stops (\<lambda>c. c = CHR ''.'') (port_str p)"
  "port_str p = [] \<or> (\<exists>v. port_str p = '':'' @ v \<and> list_all uri_unreserved v)"
proof -
  have "list_all uri_unreserved (num_str n)" for n
    using digits_of [of n] by (auto simp: list_all_iff is_digit_def uri_unreserved_def Let_def)
  then show "stops label_code (port_str p)" "stops (\<lambda>c. c = CHR ''.'') (port_str p)"
    "port_str p = [] \<or> (\<exists>v. port_str p = '':'' @ v \<and> list_all uri_unreserved v)"
    by (auto simp: port_str_def label_code_def alnum_def in_range_def sign_codes split: option.split)
qed

definition with_port :: "nat option \<Rightarrow> (string \<times> gval) list \<Rightarrow> (string \<times> gval) list" where
  "with_port p ob = (case p of None \<Rightarrow> ob | Some n \<Rightarrow> obj_put ''port'' (G_num (Num (real n))) ob)"

lemma hostport_pass:
  assumes "host_name ls apex" "case p of None \<Rightarrow> True | Some n \<Rightarrow> n < 100000"
  shows "passes st parse_hostport ((dotted ls @ apex) @ port_str p) [] (G_obj ob)
    (G_obj (with_port p (obj_put ''host'' (G_str (to_lower (dotted ls @ apex))) (obj_put ''host_type'' (G_str ''domain'') ob))))"
proof -
  let ?ob = "obj_put ''host'' (G_str (to_lower (dotted ls @ apex))) (obj_put ''host_type'' (G_str ''domain'') ob)"
  have "passes st (E_opt (seq [E_lit '':'', parse_port])) (port_str p) [] (G_obj ?ob) (G_obj (with_port p ?ob))"
  proof (cases p)
    case None
    have "fails st (E_then (E_lit '':'') (E_then parse_port E_empty)) [] (G_obj ?ob) (G_obj ?ob)"
      by (rule fails_then1) simp
    then show ?thesis by (simp add: None port_str_def with_port_def passes_opt_none)
  next
    case (Some n)
    then have n: "n < 100000" using assms(2) by simp
    have "passes st (E_then (E_lit '':'') (E_then parse_port E_empty)) ('':'' @ num_str n) [] (G_obj ?ob)
        (G_obj (obj_put ''port'' (G_num (parse_int10 (num_str n))) ?ob))"
      using port_text [OF n] by (intro passes_then [OF passes_lit] passes_last port_pass) simp_all
    then show ?thesis by (simp add: Some port_str_def with_port_def parse_int10_num_str passes_opt)
  qed
  then have o: "passes st (E_then (E_opt (seq [E_lit '':'', parse_port])) E_empty) (port_str p) [] (G_obj ?ob) (G_obj (with_port p ?ob))"
    by (rule passes_last)
  have "passes st parse_host (dotted ls @ apex) (port_str p @ []) (G_obj ob) (G_obj ?ob)"
    using host_pass [OF assms(1) port_str_end(1,2)] by simp
  from passes_then [OF this o] show ?thesis by (simp add: parse_hostport_def)
qed

lemma SIP_URI_action:
  assumes "cx_start c = ''SIP_URI''" "host \<noteq> []" "scheme \<noteq> []"
    "obj_get ob ''scheme'' = Some (G_str scheme)" "obj_get ob ''user'' = map_option G_str user"
    "obj_get ob ''host'' = Some (G_str host)" "obj_get ob ''port'' = map_option (\<lambda>n. G_num (Num (real n))) port"
    "obj_get ob ''uri_params'' = None" "obj_get ob ''uri_headers'' = None"
  shows "act_SIP_URI c (G_obj ob) = Inr (G_undefined, G_uri \<lparr>uri_scheme = scheme, uri_user = user, uri_host = host,
    uri_port = port, uri_parameters = [], uri_headers = []\<rparr>)"
proof -
  have "build_uri True (G_obj ob) = Inr (G_uri \<lparr>uri_scheme = scheme, uri_user = user, uri_host = host,
      uri_port = port, uri_parameters = [], uri_headers = []\<rparr>)"
    using assms by (cases user; cases port) (simp_all add: build_uri_def g_text_def new_uri_def Let_def)
  then show ?thesis using assms(1) by (simp add: act_SIP_URI_def or_minus_one_def delete_all_def)
qed

lemma uri_parsed:
  assumes "plain_uri u"
  shows "\<exists>t. uri_toString u = Inr t \<and> grammar_parse ''SIP_URI'' t = Some (Inr (G_uri u))"
proof -
  let ?s = "uri_scheme u" and ?h = "uri_host u" and ?p = "port_str (uri_port u)" and ?st = "''SIP_URI''"
  from assms obtain ls apex where host: "host_name ls apex" "?h = dotted ls @ apex" by (auto simp: plain_uri_def)
  have low: "to_lower ?h = ?h" and scheme: "?s \<in> {''sip'', ''sips''}" using assms by (simp_all add: plain_uri_def)
  let ?ob1 = "[(''scheme'', G_str ?s)]"
  define ob2 where "ob2 = (case uri_user u of None \<Rightarrow> with_password ?p ?ob1 | Some w \<Rightarrow> obj_put ''user'' (G_str w) ?ob1)"
  define ob3 where "ob3 = with_port (uri_port u) (obj_put ''host'' (G_str ?h) (obj_put ''host_type'' (G_str ''domain'') ob2))"
  have user: "passes ?st (E_opt parse_userinfo) (user_text (uri_user u)) (?h @ ?p) (G_obj ?ob1) (G_obj ob2)"
  proof (cases "uri_user u")
    case None
    from no_userinfo [OF host_unreserved [OF host(1)] port_str_end(3)] host(2) show ?thesis
      by (simp add: None user_text_def ob2_def passes_opt_none)
  next
    case (Some w)
    with assms have "list_all uri_unreserved w" "w \<noteq> []" by (simp_all add: plain_uri_def)
    from passes_opt [OF userinfo_pass [OF this]] show ?thesis by (simp add: Some user_text_def ob2_def)
  qed
  have hp: "passes ?st parse_hostport (?h @ ?p) [] (G_obj ob2) (G_obj ob3)"
    using hostport_pass [OF host(1), of "uri_port u" ?st ob2] assms host(2) low by (simp add: ob3_def plain_uri_def)
  have "passes ?st parse_uri_parameters [] [] (G_obj ob3) (G_obj ob3)"
    by (simp add: passes_def parse_uri_parameters_def repeat.simps)
  moreover have "passes ?st (E_opt parse_headers_rule) [] [] (G_obj ob3) (G_obj ob3)"
    by (rule passes_opt_none) (simp add: fails_def parse_headers_rule_def)
  ultimately have tl: "passes ?st (E_then parse_uri_parameters (E_then (E_opt parse_headers_rule) E_empty)) ([] @ []) [] (G_obj ob3) (G_obj ob3)"
    by (intro passes_keep passes_last) simp_all
  have rest: "passes ?st (E_then parse_hostport (E_then parse_uri_parameters (E_then (E_opt parse_headers_rule) E_empty)))
      ((?h @ ?p) @ []) [] (G_obj ob2) (G_obj ob3)"
    using passes_then [OF _ tl, of parse_hostport "?h @ ?p" "G_obj ob2"] hp by simp
  have ui: "passes ?st (E_then (E_opt parse_userinfo) (E_then parse_hostport (E_then parse_uri_parameters
      (E_then (E_opt parse_headers_rule) E_empty)))) (user_text (uri_user u) @ (?h @ ?p) @ []) [] (G_obj ?ob1) (G_obj ob3)"
    using passes_then [OF _ rest, of "E_opt parse_userinfo" "user_text (uri_user u)" "G_obj ?ob1"] user by simp
  let ?t = "?s @ '':'' @ user_text (uri_user u) @ (?h @ ?p) @ []"
  have body: "passes ?st (seq [parse_uri_scheme, E_lit '':'', E_opt parse_userinfo, parse_hostport, parse_uri_parameters,
      E_opt parse_headers_rule]) ?t [] (G_obj []) (G_obj ob3)"
    unfolding seq.simps
    by (rule passes_then [OF _ passes_then [OF passes_lit ui]]) (use scheme_pass [OF scheme, of ?st "user_text (uri_user u) @ ?h @ ?p"] in simp)
  have "act_SIP_URI c (G_obj ob3) = Inr (G_undefined, G_uri u)" if "cx_start c = ?st" for c
  proof -
    have "?h \<noteq> []" using host_unreserved(2) [OF host(1)] host(2) by simp
    moreover have "obj_get ob3 ''port'' = map_option (\<lambda>n. G_num (Num (real n))) (uri_port u)"
      "obj_get ob3 ''user'' = map_option G_str (uri_user u)" "obj_get ob3 ''scheme'' = Some (G_str ?s)"
      "obj_get ob3 ''host'' = Some (G_str ?h)" "obj_get ob3 ''uri_params'' = None" "obj_get ob3 ''uri_headers'' = None"
      by (simp_all add: ob3_def ob2_def with_port_def with_password_def split: option.split)
    ultimately have "act_SIP_URI c (G_obj ob3) = Inr (G_undefined, G_uri \<lparr>uri_scheme = ?s, uri_user = uri_user u, uri_host = ?h,
        uri_port = uri_port u, uri_parameters = [], uri_headers = []\<rparr>)"
      using SIP_URI_action [OF that] scheme by auto
    then show ?thesis using assms by (simp add: plain_uri_def)
  qed
  then have "passes ?st parse_SIP_URI ?t [] (G_obj []) (G_uri u)"
    unfolding parse_SIP_URI_def by (intro passes_text [OF body, where r = G_undefined]) simp_all
  from passes_at [OF this, of 0] rule_found have "grammar_parse ?st ?t = Some (Inr (G_uri u))"
    by (auto simp: grammar_parse_def)
  with plain_toString [OF assms] show ?thesis by simp
qed

text \<open>
  C8. \<open>URI.parse\<close> reads back what \<open>URI.toString\<close> prints of a URI with a host of dotted labels, a user of unreserved
  characters or none, and a port or none.
\<close>

theorem uri_read_back:
  assumes "plain_uri u"
  shows "\<exists>t. uri_toString u = Inr t \<and> grammar_parse ''SIP_URI'' t = Some (Inr (G_uri u))"
  by (rule uri_parsed [OF assms])

definition demo_plain :: uri where
  "demo_plain = \<lparr>uri_scheme = ''sip'', uri_user = Some ''alice'', uri_host = ''a.org'', uri_port = Some 9,
     uri_parameters = [], uri_headers = []\<rparr>"

lemma demo_plain_ok: "plain_uri demo_plain"
proof -
  have "host_name [''a''] ''org''"
    by (simp add: host_name_def label_def alpha_def alnum_def label_code_def in_range_def char_code_def)
  moreover have "dotted [''a''] @ ''org'' = ''a.org''" by (simp add: dotted_def)
  ultimately have "\<exists>ls apex. host_name ls apex \<and> ''a.org'' = dotted ls @ apex" by metis
  moreover have "list_all uri_unreserved ''alice''" by (simp add: uri_unreserved_def Let_def char_code_def)
  moreover have "to_lower ''a.org'' = ''a.org''" by (simp add: to_lower_def lower_char_def char_code_def)
  ultimately show "plain_uri demo_plain" by (simp add: plain_uri_def demo_plain_def)
qed

theorem uri_read_back_witness:
  "\<exists>t. uri_toString demo_plain = Inr t \<and> grammar_parse ''SIP_URI'' t = Some (Inr (G_uri demo_plain))"
  by (rule uri_read_back [OF demo_plain_ok])

section \<open>Names with a final dot\<close>

text \<open>
  C12. A host name that ends with a dot is refused, though the rule allows one: the loop over the labels with a dot has
  read the last label too, and the label after it is missing.
\<close>

theorem hostname_final_dot:
  assumes "list_all (label alnum) ls"
  shows "grammar_parse ''hostname'' (dotted ls) = Some (Inr minus_one)"
proof -
  let ?d = "G_obj []" and ?p = "seq [parse_domainlabel, E_lit ''.'']"
  have stop: "fails ''hostname'' ?p [] ?d ?d" and none: "fails ''hostname'' parse_toplabel [] ?d ?d"
    using fails_then1 [OF fails_stop [OF alphanum_char]] fails_then1 [OF fails_stop [OF ALPHA_char]]
    by (simp_all add: parse_domainlabel_def parse_toplabel_def fails_then1)
  from dotted_pass [OF assms stop] have "passes ''hostname'' (E_star ?p) (dotted ls) [] ?d ?d" by simp
  from fails_then2 [OF this fails_then1 [OF none]] have "fails ''hostname'' parse_hostname (dotted ls) ?d ?d"
    unfolding parse_hostname_def seq3 by (intro fails_act) simp
  moreover have "map_of parse_functions ''hostname'' = Some parse_hostname"
    by (unfold parse_functions_def, (rule map_of_hit | (rule map_of_skip, simp))+)
  ultimately show ?thesis by (simp add: grammar_parse_def fails_def)
qed

theorem hostname_final_dot_witness: "grammar_parse ''hostname'' ''a.org.'' = Some (Inr minus_one)"
proof -
  have "list_all (label alnum) [''a'', ''org'']" by (simp add: label_def alnum_def label_code_def in_range_def char_code_def)
  from hostname_final_dot [OF this] show ?thesis by (simp add: dotted_def)
qed

end
