(* ===== verification/Grammar_Config.thy ===== *)
theory Grammar_Config
  imports Config Grammar_Uri_Read
begin

text \<open>
  The configuration with the bundle's own parser: the three rules \<open>Config\<close> takes as parameters are those of
  \<open>Grammar\<close>.  What is no string, and no string object, has no method \<open>substr\<close>, so that the parser throws.
\<close>

fun parser_input :: "js_value \<Rightarrow> string option" where
  "parser_input (J_str s) = Some s"
| "parser_input (J_obj tag t own proto) = (if tag = ''String'' then Some t else None)"
| "parser_input v = None"

definition bundle_parse :: "string \<Rightarrow> js_value \<Rightarrow> js_error + gval" where
  "bundle_parse start v =
     (case parser_input v of
        None \<Rightarrow> Inl (TypeError ''input.substr is not a function'')
      | Some s \<Rightarrow> the (grammar_parse start s))"

text \<open>\<open>URI.parse\<close>: the rule \<open>SIP_URI\<close> gives a URI or -1.\<close>

definition bundle_uri :: "js_value \<Rightarrow> js_error + uri option" where
  "bundle_uri v =
     bind_result (bundle_parse ''SIP_URI'' v) (\<lambda>r. Inr (case r of G_uri u \<Rightarrow> Some u | _ \<Rightarrow> None))"

definition bundle_grammar :: config_grammar where
  "bundle_grammar =
     \<lparr>cg_uri = bundle_uri,
      cg_quoted = (\<lambda>s. bundle_parse ''quoted_string'' (J_str s) \<noteq> Inr minus_one),
      cg_uuid = (\<lambda>v. bind_result (bundle_parse ''uuid'' v) (\<lambda>r. Inr (r \<noteq> minus_one)))\<rparr>"

lemma built_uri_host:
  assumes "build_uri b d = Inr v"
  shows "\<exists>u. v = G_uri u \<and> uri_host u \<noteq> []"
proof -
  have set_params: "uri_host (fold (\<lambda>(k, v). uri_setParam k v) ps u) = uri_host u" for ps u
    by (induction ps arbitrary: u) (auto simp: uri_setParam_def)
  have set_headers: "uri_host (fold (\<lambda>(k, v). uri_setHeader k v) hs u) = uri_host u" for hs u
    by (induction hs arbitrary: u) (auto simp: uri_setHeader_def)
  have "new_uri sch us h p ps hs = Inr u \<Longrightarrow> uri_host u \<noteq> []" for sch us h p ps hs u
    by (auto simp: new_uri_def Let_def set_params set_headers split: if_splits)
  with assms show ?thesis unfolding build_uri_def bind_result_Inr by blast
qed

lemma SIP_URI_data:
  assumes "act_SIP_URI c d = Inr (r, d')" "cx_start c = ''SIP_URI''"
  shows "d' = minus_one \<or> (\<exists>u. d' = G_uri u \<and> uri_host u \<noteq> [])"
proof (cases "build_uri True d")
  case (Inl e)
  then show ?thesis using assms by (simp add: act_SIP_URI_def or_minus_one_def)
next
  case (Inr v)
  from built_uri_host [OF Inr] obtain u where u: "v = G_uri u" "uri_host u \<noteq> []" by blast
  show ?thesis
  proof (cases d)
    case (G_obj ob)
    then show ?thesis using assms Inr u by (auto simp: act_SIP_URI_def or_minus_one_def delete_all_def)
  qed (use assms Inr u in \<open>simp_all add: act_SIP_URI_def or_minus_one_def\<close>)
qed

lemma act_Done:
  assumes "peg_run st (E_act a as p) s n d = Done v s' n' d'"
  shows "\<exists>c d1. a c d1 = Inr (v, d') \<and> cx_start c = st"
  using assms unfolding peg_run.simps perform_def
  by (auto split: outcome.splits sum.splits if_splits intro!: exI)

text \<open>The rule gives a URI with a host, -1, or an exception: what the theorems on the configuration ask of the parser.\<close>

lemma SIP_URI_result:
  assumes "grammar_parse ''SIP_URI'' s = Some (Inr d)"
  shows "d = minus_one \<or> (\<exists>u. d = G_uri u \<and> uri_host u \<noteq> [])"
proof -
  have "d' = minus_one \<or> (\<exists>u. d' = G_uri u \<and> uri_host u \<noteq> [])"
    if "peg_run ''SIP_URI'' parse_SIP_URI s 0 (G_obj []) = Done v s' n d'" for v s' n d'
    using act_Done [OF that [unfolded parse_SIP_URI_def]] SIP_URI_data by metis
  with assms rule_found show ?thesis
    by (auto simp: grammar_parse_def split: outcome.splits if_splits)
qed

lemma bundle_uri_host:
  assumes "cg_uri bundle_grammar v = Inr (Some u)"
  shows "uri_host u \<noteq> []"
proof -
  from assms obtain d where d: "bundle_parse ''SIP_URI'' v = Inr d" "(case d of G_uri u \<Rightarrow> Some u | _ \<Rightarrow> None) = Some u"
    unfolding bundle_grammar_def config_grammar.simps bundle_uri_def bind_result_Inr by auto
  then have "d = G_uri u" by (cases d) simp_all
  with d(1) obtain s where s: "the (grammar_parse ''SIP_URI'' s) = Inr (G_uri u)"
    by (cases "parser_input v") (simp_all add: bundle_parse_def)
  obtain r where "grammar_parse ''SIP_URI'' s = Some r" using parse_returns by blast
  with s SIP_URI_result [of s "G_uri u"] show ?thesis by simp
qed

lemma bundle_uri_parsed:
  assumes "plain_uri u" "uri_toString u = Inr t"
  shows "cg_uri bundle_grammar (J_str t) = Inr (Some u)"
  using uri_parsed [OF assms(1)] assms(2) by (simp add: bundle_grammar_def bundle_uri_def bundle_parse_def)

lemma lower_sign: "char_code x \<in> {58, 64} \<Longrightarrow> lower_char c = x \<Longrightarrow> c = x"
  by (auto simp: lower_char_def split: if_splits)

lemma user_not_scheme:
  assumes "list_all uri_unreserved w"
  shows "\<not> starts_with ''sip:'' (to_lower (w @ ''@'' @ r))"
proof -
  have at: "lower_char CHR ''@'' = CHR ''@''" by (simp add: lower_char_def sign_codes)
  have colon: "CHR '':'' \<noteq> lower_char c" if "uri_unreserved c" for c
    using lower_sign [of "CHR '':''" c] that by (auto simp: sign_codes uri_unreserved_def Let_def)
  consider "w = []" | a where "w = [a]" | a b where "w = [a, b]" | a b c where "w = [a, b, c]" | a b c e v where "w = a # b # c # e # v"
    by (metis list.exhaust)
  then show ?thesis using assms colon by cases (auto simp: to_lower_def at)
qed

text \<open>
  C10. An account given as the text of a plain SIP URI, or as that text without \<open>sip:\<close>, passes the check of the parameter
  \<open>uri\<close> and becomes exactly that URI.
\<close>

theorem account_accepted:
  assumes "plain_uri u" "uri_scheme u = ''sip''" "uri_user u = Some w"
  shows "\<exists>t. uri_toString u = Inr (''sip:'' @ t)
    \<and> check_uri bundle_grammar (J_str (''sip:'' @ t)) = Inr (Some (J_uri u))
    \<and> check_uri bundle_grammar (J_str t) = Inr (Some (J_uri u))"
proof -
  let ?t = "w @ ''@'' @ uri_host u @ port_str (uri_port u)"
  have t: "uri_toString u = Inr (''sip:'' @ ?t)"
    using plain_toString [OF assms(1)] assms(2,3) by (simp add: user_text_def)
  have w: "list_all uri_unreserved w" "truthy (Some w)" using assms by (simp_all add: plain_uri_def truthy_def)
  note parsed = bundle_uri_parsed [OF assms(1) t]
  have "starts_with ''sip:'' (to_lower (''sip:'' @ ?t))" by (simp add: to_lower_def lower_char_def char_code_def)
  moreover have "\<not> starts_with ''sip:'' (to_lower ?t)" by (rule user_not_scheme [OF w(1)])
  ultimately have "parse_with_scheme bundle_grammar (J_str (''sip:'' @ ?t)) = Inr (Some u)"
    "parse_with_scheme bundle_grammar (J_str ?t) = Inr (Some u)"
    using parsed by (simp_all only: parse_with_scheme_def js_String.simps bind_result.simps if_True if_False)
  then have "check_uri bundle_grammar (J_str (''sip:'' @ ?t)) = Inr (Some (J_uri u))"
    "check_uri bundle_grammar (J_str ?t) = Inr (Some (J_uri u))"
    using w(2) assms(3) by (simp_all only: check_uri_def bind_result.simps option.case simp_thms if_False)
  with t show ?thesis by blast
qed

theorem account_accepted_witness:
  "check_uri bundle_grammar (J_str ''alice@a.org:9'') = Inr (Some (J_uri demo_plain))"
proof -
  have "num_str 9 = ''9''" by code_simp
  then have "uri_toString demo_plain = Inr ''sip:alice@a.org:9''"
    using plain_toString [OF demo_plain_ok] by (simp add: demo_plain_def user_text_def port_str_def)
  moreover have "uri_scheme demo_plain = ''sip''" "uri_user demo_plain = Some ''alice''" by (simp_all add: demo_plain_def)
  from account_accepted [OF demo_plain_ok this] obtain t where t: "uri_toString demo_plain = Inr (''sip:'' @ t)"
    "check_uri bundle_grammar (J_str t) = Inr (Some (J_uri demo_plain))" by blast
  ultimately have "t = ''alice@a.org:9''" by simp
  with t(2) show ?thesis by simp
qed

end
