(* ===== verification/Spec2Isabelle.thy ===== *)
theory Spec2Isabelle
  imports Md5_Rfc Tx_Client Tx_Server Request_Sender Transport Registrator Sanity_Check Dialog User_Agent Applicant
    Config Event_Emitter Session_Props Sdp_Hold Grammar_Config
begin

text \<open>
  A verification development for the SIP stack of the browser phone of diagox:
  \<open>frontend/static/js/jssip-3.10.0.js\<close>, the bundle of JsSIP 3.10.0.  All line numbers in the theories are
  those of this file.  The rest of the repository (a SIP server in Go, its web pages, \<open>htmx\<close> and a built
  single-page application) is not modelled; the components are listed in \<open>PROJECT.json\<close>.

  \<^bold>\<open>The program\<close>.  A page creates a user agent (class \<open>UA\<close>) from a configuration.  The agent holds a
  \<open>Transport\<close> over one or more sockets (\<open>WebSocketInterface\<close>), a \<open>Registrator\<close>, and tables of its
  transactions, dialogs, sessions and applicants.  What a socket receives goes through the transport
  to the \<open>Parser\<close>, which builds an incoming message, and through \<open>sanityCheck\<close>; the agent then
  hands a response to its client transaction and a request to the dialog or session it belongs
  to, or starts a new session, message or options applicant.  What the stack sends is
  an \<open>OutgoingRequest\<close> that \<open>RequestSender\<close> puts into a client transaction and, when it is
  challenged, sends again with the credentials of \<open>DigestAuthentication\<close> (with the bundle's own MD5).  A call is an
  \<open>RTCSession\<close>: it negotiates the media with the browser's peer connection, keeps a
  \<open>Dialog\<close> for the requests inside the call, and runs hold, mute, transfer, tones and session timers.

  \<^bold>\<open>Theories\<close>, in the order of their imports:

  \<^item> \<open>Js_Prelude\<close>: objects as association lists, strings of code units, numbers as digits, errors
    as sums, and the simp collections and lemmas all theories use.
  \<^item> \<open>Md5\<close>, \<open>Md5_Rfc\<close>: \<open>calculateMD5\<close> on 32-bit words as the code computes it, and RFC 1321 over
    bytes, with the proof that they agree.
  \<^item> \<open>Sip_Constants\<close>, \<open>Sip_Utils\<close>, \<open>Sip_Uri\<close>, \<open>Js_Number\<close>, \<open>Js_Value\<close>: the tables of constants and timers, the
    helpers of \<open>Utils\<close>, the classes \<open>URI\<close> and \<open>NameAddrHeader\<close> over the locale \<^theory_text>\<open>param_bag\<close>, the conversions to
    numbers, and values of any type of the language with the type tests.
  \<^item> \<open>Sip_Message\<close>: outgoing and incoming messages and replies, over the locale \<^theory_text>\<open>header_store\<close>.
  \<^item> \<open>Tx_Base\<close>, \<open>Tx_Client\<close>, \<open>Tx_Server\<close>: the five transaction classes with their timers as pending
    entries of the state, over the locale \<^theory_text>\<open>tx_machine\<close>, which turns what each single step keeps into facts about all runs.
  \<^item> \<open>Digest\<close>, \<open>Request_Sender\<close>: authentication and the sender.
  \<^item> \<open>Transport\<close>: sockets over the locale \<^theory_text>\<open>socket_interface\<close>, selection of a socket and recovery.
  \<^item> \<open>Registrator\<close>, \<open>Parser\<close>, \<open>Sanity_Check\<close>, \<open>Dialog\<close>, \<open>User_Agent\<close>, \<open>Applicant\<close> (the classes \<open>Message\<close> and
    \<open>Options\<close>), \<open>Config\<close>: one theory per class or module.
  \<^item> \<open>Event_Emitter\<close>: the class the agent, the sessions and the applicants inherit their \<open>on\<close>, \<open>once\<close> and \<open>emit\<close> from, over
    the locale \<^theory_text>\<open>listener_table\<close>.
  \<^item> \<open>Sdp_Regex\<close>, \<open>Sdp_Grammar\<close>, \<open>Sdp_Transform\<close>: the module \<open>sdp-transform\<close>, which reads and writes
    session descriptions: regular expressions with a matcher that lists the matches in the order in which backtracking tries
    them, the whole table of expressions and formats, \<open>parse\<close>, \<open>write\<close> and \<open>parseSDP\<close>.  \<open>Sdp_Hold\<close> composes them with
    \<open>Session_Media\<close>: \<open>_mangleOffer\<close> from text to text.
  \<^item> \<open>Peg\<close>: what the code PEG.js generates for each kind of parsing expression does, as a datatype of expressions and
    the function \<open>peg_run\<close>; \<open>Grammar_Actions\<close>: the actions of the rules; \<open>Grammar_Lex\<close>, \<open>Grammar_Uri\<close>, \<open>Grammar_Request\<close>,
    \<open>Grammar_Headers\<close>: every rule as an expression, under the name of its function; \<open>Grammar\<close>: the table of the rules, the
    function \<open>parse\<close>, and the proof that it always returns.  \<open>Grammar_Read\<close> and \<open>Grammar_Uri_Read\<close> have what it
    reads: numbers, \<open>CSeq\<close>, host names and URIs; \<open>Grammar_Config\<close> puts it in the place of the parameter of \<open>Config\<close>.
  \<^item> \<open>Session_Base\<close> to \<open>Session\<close>: the class \<open>RTCSession\<close> by task (state and closing, media, session timers,
    end of a call, tones and INFO, transfer, offers inside the call, caller, callee, and the
    steps of the whole).  \<open>Session_Inv\<close>, \<open>Session_Kept\<close> and \<open>Session_Runs\<close> have its invariant, the proof
    that every operation keeps it, and its consequences for all runs; \<open>Session_Props\<close> the rest.
\<close>

text \<open>
  \<^bold>\<open>Shape of the model\<close>.  A class is a record of its fields, a method a function on it.  A method that
  may throw returns a sum with the exception at the left (in sessions, and where a configuration is loaded, the pair of the
  exception and the state, since what was assigned before the exception stays).  Calls to other objects are
  either composed directly (parser, sanity check, sender, digest, transaction, dialog, transport under
  the agent) or entries of a log, in order, so that theorems can say what is called and how
  often.  A timer is a pending entry that a step may fire; there is no clock other than the lengths of the
  timers.  The browser's promises are jobs of the session which a step settles with any outcome.
  Runs are the reflexive transitive closure of a step relation (\<open>tr_step\<close>, \<open>se_step\<close> and those of the transactions,
  registrator and agent), whose rules say which events the surroundings may cause when; the invariants are
  proved by induction on the step relation.

  \<^bold>\<open>Parameters\<close>.  Code that is not in the modelled part of the file, or is a service, is an argument:
  for the classes that call it, the generated parser, as a function from a text and a rule to the value it returns or to
  failure (the parser itself is modelled in \<open>Grammar\<close>, where it may also throw); the
  draws of \<open>Math.random()\<close> as reals, with \<open>is_random\<close> (from 0 below 1) as hypothesis where it matters; whether the socket
  takes a message; what the browser's peer connection answers; in the session, the reader and writer of
  descriptions (\<open>Sdp_Hold\<close> puts those of \<open>Sdp_Transform\<close> in their place); and what the application's listeners do, as the list of calls they make.

  \<^bold>\<open>Bounds\<close>.  Characters are code units below 256, as the transport delivers them, except in \<open>Md5\<close>, which takes
  16-bit units; a conversion that would give a larger unit is the error \<open>WideUnit\<close>.  \<open>calculateMD5\<close> is
  proved right up to \<open>2 ^ 32 div 3\<close> units, the length from which the 32-bit count of bits it computes from
  up to three bytes per unit could wrap.  Numbers of the language are exact reals, so rounding to binary64 is not
  modelled.  \<open>_getSocket\<close> calls itself without end when there is no socket, and is a partial function whose
  result is \<open>None\<close> then; \<open>getSocket_best\<close> shows that it returns otherwise.  The search for a decimal
  exponent in \<open>Js_Value\<close> has 324 steps, enough for the least positive number of the language.  All
  other recursions are structural or carry a termination proof.
\<close>

text \<open>
  \<^bold>\<open>What is shown\<close>.

  \<^item> Exact results: MD5 equals RFC 1321 and the digest response RFC 2617; a printed request is read
    back as its fields, a URI with a host of dotted labels as the URI, and a session description in the form the reader builds
    as its properties; a checked message has every field set; exactly which requests pass the sanity check, exactly which
    configurations are accepted and what the configuration then is.
  \<^item> One outcome: client and server transactions, the request sender, the applicants and the agent's dispatch
    report or answer each request once; a call is destroyed once and its end announced once.
  \<^item> Progress: the generated parser returns for every rule and every text; a transaction that waits has a timer pending that ends it; an agent that lost its
    connection has the recovery timer pending; a pending reply in a dialog is watched by one transaction.
  \<^item> Order: requests inside a dialog and registrations have increasing sequence numbers, the tones of a list go out in order,
    one offer is settled at a time, a BYE waits for the ACK.
  \<^item> Refinement: a run of a session is a run of \<open>call_spec\<close> (placed or received, up, over), except where an answer to
    an offer revives a call that is over, which the theorem names; the table of listeners is a map from types to lists; what
    the peer reads of an offer on hold is the abstract change of each section's direction.
  \<^item> Deviations: where the code does not do what its comments, its documentation or the RFC say, the theorem
    states what it does; \<open>PROJECT.json\<close> lists these under findings.

  \<^bold>\<open>Not modelled\<close>.  The texts of the syntax errors, which the generated parser composes and discards, and its rule
  \<open>comment\<close>, which refers to itself and which nothing uses; the logger and the debug output; the class wrappers the compiler added; the constructors of
  the error classes apart from their fields; getters of a single field; and the third-party modules of
  the bundle that only format or print (\<open>ms\<close>, \<open>debug\<close>), and
  the helpers of \<open>sdp-transform\<close> nothing in the bundle calls (\<open>parseParams\<close>, \<open>parsePayloads\<close>, \<open>parseRemoteCandidates\<close>,
  \<open>parseImageAttributes\<close>, \<open>parseSimulcastStreamList\<close>).  Of \<open>RTCSession\<close> the resumption
  through the event \<open>sdp\<close> of a description the application rewrites is left out: the description is a parameter.  The minified and
  vendored scripts (\<open>htmx\<close>, \<open>bootstrap\<close>, the built phone) and the server in Go are other programs.
\<close>

end
